(* ===== verification/Prelude.thy ===== *)
theory Prelude
  imports Main "HOL-Library.Word" "HOL-Library.Char_ord" "HOL-Library.List_Lexorder"
begin

unbundle bit_operations_syntax

text \<open>
  What the components share: the machine-integer types of the C++ code, the ways
  the code can leave its defined behaviour (\<open>fault\<close>) with the result type
  \<open>fault + 'a\<close> and its sequencing, checked element access, the conversion between
  \<^verbatim>\<open>std::string\<close> and \<^verbatim>\<open>std::vector<char>\<close>, and the generic lemmas on lists,
  sums and words that the component proofs use.
\<close>

section \<open>Machine types\<close>

type_synonym u8 = "8 word"
type_synonym u16 = "16 word"
type_synonym u32 = "32 word"
type_synonym u64 = "64 word"

section \<open>Faults: leaving the defined behaviour of the program\<close>

text \<open>
  \<open>NullDeref\<close> is a call through a null pointer, \<open>OutOfBounds\<close> an access outside a
  buffer or an \<^verbatim>\<open>erase\<close> past the end of a vector, \<open>CheckAbort\<close> a failed
  \<^verbatim>\<open>CHECK\<close> macro (which calls \<^verbatim>\<open>std::abort\<close>), \<open>CxxException\<close> a C++ exception that
  leaves the operation.
\<close>

datatype fault = NullDeref | OutOfBounds | CheckAbort | CxxException

type_synonym 'a res = "fault + 'a"

primrec bind_res :: "'a res \<Rightarrow> ('a \<Rightarrow> 'b res) \<Rightarrow> 'b res" where
  "bind_res (Inl e) f = Inl e"
| "bind_res (Inr x) f = f x"

definition check :: "bool \<Rightarrow> fault \<Rightarrow> 'a res \<Rightarrow> 'a res" where
  "check b e k = (if b then k else Inl e)"

definition read_at :: "'a list \<Rightarrow> nat \<Rightarrow> 'a res" where
  "read_at xs i = (if i < length xs then Inr (xs ! i) else Inl OutOfBounds)"

definition deref :: "'a option \<Rightarrow> 'a res" where
  "deref p = (case p of None \<Rightarrow> Inl NullDeref | Some x \<Rightarrow> Inr x)"

named_theorems res_simps \<open>unfolding of the result monad\<close>

lemma bind_res_Inr_iff [res_simps]:
  "bind_res m f = Inr y \<longleftrightarrow> (\<exists>x. m = Inr x \<and> f x = Inr y)"
  by (cases m) auto

lemma bind_res_Inl_iff [res_simps]:
  "bind_res m f = Inl e \<longleftrightarrow> m = Inl e \<or> (\<exists>x. m = Inr x \<and> f x = Inl e)"
  by (cases m) auto

lemma bind_res_assoc: "bind_res (bind_res m f) g = bind_res m (\<lambda>x. bind_res (f x) g)"
  by (cases m) auto

lemma check_Inr_iff [res_simps]: "check b e k = Inr y \<longleftrightarrow> b \<and> k = Inr y"
  by (simp add: check_def)

lemma check_True [simp]: "check True e k = k"
  by (simp add: check_def)

lemma check_False [simp]: "check False e k = Inl e"
  by (simp add: check_def)

lemma read_at_Inr_iff [res_simps]: "read_at xs i = Inr x \<longleftrightarrow> i < length xs \<and> xs ! i = x"
  by (auto simp: read_at_def)

lemma read_at_inside [simp]: "i < length xs \<Longrightarrow> read_at xs i = Inr (xs ! i)"
  by (simp add: read_at_def)

lemma read_at_outside [simp]: "length xs \<le> i \<Longrightarrow> read_at xs i = Inl OutOfBounds"
  by (simp add: read_at_def)

lemma deref_Some [simp]: "deref (Some x) = Inr x"
  by (simp add: deref_def)

lemma deref_None [simp]: "deref None = Inl NullDeref"
  by (simp add: deref_def)

lemma deref_Inr_iff [res_simps]: "deref p = Inr x \<longleftrightarrow> p = Some x"
  by (cases p) auto

section \<open>Strings and bytes\<close>

text \<open>
  \<^verbatim>\<open>std::string\<close> is a char list; \<^verbatim>\<open>std::vector<char>\<close> holding wire data is a list of
  bytes. The code moves data between the two without changing any byte.
\<close>

definition bytes_of_string :: "string \<Rightarrow> u8 list" where
  "bytes_of_string s = map (\<lambda>c. of_nat (of_char c)) s"

definition string_of_bytes :: "u8 list \<Rightarrow> string" where
  "string_of_bytes bs = map (\<lambda>b. char_of (unat b)) bs"

text \<open>The text of a \<^verbatim>\<open>const char*\<close>, and the conversion of a size to \<^verbatim>\<open>int\<close>.\<close>

definition c_string :: "string \<Rightarrow> string" where
  "c_string s = takeWhile (\<lambda>c. c \<noteq> CHR 0x00) s"

definition to_int :: "nat \<Rightarrow> int" where
  "to_int n = sint (word_of_nat n :: 32 word)"

lemma unat_u8_less [simp]: "unat (b :: u8) < 256"
  using unsigned_less [of b, where ?'a = nat] by simp

lemma unat_of_char_u8 [simp]: "unat (of_nat (of_char c) :: u8) = of_char c"
  by (simp add: unat_of_nat take_bit_eq_mod)

lemma length_bytes_of_string [simp]: "length (bytes_of_string s) = length s"
  by (simp add: bytes_of_string_def)

lemma length_string_of_bytes [simp]: "length (string_of_bytes s) = length s"
  by (simp add: string_of_bytes_def)

lemma string_of_bytes_of_string [simp]: "string_of_bytes (bytes_of_string s) = s"
  by (simp add: string_of_bytes_def bytes_of_string_def comp_def map_idI)

lemma bytes_of_string_of_bytes [simp]: "bytes_of_string (string_of_bytes bs) = bs"
  by (simp add: string_of_bytes_def bytes_of_string_def comp_def map_idI)

lemma bytes_of_string_append [simp]:
  "bytes_of_string (s @ t) = bytes_of_string s @ bytes_of_string t"
  by (simp add: bytes_of_string_def)

lemma bytes_of_string_eq_Nil [simp]: "bytes_of_string s = [] \<longleftrightarrow> s = []"
  by (simp add: bytes_of_string_def)

section \<open>Words\<close>

lemma or_eq_plus_word:
  fixes a b :: "'a::len word"
  assumes "a AND b = 0"
  shows "a OR b = a + b"
  using assms by (metis disjunctive_add bit_and_iff bit_0_eq bot_apply bot_bool_def)

lemma unat_or_disjoint:
  fixes a b :: "'a::len word"
  assumes "unat a = 2 ^ k * m" and "unat b < 2 ^ k" and "unat a + unat b < 2 ^ LENGTH('a)"
  shows "unat (a OR b) = unat a + unat b"
proof -
  have "bit a n \<Longrightarrow> \<not> bit b n" for n
  proof -
    assume "bit a n"
    then have "bit (unat a) n"
      using bit_imp_le_length [of a n] by (simp add: bit_unsigned_iff)
    with assms(1) have "k \<le> n"
      by (metis bit_push_bit_iff push_bit_eq_mult mult.commute)
    with assms(2) have "unat b < 2 ^ n"
      by (meson order_less_le_trans power_increasing one_le_numeral)
    then have "\<not> bit (unat b) n"
      by (simp add: bit_iff_odd div_less)
    then show "\<not> bit b n"
      using bit_imp_le_length [of b n] by (auto simp: bit_unsigned_iff)
  qed
  then have "a + b = a OR b"
    by (intro disjunctive_add) blast
  then show ?thesis
    using assms(3) by (metis unat_add_lem)
qed

lemma unat_and_mask:
  fixes w :: "'a::len word"
  shows "m = mask n \<Longrightarrow> unat (w AND m) = unat w mod 2 ^ n"
  by (simp only: take_bit_eq_mask [symmetric] unsigned_take_bit_eq)
    (simp only: take_bit_eq_mod)

lemma unat_drop_bit_div:
  fixes w :: "'a::len word"
  shows "unat (drop_bit n w) = unat w div 2 ^ n"
  using unat_drop_bit_eq [of n w] by (simp only: drop_bit_eq_div [of n "unat w"])

lemma unat_push_bit_small:
  fixes w :: "'a::len word"
  shows "2 ^ n * unat w < 2 ^ LENGTH('a) \<Longrightarrow> unat (push_bit n w) = 2 ^ n * unat w"
  using unsigned_push_bit_eq [of n w, where ?'a = nat]
  by (simp only: take_bit_eq_mod push_bit_eq_mult [of n "unat w"] mult.commute mod_less)

lemma unat_ucast_mod:
  fixes w :: "'a::len word"
  shows "unat (ucast w :: 'b::len word) = unat w mod 2 ^ LENGTH('b)"
  by (simp add: unsigned_ucast_eq take_bit_eq_mod)

lemma u8_eqI:
  fixes a b :: u8
  assumes "bit a 0 = bit b 0" "bit a 1 = bit b 1" "bit a 2 = bit b 2" "bit a 3 = bit b 3"
    "bit a 4 = bit b 4" "bit a 5 = bit b 5" "bit a 6 = bit b 6" "bit a 7 = bit b 7"
  shows "a = b"
proof (rule bit_word_eqI)
  fix n
  assume "n < LENGTH(8)"
  then have "n \<in> {0, 1, 2, 3, 4, 5, 6, 7}" by auto
  with assms show "bit a n = bit b n" by auto
qed

lemma unat_of_nat_small: "n < 2 ^ LENGTH('a) \<Longrightarrow> unat (of_nat n :: 'a::len word) = n"
  by (simp add: unat_of_nat take_bit_nat_eq_self)

lemma u8_no_high_bit: "8 \<le> n \<Longrightarrow> \<not> bit (a :: u8) n"
  using bit_imp_le_length [of a n] by auto

section \<open>Lists\<close>

lemma take_length_append_eq [simp]: "n = length xs \<Longrightarrow> take n (xs @ ys) = xs"
  by simp

lemma drop_length_append_eq [simp]: "n = length xs \<Longrightarrow> drop n (xs @ ys) = ys"
  by simp

text \<open>Induction over a list in steps of \<open>k\<close> elements.\<close>

lemma list_chunk_induct [case_names short step]:
  assumes "0 < k"
    and short: "\<And>xs. length xs < k \<Longrightarrow> P xs"
    and step: "\<And>xs. k \<le> length xs \<Longrightarrow> P (drop k xs) \<Longrightarrow> P xs"
  shows "P xs"
proof (induction xs rule: length_induct)
  case (1 xs)
  show ?case
  proof (cases "length xs < k")
    case False
    with \<open>0 < k\<close> have "length (drop k xs) < length xs" by simp
    with 1 have "P (drop k xs)" by blast
    moreover from False have "k \<le> length xs" by simp
    ultimately show ?thesis by (rule step [rotated])
  qed (rule short)
qed

end
