(* ===== verification/Murmur_Hash.thy ===== *)
theory Murmur_Hash
  imports Prelude
begin

unbundle bit_operations_syntax

text \<open>
  \<^verbatim>\<open>src/src/MurmurHash.cpp\<close>: the 128-bit MurmurHash3 that the runtime uses to key its
  script cache, extended by a check whether the whole input is ASCII (which decides how the source
  string is handed to V8). The code reads the input as little-endian 64-bit words. Shown: the ASCII
  flag is exact, and the finaliser is a bijection on 64-bit words.
\<close>

section \<open>Model\<close>

definition rotl64 :: "u64 \<Rightarrow> nat \<Rightarrow> u64" where
  "rotl64 x r = push_bit r x OR drop_bit (64 - r) x"

definition fmix64 :: "u64 \<Rightarrow> u64" where
  "fmix64 k0 =
     (let k1 = k0 XOR drop_bit 33 k0;
          k2 = k1 * 0xff51afd7ed558ccd;
          k3 = k2 XOR drop_bit 33 k2;
          k4 = k3 * 0xc4ceb9fe1a85ec53
      in k4 XOR drop_bit 33 k4)"

definition isAscii :: "u64 \<Rightarrow> bool" where
  "isAscii k = (k AND 0x8080808080808080 = 0)"

definition le64 :: "u8 list \<Rightarrow> u64" where
  "le64 bs = foldr (\<lambda>b acc. ucast b OR push_bit 8 acc) bs 0"

definition murmur_c1 :: u64 where "murmur_c1 = 0x87c37b91114253d5"
definition murmur_c2 :: u64 where "murmur_c2 = 0x4cf5ad432745937f"

text \<open>One iteration of the body on the 16 bytes of a block.\<close>

definition murmur_block :: "u8 list \<Rightarrow> u64 \<times> u64 \<times> bool \<Rightarrow> u64 \<times> u64 \<times> bool" where
  "murmur_block bs st =
     (case st of (h1, h2, asc) \<Rightarrow>
        let k1 = le64 (take 8 bs); k2 = le64 (take 8 (drop 8 bs));
            asc' = (asc \<and> (isAscii k1 \<and> isAscii k2));
            k1 = rotl64 (k1 * murmur_c1) 31 * murmur_c2;
            h1 = rotl64 (h1 XOR k1) 27 + h2;
            h1 = h1 * 5 + 0x52dce729;
            k2 = rotl64 (k2 * murmur_c2) 33 * murmur_c1;
            h2 = rotl64 (h2 XOR k2) 31 + h1;
            h2 = h2 * 5 + 0x38495ab5
        in (h1, h2, asc'))"

fun murmur_body :: "nat \<Rightarrow> u8 list \<Rightarrow> u64 \<times> u64 \<times> bool \<Rightarrow> u64 \<times> u64 \<times> bool" where
  "murmur_body 0 data st = st"
| "murmur_body (Suc n) data st = murmur_body n (drop 16 data) (murmur_block (take 16 data) st)"

fun tail_ascii :: "u8 list \<Rightarrow> bool \<Rightarrow> bool" where
  "tail_ascii [] asc = asc"
| "tail_ascii (b # bs) asc = (if b > 127 then False else tail_ascii bs asc)"

text \<open>
  The fall-through \<^verbatim>\<open>switch (len & 15)\<close>: the cases from \<open>n\<close> down to 9 collect the
  bytes 8 and above in \<open>k2\<close> and mix it at case 9; the cases from 8 down to 1 do so for \<open>k1\<close>.
\<close>

definition collect :: "u8 list \<Rightarrow> nat \<Rightarrow> nat \<Rightarrow> u64" where
  "collect tail lo hi =
     foldl (\<lambda>k i. k XOR push_bit (8 * (i - lo)) (ucast (tail ! i))) 0 (rev [lo..<hi])"

definition murmur_tail :: "u8 list \<Rightarrow> u64 \<Rightarrow> u64 \<Rightarrow> u64 \<times> u64" where
  "murmur_tail tail h1 h2 =
     (let n = length tail;
          h2' = (if n \<ge> 9 then h2 XOR (rotl64 (collect tail 8 n * murmur_c2) 33 * murmur_c1) else h2);
          h1' = (if n \<ge> 1 then h1 XOR (rotl64 (collect tail 0 (min n 8) * murmur_c1) 31 * murmur_c2)
                 else h1)
      in (h1', h2'))"

definition MurmurHash3_x64_128 :: "u8 list \<Rightarrow> u32 \<Rightarrow> (u64 \<times> u64) \<times> bool" where
  "MurmurHash3_x64_128 data seed =
     (let len = length data;
          nblocks = len div 16;
          (h1, h2, asc) = murmur_body nblocks data (ucast seed, ucast seed, True);
          tail = drop (nblocks * 16) data;
          asc' = tail_ascii tail asc;
          (h1, h2) = murmur_tail tail h1 h2;
          h1 = h1 XOR of_nat len;
          h2 = h2 XOR of_nat len;
          h1 = h1 + h2;
          h2 = h2 + h1;
          h1 = fmix64 h1;
          h2 = fmix64 h2;
          h1 = h1 + h2;
          h2 = h2 + h1
      in ((h1, h2), asc'))"

definition murmurhash :: "u8 list \<Rightarrow> u64 \<times> bool" where
  "murmurhash key = (case MurmurHash3_x64_128 key 31 of ((h1, h2), asc) \<Rightarrow> (h1, asc))"

section \<open>The ASCII flag\<close>

lemma bit_le64: "bit (le64 bs) n \<longleftrightarrow> n < 64 \<and> n div 8 < length bs \<and> bit (bs ! (n div 8)) (n mod 8)"
proof (induction bs arbitrary: n)
  case (Cons b bs)
  have eq: "le64 (b # bs) = ucast b OR push_bit 8 (le64 bs)" by (simp add: le64_def)
  show ?case
  proof (cases "n < 8")
    case True
    then show ?thesis by (simp add: eq bit_simps)
  next
    case False
    then have "n div 8 = Suc ((n - 8) div 8)" "(n - 8) mod 8 = n mod 8"
      using le_div_geq [of 8 n] le_mod_geq [of 8 n] by simp_all
    with False Cons [of "n - 8"] show ?thesis
      by (auto simp: eq bit_simps u8_no_high_bit)
  qed
qed (simp add: le64_def)

lemma high_bits_mask: "\<forall>n < 64. bit (0x8080808080808080 :: u64) n \<longleftrightarrow> n mod 8 = 7"
  by code_simp

lemma u8_high_bit: "bit (b :: u8) 7 \<longleftrightarrow> 128 \<le> unat b"
proof -
  have "bit b 7 \<longleftrightarrow> odd (unat b div 128)"
    using bit_unsigned_iff [of b 7, where ?'a = nat] by (simp add: bit_iff_odd [of "unat b"])
  also have "\<dots> \<longleftrightarrow> 128 \<le> unat b"
  proof (cases "unat b < 128")
    case False
    then have "unat b div 128 = 1" using unat_u8_less [of b] by (simp add: div_nat_eqI)
    with False show ?thesis by simp
  qed simp
  finally show ?thesis .
qed

lemma isAscii_le64:
  assumes "length bs = 8"
  shows "isAscii (le64 bs) \<longleftrightarrow> (\<forall>b \<in> set bs. unat b < 128)"
proof -
  have "isAscii (le64 bs) \<longleftrightarrow> (\<forall>n < 64. \<not> (bit (le64 bs) n \<and> n mod 8 = 7))"
    using high_bits_mask
    by (auto simp: isAscii_def bit_eq_iff bit_and_iff bit_le64)
  also have "\<dots> \<longleftrightarrow> (\<forall>i < 8. \<not> bit (bs ! i) 7)"
  proof (intro iffI allI impI)
    fix i
    assume all: "\<forall>n < 64. \<not> (bit (le64 bs) n \<and> n mod 8 = 7)" and i: "i < (8 :: nat)"
    have "(8 * i + 7) div 8 = i" "(8 * i + 7) mod 8 = 7" "8 * i + 7 < 64" using i by auto
    with all [rule_format, of "8 * i + 7"] i assms show "\<not> bit (bs ! i) 7"
      by (simp add: bit_le64)
  next
    fix n
    assume all: "\<forall>i < 8. \<not> bit (bs ! i) 7" and n: "n < (64 :: nat)"
    then have "n div 8 < 8" by auto
    with all show "\<not> (bit (le64 bs) n \<and> n mod 8 = 7)"
      by (auto simp: bit_le64)
  qed
  also have "\<dots> \<longleftrightarrow> (\<forall>b \<in> set bs. unat b < 128)"
    using assms by (auto simp: u8_high_bit all_set_conv_all_nth not_le)
  finally show ?thesis .
qed

lemma murmur_block_ascii:
  assumes "length bs = 16"
  shows "snd (snd (murmur_block bs st)) \<longleftrightarrow> snd (snd st) \<and> (\<forall>b \<in> set bs. unat b < 128)"
proof -
  have "set bs = set (take 8 bs) \<union> set (drop 8 bs)"
    by (metis append_take_drop_id set_append)
  then have "isAscii (le64 (take 8 bs)) \<and> isAscii (le64 (take 8 (drop 8 bs))) \<longleftrightarrow>
      (\<forall>b \<in> set bs. unat b < 128)"
    using assms by (simp add: isAscii_le64 ball_Un)
  then show ?thesis
    by (cases st) (simp add: murmur_block_def Let_def)
qed

lemma murmur_body_ascii:
  "16 * n \<le> length data \<Longrightarrow>
    snd (snd (murmur_body n data st)) \<longleftrightarrow> snd (snd st) \<and> (\<forall>b \<in> set (take (16 * n) data). unat b < 128)"
proof (induction n arbitrary: data st)
  case (Suc n)
  have "take (16 * Suc n) data = take 16 data @ take (16 * n) (drop 16 data)"
    by (simp add: take_add [symmetric])
  with Suc.IH [of "drop 16 data" "murmur_block (take 16 data) st"] Suc.prems
    murmur_block_ascii [of "take 16 data" st]
  show ?case by auto
qed simp

lemma tail_ascii_iff: "tail_ascii bs asc \<longleftrightarrow> asc \<and> (\<forall>b \<in> set bs. unat b < 128) \<or> (bs \<noteq> [] \<and> asc \<and> (\<forall>b \<in> set bs. unat b < 128))"
  by (induction bs asc rule: tail_ascii.induct) (auto simp: word_less_nat_alt)

lemma MurmurHash3_ascii: "snd (MurmurHash3_x64_128 data seed) \<longleftrightarrow> (\<forall>b \<in> set data. unat b < 128)"
proof -
  let ?n = "length data div 16"
  obtain h1 h2 asc where st: "murmur_body ?n data (ucast seed, ucast seed, True) = (h1, h2, asc)"
    by (cases "murmur_body ?n data (ucast seed, ucast seed, True)") auto
  then have asc: "asc \<longleftrightarrow> (\<forall>b \<in> set (take (16 * ?n) data). unat b < 128)"
    using murmur_body_ascii [of ?n data "(ucast seed, ucast seed, True)"] by simp
  have "snd (MurmurHash3_x64_128 data seed) = tail_ascii (drop (?n * 16) data) asc"
    by (simp add: MurmurHash3_x64_128_def st Let_def split: prod.split)
  also have "\<dots> \<longleftrightarrow> (\<forall>b \<in> set (take (16 * ?n) data @ drop (16 * ?n) data). unat b < 128)"
    by (auto simp: tail_ascii_iff asc mult.commute ball_Un simp del: append_take_drop_id)
  finally show ?thesis by simp
qed

section \<open>The finaliser\<close>

definition xorshift33 :: "u64 \<Rightarrow> u64" where
  "xorshift33 k = k XOR drop_bit 33 k"

definition unfmix64 :: "u64 \<Rightarrow> u64" where
  "unfmix64 k =
     xorshift33 (xorshift33 (xorshift33 k * 0x9cb4b2f8129337db) * 0x4f74430c22a54005)"

lemma xorshift33_involution [simp]: "xorshift33 (xorshift33 k) = k"
proof (rule bit_word_eqI)
  fix n
  assume "n < LENGTH(64)"
  have "\<not> bit k (33 + (33 + n))" using bit_imp_le_length [of k "33 + (33 + n)"] by auto
  then show "bit (xorshift33 (xorshift33 k)) n = bit k n"
    by (auto simp: xorshift33_def bit_xor_iff bit_drop_bit_eq)
qed

lemma fmix64_xorshift:
  "fmix64 k = xorshift33 (xorshift33 (xorshift33 k * 0xff51afd7ed558ccd) * 0xc4ceb9fe1a85ec53)"
  by (simp add: fmix64_def xorshift33_def Let_def)

lemma multiplier_inverses:
  "(160135065216818344888135925474711830529 :: u64) = 1" "(105331768645449070988198763188841349121 :: u64) = 1"
  by (rule word_unat_eq_iff [THEN iffD2], simp)+

lemma unfmix64_fmix64: "unfmix64 (fmix64 k) = k"
  by (simp add: unfmix64_def fmix64_xorshift mult.assoc multiplier_inverses)

lemma fmix64_unfmix64: "fmix64 (unfmix64 k) = k"
  by (simp add: unfmix64_def fmix64_xorshift mult.assoc multiplier_inverses)

section \<open>Properties\<close>

text \<open>
  The flag that \<open>murmurhash\<close> returns is exact: it is true if and only if every byte of the
  input is ASCII, whatever the split of the input into 16-byte blocks and a tail.
\<close>

theorem murmurhash_ascii_flag: "snd (murmurhash key) \<longleftrightarrow> (\<forall>b \<in> set key. unat b < 128)"
proof (cases "MurmurHash3_x64_128 key 31")
  case (Pair hs asc)
  then show ?thesis
    using MurmurHash3_ascii [of key 31] by (simp add: murmurhash_def split: prod.split)
qed

theorem murmurhash_ascii_flag_witness: "snd (murmurhash [0x61, 0x62]) \<and> \<not> snd (murmurhash [0x61, 0xC3])"
  using murmurhash_ascii_flag [of "[0x61, 0x62]"] murmurhash_ascii_flag [of "[0x61, 0xC3]"] by simp

text \<open>
  The 64-bit finaliser of the hash is a bijection, so finalisation loses nothing of the
  state that the body computed; its inverse is given explicitly.
\<close>

theorem fmix64_bijective: "bij fmix64 \<and> (\<forall>k. unfmix64 (fmix64 k) = k)"
  by (metis bijI' fmix64_unfmix64 unfmix64_fmix64)

end
