(* ===== verification/Inspector_Utils.thy ===== *)
theory Inspector_Utils
  imports Prelude
begin

unbundle bit_operations_syntax

text \<open>
  \<^verbatim>\<open>src/src/inspector/inspector_utils.cpp\<close>: the UTF-16 to UTF-8 conversion used on every
  message that leaves the agent, the case-insensitive comparisons used on header names, host
  names and path segments, and the base64 encoder used in the WebSocket handshake. The results
  are that the length pass and the write pass of the conversion agree (no write outside the
  buffer) and produce the UTF-8 encoding of the code points, that the comparisons decide equality
  up to ASCII case, and that base64 fills exactly \<open>base64_encoded_size\<close> characters from
  which the input can be recovered.
\<close>

section \<open>UTF-16 to UTF-8\<close>

definition is_high :: "u16 \<Rightarrow> bool" where
  "is_high ch = (0xD800 \<le> ch \<and> ch < 0xDC00)"

definition low_follows :: "u16 list \<Rightarrow> bool" where
  "low_follows rest = (case rest of [] \<Rightarrow> False | c # _ \<Rightarrow> 0xDC00 \<le> c \<and> c < 0xE000)"

function utf16_length_loop :: "u16 list \<Rightarrow> u32 \<Rightarrow> u32" where
  "utf16_length_loop [] n = n"
| "utf16_length_loop (ch # rest) n =
     (if ch < 0x80 then utf16_length_loop rest (n + 1)
      else if ch < 0x800 then utf16_length_loop rest (n + 2)
      else if is_high ch \<and> low_follows rest then utf16_length_loop (tl rest) (n + 4)
      else utf16_length_loop rest (n + 3))"
  by pat_completeness auto
termination
  by (relation "measure (\<lambda>(s, n). length s)") auto

text \<open>The count is kept in a \<^verbatim>\<open>uint32_t\<close> and converted to \<^verbatim>\<open>size_t\<close> on return.\<close>

definition utf16toUTF8Length :: "u16 list \<Rightarrow> nat" where
  "utf16toUTF8Length s = (if s = [] then 0 else unat (utf16_length_loop s 0))"

text \<open>
  The write pass: \<open>cap\<close> is the room left in the buffer that the length pass sized and
  \<open>out\<close> what was written. Integer promotion makes every right-hand side an \<^verbatim>\<open>int\<close> that
  is then narrowed to \<^verbatim>\<open>char\<close>; \<open>ucast\<close> is that narrowing.
\<close>

definition emit :: "u8 list \<Rightarrow> nat \<times> u8 list \<Rightarrow> (nat \<times> u8 list) res" where
  "emit bs st = check (length bs \<le> fst st) OutOfBounds (Inr (fst st - length bs, snd st @ bs))"

definition bytes1 :: "u16 \<Rightarrow> u8 list" where
  "bytes1 ch = [ucast (ch AND 0x7F)]"

definition bytes2 :: "u16 \<Rightarrow> u8 list" where
  "bytes2 ch = [ucast (0xC0 OR drop_bit 6 ch), ucast (0x80 OR (ch AND 0x3F))]"

definition bytes3 :: "u16 \<Rightarrow> u8 list" where
  "bytes3 ch = [ucast (0xE0 OR drop_bit 12 ch),
                ucast (0x80 OR (drop_bit 6 ch AND 0x3F)),
                ucast (0x80 OR (ch AND 0x3F))]"

definition bytes4 :: "u16 \<Rightarrow> u16 \<Rightarrow> u8 list" where
  "bytes4 ch ch2 =
     (let trunc_byte = (ucast ((drop_bit 6 ch AND 0x0F) + 1) :: u8)
      in [0xF0 OR drop_bit 2 trunc_byte,
          0x80 OR push_bit 4 (trunc_byte AND 0x03) OR ucast (drop_bit 2 ch AND 0x0F),
          0x80 OR push_bit 4 (ucast (ch AND 0x03)) OR ucast (drop_bit 6 ch2 AND 0x0F),
          0x80 OR ucast (ch2 AND 0x3F)])"

function utf16_write_loop :: "u16 list \<Rightarrow> nat \<times> u8 list \<Rightarrow> (nat \<times> u8 list) res" where
  "utf16_write_loop [] st = Inr st"
| "utf16_write_loop (ch # rest) st =
     (if ch < 0x80 then bind_res (emit (bytes1 ch) st) (utf16_write_loop rest)
      else if ch < 0x800 then bind_res (emit (bytes2 ch) st) (utf16_write_loop rest)
      else if is_high ch \<and> low_follows rest
        then bind_res (emit (bytes4 ch (hd rest)) st) (utf16_write_loop (tl rest))
      else bind_res (emit (bytes3 ch) st) (utf16_write_loop rest))"
  by pat_completeness auto
termination
  by (relation "measure (\<lambda>(s, st). length s)") auto

definition utf16toUTF8 :: "u16 list \<Rightarrow> u8 list res" where
  "utf16toUTF8 s =
     (if s = [] then Inr []
      else bind_res (utf16_write_loop s (utf16toUTF8Length s, []))
             (\<lambda>(cap, out). Inr (out @ replicate cap 0)))"

text \<open>Reference: code points of a UTF-16 sequence and their UTF-8 encoding by arithmetic.\<close>

fun cp_of_utf16 :: "u16 list \<Rightarrow> nat list" where
  "cp_of_utf16 [] = []"
| "cp_of_utf16 [c] = [unat c]"
| "cp_of_utf16 (c # d # s) =
     (if 0xD800 \<le> unat c \<and> unat c < 0xDC00 \<and> 0xDC00 \<le> unat d \<and> unat d < 0xE000
      then (0x10000 + (unat c - 0xD800) * 0x400 + (unat d - 0xDC00)) # cp_of_utf16 s
      else unat c # cp_of_utf16 (d # s))"

definition utf8_of_cp :: "nat \<Rightarrow> nat list" where
  "utf8_of_cp p =
     (if p < 0x80 then [p]
      else if p < 0x800 then [0xC0 + p div 64, 0x80 + p mod 64]
      else if p < 0x10000 then [0xE0 + p div 4096, 0x80 + p div 64 mod 64, 0x80 + p mod 64]
      else [0xF0 + p div 262144, 0x80 + p div 4096 mod 64, 0x80 + p div 64 mod 64, 0x80 + p mod 64])"

definition utf8_of_cps :: "nat list \<Rightarrow> nat list" where
  "utf8_of_cps ps = concat (map utf8_of_cp ps)"

section \<open>ASCII case folding\<close>

definition ToLower_char :: "char \<Rightarrow> char" where
  "ToLower_char c = (if CHR ''A'' \<le> c \<and> c \<le> CHR ''Z'' then char_of (of_char c + 32 :: nat) else c)"

definition ToLower :: "string \<Rightarrow> string" where
  "ToLower s = map ToLower_char s"

text \<open>
  The comparisons take C strings: a pointer past the last character of a \<^verbatim>\<open>std::string\<close>
  reads the terminating NUL.
\<close>

definition c_head :: "string \<Rightarrow> char" where
  "c_head s = (case s of [] \<Rightarrow> CHR 0x00 | c # _ \<Rightarrow> c)"

function StringEqualNoCase :: "string \<Rightarrow> string \<Rightarrow> bool" where
  "StringEqualNoCase a b =
     (if c_head a = CHR 0x00 then c_head b = CHR 0x00
      else if c_head b = CHR 0x00 then c_head a = CHR 0x00
      else if ToLower_char (c_head a) = ToLower_char (c_head b)
        then StringEqualNoCase (tl a) (tl b)
      else False)"
  by pat_completeness auto
termination
  by (relation "measure (\<lambda>(a, b). length a)") (auto simp: c_head_def split: list.splits)

fun StringEqualNoCaseN :: "string \<Rightarrow> string \<Rightarrow> nat \<Rightarrow> bool" where
  "StringEqualNoCaseN a b 0 = True"
| "StringEqualNoCaseN a b (Suc n) =
     (if ToLower_char (c_head a) \<noteq> ToLower_char (c_head b) then False
      else if c_head a = CHR 0x00 then True
      else StringEqualNoCaseN (tl a) (tl b) n)"

section \<open>base64\<close>

definition base64_encoded_size :: "nat \<Rightarrow> nat" where
  "base64_encoded_size slen = (slen + 2 - (slen + 2) mod 3) div 3 * 4"

definition b64_table :: string where
  "b64_table = ''ABCDEFGHIJKLMNOPQRSTUVWXYZabcdefghijklmnopqrstuvwxyz0123456789+/''"

definition b64_char :: "u8 \<Rightarrow> char" where
  "b64_char i = b64_table ! unat i"

definition b64_quad :: "u8 \<Rightarrow> u8 \<Rightarrow> u8 \<Rightarrow> string" where
  "b64_quad a b c =
     [b64_char (drop_bit 2 a),
      b64_char (push_bit 4 (a AND 3) OR drop_bit 4 b),
      b64_char (push_bit 2 (b AND 0x0F) OR drop_bit 6 c),
      b64_char (c AND 0x3F)]"

text \<open>
  \<open>static_cast<int>(slen) / 3 * 3\<close>, converted back to \<^verbatim>\<open>unsigned\<close>: for lengths from
  \<open>2 ^ 31\<close> on, the cast gives a negative \<^verbatim>\<open>int\<close> and the product a huge unsigned bound.
\<close>

definition b64_bound :: "nat \<Rightarrow> nat" where
  "b64_bound slen =
     (let i = sint (of_nat slen :: u32)
      in unat (of_int (sgn i * (\<bar>i\<bar> div 3) * 3) :: u32))"

function b64_loop :: "u8 list \<Rightarrow> nat \<Rightarrow> nat \<Rightarrow> string \<Rightarrow> (nat \<times> string) res" where
  "b64_loop src n i dst =
     (if i < n then
        bind_res (read_at src i) (\<lambda>a.
        bind_res (read_at src (i + 1)) (\<lambda>b.
        bind_res (read_at src (i + 2)) (\<lambda>c.
          b64_loop src n (i + 3) (dst @ b64_quad a b c))))
      else Inr (i, dst))"
  by pat_completeness auto
termination
  by (relation "measure (\<lambda>(src, n, i, dst). n - i)") auto

declare b64_loop.simps [simp del]

text \<open>The characters written to \<open>dst\<close>, in order; \<open>slen - n\<close> of other values than 1 and 2 write nothing.\<close>

definition base64_encode_chars :: "u8 list \<Rightarrow> string res" where
  "base64_encode_chars src =
     (let n = b64_bound (length src)
      in bind_res (b64_loop src n 0 []) (\<lambda>(i, dst).
           if n \<noteq> length src then
             (if length src - n = 1 then
                bind_res (read_at src i) (\<lambda>a.
                  Inr (dst @ [b64_char (drop_bit 2 a), b64_char (push_bit 4 (a AND 3)),
                              CHR ''='', CHR ''='']))
              else if length src - n = 2 then
                bind_res (read_at src i) (\<lambda>a.
                bind_res (read_at src (i + 1)) (\<lambda>b.
                  Inr (dst @ [b64_char (drop_bit 2 a),
                              b64_char (push_bit 4 (a AND 3) OR drop_bit 4 b),
                              b64_char (push_bit 2 (b AND 0x0F)), CHR ''=''])))
              else Inr dst)
           else Inr dst))"

text \<open>The encoder overwrites the front of the caller's buffer \<open>dst\<close> and returns the length written.\<close>

definition base64_encode :: "u8 list \<Rightarrow> string \<Rightarrow> (nat \<times> string) res" where
  "base64_encode src dst =
     bind_res (base64_encode_chars src) (\<lambda>out.
       check (length out \<le> length dst) OutOfBounds
         (Inr (base64_encoded_size (length src), out @ drop (length out) dst)))"


section \<open>Proofs: UTF-8\<close>

declare StringEqualNoCase.simps [simp del]

lemma map_unat_bytes1: "ch < 0x80 \<Longrightarrow> map unat (bytes1 ch) = utf8_of_cp (unat ch)"
proof -
  assume "ch < 0x80"
  then have "unat ch < 0x80" by (simp add: word_less_nat_alt)
  then show ?thesis
    by (simp add: bytes1_def utf8_of_cp_def unat_ucast_mod unat_and_mask [of _ 7] mask_eq_exp_minus_1)
qed

lemma unat_cont: "unat (ucast (0x80 OR (w AND 0x3F) :: u16) :: u8) = 0x80 + unat w mod 64"
proof -
  have m: "unat (w AND 0x3F) = unat w mod 64"
    by (simp add: unat_and_mask [of _ 6] mask_eq_exp_minus_1)
  have "unat (0x80 OR (w AND 0x3F)) = unat (0x80 :: u16) + unat (w AND 0x3F)"
    by (rule unat_or_disjoint [where k = 6 and m = 2]) (simp_all add: m)
  with m show ?thesis by (simp add: unat_ucast_mod)
qed

lemma map_unat_bytes2:
  assumes "0x80 \<le> ch" "ch < 0x800"
  shows "map unat (bytes2 ch) = utf8_of_cp (unat ch)"
proof -
  from assms have r: "0x80 \<le> unat ch" "unat ch < 0x800"
    by (simp_all add: word_less_nat_alt word_le_nat_alt)
  have d: "unat (drop_bit 6 ch) = unat ch div 64"
    by (simp add: unat_drop_bit_div)
  have "unat (0xC0 OR drop_bit 6 ch) = unat (0xC0 :: u16) + unat (drop_bit 6 ch)"
    by (rule unat_or_disjoint [where k = 6 and m = 3]) (use r d in simp_all)
  with r d show ?thesis
    by (simp add: bytes2_def utf8_of_cp_def unat_cont unat_ucast_mod [of "0xC0 OR _"] unat_ucast_mod [of "0xE0 OR _"])
qed

lemma map_unat_bytes3:
  assumes "0x800 \<le> ch"
  shows "map unat (bytes3 ch) = utf8_of_cp (unat ch)"
proof -
  have r: "0x800 \<le> unat ch" "unat ch < 0x10000"
    using assms unsigned_less [of ch, where ?'a = nat] by (simp_all add: word_le_nat_alt)
  have d: "unat (drop_bit 12 ch) = unat ch div 4096" "unat (drop_bit 6 ch) = unat ch div 64"
    by (simp_all add: unat_drop_bit_div)
  have "unat (0xE0 OR drop_bit 12 ch) = unat (0xE0 :: u16) + unat (drop_bit 12 ch)"
    by (rule unat_or_disjoint [where k = 4 and m = 14]) (use r d in simp_all)
  with r d show ?thesis
    by (simp add: bytes3_def utf8_of_cp_def unat_cont unat_ucast_mod [of "0xC0 OR _"] unat_ucast_mod [of "0xE0 OR _"])
qed

lemma unat_cont_u8: "x < 64 \<Longrightarrow> unat w = x \<Longrightarrow> unat (0x80 OR w :: u8) = 0x80 + x"
  using unat_or_disjoint [of "0x80 :: u8" 6 2 w] by simp

lemma surrogate_arith:
  assumes "h < 1024" "l < 1024"
  shows "(0x10000 + h * 0x400 + l) div 262144 = ((h div 64) + 1) div 4" (is ?A)
    and "(0x10000 + h * 0x400 + l) div 4096 mod 64 = 16 * (((h div 64) + 1) mod 4) + h div 4 mod 16" (is ?B)
    and "(0x10000 + h * 0x400 + l) div 64 mod 64 = 16 * (h mod 4) + l div 64" (is ?C)
    and "(0x10000 + h * 0x400 + l) mod 64 = l mod (64 :: nat)" (is ?D)
proof -
  obtain a b c where abc: "a = h div 64" "b = h div 4 mod 16" "c = h mod 4" by blast
  obtain d e where de: "d = l div 64" "e = l mod 64" by blast
  have "h div 4 = 16 * a + b"
    using div_mult_mod_eq [of "h div 4" 16] by (simp add: abc div_mult2_eq [symmetric])
  then have h: "h = 64 * a + 4 * b + c"
    using div_mult_mod_eq [of h 4] by (simp add: abc(3))
  have l: "l = 64 * d + e"
    by (simp add: de)
  have bounds: "b < 16" "c < 4" "d < 16" "e < 64"
    using assms unfolding abc de by auto
  have n: "0x10000 + h * 0x400 + l = 64 * (64 * (16 * (a + 1) + b) + (16 * c + d)) + e"
    by (simp add: h l)
  have n64: "(0x10000 + h * 0x400 + l) div 64 = 64 * (16 * (a + 1) + b) + (16 * c + d)"
    unfolding n using bounds by simp
  have n4096: "(0x10000 + h * 0x400 + l) div 4096 = 16 * (a + 1) + b"
  proof -
    have "(0x10000 + h * 0x400 + l) div 4096 = (0x10000 + h * 0x400 + l) div 64 div 64"
      by (simp add: div_mult2_eq [symmetric])
    also have "\<dots> = 16 * (a + 1) + b" unfolding n64 using bounds by simp
    finally show ?thesis .
  qed
  have "(0x10000 + h * 0x400 + l) div 262144 = (0x10000 + h * 0x400 + l) div 4096 div 64"
    by (simp add: div_mult2_eq [symmetric])
  also have "\<dots> = (16 * (a + 1) + b) div 16 div 4"
    unfolding n4096 by (simp add: div_mult2_eq [symmetric])
  also have "(16 * (a + 1) + b) div 16 = a + 1" using bounds by simp
  finally show ?A unfolding abc(1) [symmetric] .
  have "(16 * (a + 1) + b) mod (16 * 4) = 16 * ((16 * (a + 1) + b) div 16 mod 4) + (16 * (a + 1) + b) mod 16"
    by (rule mod_mult2_eq)
  also have "(16 * (a + 1) + b) div 16 = a + 1" using bounds by simp
  also have "(16 * (a + 1) + b) mod 16 = b"
    using bounds mod_mult_self1 [of b "a + 1" 16] by (simp add: ac_simps)
  finally show ?B
    unfolding n4096 abc(1) [symmetric] abc(2) [symmetric] by simp
  have "(64 * (16 * (a + 1) + b) + (16 * c + d)) mod 64 = 16 * c + d"
    using bounds by (simp only: mod_mult_self4) simp
  then show ?C
    unfolding n64 abc(3) [symmetric] de(1) [symmetric] .
  show ?D unfolding n de(2) [symmetric] using bounds by (simp only: mod_mult_self4) simp
qed

lemma map_unat_bytes4:
  assumes c: "is_high ch" and d: "0xDC00 \<le> ch2" "ch2 < 0xE000"
  shows "map unat (bytes4 ch ch2) =
    utf8_of_cp (0x10000 + (unat ch - 0xD800) * 0x400 + (unat ch2 - 0xDC00))"
proof -
  define h where "h = unat ch - 0xD800"
  define l where "l = unat ch2 - 0xDC00"
  have hl: "h < 1024" "l < 1024" and uc: "unat ch = 0xD800 + h" "unat ch2 = 0xDC00 + l"
    using c d by (auto simp: h_def l_def is_high_def word_less_nat_alt word_le_nat_alt)
  let ?t = "ucast ((drop_bit 6 ch AND 0x0F) + 1) :: u8"
  have a15: "unat (drop_bit 6 ch AND 0x0F) = h div 64"
  proof -
    have "(0xD800 + h) div 64 = h div 64 + 54 * 16"
      using div_mult_self1 [of 64 h 864] by (simp add: add.commute)
    then have "(0xD800 + h) div 64 mod 16 = h div 64"
      using hl by (simp only: mod_mult_self1) simp
    then show ?thesis
      by (simp add: unat_and_mask [of _ 4] mask_eq_exp_minus_1 unat_drop_bit_div uc)
  qed
  have t: "unat ?t = h div 64 + 1"
    using hl a15 by (simp add: unat_ucast_mod unat_word_ariths)
  have b0: "unat (0xF0 OR drop_bit 2 ?t) = 0xF0 + (h div 64 + 1) div 4"
    using unat_or_disjoint [of "0xF0 :: u8" 4 15 "drop_bit 2 ?t"] hl t
    by (simp add: unat_drop_bit_div)
  have p1: "unat (push_bit 4 (?t AND 0x03)) = 16 * ((h div 64 + 1) mod 4)"
  proof -
    have "unat (?t AND 0x03) = (h div 64 + 1) mod 4"
      by (simp add: unat_and_mask [of _ 2] mask_eq_exp_minus_1 t)
    then show ?thesis by (subst unat_push_bit_small) (simp_all only:, simp_all)
  qed
  have q1: "unat (ucast (drop_bit 2 ch AND 0x0F) :: u8) = h div 4 mod 16"
  proof -
    have "(0xD800 + h) div 4 = h div 4 + 864 * 16"
      using div_mult_self1 [of 4 h 13824] by (simp add: add.commute)
    then have "(0xD800 + h) div 4 mod 16 = h div 4 mod 16"
      by (simp only: mod_mult_self1)
    then show ?thesis
      by (simp add: unat_ucast_mod unat_and_mask [of _ 4] mask_eq_exp_minus_1 unat_drop_bit_div uc)
  qed
  have b1: "unat (0x80 OR push_bit 4 (?t AND 0x03) OR ucast (drop_bit 2 ch AND 0x0F)) =
      0x80 + (16 * ((h div 64 + 1) mod 4) + h div 4 mod 16)"
    using unat_or_disjoint [of "push_bit 4 (?t AND 0x03)" 4 _ "ucast (drop_bit 2 ch AND 0x0F)"] p1 q1
    by (simp add: or.assoc unat_cont_u8)
  have p2: "unat (push_bit 4 (ucast (ch AND 0x03)) :: u8) = 16 * (h mod 4)"
  proof -
    have "unat (ucast (ch AND 0x03) :: u8) = h mod 4"
      using mod_mult_self1 [of h 13824 4]
      by (simp add: unat_ucast_mod unat_and_mask [of _ 2] mask_eq_exp_minus_1 uc add.commute)
    then show ?thesis by (subst unat_push_bit_small) (simp_all only:, simp_all)
  qed
  have q2: "unat (ucast (drop_bit 6 ch2 AND 0x0F) :: u8) = l div 64"
  proof -
    have "(0xDC00 + l) div 64 = l div 64 + 55 * 16"
      using div_mult_self1 [of 64 l 880] by (simp add: add.commute)
    then have "(0xDC00 + l) div 64 mod 16 = l div 64"
      using hl by (simp only: mod_mult_self1) simp
    then show ?thesis
      by (simp add: unat_ucast_mod unat_and_mask [of _ 4] mask_eq_exp_minus_1 unat_drop_bit_div uc)
  qed
  have b2: "unat (0x80 OR push_bit 4 (ucast (ch AND 0x03)) OR ucast (drop_bit 6 ch2 AND 0x0F) :: u8) =
      0x80 + (16 * (h mod 4) + l div 64)"
    using unat_or_disjoint [of "push_bit 4 (ucast (ch AND 0x03)) :: u8" 4 _ "ucast (drop_bit 6 ch2 AND 0x0F)"]
      p2 q2 hl by (simp add: or.assoc unat_cont_u8)
  have b3: "unat (0x80 OR ucast (ch2 AND 0x3F) :: u8) = 0x80 + l mod 64"
    using mod_mult_self1 [of l 880 64]
    by (intro unat_cont_u8)
      (simp_all add: unat_ucast_mod unat_and_mask [of _ 6] mask_eq_exp_minus_1 uc add.commute)
  show ?thesis
    using surrogate_arith [OF hl] b0 b1 b2 b3
    by (simp add: bytes4_def Let_def utf8_of_cp_def h_def [symmetric] l_def [symmetric])
qed

lemma low_follows_iff: "low_follows rest \<longleftrightarrow> (\<exists>d s. rest = d # s \<and> 0xDC00 \<le> d \<and> d < 0xE000)"
  by (cases rest) (auto simp: low_follows_def)

lemma cp_of_utf16_pair:
  "is_high c \<Longrightarrow> 0xDC00 \<le> d \<Longrightarrow> d < 0xE000 \<Longrightarrow>
    cp_of_utf16 (c # d # s) = (0x10000 + (unat c - 0xD800) * 0x400 + (unat d - 0xDC00)) # cp_of_utf16 s"
  by (simp add: is_high_def word_less_nat_alt word_le_nat_alt)

lemma cp_of_utf16_single:
  "\<not> (is_high c \<and> low_follows s) \<Longrightarrow> cp_of_utf16 (c # s) = unat c # cp_of_utf16 s"
  by (cases s) (auto simp: is_high_def low_follows_def word_less_nat_alt word_le_nat_alt)

lemma small_not_high: "ch < 0x800 \<Longrightarrow> \<not> is_high ch"
  by (auto simp: is_high_def word_less_nat_alt word_le_nat_alt)

lemma utf16_cases [case_names one two pair three]:
  obtains "ch < 0x80" | "\<not> ch < 0x80" "ch < 0x800"
    | "\<not> ch < 0x80" "\<not> ch < 0x800" "is_high ch" "low_follows s"
    | "\<not> ch < 0x80" "\<not> ch < 0x800" "\<not> (is_high ch \<and> low_follows s)"
proof -
  have "ch < 0x80 \<Longrightarrow> ch < 0x800"
    by (simp add: word_less_nat_alt)
  then show ?thesis using that by blast
qed

text \<open>The reference encoding, as bytes.\<close>

definition utf8_bytes :: "u16 list \<Rightarrow> u8 list" where
  "utf8_bytes s = map of_nat (utf8_of_cps (cp_of_utf16 s))"

lemma utf8_bytes_Nil [simp]: "utf8_bytes [] = []"
  by (simp add: utf8_bytes_def utf8_of_cps_def)

lemma map_of_nat_unat_u8: "map unat (bs :: u8 list) = ns \<Longrightarrow> map of_nat ns = bs"
  by (auto simp: comp_def map_idI)

lemma utf8_bytes_single:
  assumes "\<not> (is_high ch \<and> low_follows s)" "map unat bs = utf8_of_cp (unat ch)"
  shows "utf8_bytes (ch # s) = bs @ utf8_bytes s"
  using assms map_of_nat_unat_u8 [OF assms(2)]
  by (simp add: utf8_bytes_def utf8_of_cps_def cp_of_utf16_single)

lemma utf8_bytes_step:
  "ch < 0x80 \<Longrightarrow> utf8_bytes (ch # s) = bytes1 ch @ utf8_bytes s"
  "\<not> ch < 0x80 \<Longrightarrow> ch < 0x800 \<Longrightarrow> utf8_bytes (ch # s) = bytes2 ch @ utf8_bytes s"
  "\<not> ch < 0x800 \<Longrightarrow> \<not> (is_high ch \<and> low_follows s) \<Longrightarrow>
     utf8_bytes (ch # s) = bytes3 ch @ utf8_bytes s"
  "is_high ch \<and> low_follows s \<Longrightarrow>
     utf8_bytes (ch # s) = bytes4 ch (hd s) @ utf8_bytes (tl s)"
proof -
  show "ch < 0x80 \<Longrightarrow> utf8_bytes (ch # s) = bytes1 ch @ utf8_bytes s"
    by (intro utf8_bytes_single map_unat_bytes1)
      (auto simp: is_high_def word_less_nat_alt word_le_nat_alt)
  show "\<not> ch < 0x80 \<Longrightarrow> ch < 0x800 \<Longrightarrow> utf8_bytes (ch # s) = bytes2 ch @ utf8_bytes s"
    by (intro utf8_bytes_single map_unat_bytes2) (auto dest: small_not_high)
  show "\<not> ch < 0x800 \<Longrightarrow> \<not> (is_high ch \<and> low_follows s) \<Longrightarrow>
     utf8_bytes (ch # s) = bytes3 ch @ utf8_bytes s"
    by (intro utf8_bytes_single map_unat_bytes3) auto
  show "is_high ch \<and> low_follows s \<Longrightarrow>
     utf8_bytes (ch # s) = bytes4 ch (hd s) @ utf8_bytes (tl s)"
    using map_of_nat_unat_u8 [OF map_unat_bytes4]
    by (auto simp: low_follows_iff utf8_bytes_def utf8_of_cps_def cp_of_utf16_pair
        simp del: cp_of_utf16.simps)
qed

lemma length_bytes [simp]:
  "length (bytes1 ch) = 1" "length (bytes2 ch) = 2" "length (bytes3 ch) = 3"
  "length (bytes4 ch ch2) = 4"
  by (simp_all add: bytes1_def bytes2_def bytes3_def bytes4_def Let_def)

lemma utf16_length_loop_eq:
  "utf16_length_loop s n = n + of_nat (length (utf8_bytes s))"
proof (induction s n rule: utf16_length_loop.induct)
  case (2 ch rest n)
  show ?case
    by (rule utf16_cases [where ch = ch and s = "rest"]) (use 2 in \<open>auto simp: utf8_bytes_step\<close>)
qed simp

lemma utf16_write_loop_eq:
  "length (utf8_bytes s) \<le> cap \<Longrightarrow>
    utf16_write_loop s (cap, out) = Inr (cap - length (utf8_bytes s), out @ utf8_bytes s)"
proof (induction s "(cap, out)" arbitrary: cap out rule: utf16_write_loop.induct)
  case (2 ch rest)
  show ?case
    by (rule utf16_cases [where ch = ch and s = "rest"]) (use 2 in \<open>auto simp: utf8_bytes_step emit_def\<close>)
qed simp

lemma length_utf8_bytes_le: "length (utf8_bytes s) \<le> 3 * length s"
proof (induction s rule: cp_of_utf16.induct)
  case (2 c)
  show ?case by (cases "c < 0x80"; cases "c < 0x800")
    (simp_all add: utf8_bytes_step low_follows_def)
next
  case (3 c d s)
  show ?case
    by (rule utf16_cases [where ch = c and s = "d # s"]) (use 3 in \<open>auto simp: utf8_bytes_step is_high_def low_follows_def
        word_less_nat_alt word_le_nat_alt\<close>)
qed simp

lemma utf16toUTF8Length_eq:
  "3 * length s < 2 ^ 32 \<Longrightarrow> utf16toUTF8Length s = length (utf8_bytes s)"
  using length_utf8_bytes_le [of s]
  by (simp add: utf16toUTF8Length_def utf16_length_loop_eq unat_of_nat take_bit_eq_mod)

lemma utf16toUTF8_eq:
  "3 * length s < 2 ^ 32 \<Longrightarrow> utf16toUTF8 s = Inr (utf8_bytes s)"
  by (simp add: utf16toUTF8_def utf16toUTF8Length_eq utf16_write_loop_eq)

section \<open>Proofs: case-insensitive comparison\<close>

lemma ToLower_char_NUL [simp]: "ToLower_char c = CHR 0x00 \<longleftrightarrow> c = CHR 0x00"
proof
  assume "ToLower_char c = CHR 0x00"
  then show "c = CHR 0x00"
  proof (cases "CHR ''A'' \<le> c \<and> c \<le> CHR ''Z''")
    case True
    then have b: "of_char c < (256 - 32 :: nat)" "0 < (of_char c :: nat)"
      by (auto simp: less_eq_char_def)
    from True have "ToLower_char c = char_of (of_char c + 32 :: nat)"
      by (simp add: ToLower_char_def)
    then have "of_char (ToLower_char c) = (of_char c + 32 :: nat)"
      using b by simp
    with \<open>ToLower_char c = CHR 0x00\<close> show ?thesis by simp
  qed (auto simp: ToLower_char_def)
qed (simp add: ToLower_char_def less_eq_char_def)

lemma StringEqualNoCase_iff:
  assumes "CHR 0x00 \<notin> set a" "CHR 0x00 \<notin> set b"
  shows "StringEqualNoCase a b \<longleftrightarrow> ToLower a = ToLower b"
  using assms
proof (induction a arbitrary: b)
  case Nil
  then show ?case
    by (subst StringEqualNoCase.simps, cases b) (auto simp: c_head_def ToLower_def)
next
  case (Cons x a)
  show ?case
  proof (cases b)
    case Nil
    with Cons.prems show ?thesis
      by (subst StringEqualNoCase.simps) (auto simp: c_head_def ToLower_def)
  next
    case (Cons y b')
    with Cons.prems Cons.IH [of b'] show ?thesis
      by (subst StringEqualNoCase.simps) (auto simp: c_head_def ToLower_def)
  qed
qed

lemma ToLower_char_eq_NUL_left: "x \<noteq> CHR 0x00 \<Longrightarrow> ToLower_char x \<noteq> ToLower_char (CHR 0x00)"
  by (metis ToLower_char_NUL)

lemma StringEqualNoCaseN_iff:
  assumes "CHR 0x00 \<notin> set a" "CHR 0x00 \<notin> set b" "n \<le> length b"
  shows "StringEqualNoCaseN a b n \<longleftrightarrow> ToLower (take n a) = ToLower (take n b)"
  using assms
proof (induction n arbitrary: a b)
  case (Suc n)
  obtain y b' where b: "b = y # b'" using Suc.prems by (cases b) auto
  show ?case
  proof (cases a)
    case Nil
    have "ToLower_char y \<noteq> ToLower_char (CHR 0x00)"
      using b Suc.prems by (intro ToLower_char_eq_NUL_left) auto
    then show ?thesis using Nil b by (auto simp: c_head_def ToLower_def)
  next
    case (Cons x a')
    with Suc.prems b Suc.IH [of a' b'] show ?thesis
      by (auto simp: c_head_def ToLower_def)
  qed
qed (simp add: ToLower_def)

section \<open>Proofs: base64\<close>

lemma base64_encoded_size_eq: "base64_encoded_size n = 4 * ((n + 2) div 3)"
proof -
  have "n + 2 - (n + 2) mod 3 = (n + 2) div 3 * 3"
    by (simp add: minus_mod_eq_div_mult)
  then show ?thesis by (simp add: base64_encoded_size_def)
qed

lemma b64_bound_eq:
  assumes "n < 2 ^ 31"
  shows "b64_bound n = n div 3 * 3"
proof -
  have s: "sint (of_nat n :: u32) = int n"
    using assms by (simp add: signed_of_nat signed_take_bit_int_eq_self)
  have "n div 3 * 3 < 2 ^ 32" using assms by simp
  then have "unat (of_nat (n div 3 * 3) :: u32) = n div 3 * 3"
    by (simp only: unat_of_nat take_bit_eq_mod) simp
  moreover have "sgn (int n) * (\<bar>int n\<bar> div 3) * 3 = int (n div 3 * 3)"
    by (cases "n = 0") (simp_all add: zdiv_int)
  ultimately show ?thesis
    by (simp only: b64_bound_def Let_def s of_int_of_nat_eq)
qed

text \<open>The loop, read as a recursion over groups of three bytes.\<close>

fun b64_spec :: "u8 list \<Rightarrow> string" where
  "b64_spec (a # b # c # bs) = b64_quad a b c @ b64_spec bs"
| "b64_spec [a, b] =
     [b64_char (drop_bit 2 a), b64_char (push_bit 4 (a AND 3) OR drop_bit 4 b),
      b64_char (push_bit 2 (b AND 0x0F)), CHR ''='']"
| "b64_spec [a] = [b64_char (drop_bit 2 a), b64_char (push_bit 4 (a AND 3)), CHR ''='', CHR ''='']"
| "b64_spec [] = []"

lemma b64_spec_append: "3 dvd length xs \<Longrightarrow> b64_spec (xs @ ys) = b64_spec xs @ b64_spec ys"
proof -
  have "3 dvd Suc (Suc (Suc n)) \<longleftrightarrow> 3 dvd n" "\<not> 3 dvd Suc (Suc 0)" for n :: nat
    by presburger+
  then show "3 dvd length xs \<Longrightarrow> ?thesis"
    by (induction xs rule: b64_spec.induct) auto
qed

lemma b64_loop_eq:
  assumes "3 * m \<le> length src" "k \<le> m"
  shows "b64_loop src (3 * m) (3 * k) dst =
    Inr (3 * m, dst @ b64_spec (take (3 * (m - k)) (drop (3 * k) src)))"
  using assms(2)
proof (induction "m - k" arbitrary: k dst)
  case 0
  then show ?case by (simp add: b64_loop.simps)
next
  case (Suc d)
  then have k: "3 * k + 2 < length src" "k < m" using assms(1) by auto
  let ?q = "b64_quad (src ! (3 * k)) (src ! (3 * k + 1)) (src ! (3 * k + 2))"
  have m: "3 * (m - k) = Suc (Suc (Suc (3 * (m - Suc k))))" using k by simp
  have s3: "3 * Suc k = Suc (Suc (Suc (3 * k)))" by simp
  have "take (3 * (m - k)) (drop (3 * k) src) =
      src ! (3 * k) # src ! (3 * k + 1) # src ! (3 * k + 2) #
      take (3 * (m - Suc k)) (drop (3 * Suc k) src)"
    using k unfolding m s3 by (simp add: Cons_nth_drop_Suc [symmetric])
  moreover have "b64_loop src (3 * m) (3 * Suc k) (dst @ ?q) =
      Inr (3 * m, (dst @ ?q) @ b64_spec (take (3 * (m - Suc k)) (drop (3 * Suc k) src)))"
    using Suc.hyps(2) k by (intro Suc.hyps(1)) auto
  ultimately show ?case
    using k by (subst b64_loop.simps) (simp add: add.commute)
qed

lemma base64_encode_chars_eq:
  assumes "length src < 2 ^ 31"
  shows "base64_encode_chars src = Inr (b64_spec src)"
proof -
  define m where "m = length src div 3"
  have n: "b64_bound (length src) = 3 * m"
    using b64_bound_eq [OF assms] by (simp add: m_def)
  have loop: "b64_loop src (3 * m) 0 [] = Inr (3 * m, b64_spec (take (3 * m) src))"
    using b64_loop_eq [of m src 0 "[]"] by (simp add: m_def)
  have split: "b64_spec src = b64_spec (take (3 * m) src) @ b64_spec (drop (3 * m) src)"
    using b64_spec_append [of "take (3 * m) src" "drop (3 * m) src"] by (simp add: m_def)
  consider "length src = 3 * m" | "length src = 3 * m + 1" | "length src = 3 * m + 2"
    unfolding m_def by linarith
  then show ?thesis
  proof cases
    case 1
    then show ?thesis unfolding base64_encode_chars_def n Let_def loop by simp
  next
    case 2
    then have "drop (3 * m) src = [src ! (3 * m)]"
      by (simp add: Cons_nth_drop_Suc [symmetric])
    with 2 split show ?thesis unfolding base64_encode_chars_def n Let_def loop by simp
  next
    case 3
    then have "drop (3 * m) src = [src ! (3 * m), src ! (3 * m + 1)]"
      by (simp add: Cons_nth_drop_Suc [symmetric])
    with 3 split show ?thesis unfolding base64_encode_chars_def n Let_def loop by simp
  qed
qed

lemma length_b64_spec: "length (b64_spec src) = base64_encoded_size (length src)"
proof (induction src rule: b64_spec.induct)
  case (1 a b c bs)
  have "(5 + length bs) div 3 = Suc (Suc (Suc (length bs)) div 3)" by linarith
  with 1 show ?case by (simp add: base64_encoded_size_eq b64_quad_def)
qed (simp_all add: base64_encoded_size_eq)

text \<open>Reference decoder of RFC 4648, by table lookup.\<close>

definition b64_val :: "char \<Rightarrow> u8" where
  "b64_val c = of_nat (length (takeWhile (\<lambda>d. d \<noteq> c) b64_table))"

fun b64_decode :: "string \<Rightarrow> u8 list option" where
  "b64_decode [] = Some []"
| "b64_decode (w # x # y # z # s) =
     (let a = push_bit 2 (b64_val w) OR drop_bit 4 (b64_val x);
          b = push_bit 4 (b64_val x) OR drop_bit 2 (b64_val y);
          c = push_bit 6 (b64_val y) OR b64_val z
      in if z = CHR ''='' then
           (if s \<noteq> [] then None else if y = CHR ''='' then Some [a] else Some [a, b])
         else map_option (\<lambda>t. a # b # c # t) (b64_decode s))"
| "b64_decode _ = None"

lemma length_takeWhile_nth:
  "distinct xs \<Longrightarrow> i < length xs \<Longrightarrow> length (takeWhile (\<lambda>d. d \<noteq> xs ! i) xs) = i"
proof (induction xs arbitrary: i)
  case (Cons x xs)
  then show ?case by (cases i) auto
qed simp

lemma b64_table_props: "distinct b64_table" "length b64_table = 64" "CHR ''='' \<notin> set b64_table"
  by (simp_all add: b64_table_def)

lemma b64_val_char: "unat i < 64 \<Longrightarrow> b64_val (b64_char i) = i"
  using length_takeWhile_nth [of b64_table "unat i"] b64_table_props
  by (simp add: b64_val_def b64_char_def)

lemma b64_char_not_pad: "unat i < 64 \<Longrightarrow> b64_char i \<noteq> CHR ''=''"
  by (metis b64_char_def b64_table_props(2,3) nth_mem)

lemma mask_u8: "(a :: u8) AND 3 = take_bit 2 a" "a AND 0x0F = take_bit 4 a" "a AND 0x3F = take_bit 6 a"
  by (simp_all add: take_bit_eq_mask mask_eq_exp_minus_1)

lemma sextet_bounds:
  fixes a b c :: u8
  shows "unat (drop_bit 2 a) < 64" "unat (push_bit 4 (take_bit 2 a) OR drop_bit 4 b) < 64"
    "unat (push_bit 2 (take_bit 4 b) OR drop_bit 6 c) < 64" "unat (take_bit 6 c) < 64"
    "unat (push_bit 4 (take_bit 2 a)) < 64" "unat (push_bit 2 (take_bit 4 b)) < 64"
proof -
  have small: "unat w < 64" if "take_bit 6 w = w" for w :: u8
    using that unsigned_take_bit_eq [of 6 w, where ?'a = nat] take_bit_nat_less_exp [of 6 "unat w"]
    by simp
  show "unat (drop_bit 2 a) < 64" by (rule small, rule u8_eqI; simp add: bit_simps u8_no_high_bit)
  show "unat (push_bit 4 (take_bit 2 a) OR drop_bit 4 b) < 64"
    by (rule small, rule u8_eqI; simp add: bit_simps u8_no_high_bit)
  show "unat (push_bit 2 (take_bit 4 b) OR drop_bit 6 c) < 64"
    by (rule small, rule u8_eqI; simp add: bit_simps u8_no_high_bit)
  show "unat (take_bit 6 c) < 64" by (rule small) simp
  show "unat (push_bit 4 (take_bit 2 a)) < 64"
    by (rule small, rule u8_eqI; simp add: bit_simps u8_no_high_bit)
  show "unat (push_bit 2 (take_bit 4 b)) < 64"
    by (rule small, rule u8_eqI; simp add: bit_simps u8_no_high_bit)
qed

lemma sextet_join:
  fixes a b c :: u8
  shows "push_bit 2 (drop_bit 2 a) OR drop_bit 4 (push_bit 4 (take_bit 2 a) OR drop_bit 4 b) = a"
    "push_bit 4 (push_bit 4 (take_bit 2 a) OR drop_bit 4 b) OR
       drop_bit 2 (push_bit 2 (take_bit 4 b) OR drop_bit 6 c) = b"
    "push_bit 6 (push_bit 2 (take_bit 4 b) OR drop_bit 6 c) OR take_bit 6 c = c"
    "push_bit 2 (drop_bit 2 a) OR drop_bit 4 (push_bit 4 (take_bit 2 a)) = a"
    "push_bit 4 (push_bit 4 (take_bit 2 a) OR drop_bit 4 b) OR drop_bit 2 (push_bit 2 (take_bit 4 b)) = b"
  by ((rule u8_eqI; auto simp: bit_simps))+

lemma b64_decode_spec: "b64_decode (b64_spec src) = Some src"
proof (induction src rule: b64_spec.induct)
  case (1 a b c bs)
  then show ?case
    using sextet_bounds(1) [of a] sextet_bounds(2) [of a b] sextet_bounds(3) [of b c]
      sextet_bounds(4) [of c] sextet_bounds(5) [of a] sextet_bounds(6) [of b]
      sextet_join(1) [of a b] sextet_join(2) [of a b c] sextet_join(3) [of b c]
      sextet_join(4) [of a] sextet_join(5) [of a b]
    by (simp add: b64_quad_def mask_u8 b64_val_char b64_char_not_pad Let_def)
next
  case (2 a b)
  then show ?case
    using sextet_bounds(1) [of a] sextet_bounds(2) [of a b] sextet_bounds(3) [of b b]
      sextet_bounds(4) [of b] sextet_bounds(5) [of a] sextet_bounds(6) [of b]
      sextet_join(1) [of a b] sextet_join(2) [of a b b] sextet_join(3) [of b b]
      sextet_join(4) [of a] sextet_join(5) [of a b]
    by (simp add: mask_u8 b64_val_char b64_char_not_pad Let_def)
next
  case (3 a)
  then show ?case
    using sextet_bounds(1) [of a] sextet_bounds(2) [of a a] sextet_bounds(3) [of a a]
      sextet_bounds(4) [of a] sextet_bounds(5) [of a] sextet_bounds(6) [of a]
      sextet_join(1) [of a a] sextet_join(2) [of a a a] sextet_join(3) [of a a]
      sextet_join(4) [of a] sextet_join(5) [of a a]
    by (simp add: mask_u8 b64_val_char b64_char_not_pad Let_def)
qed simp

lemma base64_encode_eq:
  assumes "length src < 2 ^ 31" "base64_encoded_size (length src) \<le> length dst"
  shows "base64_encode src dst =
    Inr (base64_encoded_size (length src), b64_spec src @ drop (base64_encoded_size (length src)) dst)"
  using assms by (simp add: base64_encode_def base64_encode_chars_eq length_b64_spec)

section \<open>Properties\<close>

text \<open>
  C23: The UTF-16 to UTF-8 conversion of outgoing inspector messages is correct and stays in its
  buffer: for any input whose encoding fits the 32-bit length counter, the write pass fills exactly
  the buffer that the length pass sized, with the UTF-8 encoding of the input's code points
  (surrogate pairs joined, lone surrogates encoded as they are).
\<close>

theorem utf16toUTF8_correct:
  assumes "3 * length s < 2 ^ 32"
  shows "utf16toUTF8 s = Inr (map of_nat (utf8_of_cps (cp_of_utf16 s))) \<and>
    utf16toUTF8Length s = length (utf8_of_cps (cp_of_utf16 s))"
  using utf16toUTF8_eq [OF assms] utf16toUTF8Length_eq [OF assms] by (simp add: utf8_bytes_def)

theorem utf16toUTF8_correct_witness:
  "utf16toUTF8 [0x48, 0xD83D, 0xDE00] = Inr (map of_nat (utf8_of_cps [0x48, 0x1F600])) \<and>
    utf16toUTF8Length [0x48, 0xD83D, 0xDE00] = length (utf8_of_cps [0x48, 0x1F600])"
  using utf16toUTF8_correct [of "[0x48, 0xD83D, 0xDE00]"] by simp

text \<open>
  base64 encoding writes exactly \<open>base64_encoded_size\<close> characters at the front of the
  caller's buffer, leaves the rest of the buffer alone, and is reversible: decoding the characters
  written gives the input back.
\<close>

theorem base64_roundtrip:
  assumes "length src < 2 ^ 31" "base64_encoded_size (length src) \<le> length dst"
  shows "\<exists>out. base64_encode src dst =
      Inr (base64_encoded_size (length src), out @ drop (base64_encoded_size (length src)) dst) \<and>
      length out = base64_encoded_size (length src) \<and> b64_decode out = Some src"
  using base64_encode_eq [OF assms] length_b64_spec [of src] b64_decode_spec [of src] by blast

theorem base64_roundtrip_witness:
  "\<exists>out. base64_encode [1, 2, 3, 4] (replicate 9 CHR ''x'') = Inr (8, out @ ''x'') \<and>
      length out = 8 \<and> b64_decode out = Some [1, 2, 3, 4]"
  using base64_roundtrip [of "[1, 2, 3, 4]" "replicate 9 CHR ''x''"]
  by (simp add: base64_encoded_size_eq)

text \<open>
  The case-insensitive comparisons on C strings decide equality up to ASCII case: the
  unbounded one on whole strings, the bounded one on the first \<open>n\<close> characters (so a header
  or path that merely begins with the expected text also matches).
\<close>

theorem no_case_comparisons:
  assumes "CHR 0x00 \<notin> set a" "CHR 0x00 \<notin> set b" "n \<le> length b"
  shows "(StringEqualNoCase a b \<longleftrightarrow> ToLower a = ToLower b) \<and>
    (StringEqualNoCaseN a b n \<longleftrightarrow> ToLower (take n a) = ToLower (take n b))"
  using StringEqualNoCase_iff [OF assms(1,2)] StringEqualNoCaseN_iff [OF assms] by simp

theorem no_case_comparisons_witness:
  "(StringEqualNoCase ''LocalHost'' ''localhost'' \<longleftrightarrow> ToLower ''LocalHost'' = ToLower ''localhost'') \<and>
    (StringEqualNoCaseN ''LocalHost'' ''localhost'' 5 \<longleftrightarrow>
       ToLower (take 5 ''LocalHost'') = ToLower (take 5 ''localhost''))"
  using no_case_comparisons [of "''LocalHost''" "''localhost''" 5] by simp

end
