(* ===== verification/Sha1.thy ===== *)
theory Sha1
  imports Prelude
begin

unbundle bit_operations_syntax

text \<open>
  The streaming SHA-1 of \<^verbatim>\<open>src/src/inspector/inspector_utils.h\<close>, which the WebSocket
  handshake uses: the round functions on five registers and a circular 16-word schedule, the
  compression \<open>transform\<close> with its 80 unrolled rounds, and the context operations
  \<open>init\<close>, \<open>update\<close>, \<open>finish\<close>. The reference is the textbook definition of FIPS 180-4
  (an 80-word message schedule, five working variables that shift, padding of the whole message);
  the code is shown to compute it, for a message absorbed in any number of pieces.
\<close>

section \<open>Rounds\<close>

definition rol :: "u32 \<Rightarrow> nat \<Rightarrow> u32" where
  "rol v n = push_bit n v OR drop_bit (32 - n) v"

definition blk :: "u32 list \<Rightarrow> nat \<Rightarrow> u32" where
  "blk block i =
     rol (block ! ((i + 13) mod 16) XOR block ! ((i + 8) mod 16) XOR block ! ((i + 2) mod 16)
          XOR block ! i) 1"

text \<open>
  The registers \<open>a, \<dots>, e\<close> are the positions 0 to 4 of a list; a round names the positions
  that play \<open>v, w, x, y, z\<close>, of which it writes \<open>z\<close> and then \<open>w\<close>.
\<close>

type_synonym sha1_state = "u32 list \<times> u32 list"

definition R0 :: "sha1_state \<Rightarrow> nat \<Rightarrow> nat \<Rightarrow> nat \<Rightarrow> nat \<Rightarrow> nat \<Rightarrow> nat \<Rightarrow> sha1_state" where
  "R0 st v w x y z i =
     (case st of (block, r) \<Rightarrow>
        let zv = r ! z + ((((r ! w AND (r ! x XOR r ! y)) XOR r ! y) + block ! i + 0x5a827999
                   + rol (r ! v) 5));
            wv = rol (r ! w) 30
        in (block, r[z := zv, w := wv]))"

definition R1 :: "sha1_state \<Rightarrow> nat \<Rightarrow> nat \<Rightarrow> nat \<Rightarrow> nat \<Rightarrow> nat \<Rightarrow> nat \<Rightarrow> sha1_state" where
  "R1 st v w x y z i =
     (case st of (block0, r) \<Rightarrow>
        let block = block0[i := blk block0 i];
            zv = r ! z + ((((r ! w AND (r ! x XOR r ! y)) XOR r ! y) + block ! i + 0x5a827999
                   + rol (r ! v) 5));
            wv = rol (r ! w) 30
        in (block, r[z := zv, w := wv]))"

definition R2 :: "sha1_state \<Rightarrow> nat \<Rightarrow> nat \<Rightarrow> nat \<Rightarrow> nat \<Rightarrow> nat \<Rightarrow> nat \<Rightarrow> sha1_state" where
  "R2 st v w x y z i =
     (case st of (block0, r) \<Rightarrow>
        let block = block0[i := blk block0 i];
            zv = r ! z + ((r ! w XOR r ! x XOR r ! y) + block ! i + 0x6ed9eba1 + rol (r ! v) 5);
            wv = rol (r ! w) 30
        in (block, r[z := zv, w := wv]))"

definition R3 :: "sha1_state \<Rightarrow> nat \<Rightarrow> nat \<Rightarrow> nat \<Rightarrow> nat \<Rightarrow> nat \<Rightarrow> nat \<Rightarrow> sha1_state" where
  "R3 st v w x y z i =
     (case st of (block0, r) \<Rightarrow>
        let block = block0[i := blk block0 i];
            zv = r ! z + ((((r ! w OR r ! x) AND r ! y) OR (r ! w AND r ! x)) + block ! i
                   + 0x8f1bbcdc + rol (r ! v) 5);
            wv = rol (r ! w) 30
        in (block, r[z := zv, w := wv]))"

definition R4 :: "sha1_state \<Rightarrow> nat \<Rightarrow> nat \<Rightarrow> nat \<Rightarrow> nat \<Rightarrow> nat \<Rightarrow> nat \<Rightarrow> sha1_state" where
  "R4 st v w x y z i =
     (case st of (block0, r) \<Rightarrow>
        let block = block0[i := blk block0 i];
            zv = r ! z + ((r ! w XOR r ! x XOR r ! y) + block ! i + 0xca62c1d6 + rol (r ! v) 5);
            wv = rol (r ! w) 30
        in (block, r[z := zv, w := wv]))"

text \<open>The 80 calls of the compression function, in the order the code makes them.\<close>

datatype round_op = Op0 | Op1 | Op2 | Op3 | Op4

type_synonym round_call = "round_op \<times> nat \<times> nat \<times> nat \<times> nat \<times> nat \<times> nat"

fun run_round :: "round_call \<Rightarrow> sha1_state \<Rightarrow> sha1_state" where
  "run_round (Op0, v, w, x, y, z, i) st = R0 st v w x y z i"
| "run_round (Op1, v, w, x, y, z, i) st = R1 st v w x y z i"
| "run_round (Op2, v, w, x, y, z, i) st = R2 st v w x y z i"
| "run_round (Op3, v, w, x, y, z, i) st = R3 st v w x y z i"
| "run_round (Op4, v, w, x, y, z, i) st = R4 st v w x y z i"

definition transform_rounds :: "round_call list" where
  "transform_rounds =
    [(Op0, 0, 1, 2, 3, 4, 0), (Op0, 4, 0, 1, 2, 3, 1), (Op0, 3, 4, 0, 1, 2, 2), (Op0, 2, 3, 4, 0, 1, 3), (Op0, 1, 2, 3, 4, 0, 4),
     (Op0, 0, 1, 2, 3, 4, 5), (Op0, 4, 0, 1, 2, 3, 6), (Op0, 3, 4, 0, 1, 2, 7), (Op0, 2, 3, 4, 0, 1, 8), (Op0, 1, 2, 3, 4, 0, 9),
     (Op0, 0, 1, 2, 3, 4, 10), (Op0, 4, 0, 1, 2, 3, 11), (Op0, 3, 4, 0, 1, 2, 12), (Op0, 2, 3, 4, 0, 1, 13), (Op0, 1, 2, 3, 4, 0, 14),
     (Op0, 0, 1, 2, 3, 4, 15), (Op1, 4, 0, 1, 2, 3, 0), (Op1, 3, 4, 0, 1, 2, 1), (Op1, 2, 3, 4, 0, 1, 2), (Op1, 1, 2, 3, 4, 0, 3),
     (Op2, 0, 1, 2, 3, 4, 4), (Op2, 4, 0, 1, 2, 3, 5), (Op2, 3, 4, 0, 1, 2, 6), (Op2, 2, 3, 4, 0, 1, 7), (Op2, 1, 2, 3, 4, 0, 8),
     (Op2, 0, 1, 2, 3, 4, 9), (Op2, 4, 0, 1, 2, 3, 10), (Op2, 3, 4, 0, 1, 2, 11), (Op2, 2, 3, 4, 0, 1, 12), (Op2, 1, 2, 3, 4, 0, 13),
     (Op2, 0, 1, 2, 3, 4, 14), (Op2, 4, 0, 1, 2, 3, 15), (Op2, 3, 4, 0, 1, 2, 0), (Op2, 2, 3, 4, 0, 1, 1), (Op2, 1, 2, 3, 4, 0, 2),
     (Op2, 0, 1, 2, 3, 4, 3), (Op2, 4, 0, 1, 2, 3, 4), (Op2, 3, 4, 0, 1, 2, 5), (Op2, 2, 3, 4, 0, 1, 6), (Op2, 1, 2, 3, 4, 0, 7),
     (Op3, 0, 1, 2, 3, 4, 8), (Op3, 4, 0, 1, 2, 3, 9), (Op3, 3, 4, 0, 1, 2, 10), (Op3, 2, 3, 4, 0, 1, 11), (Op3, 1, 2, 3, 4, 0, 12),
     (Op3, 0, 1, 2, 3, 4, 13), (Op3, 4, 0, 1, 2, 3, 14), (Op3, 3, 4, 0, 1, 2, 15), (Op3, 2, 3, 4, 0, 1, 0), (Op3, 1, 2, 3, 4, 0, 1),
     (Op3, 0, 1, 2, 3, 4, 2), (Op3, 4, 0, 1, 2, 3, 3), (Op3, 3, 4, 0, 1, 2, 4), (Op3, 2, 3, 4, 0, 1, 5), (Op3, 1, 2, 3, 4, 0, 6),
     (Op3, 0, 1, 2, 3, 4, 7), (Op3, 4, 0, 1, 2, 3, 8), (Op3, 3, 4, 0, 1, 2, 9), (Op3, 2, 3, 4, 0, 1, 10), (Op3, 1, 2, 3, 4, 0, 11),
     (Op4, 0, 1, 2, 3, 4, 12), (Op4, 4, 0, 1, 2, 3, 13), (Op4, 3, 4, 0, 1, 2, 14), (Op4, 2, 3, 4, 0, 1, 15), (Op4, 1, 2, 3, 4, 0, 0),
     (Op4, 0, 1, 2, 3, 4, 1), (Op4, 4, 0, 1, 2, 3, 2), (Op4, 3, 4, 0, 1, 2, 3), (Op4, 2, 3, 4, 0, 1, 4), (Op4, 1, 2, 3, 4, 0, 5),
     (Op4, 0, 1, 2, 3, 4, 6), (Op4, 4, 0, 1, 2, 3, 7), (Op4, 3, 4, 0, 1, 2, 8), (Op4, 2, 3, 4, 0, 1, 9), (Op4, 1, 2, 3, 4, 0, 10),
     (Op4, 0, 1, 2, 3, 4, 11), (Op4, 4, 0, 1, 2, 3, 12), (Op4, 3, 4, 0, 1, 2, 13), (Op4, 2, 3, 4, 0, 1, 14), (Op4, 1, 2, 3, 4, 0, 15)]"

definition transform :: "u32 list \<Rightarrow> u32 list \<Rightarrow> u32 list \<times> u32 list" where
  "transform digest block =
     (case fold run_round transform_rounds (block, digest) of
        (block', r) \<Rightarrow> (map2 (+) digest r, block'))"

section \<open>Blocks and contexts\<close>

definition make_block :: "u8 list \<Rightarrow> u32 list" where
  "make_block p =
     map (\<lambda>i. (ucast (p ! (4 * i + 3)) :: u32) OR push_bit 8 (ucast (p ! (4 * i + 2)))
              OR push_bit 16 (ucast (p ! (4 * i + 1))) OR push_bit 24 (ucast (p ! (4 * i))))
       [0..<16]"

record sha1_context =
  buflen :: nat
  blocks :: u64
  digest :: "u32 list"
  buf :: "u8 list"

definition sha1_init :: "u8 list \<Rightarrow> sha1_context" where
  "sha1_init garbage =
     \<lparr>buflen = 0, blocks = 0,
      digest = [0x67452301, 0xefcdab89, 0x98badcfe, 0x10325476, 0xc3d2e1f0], buf = garbage\<rparr>"

function sha1_update :: "sha1_context \<Rightarrow> u8 list \<Rightarrow> sha1_context" where
  "sha1_update ctx p =
     (let n = min (length p) (64 - buflen ctx);
          ctx1 = ctx\<lparr>buf := take (buflen ctx) (buf ctx) @ take n p @ drop (buflen ctx + n) (buf ctx),
                     buflen := buflen ctx + n\<rparr>
      in if buflen ctx + n \<noteq> 64 then ctx1
         else sha1_update
                (ctx1\<lparr>buflen := 0,
                      digest := fst (transform (digest ctx1) (make_block (buf ctx1))),
                      blocks := blocks ctx1 + 1\<rparr>)
                (drop n p))"
  by pat_completeness auto
termination
  by (relation "measure (\<lambda>(ctx, p). 2 * length p + (if buflen ctx = 64 then 1 else 0))")
    (auto simp: min_def split: if_splits)

declare sha1_update.simps [simp del]

definition be_bytes :: "u32 \<Rightarrow> u8 list" where
  "be_bytes w = [ucast (drop_bit 24 w), ucast (drop_bit 16 w), ucast (drop_bit 8 w), ucast w]"

definition sha1_finish :: "sha1_context \<Rightarrow> u8 list" where
  "sha1_finish ctx =
     (let total_bits = (blocks ctx * 64 + of_nat (buflen ctx)) * 8;
          buflen1 = buflen ctx + 1;
          buf1 = take (buflen ctx) (buf ctx) @ [0x80] @ replicate (64 - buflen1) 0;
          block0 = make_block buf1;
          (digest1, block1) =
            (if buflen1 > 64 - 8 then
               (case transform (digest ctx) block0 of
                  (d, b) \<Rightarrow> (d, replicate 14 0 @ drop 14 b))
             else (digest ctx, block0));
          block2 = block1[15 := ucast total_bits, 14 := ucast (drop_bit 32 total_bits)];
          digest2 = fst (transform digest1 block2)
      in concat (map be_bytes digest2))"

section \<open>Reference: FIPS 180-4\<close>

fun W :: "u32 list \<Rightarrow> nat \<Rightarrow> u32" where
  "W block t =
     (if t < 16 then block ! t
      else rol (W block (t - 3) XOR W block (t - 8) XOR W block (t - 14) XOR W block (t - 16)) 1)"

declare W.simps [simp del]

definition fips_f :: "nat \<Rightarrow> u32 \<Rightarrow> u32 \<Rightarrow> u32 \<Rightarrow> u32" where
  "fips_f t b c d =
     (if t < 20 then (b AND c) XOR (NOT b AND d)
      else if t < 40 then b XOR c XOR d
      else if t < 60 then (b AND c) XOR (b AND d) XOR (c AND d)
      else b XOR c XOR d)"

definition fips_K :: "nat \<Rightarrow> u32" where
  "fips_K t =
     (if t < 20 then 0x5a827999 else if t < 40 then 0x6ed9eba1
      else if t < 60 then 0x8f1bbcdc else 0xca62c1d6)"

type_synonym vars5 = "u32 \<times> u32 \<times> u32 \<times> u32 \<times> u32"

definition fips_step :: "u32 list \<Rightarrow> nat \<Rightarrow> vars5 \<Rightarrow> vars5" where
  "fips_step block t s =
     (case s of (a, b, c, d, e) \<Rightarrow>
        (rol a 5 + fips_f t b c d + e + fips_K t + W block t, a, rol b 30, c, d))"

definition vars_of :: "u32 list \<Rightarrow> vars5" where
  "vars_of h = (h ! 0, h ! 1, h ! 2, h ! 3, h ! 4)"

fun list_of_vars :: "vars5 \<Rightarrow> u32 list" where
  "list_of_vars (a, b, c, d, e) = [a, b, c, d, e]"

fun fips_steps :: "u32 list \<Rightarrow> nat \<Rightarrow> vars5 \<Rightarrow> vars5" where
  "fips_steps block 0 s = s"
| "fips_steps block (Suc t) s = fips_step block t (fips_steps block t s)"

definition fips_compress :: "u32 list \<Rightarrow> u32 list \<Rightarrow> u32 list" where
  "fips_compress h block = map2 (+) h (list_of_vars (fips_steps block 80 (vars_of h)))"

function fips_absorb :: "u32 list \<Rightarrow> u8 list \<Rightarrow> u32 list" where
  "fips_absorb h bs =
     (if length bs < 64 then h
      else fips_absorb (fips_compress h (make_block (take 64 bs))) (drop 64 bs))"
  by pat_completeness auto
termination
  by (relation "measure (\<lambda>(h, bs). length bs)") auto

declare fips_absorb.simps [simp del]

definition fips_pad :: "u8 list \<Rightarrow> u8 list" where
  "fips_pad m =
     (let bits = (of_nat (8 * length m) :: u64);
          k = (64 - (length m + 9) mod 64) mod 64
      in m @ [0x80] @ replicate k 0 @ be_bytes (ucast (drop_bit 32 bits)) @ be_bytes (ucast bits))"

definition fips_init :: "u32 list" where
  "fips_init = [0x67452301, 0xefcdab89, 0x98badcfe, 0x10325476, 0xc3d2e1f0]"

definition fips_sha1 :: "u8 list \<Rightarrow> u8 list" where
  "fips_sha1 m = concat (map be_bytes (fips_absorb fips_init (fips_pad m)))"

section \<open>The compression function computes the reference compression\<close>

definition round_at :: "nat \<Rightarrow> round_call" where
  "round_at t =
     (let v = (5 - t mod 5) mod 5
      in (if t < 16 then Op0 else if t < 20 then Op1 else if t < 40 then Op2
          else if t < 60 then Op3 else Op4,
          v, (v + 1) mod 5, (v + 2) mod 5, (v + 3) mod 5, (v + 4) mod 5, t mod 16))"

lemma transform_rounds_eq: "transform_rounds = map round_at [0..<80]"
  by (simp add: transform_rounds_def round_at_def upt_rec)

lemma choose_eq: "(w AND (x XOR y)) XOR y = (w AND x) XOR (NOT w AND y)" for w x y :: u32
  by (rule bit_word_eqI) (auto simp: bit_simps)

lemma majority_eq: "((w OR x) AND y) OR (w AND x) = (w AND x) XOR (w AND y) XOR (x AND y)" for w x y :: u32
  by (rule bit_word_eqI) (auto simp: bit_simps)

text \<open>All five round functions have one shape: advance the schedule, then mix.\<close>

definition next_block :: "nat \<Rightarrow> u32 list \<Rightarrow> u32 list" where
  "next_block t block = (if t < 16 then block else block[t mod 16 := blk block (t mod 16)])"

lemma run_round_at:
  assumes "v = (5 - t mod 5) mod 5"
  shows "run_round (round_at t) (block, r) =
    (let b = next_block t block in
     (b, r[(v + 4) mod 5 := r ! ((v + 4) mod 5) +
             (fips_f t (r ! ((v + 1) mod 5)) (r ! ((v + 2) mod 5)) (r ! ((v + 3) mod 5))
              + b ! (t mod 16) + fips_K t + rol (r ! v) 5),
           (v + 1) mod 5 := rol (r ! ((v + 1) mod 5)) 30]))"
  unfolding round_at_def Let_def assms [symmetric]
  by (simp add: R0_def R1_def R2_def R3_def R4_def Let_def next_block_def fips_f_def fips_K_def
      choose_eq majority_eq)

definition sched_rel :: "u32 list \<Rightarrow> nat \<Rightarrow> u32 list \<Rightarrow> bool" where
  "sched_rel B t block \<longleftrightarrow> length block = 16 \<and>
     (\<forall>s. max 16 t - 16 \<le> s \<and> s < max 16 t \<longrightarrow> block ! (s mod 16) = W B s)"

lemma sched_rel_init: "length B = 16 \<Longrightarrow> sched_rel B 0 B"
  by (auto simp: sched_rel_def W.simps)

lemma sched_rel_nth:
  "sched_rel B t block \<Longrightarrow> 16 \<le> t \<Longrightarrow> t - 16 \<le> s \<Longrightarrow> s < t \<Longrightarrow> block ! (s mod 16) = W B s"
  by (simp add: sched_rel_def)

lemma blk_W:
  assumes rel: "sched_rel B t block" and t: "16 \<le> t"
  shows "blk block (t mod 16) = W B t"
proof -
  have idx: "(t mod 16 + 13) mod 16 = (t - 3) mod 16" "(t mod 16 + 8) mod 16 = (t - 8) mod 16"
    "(t mod 16 + 2) mod 16 = (t - 14) mod 16" "t mod 16 = (t - 16) mod 16"
  proof -
    obtain u where "t = u + 16" using t by (metis le_add_diff_inverse2)
    then show "(t mod 16 + 13) mod 16 = (t - 3) mod 16" "(t mod 16 + 8) mod 16 = (t - 8) mod 16"
      "(t mod 16 + 2) mod 16 = (t - 14) mod 16" "t mod 16 = (t - 16) mod 16"
      by (simp_all add: mod_simps add.commute)
  qed
  have "block ! ((t - 3) mod 16) = W B (t - 3)" "block ! ((t - 8) mod 16) = W B (t - 8)"
    "block ! ((t - 14) mod 16) = W B (t - 14)" "block ! ((t - 16) mod 16) = W B (t - 16)"
    using t by (intro sched_rel_nth [OF rel]; simp)+
  then show ?thesis
    using t unfolding blk_def idx(1-3) by (subst W.simps) (simp add: idx(4))
qed

lemma next_block_rel:
  assumes rel: "sched_rel B t block"
  shows "sched_rel B (Suc t) (next_block t block)" and "next_block t block ! (t mod 16) = W B t"
proof -
  have len: "length block = 16" using rel by (simp add: sched_rel_def)
  show cur: "next_block t block ! (t mod 16) = W B t"
  proof (cases "t < 16")
    case True
    with rel show ?thesis by (auto simp: sched_rel_def next_block_def max_def)
  next
    case False
    with blk_W [OF rel] len show ?thesis by (simp add: next_block_def)
  qed
  show "sched_rel B (Suc t) (next_block t block)"
  proof (cases "t < 16")
    case True
    with rel show ?thesis by (auto simp: sched_rel_def next_block_def max_def)
  next
    case False
    have "next_block t block ! (s mod 16) = W B s" if "t - 15 \<le> s" "s < Suc t" for s
    proof (cases "s = t")
      case True
      then show ?thesis using cur by simp
    next
      case ne: False
      with that have "s < t" "t - s < 16" by auto
      then have "s mod 16 \<noteq> t mod 16"
        using mod_eq_dvd_iff_nat [of s t 16] dvd_imp_le [of 16 "t - s"] by auto
      moreover have "block ! (s mod 16) = W B s"
        using that ne False by (intro sched_rel_nth [OF rel]) auto
      ultimately show ?thesis using False by (simp add: next_block_def)
    qed
    with False len show ?thesis by (auto simp: sched_rel_def next_block_def max_def)
  qed
qed

definition regs_rel :: "nat \<Rightarrow> u32 list \<Rightarrow> vars5 \<Rightarrow> bool" where
  "regs_rel t r s \<longleftrightarrow> length r = 5 \<and>
     (let v = (5 - t mod 5) mod 5
      in s = (r ! v, r ! ((v + 1) mod 5), r ! ((v + 2) mod 5), r ! ((v + 3) mod 5), r ! ((v + 4) mod 5)))"

lemma regs_rel_step:
  assumes "regs_rel t r s" "v = (5 - t mod 5) mod 5"
  shows "regs_rel (Suc t)
    (r[(v + 4) mod 5 := r ! ((v + 4) mod 5) +
         (fips_f t (r ! ((v + 1) mod 5)) (r ! ((v + 2) mod 5)) (r ! ((v + 3) mod 5))
          + W B t + fips_K t + rol (r ! v) 5),
       (v + 1) mod 5 := rol (r ! ((v + 1) mod 5)) 30])
    (fips_step B t s)"
proof -
  have "length r = Suc (Suc (Suc (Suc (Suc 0))))"
    using assms(1) by (simp add: regs_rel_def)
  then obtain r0 r1 r2 r3 r4 where r: "r = [r0, r1, r2, r3, r4]"
    by (auto simp only: length_Suc_conv length_0_conv)
  consider "t mod 5 = 0" | "t mod 5 = 1" | "t mod 5 = 2" | "t mod 5 = 3" | "t mod 5 = 4"
    using mod_less_divisor [of 5 t] by fastforce
  then show ?thesis
    by cases (use assms in \<open>simp_all add: r regs_rel_def fips_step_def mod_Suc Let_def ac_simps\<close>)
qed

lemma fold_rounds_rel:
  assumes "length B = 16" "length h = 5"
  shows "case fold run_round (map round_at [0..<t]) (B, h) of
    (block, r) \<Rightarrow> sched_rel B t block \<and> regs_rel t r (fips_steps B t (vars_of h))"
proof (induction t)
  case 0
  then show ?case using assms by (simp add: sched_rel_init regs_rel_def vars_of_def numeral_2_eq_2)
next
  case (Suc t)
  obtain block r where br: "fold run_round (map round_at [0..<t]) (B, h) = (block, r)"
    by (cases "fold run_round (map round_at [0..<t]) (B, h)") auto
  with Suc.IH have rel: "sched_rel B t block" and regs: "regs_rel t r (fips_steps B t (vars_of h))"
    by auto
  show ?case
    using next_block_rel [OF rel] regs_rel_step [OF regs refl, of B]
    by (simp add: br run_round_at [OF refl] Let_def)
qed

lemma transform_eq:
  assumes "length block = 16" "length h = 5"
  shows "fst (transform h block) = fips_compress h block"
proof -
  obtain b r where br: "fold run_round transform_rounds (block, h) = (b, r)"
    by (cases "fold run_round transform_rounds (block, h)") auto
  have "regs_rel 80 r (fips_steps block 80 (vars_of h))"
    using fold_rounds_rel [OF assms, of 80] br unfolding transform_rounds_eq by simp
  then have "length r = 5" "fips_steps block 80 (vars_of h) = vars_of r"
    by (simp_all add: regs_rel_def vars_of_def numeral_2_eq_2)
  moreover from \<open>length r = 5\<close> have "list_of_vars (vars_of r) = r"
    by (intro nth_equalityI) (auto simp: vars_of_def less_Suc_eq numeral_eq_Suc)
  ultimately show ?thesis
    by (simp add: transform_def br fips_compress_def)
qed

lemma length_snd_transform: "length block = 16 \<Longrightarrow> length h = 5 \<Longrightarrow> length (snd (transform h block)) = 16"
  using fold_rounds_rel [of block h 80]
  by (auto simp: transform_def transform_rounds_eq sched_rel_def split: prod.splits)

lemma length_make_block [simp]: "length (make_block p) = 16"
  by (simp add: make_block_def)

lemma length_fips_compress [simp]: "length h = 5 \<Longrightarrow> length (fips_compress h b) = 5"
  by (cases "fips_steps b 80 (vars_of h)") (auto simp: fips_compress_def)

section \<open>Absorbing a message in pieces\<close>

lemma fips_absorb_short: "length bs < 64 \<Longrightarrow> fips_absorb h bs = h"
  by (simp add: fips_absorb.simps)

lemma fips_absorb_block:
  "length bs = 64 \<Longrightarrow> fips_absorb h (bs @ cs) = fips_absorb (fips_compress h (make_block bs)) cs"
  by (subst fips_absorb.simps) simp

lemma fips_absorb_append:
  "64 dvd length xs \<Longrightarrow> fips_absorb h (xs @ ys) = fips_absorb (fips_absorb h xs) ys"
proof (induction h xs rule: fips_absorb.induct)
  case (1 h xs)
  show ?case
  proof (cases "length xs < 64")
    case True
    with 1 have "xs = []" by (auto dest: dvd_imp_le)
    then show ?thesis by (simp add: fips_absorb_short)
  next
    case False
    then have "fips_absorb h xs = fips_absorb (fips_compress h (make_block (take 64 xs))) (drop 64 xs)"
      by (subst fips_absorb.simps) simp
    moreover from False have "fips_absorb h (xs @ ys) =
        fips_absorb (fips_compress h (make_block (take 64 xs))) (drop 64 xs @ ys)"
      by (subst fips_absorb.simps) simp
    moreover have "64 dvd length (drop 64 xs)" using 1 by (simp add: dvd_minus_self)
    ultimately show ?thesis using 1 False by simp
  qed
qed

text \<open>A context stands for the message absorbed so far: whole blocks and an incomplete one.\<close>

definition ctx_repr :: "sha1_context \<Rightarrow> u8 list \<Rightarrow> u8 list \<Rightarrow> bool" where
  "ctx_repr ctx full tail \<longleftrightarrow>
     64 dvd length full \<and> length tail < 64 \<and> buflen ctx = length tail \<and> length (buf ctx) = 64 \<and>
     take (length tail) (buf ctx) = tail \<and> digest ctx = fips_absorb fips_init full \<and>
     blocks ctx = of_nat (length full div 64)"

lemma length_fips_absorb: "length h = 5 \<Longrightarrow> length (fips_absorb h xs) = 5"
proof (induction h xs rule: fips_absorb.induct)
  case (1 h xs)
  then show ?case by (subst fips_absorb.simps) simp
qed

lemma length_fips_init [simp]: "length (fips_absorb fips_init xs) = 5"
  by (rule length_fips_absorb) (simp add: fips_init_def)

lemma ctx_repr_init: "length g = 64 \<Longrightarrow> ctx_repr (sha1_init g) [] []"
  by (simp add: ctx_repr_def sha1_init_def fips_init_def fips_absorb_short)

lemma sha1_update_repr:
  "ctx_repr ctx full tail \<Longrightarrow>
    \<exists>full' tail'. full' @ tail' = full @ tail @ p \<and> ctx_repr (sha1_update ctx p) full' tail'"
proof (induction ctx p arbitrary: full tail rule: sha1_update.induct)
  case (1 ctx p)
  define n where "n = min (length p) (64 - buflen ctx)"
  define ctx1 where "ctx1 = ctx\<lparr>buf := take (buflen ctx) (buf ctx) @ take n p @ drop (buflen ctx + n) (buf ctx),
      buflen := buflen ctx + n\<rparr>"
  have r: "64 dvd length full" "length tail < 64" "buflen ctx = length tail" "length (buf ctx) = 64"
    "take (length tail) (buf ctx) = tail" "digest ctx = fips_absorb fips_init full"
    "blocks ctx = of_nat (length full div 64)"
    using 1(2) by (simp_all add: ctx_repr_def)
  have n_le: "n \<le> length p" "length tail + n \<le> 64" using r by (auto simp: n_def)
  have buf1: "take (length tail + n) (buf ctx1) = tail @ take n p" "length (buf ctx1) = 64"
    using r n_le by (simp_all add: ctx1_def)
  show ?case
  proof (cases "length tail + n = 64")
    case False
    then have n: "n = length p" "length tail + length p < 64" using r n_le by (auto simp: n_def)
    have "sha1_update ctx p = ctx1"
      using False r(3) by (subst sha1_update.simps) (simp add: ctx1_def n_def Let_def)
    moreover have "ctx_repr ctx1 full (tail @ p)"
      using r n buf1 by (simp add: ctx_repr_def ctx1_def)
    ultimately show ?thesis by (metis append.assoc)
  next
    case True
    define ctx2 where "ctx2 = ctx1\<lparr>buflen := 0,
        digest := fst (transform (digest ctx1) (make_block (buf ctx1))), blocks := blocks ctx1 + 1\<rparr>"
    have upd: "sha1_update ctx p = sha1_update ctx2 (drop n p)"
      using True r(3) by (subst sha1_update.simps) (simp add: ctx1_def ctx2_def n_def Let_def)
    have b: "buf ctx1 = tail @ take n p" using buf1 True by simp
    have "fips_absorb fips_init (full @ tail @ take n p) =
        fips_compress (fips_absorb fips_init full) (make_block (buf ctx1))"
      using fips_absorb_append [OF r(1), of fips_init "tail @ take n p"]
        fips_absorb_block [of "tail @ take n p" "fips_absorb fips_init full" "[]"] True n_le b
      by (simp add: fips_absorb_short)
    moreover have "length (full @ tail @ take n p) = length full + 64"
      using True n_le by simp
    ultimately have rep: "ctx_repr ctx2 (full @ tail @ take n p) []"
      using r buf1 by (simp add: ctx_repr_def ctx2_def transform_eq) (simp add: ctx1_def r transform_eq)
    have "\<not> buflen ctx + n \<noteq> 64" using True r(3) by simp
    from 1(1) [OF n_def ctx1_def this, folded ctx2_def, OF rep]
    show ?thesis unfolding upd by simp
  qed
qed

section \<open>Finishing\<close>

definition word_at :: "u8 list \<Rightarrow> nat \<Rightarrow> u32" where
  "word_at p i =
     (ucast (p ! (4 * i + 3)) :: u32) OR push_bit 8 (ucast (p ! (4 * i + 2)))
       OR push_bit 16 (ucast (p ! (4 * i + 1))) OR push_bit 24 (ucast (p ! (4 * i)))"

lemma make_block_word_at: "make_block p = map (word_at p) [0..<16]"
  by (simp add: make_block_def word_at_def)

lemma word_at_be_bytes: "word_at (be_bytes w) 0 = w"
proof (rule bit_word_eqI)
  fix n
  assume "n < LENGTH(32)"
  then consider "n < 8" | "8 \<le> n" "n < 16" | "16 \<le> n" "n < 24" | "24 \<le> n" "n < 32"
    by fastforce
  then show "bit (word_at (be_bytes w) 0) n = bit w n"
    by cases (auto simp: word_at_def be_bytes_def bit_simps)
qed

lemma length_be_bytes [simp]: "length (be_bytes w) = 4"
  by (simp add: be_bytes_def)

lemma word_at_append1: "4 * i + 3 < length x \<Longrightarrow> word_at (x @ y) i = word_at x i"
  by (simp add: word_at_def nth_append)

lemma word_at_append2: "length x = 4 * j \<Longrightarrow> word_at (x @ y) (j + i) = word_at y i"
  by (simp add: word_at_def nth_append algebra_simps)

lemma make_block_lengths:
  assumes "length x = 56" "length z = 8"
  shows "make_block (x @ be_bytes hi @ be_bytes lo) = (make_block (x @ z))[15 := lo, 14 := hi]"
proof (rule nth_equalityI)
  fix i
  assume "i < length (make_block (x @ be_bytes hi @ be_bytes lo))"
  then consider "i < 14" | "i = 14" | "i = 15" by fastforce
  then show "make_block (x @ be_bytes hi @ be_bytes lo) ! i = (make_block (x @ z))[15 := lo, 14 := hi] ! i"
  proof cases
    case 1
    then show ?thesis using assms by (simp add: make_block_word_at word_at_append1)
  next
    case 2
    then show ?thesis
      using assms word_at_append2 [of x 14 "be_bytes hi @ be_bytes lo" 0]
        word_at_append1 [of 0 "be_bytes hi" "be_bytes lo"]
      by (simp add: make_block_word_at word_at_be_bytes)
  next
    case 3
    then show ?thesis
      using assms word_at_append2 [of x 14 "be_bytes hi @ be_bytes lo" 1]
        word_at_append2 [of "be_bytes hi" 1 "be_bytes lo" 0]
      by (simp add: make_block_word_at word_at_be_bytes)
  qed
qed simp

lemma make_block_zero: "length z = 8 \<Longrightarrow> take 14 (make_block (replicate 56 0 @ z)) = replicate 14 0"
  by (rule nth_equalityI) (simp_all add: make_block_word_at word_at_def nth_append)

lemma total_bits_eq:
  assumes "64 dvd length full"
  shows "((of_nat (length full div 64) :: u64) * 64 + of_nat (length tail)) * 8 =
    of_nat (8 * length (full @ tail))"
proof -
  from assms obtain q where q: "length full = 64 * q" by blast
  then show ?thesis by (simp add: algebra_simps)
qed

lemma fips_pad_count:
  assumes "64 dvd length full" "length tail < 64"
  shows "(64 - (length (full @ tail) + 9) mod 64) mod 64 =
    (if length tail \<le> 55 then 55 - length tail else 119 - length tail)"
proof -
  from assms obtain q where q: "length full = 64 * q" by blast
  have "(length (full @ tail) + 9) mod 64 = (length tail + 9) mod 64"
    using mod_mult_self4 [of 64 q "length tail + 9"] by (simp add: q algebra_simps)
  moreover consider "length tail \<le> 54" | "length tail = 55" | "55 < length tail" by linarith
  then have "(64 - (length tail + 9) mod 64) mod 64 =
    (if length tail \<le> 55 then 55 - length tail else 119 - length tail)"
  proof cases
    case 3
    then have "(length tail + 9) mod 64 = length tail - 55"
      using assms(2) by (subst mod_if) simp
    with 3 show ?thesis using assms(2) by simp
  qed simp_all
  ultimately show ?thesis by simp
qed

lemma sha1_finish_short:
  assumes rep: "ctx_repr ctx full tail" and short: "length tail \<le> 55"
  shows "sha1_finish ctx = fips_sha1 (full @ tail)"
proof -
  let ?bits = "of_nat (8 * length (full @ tail)) :: u64"
  let ?x = "tail @ [0x80] @ replicate (55 - length tail) 0"
  have r: "64 dvd length full" "buflen ctx = length tail" "take (length tail) (buf ctx) = tail"
    "digest ctx = fips_absorb fips_init full" "blocks ctx = of_nat (length full div 64)"
    using rep by (simp_all add: ctx_repr_def)
  have tb: "(blocks ctx * 64 + of_nat (buflen ctx)) * 8 = ?bits"
    unfolding r(2,5) by (rule total_bits_eq [OF r(1)])
  have x: "length ?x = 56" using short by simp
  have "replicate (63 - length tail) (0 :: u8) = replicate (55 - length tail) 0 @ replicate 8 0"
    using short by (simp add: replicate_add [symmetric])
  then have "sha1_finish ctx = concat (map be_bytes (fips_compress (fips_absorb fips_init full)
      ((make_block (?x @ replicate 8 0))[15 := ucast ?bits, 14 := ucast (drop_bit 32 ?bits)])))"
    using short unfolding sha1_finish_def tb by (simp add: Let_def r transform_eq)
  also have "\<dots> = concat (map be_bytes (fips_compress (fips_absorb fips_init full)
      (make_block (?x @ be_bytes (ucast (drop_bit 32 ?bits)) @ be_bytes (ucast ?bits)))))"
    by (subst make_block_lengths [OF x, of "replicate 8 0"]) simp_all
  also have "\<dots> = fips_sha1 (full @ tail)"
    using fips_absorb_append [OF r(1), of fips_init "?x @ be_bytes (ucast (drop_bit 32 ?bits)) @ be_bytes (ucast ?bits)"]
      fips_absorb_block [of "?x @ be_bytes (ucast (drop_bit 32 ?bits)) @ be_bytes (ucast ?bits)"
        "fips_absorb fips_init full" "[]"] x short fips_pad_count [OF r(1), of tail]
    by (simp add: fips_sha1_def fips_pad_def Let_def fips_absorb_short)
  finally show ?thesis .
qed

lemma sha1_finish_long:
  assumes rep: "ctx_repr ctx full tail" and long: "55 < length tail"
  shows "sha1_finish ctx = fips_sha1 (full @ tail)"
proof -
  let ?bits = "of_nat (8 * length (full @ tail)) :: u64"
  let ?x = "tail @ [0x80] @ replicate (63 - length tail) 0"
  let ?L = "be_bytes (ucast (drop_bit 32 ?bits)) @ be_bytes (ucast ?bits)"
  let ?h = "fips_compress (fips_absorb fips_init full) (make_block ?x)"
  have r: "64 dvd length full" "buflen ctx = length tail" "take (length tail) (buf ctx) = tail"
    "digest ctx = fips_absorb fips_init full" "blocks ctx = of_nat (length full div 64)" "length tail < 64"
    using rep by (simp_all add: ctx_repr_def)
  have tb: "(blocks ctx * 64 + of_nat (buflen ctx)) * 8 = ?bits"
    unfolding r(2,5) by (rule total_bits_eq [OF r(1)])
  obtain d b where db: "transform (fips_absorb fips_init full) (make_block ?x) = (d, b)"
    by (cases "transform (fips_absorb fips_init full) (make_block ?x)")
  then have d: "d = ?h" and b: "length b = 16"
    using transform_eq [of "make_block ?x" "fips_absorb fips_init full"]
      length_snd_transform [of "make_block ?x" "fips_absorb fips_init full"] by simp_all
  have z: "(replicate 14 0 @ drop 14 b)[15 := lo, 14 := hi] =
      make_block (replicate 56 0 @ be_bytes hi @ be_bytes lo)" for hi lo
  proof -
    have "replicate 14 (0 :: u32) @ drop 14 b =
        take 14 (make_block (replicate 56 0 @ replicate 8 0)) @ drop 14 b"
      using make_block_zero [of "replicate 8 0"] by simp
    moreover have "make_block (replicate 56 0 @ be_bytes hi @ be_bytes lo) =
        (make_block (replicate 56 0 @ replicate 8 0))[15 := lo, 14 := hi]"
      by (rule make_block_lengths) simp_all
    moreover have "(take 14 xs @ drop 14 b)[15 := lo, 14 := hi] = xs[15 := lo, 14 := hi]"
      if "length xs = 16" for xs :: "u32 list"
      using that b by (intro nth_equalityI) (auto simp: nth_list_update nth_append)
    ultimately show ?thesis by simp
  qed
  have "sha1_finish ctx = concat (map be_bytes (fips_compress ?h (make_block (replicate 56 0 @ ?L))))"
    using long db d b z unfolding sha1_finish_def tb by (simp add: Let_def r transform_eq)
  moreover have "fips_pad (full @ tail) = full @ ?x @ replicate 56 0 @ ?L"
  proof -
    have "replicate (119 - length tail) (0 :: u8) = replicate (63 - length tail) 0 @ replicate 56 0"
      using long r(6) by (simp add: replicate_add [symmetric])
    then show ?thesis using long fips_pad_count [OF r(1,6)] by (simp add: fips_pad_def Let_def)
  qed
  moreover have "fips_absorb fips_init (full @ ?x @ replicate 56 0 @ ?L) =
      fips_compress ?h (make_block (replicate 56 0 @ ?L))"
    using fips_absorb_append [OF r(1), of fips_init "?x @ replicate 56 0 @ ?L"]
      fips_absorb_block [of ?x "fips_absorb fips_init full" "replicate 56 0 @ ?L"]
      fips_absorb_block [of "replicate 56 0 @ ?L" ?h "[]"] long r(6)
    by (simp add: fips_absorb_short)
  ultimately show ?thesis by (simp add: fips_sha1_def)
qed

lemma sha1_finish_eq: "ctx_repr ctx full tail \<Longrightarrow> sha1_finish ctx = fips_sha1 (full @ tail)"
  using sha1_finish_short sha1_finish_long by (metis not_le)

lemma sha1_pieces_repr:
  "ctx_repr ctx full tail \<Longrightarrow>
    \<exists>full' tail'. full' @ tail' = full @ tail @ concat ps \<and> ctx_repr (foldl sha1_update ctx ps) full' tail'"
proof (induction ps arbitrary: ctx full tail)
  case (Cons p ps)
  obtain f t where "f @ t = full @ tail @ p" "ctx_repr (sha1_update ctx p) f t"
    using sha1_update_repr [OF Cons.prems] by blast
  with Cons.IH [of "sha1_update ctx p" f t] show ?case by (metis append.assoc concat.simps(2) foldl_Cons)
qed auto

section \<open>Properties\<close>

text \<open>
  C17: The streaming SHA-1 computes the SHA-1 of FIPS 180-4: starting from any uninitialised
  buffer, absorbing a message in any sequence of pieces and finishing gives the digest of the
  concatenation of the pieces. In particular the in-place 16-word schedule with rotating register
  roles of the 80 unrolled rounds equals the 80-word schedule of the standard, and the padding of
  \<open>finish\<close> equals the standard padding in both the one-block and the two-block case.
\<close>

theorem sha1_streaming_correct:
  assumes "length garbage = 64"
  shows "sha1_finish (foldl sha1_update (sha1_init garbage) pieces) = fips_sha1 (concat pieces)"
proof -
  obtain full tail where "full @ tail = concat pieces"
    "ctx_repr (foldl sha1_update (sha1_init garbage) pieces) full tail"
    using sha1_pieces_repr [OF ctx_repr_init [OF assms], of pieces] by auto
  then show ?thesis using sha1_finish_eq by metis
qed

theorem sha1_streaming_correct_witness:
  "sha1_finish (foldl sha1_update (sha1_init (replicate 64 0)) [[0x61], [], [0x62, 0x63]]) =
    fips_sha1 [0x61, 0x62, 0x63]"
  using sha1_streaming_correct [of "replicate 64 0" "[[0x61], [], [0x62, 0x63]]"] by simp

end
