(* ===== verification/Std_Containers.thy ===== *)
theory Std_Containers
  imports Prelude
begin

text \<open>
  The ordered associative container the code uses (\<^verbatim>\<open>std::map\<close>: request headers, JSON
  objects, connected sessions) as a strictly sorted association list, since its iteration order
  is visible in the bytes the server sends. The interface the components rely on is the locale
  \<open>dict\<close>; the sorted list interprets it. \<^verbatim>\<open>std::unordered_map\<close> is modelled by the same type:
  the order in which the code iterates over it is one of the orders the language permits.
\<close>

section \<open>The interface\<close>

locale dict =
  fixes empty :: "'m"
    and find :: "'m \<Rightarrow> 'k \<Rightarrow> 'v option"
    and upd :: "'k \<Rightarrow> 'v \<Rightarrow> 'm \<Rightarrow> 'm"
    and erase :: "'k \<Rightarrow> 'm \<Rightarrow> 'm"
    and inv :: "'m \<Rightarrow> bool"
  assumes find_empty: "find empty k = None"
    and find_upd: "inv m \<Longrightarrow> find (upd k v m) = (find m)(k \<mapsto> v)"
    and find_erase: "inv m \<Longrightarrow> find (erase k m) = (find m)(k := None)"
    and inv_empty: "inv empty"
    and inv_upd: "inv m \<Longrightarrow> inv (upd k v m)"
    and inv_erase: "inv m \<Longrightarrow> inv (erase k m)"
begin

lemma find_upd_same: "inv m \<Longrightarrow> find (upd k v m) k = Some v"
  by (simp add: find_upd)

lemma find_upd_other: "inv m \<Longrightarrow> k' \<noteq> k \<Longrightarrow> find (upd k v m) k' = find m k'"
  by (simp add: find_upd)

lemma find_erase_same: "inv m \<Longrightarrow> find (erase k m) k = None"
  by (simp add: find_erase)

lemma find_erase_other: "inv m \<Longrightarrow> k' \<noteq> k \<Longrightarrow> find (erase k m) k' = find m k'"
  by (simp add: find_erase)

lemma dom_upd: "inv m \<Longrightarrow> dom (find (upd k v m)) = insert k (dom (find m))"
  by (simp add: find_upd)

lemma dom_erase: "inv m \<Longrightarrow> dom (find (erase k m)) = dom (find m) - {k}"
  by (simp add: find_erase)

lemma upd_erase: "inv m \<Longrightarrow> find (erase k (upd k v m)) = (find m)(k := None)"
  by (simp add: find_erase find_upd inv_upd)

end

section \<open>Sorted association lists\<close>

type_synonym ('k, 'v) smap = "('k \<times> 'v) list"

fun sm_find :: "('k::linorder, 'v) smap \<Rightarrow> 'k \<Rightarrow> 'v option" where
  "sm_find [] k = None"
| "sm_find ((k', v) # m) k = (if k = k' then Some v else sm_find m k)"

fun sm_upd :: "'k::linorder \<Rightarrow> 'v \<Rightarrow> ('k, 'v) smap \<Rightarrow> ('k, 'v) smap" where
  "sm_upd k v [] = [(k, v)]"
| "sm_upd k v ((k', v') # m) =
     (if k < k' then (k, v) # (k', v') # m
      else if k = k' then (k, v) # m
      else (k', v') # sm_upd k v m)"

fun sm_erase :: "'k::linorder \<Rightarrow> ('k, 'v) smap \<Rightarrow> ('k, 'v) smap" where
  "sm_erase k [] = []"
| "sm_erase k ((k', v) # m) = (if k = k' then m else (k', v) # sm_erase k m)"

definition sm_inv :: "('k::linorder, 'v) smap \<Rightarrow> bool" where
  "sm_inv m = sorted_wrt (<) (map fst m)"

definition sm_keys :: "('k::linorder, 'v) smap \<Rightarrow> 'k list" where
  "sm_keys m = map fst m"

text \<open>\<^verbatim>\<open>emplace\<close> inserts only where the key is absent.\<close>

definition sm_emplace :: "'k::linorder \<Rightarrow> 'v \<Rightarrow> ('k, 'v) smap \<Rightarrow> ('k, 'v) smap" where
  "sm_emplace k v m = (case sm_find m k of None \<Rightarrow> sm_upd k v m | Some _ \<Rightarrow> m)"

lemma sm_find_None_iff: "sm_find m k = None \<longleftrightarrow> k \<notin> fst ` set m"
  by (induction m k rule: sm_find.induct) auto

lemma sm_find_greater: "\<forall>x \<in> set (map fst m). k < x \<Longrightarrow> sm_find m k = None"
  by (auto simp: sm_find_None_iff)

lemma sm_find_upd: "sm_find (sm_upd k v m) = (sm_find m)(k \<mapsto> v)"
  by (induction m) auto

lemma fst_set_sm_upd: "fst ` set (sm_upd k v m) = insert k (fst ` set m)"
  by (induction k v m rule: sm_upd.induct) auto

lemma sm_inv_upd: "sm_inv m \<Longrightarrow> sm_inv (sm_upd k v m)"
proof (induction m)
  case (Cons a m)
  then show ?case
    using fst_set_sm_upd [of k v m] by (cases a) (auto simp: sm_inv_def)
qed (simp add: sm_inv_def)

lemma set_sm_erase_subset: "set (sm_erase k m) \<subseteq> set m"
  by (induction k m rule: sm_erase.induct) auto

lemma sm_inv_erase: "sm_inv m \<Longrightarrow> sm_inv (sm_erase k m)"
proof (induction m)
  case (Cons a m)
  then show ?case
    using set_sm_erase_subset [of k m] by (cases a) (auto simp: sm_inv_def)
qed simp

lemma sm_find_erase: "sm_inv m \<Longrightarrow> sm_find (sm_erase k m) = (sm_find m)(k := None)"
proof (induction m)
  case (Cons a m)
  obtain k' v where a: "a = (k', v)" by (cases a)
  from Cons.prems a have "sm_find m k' = None"
    by (intro sm_find_greater) (auto simp: sm_inv_def)
  with Cons a show ?case by (auto simp: sm_inv_def fun_eq_iff)
qed auto

interpretation sm: dict "[] :: ('k::linorder, 'v) smap" sm_find sm_upd sm_erase sm_inv
  by unfold_locales
    (simp_all add: sm_find_upd sm_find_erase sm_inv_upd sm_inv_erase, simp add: sm_inv_def)

lemma sm_inv_Nil [simp]: "sm_inv []"
  by (rule sm.inv_empty)

lemma sm_inv_emplace: "sm_inv m \<Longrightarrow> sm_inv (sm_emplace k v m)"
  by (simp add: sm_emplace_def sm_inv_upd split: option.split)

lemma sm_find_emplace:
  "sm_find (sm_emplace k v m) k' =
     (if k' = k \<and> sm_find m k = None then Some v else sm_find m k')"
  by (auto simp: sm_emplace_def sm_find_upd split: option.split)

lemma in_sm_keys_iff: "k \<in> set (sm_keys m) \<longleftrightarrow> sm_find m k \<noteq> None"
  by (simp add: sm_keys_def sm_find_None_iff)

lemma sm_erase_Nil_iff: "sm_inv m \<Longrightarrow> sm_erase k m = [] \<longleftrightarrow> (\<forall>k'. k' \<noteq> k \<longrightarrow> sm_find m k' = None)"
proof
  assume inv: "sm_inv m" and e: "sm_erase k m = []"
  from sm.find_erase [OF inv, of k] e show "\<forall>k'. k' \<noteq> k \<longrightarrow> sm_find m k' = None"
    by (auto simp: fun_eq_iff split: if_splits)
next
  assume inv: "sm_inv m" and none: "\<forall>k'. k' \<noteq> k \<longrightarrow> sm_find m k' = None"
  show "sm_erase k m = []"
  proof (cases "sm_erase k m")
    case (Cons a as)
    then have "sm_find (sm_erase k m) (fst a) \<noteq> None"
      by (cases a) simp
    with none sm.find_erase [OF inv, of k] show ?thesis
      by (metis fun_upd_apply)
  qed
qed

end
