(* ===== verification/Inspector_Http.thy ===== *)
theory Inspector_Http
  imports Inspector_Utils Sha1 Std_Containers
begin

text \<open>
  The HTTP side of the inspector: from \<^verbatim>\<open>src/src/inspector/inspector_socket.cpp\<close> the
  request accumulation of \<open>HttpHandler\<close> (the callbacks that the vendored llhttp parser invokes),
  the host check and the handshake replies; from \<^verbatim>\<open>src/src/inspector/inspector_socket_server.cpp\<close>
  the formatting of addresses and JSON and the matching of request paths. The parser itself is not
  modelled: its observable behaviour here is the sequence of callbacks it makes.
\<close>

section \<open>Hosts\<close>

fun rfind :: "char \<Rightarrow> string \<Rightarrow> nat option" where
  "rfind c [] = None"
| "rfind c (x # xs) =
     (case rfind c xs of Some i \<Rightarrow> Some (Suc i) | None \<Rightarrow> if x = c then Some 0 else None)"

definition TrimPort :: "string \<Rightarrow> string" where
  "TrimPort host =
     (case rfind CHR '':'' host of
        None \<Rightarrow> host
      | Some last_colon_pos \<Rightarrow>
          (case rfind CHR '']'' host of
             None \<Rightarrow> take last_colon_pos host
           | Some bracket \<Rightarrow> if last_colon_pos > bracket then take last_colon_pos host else host))"

definition isdigit :: "char \<Rightarrow> bool" where
  "isdigit c = (CHR ''0'' \<le> c \<and> c \<le> CHR ''9'')"

fun count_quads :: "string \<Rightarrow> nat \<Rightarrow> nat option" where
  "count_quads [] quads = Some quads"
| "count_quads (c # cs) quads =
     (if c = CHR ''.'' then count_quads cs (quads + 1)
      else if \<not> isdigit c then None
      else count_quads cs quads)"

definition IsIPAddress :: "string \<Rightarrow> bool" where
  "IsIPAddress host =
     (if length host \<ge> 4 \<and> hd host = CHR ''['' \<and> last host = CHR '']'' then True
      else count_quads host 0 = Some 3)"

definition IsAllowedHost :: "string \<Rightarrow> bool" where
  "IsAllowedHost host_with_port =
     (let host = TrimPort host_with_port
      in host = [] \<or> IsIPAddress host \<or> StringEqualNoCase host ''localhost''
         \<or> StringEqualNoCase host ''localhost6'')"

section \<open>Requests\<close>

record HttpEvent =
  path :: string
  upgrade :: bool
  isGET :: bool
  ws_key :: string
  ev_host :: string

record HttpHandler =
  parsing_value :: bool
  events :: "HttpEvent list"
  current_header :: string
  headers :: "(string, string) smap"
  hpath :: string

definition HttpHandler_init :: HttpHandler where
  "HttpHandler_init =
     \<lparr>parsing_value = False, events = [], current_header = [], headers = [], hpath = []\<rparr>"

definition header_at :: "(string, string) smap \<Rightarrow> string \<Rightarrow> string" where
  "header_at hs k = (case sm_find hs k of None \<Rightarrow> [] | Some v \<Rightarrow> v)"

text \<open>\<open>headers_[current_header_].append(at, length)\<close>: the subscript inserts an empty value first.\<close>

definition OnHeaderValue :: "string \<Rightarrow> HttpHandler \<Rightarrow> HttpHandler" where
  "OnHeaderValue s h =
     h\<lparr>parsing_value := True,
       headers := sm_upd (current_header h) (header_at (headers h) (current_header h) @ s) (headers h)\<rparr>"

definition OnHeaderField :: "string \<Rightarrow> HttpHandler \<Rightarrow> HttpHandler" where
  "OnHeaderField s h =
     (let h1 = (if parsing_value h then h\<lparr>parsing_value := False, current_header := []\<rparr> else h)
      in h1\<lparr>current_header := current_header h1 @ s\<rparr>)"

definition OnPath :: "string \<Rightarrow> HttpHandler \<Rightarrow> HttpHandler" where
  "OnPath s h = h\<lparr>hpath := hpath h @ s\<rparr>"

fun header_scan :: "(string \<times> string) list \<Rightarrow> string \<Rightarrow> bool \<Rightarrow> string \<Rightarrow> string" where
  "header_scan [] header header_found val = val"
| "header_scan ((k, v) # hs) header header_found val =
     (if StringEqualNoCaseN k header (length header)
      then (if header_found then [] else header_scan hs header True v)
      else header_scan hs header header_found val)"

definition HeaderValue :: "HttpHandler \<Rightarrow> string \<Rightarrow> string" where
  "HeaderValue h header = header_scan (headers h) header False []"

definition OnMessageComplete :: "bool \<Rightarrow> bool \<Rightarrow> HttpHandler \<Rightarrow> HttpHandler" where
  "OnMessageComplete parser_upgrade method_is_get h =
     h\<lparr>events := events h @
          [\<lparr>path = hpath h, upgrade = parser_upgrade, isGET = method_is_get,
            ws_key = HeaderValue h ''Sec-WebSocket-Key'', ev_host = HeaderValue h ''Host''\<rparr>],
       hpath := [], parsing_value := False, headers := [], current_header := []\<rparr>"

text \<open>The callbacks of the parser, as a sequence.\<close>

datatype parser_cb = CbPath string | CbField string | CbValue string | CbComplete bool bool

primrec run_cb :: "parser_cb \<Rightarrow> HttpHandler \<Rightarrow> HttpHandler" where
  "run_cb (CbPath s) h = OnPath s h"
| "run_cb (CbField s) h = OnHeaderField s h"
| "run_cb (CbValue s) h = OnHeaderValue s h"
| "run_cb (CbComplete u g) h = OnMessageComplete u g h"

text \<open>What \<open>HttpHandler::OnData\<close> does with one event.\<close>

datatype http_action = ActCancel | ActGet string string | ActUpgrade string string string

definition http_action :: "HttpEvent \<Rightarrow> http_action" where
  "http_action event =
     (if \<not> IsAllowedHost (ev_host event) \<or> \<not> isGET event then ActCancel
      else if \<not> upgrade event then ActGet (ev_host event) (path event)
      else if ws_key event = [] then ActCancel
      else ActUpgrade (ev_host event) (path event) (ws_key event))"

section \<open>Handshake replies\<close>

definition crlf :: string where
  "crlf = [CHR 0x0D, CHR 0x0A]"

definition ws_magic :: string where
  "ws_magic = ''258EAFA5-E914-47DA-95CA-C5AB0DC85B11''"

definition ACCEPT_KEY_LENGTH :: nat where
  "ACCEPT_KEY_LENGTH = base64_encoded_size 20"

definition generate_accept_string :: "string \<Rightarrow> string res" where
  "generate_accept_string client_key =
     (let input = bytes_of_string (client_key @ ws_magic);
          dig = sha1_finish (sha1_update (sha1_init (replicate 64 0)) input)
      in bind_res (base64_encode dig (replicate ACCEPT_KEY_LENGTH (CHR 0x00)))
           (\<lambda>(n, buffer). Inr buffer))"

definition accept_ws_prefix :: string where
  "accept_ws_prefix =
     ''HTTP/1.1 101 Switching Protocols'' @ crlf @ ''Upgrade: websocket'' @ crlf @
     ''Connection: Upgrade'' @ crlf @ ''Sec-WebSocket-Accept: ''"

definition accept_reply :: "string \<Rightarrow> string res" where
  "accept_reply accept_key =
     bind_res (generate_accept_string accept_key) (\<lambda>accept_string.
       Inr (accept_ws_prefix @ accept_string @ crlf @ crlf))"

definition HANDSHAKE_FAILED_RESPONSE :: string where
  "HANDSHAKE_FAILED_RESPONSE =
     ''HTTP/1.0 400 Bad Request'' @ crlf @ ''Content-Type: text/html; charset=UTF-8'' @ crlf @ crlf @
     ''WebSockets request was expected'' @ crlf"

section \<open>Addresses and JSON\<close>

definition Escape :: "string \<Rightarrow> string" where
  "Escape s = map (\<lambda>c. if c = CHR 0x22 \<or> c = CHR 0x5C then CHR ''_'' else c) s"

fun show_nat :: "nat \<Rightarrow> string" where
  "show_nat n =
     (if n < 10 then [char_of (48 + n)] else show_nat (n div 10) @ [char_of (48 + n mod 10)])"

declare show_nat.simps [simp del]

definition show_int :: "int \<Rightarrow> string" where
  "show_int i = (if i < 0 then CHR ''-'' # show_nat (nat (- i)) else show_nat (nat i))"

definition FormatHostPort :: "string \<Rightarrow> int \<Rightarrow> string" where
  "FormatHostPort host port =
     (let v6 = CHR '':'' \<in> set host
      in (if v6 then ''['' else []) @ host @ (if v6 then '']'' else []) @ '':'' @ show_int port)"

definition FormatAddress :: "string \<Rightarrow> string \<Rightarrow> bool \<Rightarrow> string" where
  "FormatAddress host target_id include_protocol =
     (if include_protocol then ''ws://'' else []) @ host @ ''/'' @ target_id"

definition FormatWsAddress :: "string \<Rightarrow> int \<Rightarrow> string \<Rightarrow> bool \<Rightarrow> string" where
  "FormatWsAddress host port target_id include_protocol =
     FormatAddress (FormatHostPort host port) target_id include_protocol"

definition nl :: string where "nl = [CHR 0x0A]"
definition dq :: string where "dq = [CHR 0x22]"

fun map_entries :: "bool \<Rightarrow> (string \<times> string) list \<Rightarrow> string" where
  "map_entries first [] = []"
| "map_entries first ((k, v) # kvs) =
     (if first then [] else '','' @ nl) @ ''  '' @ dq @ k @ dq @ '': '' @ dq @ v @ dq
       @ map_entries False kvs"

definition MapToString :: "(string, string) smap \<Rightarrow> string" where
  "MapToString m = ''{'' @ nl @ map_entries True m @ nl @ ''} ''"

fun maps_entries :: "bool \<Rightarrow> (string, string) smap list \<Rightarrow> string" where
  "maps_entries first [] = []"
| "maps_entries first (m # ms) =
     (if first then [] else '', '') @ MapToString m @ maps_entries False ms"

definition MapsToString :: "(string, string) smap list \<Rightarrow> string" where
  "MapsToString array = ''[ '' @ maps_entries True array @ '']'' @ nl @ nl"

definition GetFrontendURL :: "bool \<Rightarrow> string \<Rightarrow> string" where
  "GetFrontendURL is_compat formatted_address =
     ''devtools://devtools/bundled/'' @ (if is_compat then ''inspector'' else ''node_app'')
       @ ''.html?experiments=true&v8only=true&ws='' @ formatted_address"

definition http_headers :: "nat \<Rightarrow> string" where
  "http_headers n =
     ''HTTP/1.0 200 OK'' @ crlf @ ''Content-Type: application/json; charset=UTF-8'' @ crlf @
     ''Cache-Control: no-cache'' @ crlf @ ''Content-Length: '' @ show_nat n @ crlf @ crlf"

text \<open>The two messages \<open>SendHttpResponse\<close> writes.\<close>

definition SendHttpResponse :: "string \<Rightarrow> string list" where
  "SendHttpResponse response = [http_headers (length response), response]"

definition SendVersionResponse :: "string list" where
  "SendVersionResponse =
     SendHttpResponse (MapToString
       (sm_upd ''Protocol-Version'' ''1.1'' (sm_upd ''Browser'' ''node.js v12.0.0'' [])))"

definition SendProtocolJson :: "string list" where
  "SendProtocolJson = SendHttpResponse ''TBD''"

definition target_map :: "string \<Rightarrow> string \<Rightarrow> string \<Rightarrow> string \<Rightarrow> (string, string) smap" where
  "target_map tid title url detected_host =
     (let formatted_address = FormatAddress detected_host tid False;
          m1 = sm_upd ''description'' ''node.js instance'' [];
          m2 = sm_upd ''faviconUrl'' ''https://nodejs.org/static/favicon.ico'' m1;
          m3 = sm_upd ''id'' tid m2;
          m4 = sm_upd ''title'' (Escape title) m3;
          m5 = sm_upd ''type'' ''node'' m4;
          m6 = sm_upd ''url'' (Escape url) m5;
          m7 = sm_upd ''devtoolsFrontendUrl'' (GetFrontendURL False formatted_address) m6;
          m8 = sm_upd ''devtoolsFrontendUrlCompat'' (GetFrontendURL True formatted_address) m7
      in sm_upd ''webSocketDebuggerUrl'' (FormatAddress detected_host tid True) m8)"

section \<open>Request paths\<close>

definition MatchPathSegment :: "string \<Rightarrow> string \<Rightarrow> string option" where
  "MatchPathSegment p expected =
     (let len = length expected
      in if StringEqualNoCaseN p expected len then
           (if c_head (drop len p) = CHR ''/'' \<or> c_head (drop len p) = CHR ''?''
              then Some (drop (len + 1) p)
            else if c_head (drop len p) = CHR 0x00 then Some (drop len p)
            else None)
         else None)"

datatype get_command = ListCmd | ProtocolCmd | VersionCmd

definition get_command :: "string \<Rightarrow> get_command option" where
  "get_command p =
     (case MatchPathSegment p ''/json'' of
        None \<Rightarrow> None
      | Some command \<Rightarrow>
          if MatchPathSegment command ''list'' \<noteq> None \<or> c_head command = CHR 0x00 then Some ListCmd
          else if MatchPathSegment command ''protocol'' \<noteq> None then Some ProtocolCmd
          else if MatchPathSegment command ''version'' \<noteq> None then Some VersionCmd
          else None)"

section \<open>Lemmas\<close>

lemma length_concat_be_bytes: "length (concat (map be_bytes ws)) = 4 * length ws"
  by (induction ws) auto

lemma length_fips_sha1 [simp]: "length (fips_sha1 m) = 20"
  by (simp add: fips_sha1_def length_concat_be_bytes)

lemma sha1_one_piece:
  "sha1_finish (sha1_update (sha1_init (replicate 64 0)) m) = fips_sha1 m"
proof -
  obtain f t where "f @ t = [] @ [] @ m" "ctx_repr (sha1_update (sha1_init (replicate 64 0)) m) f t"
    using sha1_update_repr [OF ctx_repr_init [of "replicate 64 0"], of m] by auto
  then show ?thesis using sha1_finish_eq by fastforce
qed

lemma generate_accept_string_eq:
  "generate_accept_string key = Inr (b64_spec (fips_sha1 (bytes_of_string (key @ ws_magic))))"
  using base64_encode_eq [of "fips_sha1 (bytes_of_string (key @ ws_magic))" "replicate ACCEPT_KEY_LENGTH (CHR 0x00)"]
  by (simp add: generate_accept_string_def Let_def sha1_one_piece ACCEPT_KEY_LENGTH_def)

lemma count_quads_eq:
  "count_quads s q = (if \<forall>c \<in> set s. c = CHR ''.'' \<or> isdigit c then Some (q + count_list s CHR ''.'') else None)"
  by (induction s q rule: count_quads.induct) auto

lemma TrimPort_subset: "set (TrimPort h) \<subseteq> set h"
  by (auto simp: TrimPort_def dest: in_set_takeD split: option.splits if_splits)

lemma IsAllowedHost_iff:
  assumes "CHR 0x00 \<notin> set h"
  shows "IsAllowedHost h \<longleftrightarrow>
    (let host = TrimPort h in
     host = [] \<or>
     (4 \<le> length host \<and> hd host = CHR ''['' \<and> last host = CHR '']'') \<or>
     ((\<forall>c \<in> set host. c = CHR ''.'' \<or> isdigit c) \<and> count_list host CHR ''.'' = 3) \<or>
     ToLower host \<in> {''localhost'', ''localhost6''})"
proof -
  have nul: "CHR 0x00 \<notin> set (TrimPort h)" using assms TrimPort_subset [of h] by blast
  have lower: "ToLower ''localhost'' = ''localhost''" "ToLower ''localhost6'' = ''localhost6''"
    by (simp_all add: ToLower_def ToLower_char_def less_eq_char_def)
  show ?thesis
    using StringEqualNoCase_iff [OF nul, of "''localhost''"]
      StringEqualNoCase_iff [OF nul, of "''localhost6''"]
    by (simp add: IsAllowedHost_def IsIPAddress_def count_quads_eq Let_def lower) blast
qed

text \<open>Header fragments.\<close>

definition header_cbs :: "string list \<times> string list \<Rightarrow> parser_cb list" where
  "header_cbs fv = map CbField (fst fv) @ map CbValue (snd fv)"

definition add_header :: "(string, string) smap \<Rightarrow> string \<Rightarrow> string \<Rightarrow> (string, string) smap" where
  "add_header m k v = sm_upd k (header_at m k @ v) m"

lemma fold_fields:
  "fold run_cb (map CbField (f # fs)) h =
    h\<lparr>parsing_value := False,
      current_header := (if parsing_value h then [] else current_header h) @ concat (f # fs)\<rparr>"
proof (induction fs arbitrary: f h)
  case Nil
  show ?case by (cases "parsing_value h") (simp_all add: OnHeaderField_def Let_def)
next
  case (Cons g fs)
  have "fold run_cb (map CbField (f # g # fs)) h = fold run_cb (map CbField (g # fs)) (OnHeaderField f h)"
    by simp
  also have "\<dots> = h\<lparr>parsing_value := False,
      current_header := (if parsing_value h then [] else current_header h) @ concat (f # g # fs)\<rparr>"
    unfolding Cons by (simp add: OnHeaderField_def Let_def)
  finally show ?case .
qed

lemma sm_upd_upd: "sm_upd k v' (sm_upd k v m) = sm_upd k v' m"
  by (induction k v m rule: sm_upd.induct) auto

lemma header_at_upd_same: "header_at (sm_upd k v m) k = v"
  by (simp add: header_at_def sm_find_upd)

lemma fold_values:
  "fold run_cb (map CbValue (v # vs)) h =
    h\<lparr>parsing_value := True, headers := add_header (headers h) (current_header h) (concat (v # vs))\<rparr>"
proof (induction vs arbitrary: v h)
  case Nil
  show ?case by (simp add: OnHeaderValue_def add_header_def)
next
  case (Cons w vs)
  have "fold run_cb (map CbValue (v # w # vs)) h = fold run_cb (map CbValue (w # vs)) (OnHeaderValue v h)"
    by simp
  also have "\<dots> = h\<lparr>parsing_value := True,
      headers := add_header (headers h) (current_header h) (concat (v # w # vs))\<rparr>"
    unfolding Cons
    by (simp add: OnHeaderValue_def add_header_def sm_upd_upd header_at_upd_same)
  finally show ?case .
qed

lemma fold_header:
  assumes "fst fv \<noteq> []" "snd fv \<noteq> []" "\<not> parsing_value h \<Longrightarrow> current_header h = []"
  shows "fold run_cb (header_cbs fv) h =
    h\<lparr>parsing_value := True, current_header := concat (fst fv),
      headers := add_header (headers h) (concat (fst fv)) (concat (snd fv))\<rparr>"
proof -
  obtain f fs v vs where fv: "fv = (f # fs, v # vs)"
    using assms(1,2) by (cases fv) (auto simp: neq_Nil_conv)
  have "fold run_cb (header_cbs fv) h =
      fold run_cb (map CbValue (v # vs)) (fold run_cb (map CbField (f # fs)) h)"
    by (simp add: fv header_cbs_def)
  then show ?thesis
    unfolding fold_fields fold_values using assms(3) by (auto simp: fv)
qed

lemma fold_headers:
  assumes "\<forall>fv \<in> set fvs. fst fv \<noteq> [] \<and> snd fv \<noteq> []" "\<not> parsing_value h \<Longrightarrow> current_header h = []"
  shows "headers (fold run_cb (concat (map header_cbs fvs)) h) =
      foldl (\<lambda>m fv. add_header m (concat (fst fv)) (concat (snd fv))) (headers h) fvs \<and>
    hpath (fold run_cb (concat (map header_cbs fvs)) h) = hpath h \<and>
    events (fold run_cb (concat (map header_cbs fvs)) h) = events h"
  using assms
proof (induction fvs arbitrary: h)
  case (Cons fv fvs)
  have step: "fold run_cb (header_cbs fv) h =
      h\<lparr>parsing_value := True, current_header := concat (fst fv),
        headers := add_header (headers h) (concat (fst fv)) (concat (snd fv))\<rparr>"
    using Cons.prems by (intro fold_header) auto
  show ?case
    using Cons.prems(1) Cons.IH [of "fold run_cb (header_cbs fv) h"] by (simp add: step)
qed simp

lemma fold_path: "fold run_cb (map CbPath ps) h = h\<lparr>hpath := hpath h @ concat ps\<rparr>"
  by (induction ps arbitrary: h) (simp_all add: OnPath_def)

section \<open>Properties\<close>

text \<open>
  The handshake answer is the one of RFC 6455: the accept string of a client key is the
  base64 form of the SHA-1 of the key followed by the protocol's magic string, it fills the
  28-character buffer exactly, and no step of the computation leaves its buffers.
\<close>

theorem accept_string_correct:
  "\<exists>acc. generate_accept_string key = Inr acc \<and> length acc = ACCEPT_KEY_LENGTH \<and>
    b64_decode acc = Some (fips_sha1 (bytes_of_string (key @ ws_magic)))"
  by (simp add: generate_accept_string_eq length_b64_spec ACCEPT_KEY_LENGTH_def b64_decode_spec)



text \<open>
  How the parser cuts header names, header values and the path into fragments does not
  matter: for a request whose path and headers arrive in any non-empty fragments, the event that
  is queued at the end of the message has the whole path, and its key and host are looked up in
  the table that adds the whole header values, in order, under the whole header names; and the
  handler is then ready for the next request.
\<close>

theorem request_fragmentation:
  assumes "\<forall>fv \<in> set fvs. fst fv \<noteq> [] \<and> snd fv \<noteq> []"
    and "table = foldl (\<lambda>m fv. add_header m (concat (fst fv)) (concat (snd fv))) [] fvs"
  shows "fold run_cb (map CbPath ps @ concat (map header_cbs fvs) @ [CbComplete u g]) HttpHandler_init =
    HttpHandler_init\<lparr>events :=
      [\<lparr>path = concat ps, upgrade = u, isGET = g,
        ws_key = header_scan table ''Sec-WebSocket-Key'' False [],
        ev_host = header_scan table ''Host'' False []\<rparr>]\<rparr>"
proof -
  let ?h = "HttpHandler_init\<lparr>hpath := concat ps\<rparr>"
  have "fold run_cb (map CbPath ps) HttpHandler_init = ?h"
    by (simp add: fold_path HttpHandler_init_def)
  then show ?thesis
    using fold_headers [OF assms(1), of ?h]
    by (simp add: OnMessageComplete_def HeaderValue_def HttpHandler_init_def assms(2))
qed

theorem request_fragmentation_witness:
  "fold run_cb [CbPath ''/a'', CbPath ''b'', CbField ''Ho'', CbField ''st'', CbValue ''x'',
      CbValue ''y'', CbComplete False True] HttpHandler_init =
    HttpHandler_init\<lparr>events :=
      [\<lparr>path = ''/ab'', upgrade = False, isGET = True, ws_key = [], ev_host = ''xy''\<rparr>]\<rparr>"
proof -
  let ?t = "[(''Host'', ''xy'')]"
  have scan: "header_scan ?t ''Sec-WebSocket-Key'' False [] = []" "header_scan ?t ''Host'' False [] = ''xy''"
    by code_simp+
  have t: "?t = foldl (\<lambda>m fv. add_header m (concat (fst fv)) (concat (snd fv))) []
      [([''Ho'', ''st''], [''x'', ''y''])]"
    by (simp add: add_header_def header_at_def)
  show ?thesis
    using request_fragmentation [OF _ t, of "[''/a'', ''b'']" False True]
    by (simp add: header_cbs_def scan del: header_scan.simps run_cb.simps)
qed

end
