(* ===== verification/Inspector_Tcp.thy ===== *)
theory Inspector_Tcp
  imports Prelude "HOL-Library.Sublist"
begin

text \<open>
  The write side of a connection, \<^verbatim>\<open>src/src/inspector/inspector_tcp.cpp\<close>: messages are
  queued and sent one at a time, each completion of an asynchronous send starting the next one; an
  empty message is the request to close the connection. The asio library is represented by the
  completion codes it delivers. What the protocol handlers rely on is the locale
  \<open>ordered_writer\<close>: messages leave in the order in which they were written, none is lost or
  duplicated, and none stays behind while the connection is idle.
\<close>

section \<open>The contract of a writer\<close>

datatype 'm writer_op = WriteOp 'm | CompleteOp

primrec op_messages :: "'m writer_op \<Rightarrow> 'm list" where
  "op_messages (WriteOp m) = [m]"
| "op_messages CompleteOp = []"

primrec exec_op :: "('m \<Rightarrow> 's \<Rightarrow> 's) \<Rightarrow> ('s \<Rightarrow> 's) \<Rightarrow> ('s \<Rightarrow> bool) \<Rightarrow> 'm writer_op \<Rightarrow> 's \<Rightarrow> 's" where
  "exec_op push complete busy (WriteOp m) s = push m s"
| "exec_op push complete busy CompleteOp s = (if busy s then complete s else s)"

locale ordered_writer =
  fixes push :: "'m \<Rightarrow> 's \<Rightarrow> 's"
    and complete :: "'s \<Rightarrow> 's"
    and busy :: "'s \<Rightarrow> bool"
    and sent :: "'s \<Rightarrow> 'm list"
    and pending :: "'s \<Rightarrow> 'm list"
    and inv :: "'s \<Rightarrow> bool"
  assumes push_keeps: "inv s \<Longrightarrow> sent (push m s) @ pending (push m s) = sent s @ pending s @ [m]"
    and complete_keeps: "inv s \<Longrightarrow> busy s \<Longrightarrow> sent (complete s) @ pending (complete s) = sent s @ pending s"
    and complete_progress: "inv s \<Longrightarrow> busy s \<Longrightarrow> pending (complete s) = tl (pending s)"
    and idle_empty: "inv s \<Longrightarrow> \<not> busy s \<Longrightarrow> pending s = []"
    and inv_push: "inv s \<Longrightarrow> inv (push m s)"
    and inv_complete: "inv s \<Longrightarrow> busy s \<Longrightarrow> inv (complete s)"
begin

abbreviation run_op :: "'m writer_op \<Rightarrow> 's \<Rightarrow> 's" where
  "run_op \<equiv> exec_op push complete busy"

lemma inv_exec: "inv s \<Longrightarrow> inv (run_op op s)"
  by (cases op) (simp_all add: inv_push inv_complete)

lemma exec_keeps:
  "inv s \<Longrightarrow> sent (run_op op s) @ pending (run_op op s) = sent s @ pending s @ op_messages op"
  by (cases op) (simp_all add: push_keeps complete_keeps)

lemma inv_run: "inv s \<Longrightarrow> inv (fold run_op ops s)"
  by (induction ops arbitrary: s) (simp_all add: inv_exec)

lemma run_keeps:
  "inv s \<Longrightarrow> sent (fold run_op ops s) @ pending (fold run_op ops s) =
    sent s @ pending s @ concat (map op_messages ops)"
proof (induction ops arbitrary: s)
  case (Cons op ops)
  then show ?case using exec_keeps [of s op] inv_exec [of s op] by simp
qed simp

lemma run_prefix:
  "inv s \<Longrightarrow> prefix (sent (fold run_op ops s)) (sent s @ pending s @ concat (map op_messages ops))"
  using run_keeps [of s ops] by (metis prefixI)

lemma run_idle:
  "inv s \<Longrightarrow> \<not> busy (fold run_op ops s) \<Longrightarrow>
    sent (fold run_op ops s) = sent s @ pending s @ concat (map op_messages ops)"
  using run_keeps [of s ops] idle_empty [OF inv_run, of s ops] by simp

text \<open>Enough completions flush everything.\<close>

lemma exec_complete_pending:
  "inv s \<Longrightarrow> pending (run_op CompleteOp s) = tl (pending s)"
  using idle_empty [of s] by (simp add: complete_progress)

lemma flush:
  "inv s \<Longrightarrow> length (pending s) \<le> n \<Longrightarrow>
    pending (fold run_op (replicate n CompleteOp) s) = []"
proof (induction n arbitrary: s)
  case (Suc n)
  then show ?case
    using exec_complete_pending [of s] inv_exec [of s CompleteOp]
    by (simp del: exec_op.simps)
qed simp

lemma flush_sent:
  "inv s \<Longrightarrow> length (pending s) \<le> n \<Longrightarrow>
    sent (fold run_op (replicate n CompleteOp) s) = sent s @ pending s"
  using run_keeps [of s "replicate n CompleteOp"] flush [of s n] by simp

end

section \<open>The connection\<close>

text \<open>
  \<open>sent_log\<close> collects the messages handed to \<open>async_send\<close>, in order; \<open>read_eofs\<close> counts
  the calls of the read callback with \<open>iseof\<close>.
\<close>

record tcp_connection =
  outQueue :: "u8 list list"
  messageToWrite :: "u8 list"
  writing :: bool
  socket_open :: bool
  read_eofs :: nat
  sent_log :: "u8 list list"

definition tcp_connection_new :: tcp_connection where
  "tcp_connection_new =
     \<lparr>outQueue = [], messageToWrite = [], writing = False, socket_open = True, read_eofs = 0,
      sent_log = []\<rparr>"

definition tcp_close :: "tcp_connection \<Rightarrow> tcp_connection" where
  "tcp_close c = c\<lparr>socket_open := False\<rparr>"

definition do_write :: "bool \<Rightarrow> tcp_connection \<Rightarrow> tcp_connection" where
  "do_write cont c =
     (if \<not> cont \<and> writing c then c
      else case outQueue c of
        [] \<Rightarrow> c\<lparr>writing := False\<rparr>
      | message # rest \<Rightarrow>
          let c1 = c\<lparr>outQueue := rest, writing := True, messageToWrite := message\<rparr>;
              c2 = (if message = [] then (tcp_close c1)\<lparr>read_eofs := read_eofs c1 + 1\<rparr> else c1)
          in c2\<lparr>sent_log := sent_log c2 @ [message]\<rparr>)"

definition write_async :: "u8 list \<Rightarrow> tcp_connection \<Rightarrow> tcp_connection" where
  "write_async message c = do_write False (c\<lparr>outQueue := outQueue c @ [message]\<rparr>)"

datatype asio_error = EcNone | EcEof | EcAborted | EcOther

text \<open>The completion handler of \<open>async_send\<close>.\<close>

definition on_sent :: "asio_error \<Rightarrow> tcp_connection \<Rightarrow> tcp_connection res" where
  "on_sent ec c =
     (let c1 = (if ec = EcNone then do_write True c else c)
      in if ec = EcAborted then Inl CheckAbort else Inr c1)"

text \<open>
  The completion handler of \<open>async_read_some\<close>: what it passes to the read callback
  (\<open>Some (data, iseof)\<close>), and whether it reads again.
\<close>

definition on_read :: "asio_error \<Rightarrow> u8 list \<Rightarrow> ((u8 list \<times> bool) option \<times> bool) res" where
  "on_read ec bytes =
     (if ec = EcNone then Inr (Some (bytes, False), True)
      else if ec = EcEof then Inr (Some ([], True), False)
      else if ec = EcAborted then Inl CheckAbort
      else Inr (None, False))"

definition tcp_inv :: "tcp_connection \<Rightarrow> bool" where
  "tcp_inv c = (\<not> writing c \<longrightarrow> outQueue c = [])"

interpretation tcp: ordered_writer write_async "do_write True" writing sent_log outQueue tcp_inv
  by unfold_locales
    (auto simp: write_async_def do_write_def tcp_inv_def tcp_close_def Let_def split: list.splits)

abbreviation tcp_op :: "u8 list writer_op \<Rightarrow> tcp_connection \<Rightarrow> tcp_connection" where
  "tcp_op \<equiv> exec_op write_async (do_write True) writing"

section \<open>Properties\<close>

text \<open>
  Messages written to a connection leave it in order: after any interleaving of writes and
  completions of sends on a fresh connection, the messages handed to the socket are a prefix of the
  messages written, they are all of them when no send is outstanding, and as many further
  completions as there are queued messages send the rest.
\<close>

theorem tcp_messages_in_order:
  fixes ops :: "u8 list writer_op list"
  defines "c \<equiv> fold tcp_op ops tcp_connection_new"
  shows "prefix (sent_log c) (concat (map op_messages ops))
    \<and> (\<not> writing c \<longrightarrow> sent_log c = concat (map op_messages ops))
    \<and> sent_log (fold tcp_op (replicate (length (outQueue c)) CompleteOp) c) =
        concat (map op_messages ops)"
proof -
  have inv: "tcp_inv tcp_connection_new" and new: "sent_log tcp_connection_new = []" "outQueue tcp_connection_new = []"
    by (simp_all add: tcp_inv_def tcp_connection_new_def)
  show ?thesis
    using tcp.run_prefix [OF inv, of ops] tcp.run_idle [OF inv, of ops] tcp.run_keeps [OF inv, of ops]
      tcp.flush_sent [OF tcp.inv_run [OF inv, of ops], of "length (outQueue c)"]
    by (simp add: c_def new)
qed

theorem tcp_messages_in_order_witness:
  "sent_log (fold tcp_op (replicate 1 CompleteOp)
     (fold tcp_op [WriteOp [1], WriteOp [2]] tcp_connection_new)) = [[1], [2]]"
proof -
  have "length (outQueue (fold tcp_op [WriteOp [1], WriteOp [2]] tcp_connection_new)) = 1"
    by (simp add: tcp_connection_new_def write_async_def do_write_def)
  then show ?thesis
    using tcp_messages_in_order [of "[WriteOp [1], WriteOp [2]]"] by simp
qed

end
