(* ===== verification/Inspector_Agent.thy ===== *)
theory Inspector_Agent
  imports Inspector_Utils Inspector_Tcp Std_Containers
begin

text \<open>
  \<^verbatim>\<open>src/src/inspector/inspector_agent.cpp\<close>: one agent per isolate. It receives messages of
  its debugging session through a queue that the network thread fills, dispatches them on the
  isolate's thread (connect and disconnect tags drive its state, everything else goes to the V8
  session) and sends the replies to the server. V8's own handling of a protocol message is a
  parameter of the model (\<open>v8\<close>), as is the conversion of incoming UTF-8 by the operating system.
\<close>

section \<open>Messages\<close>

text \<open>A view is a sequence of 8-bit or of 16-bit code units (\<^verbatim>\<open>v8_inspector::StringView\<close>).\<close>

datatype string_view = SV8 "u8 list" | SV16 "u16 list"

primrec sv_length :: "string_view \<Rightarrow> nat" where
  "sv_length (SV8 bs) = length bs"
| "sv_length (SV16 us) = length us"

primrec StringViewToUtf8 :: "string_view \<Rightarrow> u8 list res" where
  "StringViewToUtf8 (SV8 bs) = Inr bs"
| "StringViewToUtf8 (SV16 us) = utf16toUTF8 us"

definition TAG_CONNECT :: string where "TAG_CONNECT = ''#connect''"
definition TAG_DISCONNECT :: string where "TAG_DISCONNECT = ''#disconnect''"

definition wide :: "string \<Rightarrow> u16 list" where
  "wide s = map (\<lambda>c. of_nat (of_char c)) s"

fun contains :: "'a list \<Rightarrow> 'a list \<Rightarrow> bool" where
  "contains needle [] = (needle = [])"
| "contains needle (x # xs) = (take (length needle) (x # xs) = needle \<or> contains needle xs)"

section \<open>State\<close>

datatype AgentState = kNew | kAccepting | kConnected | kDone | kError

record AgentImpl =
  a_state :: AgentState
  shutting_down :: bool
  waiting_for_frontend :: bool
  incoming_queue :: "(int \<times> string_view) list"
  outgoing_queue :: "(int \<times> string_view) list"
  to_server :: "(int \<times> string_view) list"
  to_v8 :: "string_view list"
  dispatching_messages :: bool
  a_session_id :: int
  v8_session :: bool
  waiting_for_resume :: bool
  running_nested_loop :: bool
  inspected_contexts_count :: u64
  title :: string
  loaded_urls :: string
  targetId :: string

definition AgentImpl_new :: "string \<Rightarrow> AgentImpl" where
  "AgentImpl_new tid =
     \<lparr>a_state = kNew, shutting_down = False, waiting_for_frontend = True, incoming_queue = [],
      outgoing_queue = [], to_server = [], to_v8 = [], dispatching_messages = False,
      a_session_id = 0, v8_session = False, waiting_for_resume = False,
      running_nested_loop = False, inspected_contexts_count = 0, title = [], loaded_urls = [],
      targetId = tid\<rparr>"

definition IsConnected :: "AgentImpl \<Rightarrow> bool" where
  "IsConnected a = (a_state a = kConnected)"

definition IsStarted :: "AgentImpl \<Rightarrow> bool" where
  "IsStarted a = (a_state a = kAccepting \<or> a_state a = kConnected)"

section \<open>Queues\<close>

definition AppendMessage :: "(int \<times> string_view) list \<Rightarrow> int \<Rightarrow> string_view \<Rightarrow>
    bool \<times> (int \<times> string_view) list" where
  "AppendMessage queue session_id buffer = (queue = [], queue @ [(session_id, buffer)])"

text \<open>
  The incoming message is converted (an invalid one throws, \<open>None\<close>), queued, and the dispatch is
  requested when the queue was empty; the first component says whether it was requested.
\<close>

definition PostIncomingMessage :: "(string \<Rightarrow> u16 list option) \<Rightarrow> int \<Rightarrow> string \<Rightarrow> AgentImpl \<Rightarrow>
    (bool \<times> AgentImpl) option" where
  "PostIncomingMessage utf8ToUtf16 session_id message a =
     (case utf8ToUtf16 message of
        None \<Rightarrow> None
      | Some us \<Rightarrow>
          (case AppendMessage (incoming_queue a) session_id (SV16 us) of
             (trigger_pumping, q) \<Rightarrow> Some (trigger_pumping, a\<lparr>incoming_queue := q\<rparr>)))"

text \<open>\<open>Write\<close>: append, swap the queue out behind the lock, hand every entry to the server.\<close>

definition AgentWrite :: "int \<times> string_view \<Rightarrow> AgentImpl \<Rightarrow> AgentImpl" where
  "AgentWrite m a =
     (let q = snd (AppendMessage (outgoing_queue a) (fst m) (snd m));
          a1 = a\<lparr>outgoing_queue := []\<rparr>
      in foldl (\<lambda>b out. b\<lparr>to_server := to_server b @ [out]\<rparr>) a1 q)"

definition sendMessageToFrontend :: "string_view \<Rightarrow> AgentImpl \<Rightarrow> AgentImpl" where
  "sendMessageToFrontend message a = AgentWrite (a_session_id a, message) a"

section \<open>Dispatch\<close>

definition quitMessageLoopOnPause :: "AgentImpl \<Rightarrow> AgentImpl" where
  "quitMessageLoopOnPause a = a\<lparr>waiting_for_resume := False\<rparr>"

definition connectFrontend :: "AgentImpl \<Rightarrow> AgentImpl" where
  "connectFrontend a = a\<lparr>v8_session := True\<rparr>"

definition disconnectFrontend :: "AgentImpl \<Rightarrow> AgentImpl" where
  "disconnectFrontend a = a\<lparr>v8_session := False\<rparr>"

definition runIfWaiting :: "u8 list" where
  "runIfWaiting = bytes_of_string ''Runtime.runIfWaitingForDebugger''"

type_synonym v8_session_fn = "string_view \<Rightarrow> AgentImpl \<Rightarrow> AgentImpl"

definition dispatchMessageFromFrontend :: "v8_session_fn \<Rightarrow> string_view \<Rightarrow> AgentImpl \<Rightarrow> AgentImpl res" where
  "dispatchMessageFromFrontend v8 message a =
     bind_res (StringViewToUtf8 message) (\<lambda>messagestr.
       let a1 = (if waiting_for_frontend a
                 then a\<lparr>waiting_for_frontend := contains runIfWaiting messagestr\<rparr> else a)
       in check (v8_session a1) NullDeref (Inr (v8 message (a1\<lparr>to_v8 := to_v8 a1 @ [message]\<rparr>))))"

definition dispatch_one :: "v8_session_fn \<Rightarrow> int \<times> string_view \<Rightarrow> AgentImpl \<Rightarrow> AgentImpl res" where
  "dispatch_one v8 pair a =
     bind_res (if sv_length (snd pair) = length TAG_CONNECT \<or> sv_length (snd pair) = length TAG_DISCONNECT
               then StringViewToUtf8 (snd pair) else Inr []) (\<lambda>tag.
       if tag = bytes_of_string TAG_CONNECT then
         check (a_state a = kAccepting) CheckAbort
           (Inr (connectFrontend (a\<lparr>a_session_id := fst pair, a_state := kConnected\<rparr>)))
       else if tag = bytes_of_string TAG_DISCONNECT then
         check (a_state a = kConnected) CheckAbort
           (Inr (disconnectFrontend (quitMessageLoopOnPause
              (a\<lparr>a_state := (if shutting_down a then kDone else kAccepting)\<rparr>))))
       else dispatchMessageFromFrontend v8 (snd pair) a)"

fun dispatch_tasks :: "v8_session_fn \<Rightarrow> (int \<times> string_view) list \<Rightarrow> AgentImpl \<Rightarrow> AgentImpl res" where
  "dispatch_tasks v8 [] a = Inr a"
| "dispatch_tasks v8 (t # ts) a = bind_res (dispatch_one v8 t a) (dispatch_tasks v8 ts)"

text \<open>
  The do-while loop of \<open>DispatchMessages\<close>: swap the queue out, process it, repeat until a swap
  brings nothing. Messages may arrive while it runs, so the number of rounds is bounded by fuel;
  \<open>None\<close> is a loop that is still going.
\<close>

fun dispatch_loop :: "v8_session_fn \<Rightarrow> nat \<Rightarrow> AgentImpl \<Rightarrow> AgentImpl res option" where
  "dispatch_loop v8 0 a = None"
| "dispatch_loop v8 (Suc fuel) a =
     (let tasks = incoming_queue a;
          r = dispatch_tasks v8 tasks (a\<lparr>incoming_queue := []\<rparr>)
      in case r of
           Inl e \<Rightarrow> Some (Inl e)
         | Inr a1 \<Rightarrow> if tasks = [] then Some (Inr a1) else dispatch_loop v8 fuel a1)"

definition DispatchMessages :: "v8_session_fn \<Rightarrow> nat \<Rightarrow> AgentImpl \<Rightarrow> AgentImpl res option" where
  "DispatchMessages v8 fuel a =
     (if dispatching_messages a then Some (Inr a)
      else map_option (\<lambda>r. bind_res r (\<lambda>b. Inr (b\<lparr>dispatching_messages := False\<rparr>)))
             (dispatch_loop v8 fuel (a\<lparr>dispatching_messages := True\<rparr>)))"

text \<open>
  \<open>runMessageLoopOnPause\<close>: wait for a message (here: the queue must be non-empty, otherwise the
  thread blocks, \<open>None\<close>), dispatch, until \<open>waiting_for_resume\<close> is cleared. The flag is tested
  before the wait.
\<close>

fun pause_loop :: "v8_session_fn \<Rightarrow> nat \<Rightarrow> AgentImpl \<Rightarrow> AgentImpl res option" where
  "pause_loop v8 0 a = None"
| "pause_loop v8 (Suc fuel) a =
     (if \<not> waiting_for_resume a then Some (Inr a)
      else if incoming_queue a = [] then None
      else case DispatchMessages v8 fuel a of
             None \<Rightarrow> None
           | Some (Inl e) \<Rightarrow> Some (Inl e)
           | Some (Inr b) \<Rightarrow> pause_loop v8 fuel b)"

definition runMessageLoopOnPause :: "v8_session_fn \<Rightarrow> nat \<Rightarrow> AgentImpl \<Rightarrow> AgentImpl res option" where
  "runMessageLoopOnPause v8 fuel a =
     (let a1 = a\<lparr>waiting_for_resume := True\<rparr>
      in if running_nested_loop a1 then Some (Inr a1)
         else map_option (\<lambda>r. bind_res r (\<lambda>b. Inr (b\<lparr>waiting_for_resume := False, running_nested_loop := False\<rparr>)))
                (pause_loop v8 fuel (a1\<lparr>running_nested_loop := True\<rparr>)))"

definition WaitForDisconnect :: "v8_session_fn \<Rightarrow> nat \<Rightarrow> AgentImpl \<Rightarrow> AgentImpl res option" where
  "WaitForDisconnect v8 fuel a =
     (if a_state a = kConnected then runMessageLoopOnPause v8 fuel (a\<lparr>shutting_down := True\<rparr>)
      else Some (Inr a))"

text \<open>The busy wait of \<open>waitForDebugger\<close>.\<close>

fun frontend_loop :: "v8_session_fn \<Rightarrow> nat \<Rightarrow> AgentImpl \<Rightarrow> AgentImpl res option" where
  "frontend_loop v8 0 a = None"
| "frontend_loop v8 (Suc fuel) a =
     (if \<not> waiting_for_frontend a then Some (Inr a)
      else case DispatchMessages v8 fuel a of
             None \<Rightarrow> None
           | Some (Inl e) \<Rightarrow> Some (Inl e)
           | Some (Inr b) \<Rightarrow> frontend_loop v8 fuel b)"

section \<open>Contexts and titles\<close>

definition addContext :: "string \<Rightarrow> AgentImpl \<Rightarrow> AgentImpl" where
  "addContext context_name a =
     a\<lparr>title := context_name, inspected_contexts_count := inspected_contexts_count a + 1\<rparr>"

definition removeContext :: "AgentImpl \<Rightarrow> AgentImpl" where
  "removeContext a = a\<lparr>inspected_contexts_count := inspected_contexts_count a - 1\<rparr>"

text \<open>
  \<^verbatim>\<open>find_last_of("/\\", pos)\<close>: the last separator at a position up to \<open>pos\<close>. The code
  passes \<open>found - 1\<close>, which for \<open>found = 0\<close> wraps to the largest \<^verbatim>\<open>size_t\<close> and
  so searches the whole string again.
\<close>

definition is_sep :: "char \<Rightarrow> bool" where
  "is_sep c = (c = CHR ''/'' \<or> c = CHR 0x5C)"

definition find_last_sep :: "string \<Rightarrow> nat \<Rightarrow> nat option" where
  "find_last_sep url bound =
     (let is = filter (\<lambda>i. is_sep (url ! i)) [0..<min bound (length url)]
      in if is = [] then None else Some (last is))"

definition before :: "string \<Rightarrow> nat \<Rightarrow> nat" where
  "before url found = (if found = 0 then length url else found)"

definition url_suffix :: "string \<Rightarrow> string" where
  "url_suffix url =
     (case find_last_sep url (length url) of
        None \<Rightarrow> url
      | Some f1 \<Rightarrow>
          (case find_last_sep url (before url f1) of
             None \<Rightarrow> ''...'' @ url
           | Some f2 \<Rightarrow>
               (case find_last_sep url (before url f2) of
                  None \<Rightarrow> ''...'' @ url
                | Some f3 \<Rightarrow> ''...'' @ drop (f3 + 1) url)))"

definition notifyLoadedUrl :: "string \<Rightarrow> AgentImpl \<Rightarrow> AgentImpl" where
  "notifyLoadedUrl url a =
     (let urls = (if loaded_urls a \<noteq> [] then loaded_urls a @ '', '' else []) @ url_suffix url
      in a\<lparr>loaded_urls := urls, title := ''V8JSI Host('' @ urls @ '')''\<rparr>)"

text \<open>
  \<open>waitForDebugger\<close> after the first message has arrived; \<open>stop\<close> is \<open>AgentImpl::Stop\<close>.
  The last call goes through the session pointer.
\<close>

definition waitForDebugger :: "v8_session_fn \<Rightarrow> (AgentImpl \<Rightarrow> AgentImpl) \<Rightarrow> nat \<Rightarrow> AgentImpl \<Rightarrow>
    AgentImpl res option" where
  "waitForDebugger v8 stop fuel a =
     (if incoming_queue a = [] then None
      else let a1 = (if a_state a = kError then stop a else a);
               a2 = a1\<lparr>a_state := kAccepting\<rparr>
           in map_option (\<lambda>r. bind_res r (\<lambda>b. check (v8_session b) NullDeref (Inr b)))
                (frontend_loop v8 fuel a2))"

section \<open>Outgoing messages\<close>

lemma AgentWrite_eq:
  "AgentWrite m a = a\<lparr>outgoing_queue := [], to_server := to_server a @ outgoing_queue a @ [m]\<rparr>"
proof -
  have "foldl (\<lambda>b out. b\<lparr>to_server := to_server b @ [out]\<rparr>) b q = b\<lparr>to_server := to_server b @ q\<rparr>"
    for b :: AgentImpl and q
    by (induction q arbitrary: b) simp_all
  then show ?thesis
    unfolding AgentWrite_def AppendMessage_def Let_def snd_conv by simp
qed

interpretation agent_out: ordered_writer AgentWrite "\<lambda>a. a" "\<lambda>a. False" to_server outgoing_queue
    "\<lambda>a. outgoing_queue a = []"
  by unfold_locales (simp_all add: AgentWrite_eq)

section \<open>Dispatching\<close>

text \<open>
  What dispatching relies on of V8: handling a protocol message may send replies and may ask to
  leave a nested loop, but does not touch the agent's connection state or its incoming queue.
\<close>

definition v8_ok :: "v8_session_fn \<Rightarrow> bool" where
  "v8_ok v8 \<longleftrightarrow> (\<forall>m a. a_state (v8 m a) = a_state a \<and> v8_session (v8 m a) = v8_session a \<and>
     incoming_queue (v8 m a) = incoming_queue a \<and> shutting_down (v8 m a) = shutting_down a \<and>
     to_v8 (v8 m a) = to_v8 a \<and> a_session_id (v8 m a) = a_session_id a \<and>
     waiting_for_frontend (v8 m a) = waiting_for_frontend a)"

lemma v8_ok_simps [simp]:
  assumes "v8_ok v8"
  shows "a_state (v8 m a) = a_state a" "v8_session (v8 m a) = v8_session a"
    "incoming_queue (v8 m a) = incoming_queue a" "shutting_down (v8 m a) = shutting_down a"
    "to_v8 (v8 m a) = to_v8 a" "a_session_id (v8 m a) = a_session_id a"
    "waiting_for_frontend (v8 m a) = waiting_for_frontend a"
  using assms by (simp_all add: v8_ok_def)

text \<open>The three kinds of messages a session consists of.\<close>

datatype frontend_msg = Connect int | Payload int "u16 list" | Disconnect int

primrec queue_entry :: "frontend_msg \<Rightarrow> int \<times> string_view" where
  "queue_entry (Connect i) = (i, SV16 (wide TAG_CONNECT))"
| "queue_entry (Payload i us) = (i, SV16 us)"
| "queue_entry (Disconnect i) = (i, SV16 (wide TAG_DISCONNECT))"

definition is_tag :: "u16 list \<Rightarrow> bool" where
  "is_tag us \<longleftrightarrow> utf16toUTF8 us \<in> {Inr (bytes_of_string TAG_CONNECT), Inr (bytes_of_string TAG_DISCONNECT)}"

text \<open>Well-formed traffic of consecutive sessions; the flag says whether a session is open.\<close>

fun session_traffic :: "bool \<Rightarrow> frontend_msg list \<Rightarrow> bool" where
  "session_traffic open [] = True"
| "session_traffic open (Connect i # ms) = (\<not> open \<and> session_traffic True ms)"
| "session_traffic open (Payload i us # ms) =
     (open \<and> 3 * length us < 2 ^ 32 \<and> \<not> is_tag us \<and> session_traffic True ms)"
| "session_traffic open (Disconnect i # ms) = (open \<and> session_traffic False ms)"

fun open_after :: "bool \<Rightarrow> frontend_msg list \<Rightarrow> bool" where
  "open_after open [] = open"
| "open_after open (Connect i # ms) = open_after True ms"
| "open_after open (Payload i us # ms) = open_after open ms"
| "open_after open (Disconnect i # ms) = open_after False ms"

fun payloads :: "frontend_msg list \<Rightarrow> string_view list" where
  "payloads [] = []"
| "payloads (Payload i us # ms) = SV16 us # payloads ms"
| "payloads (Connect i # ms) = payloads ms"
| "payloads (Disconnect i # ms) = payloads ms"

definition agent_rel :: "bool \<Rightarrow> AgentImpl \<Rightarrow> bool" where
  "agent_rel open a \<longleftrightarrow> a_state a = (if open then kConnected else kAccepting) \<and>
     v8_session a = open \<and> \<not> shutting_down a"

lemma tag_utf8 [simp]:
  "utf16toUTF8 (wide TAG_CONNECT) = Inr (bytes_of_string TAG_CONNECT)"
  "utf16toUTF8 (wide TAG_DISCONNECT) = Inr (bytes_of_string TAG_DISCONNECT)"
  by code_simp+

lemma tag_lengths [simp]:
  "length (wide s) = length s" "length TAG_CONNECT = 8" "length TAG_DISCONNECT = 11"
  by (simp_all add: wide_def TAG_CONNECT_def TAG_DISCONNECT_def)

lemma tags_differ [simp]: "bytes_of_string TAG_DISCONNECT \<noteq> bytes_of_string TAG_CONNECT"
  "[] \<noteq> bytes_of_string TAG_CONNECT" "[] \<noteq> bytes_of_string TAG_DISCONNECT"
  by (metis length_bytes_of_string tag_lengths(2,3) numeral_eq_iff num.distinct list.size(3) zero_neq_numeral)+

lemma dispatch_Connect:
  "dispatch_one v8 (queue_entry (Connect i)) a =
    check (a_state a = kAccepting) CheckAbort
      (Inr (a\<lparr>a_session_id := i, a_state := kConnected, v8_session := True\<rparr>))"
  by (simp add: dispatch_one_def connectFrontend_def)

lemma dispatch_Disconnect:
  "dispatch_one v8 (queue_entry (Disconnect i)) a =
    check (a_state a = kConnected) CheckAbort
      (Inr (a\<lparr>a_state := (if shutting_down a then kDone else kAccepting),
              waiting_for_resume := False, v8_session := False\<rparr>))"
  by (simp add: dispatch_one_def disconnectFrontend_def quitMessageLoopOnPause_def)

lemma dispatch_Payload:
  assumes "3 * length us < 2 ^ 32" "\<not> is_tag us"
  shows "dispatch_one v8 (queue_entry (Payload i us)) a = dispatchMessageFromFrontend v8 (SV16 us) a"
  using assms by (auto simp: dispatch_one_def is_tag_def utf16toUTF8_eq)

lemma dispatch_tasks_traffic:
  assumes "v8_ok v8" "session_traffic open ms" "agent_rel open a"
  shows "\<exists>b. dispatch_tasks v8 (map queue_entry ms) a = Inr b \<and> agent_rel (open_after open ms) b \<and>
    to_v8 b = to_v8 a @ payloads ms \<and> incoming_queue b = incoming_queue a"
  using assms(2,3)
proof (induction "open" ms arbitrary: a rule: session_traffic.induct)
  case (2 "open" i ms)
  then show ?case
    using "2.IH" [of "a\<lparr>a_session_id := i, a_state := kConnected, v8_session := True\<rparr>"]
    by (simp add: dispatch_Connect agent_rel_def del: queue_entry.simps)
next
  case (3 "open" i us ms)
  let ?a1 = "if waiting_for_frontend a
    then a\<lparr>waiting_for_frontend := contains runIfWaiting (utf8_bytes us)\<rparr> else a"
  let ?b = "v8 (SV16 us) (?a1\<lparr>to_v8 := to_v8 ?a1 @ [SV16 us]\<rparr>)"
  have "dispatch_one v8 (queue_entry (Payload i us)) a = Inr ?b"
    using 3 assms(1)
    by (simp add: dispatch_Payload dispatchMessageFromFrontend_def utf16toUTF8_eq agent_rel_def
        del: queue_entry.simps)
  moreover have "agent_rel True ?b \<and> to_v8 ?b = to_v8 a @ [SV16 us] \<and> incoming_queue ?b = incoming_queue a"
    using 3 assms(1) by (auto simp: agent_rel_def)
  ultimately show ?case
    using 3 "3.IH" [of ?b] by (simp del: queue_entry.simps)
next
  case (4 "open" i ms)
  then show ?case
    using "4.IH" [of "a\<lparr>a_state := kAccepting, waiting_for_resume := False, v8_session := False\<rparr>"]
    by (simp add: dispatch_Disconnect agent_rel_def del: queue_entry.simps)
qed simp

lemma connected_dispatch_aborts:
  assumes "a_state a = kConnected" "\<not> dispatching_messages a"
    and "incoming_queue a = queue_entry (Connect i) # rest"
  shows "DispatchMessages v8 (Suc fuel) a = Some (Inl CheckAbort)"
  using assms by (simp add: DispatchMessages_def dispatch_Connect Let_def del: queue_entry.simps)

section \<open>Properties\<close>

text \<open>
  C18: Dispatching is correct on well-formed traffic: when the queue of an idle agent holds any
  sequence of sessions (connect, protocol messages, disconnect), \<open>DispatchMessages\<close> terminates
  without an abort or a null dereference, empties the queue, hands exactly the protocol messages to
  V8 in order, and leaves the agent connected (with a V8 session) if and only if the last session
  is still open.
\<close>

theorem dispatch_messages_correct:
  assumes "v8_ok v8" and "session_traffic open ms" and "agent_rel open a"
    and "\<not> dispatching_messages a" and "incoming_queue a = map queue_entry ms"
  shows "\<exists>b. DispatchMessages v8 2 a = Some (Inr b) \<and> incoming_queue b = [] \<and>
    \<not> dispatching_messages b \<and> to_v8 b = to_v8 a @ payloads ms \<and> agent_rel (open_after open ms) b"
proof -
  let ?a = "a\<lparr>dispatching_messages := True, incoming_queue := []\<rparr>"
  have rel: "agent_rel open ?a" using assms(3) by (simp add: agent_rel_def)
  obtain b where b: "dispatch_tasks v8 (map queue_entry ms) ?a = Inr b"
    "agent_rel (open_after open ms) b" "to_v8 b = to_v8 a @ payloads ms" "incoming_queue b = []"
    using dispatch_tasks_traffic [OF assms(1,2) rel] by auto
  have loop: "dispatch_loop v8 2 (a\<lparr>dispatching_messages := True\<rparr>) = Some (Inr b)"
    using b assms(5) by (cases ms) (simp_all add: numeral_2_eq_2 Let_def)
  then show ?thesis
    using assms(4) b by (simp add: DispatchMessages_def agent_rel_def)
qed

theorem dispatch_messages_correct_witness:
  "\<exists>b. DispatchMessages (\<lambda>m a. sendMessageToFrontend m a) 2
      (AgentImpl_new ''t''\<lparr>a_state := kAccepting,
         incoming_queue := map queue_entry [Connect 7, Payload 7 [0x7B, 0x7D], Disconnect 7]\<rparr>) = Some (Inr b) \<and>
    incoming_queue b = [] \<and> \<not> dispatching_messages b \<and> to_v8 b = [SV16 [0x7B, 0x7D]] \<and> agent_rel False b"
proof -
  let ?a = "AgentImpl_new ''t''\<lparr>a_state := kAccepting,
    incoming_queue := map queue_entry [Connect 7, Payload 7 [0x7B, 0x7D], Disconnect 7]\<rparr>"
  have ok: "v8_ok (\<lambda>m a. sendMessageToFrontend m a)"
    by (simp add: v8_ok_def sendMessageToFrontend_def AgentWrite_eq)
  have "utf16toUTF8 [0x7B, 0x7D] = Inr [0x7B, 0x7D]" by code_simp
  then have t: "session_traffic False [Connect 7, Payload 7 [0x7B, 0x7D], Disconnect 7]"
    by (simp add: is_tag_def bytes_of_string_def TAG_CONNECT_def TAG_DISCONNECT_def)
  have "agent_rel False ?a" "\<not> dispatching_messages ?a"
    by (simp_all add: agent_rel_def AgentImpl_new_def)
  from dispatch_messages_correct [OF ok t this] show ?thesis
    by (simp add: AgentImpl_new_def del: queue_entry.simps)
qed

text \<open>
  An agent that is already connected does not survive a second connect: dispatching a connect
  tag in the connected state fails the check on the state and aborts the process, whatever else is
  queued behind it.
\<close>

theorem second_connect_aborts:
  assumes "a_state a = kConnected" "\<not> dispatching_messages a"
    and "incoming_queue a = queue_entry (Connect i) # rest"
  shows "DispatchMessages v8 (Suc fuel) a = Some (Inl CheckAbort)"
  by (rule connected_dispatch_aborts [OF assms])

theorem second_connect_aborts_witness:
  "DispatchMessages (\<lambda>m a. a) 1
    (AgentImpl_new ''t''\<lparr>a_state := kConnected, incoming_queue := [queue_entry (Connect 2)]\<rparr>) =
    Some (Inl CheckAbort)"
  using second_connect_aborts
    [of "AgentImpl_new ''t''\<lparr>a_state := kConnected, incoming_queue := [queue_entry (Connect 2)]\<rparr>" 2 "[]" "\<lambda>m a. a" 0]
  by (simp add: AgentImpl_new_def)

text \<open>
  C40: A pause inside a dispatched message never ends: when V8 enters the nested message loop
  while \<open>DispatchMessages\<close> is active (the isolate paused in code that a protocol message made it
  run), every call of \<open>DispatchMessages\<close> from that loop returns at once because of the reentrancy
  guard, so no amount of queued messages, the resume command included, ends the loop.
\<close>

theorem nested_pause_never_ends:
  assumes "dispatching_messages a" "\<not> running_nested_loop a"
  shows "runMessageLoopOnPause v8 fuel a = None"
proof -
  have "pause_loop v8 n b = None" if "dispatching_messages b" "waiting_for_resume b" for n b
    using that by (induction n arbitrary: b) (simp_all add: DispatchMessages_def)
  with assms show ?thesis by (simp add: runMessageLoopOnPause_def Let_def)
qed

theorem nested_pause_never_ends_witness:
  "runMessageLoopOnPause (\<lambda>m a. a) 1000
    (AgentImpl_new ''t''\<lparr>dispatching_messages := True, incoming_queue := [queue_entry (Disconnect 1)]\<rparr>) = None"
  using nested_pause_never_ends
    [of "AgentImpl_new ''t''\<lparr>dispatching_messages := True, incoming_queue := [queue_entry (Disconnect 1)]\<rparr>"]
  by (simp add: AgentImpl_new_def)

text \<open>
  The wait for the debugger ends at the wrong message: dispatching a protocol message leaves
  the agent waiting exactly when it was waiting and the message contains
  \<open>Runtime.runIfWaitingForDebugger\<close>. The command that should end the wait prolongs it, and any
  other protocol message ends it.
\<close>

theorem waiting_after_dispatch:
  assumes "v8_ok v8" "3 * length us < 2 ^ 32" "\<not> is_tag us"
    and "dispatch_one v8 (queue_entry (Payload i us)) a = Inr b"
  shows "waiting_for_frontend b \<longleftrightarrow> waiting_for_frontend a \<and> contains runIfWaiting (utf8_bytes us)"
  using assms(1,4) unfolding dispatch_Payload [OF assms(2,3)]
  by (cases "waiting_for_frontend a")
    (auto simp: dispatchMessageFromFrontend_def utf16toUTF8_eq [OF assms(2)] Let_def res_simps)

theorem waiting_after_dispatch_witness:
  "\<exists>b. dispatch_one (\<lambda>m a. a) (queue_entry (Payload 1 [0x7B, 0x7D]))
      (AgentImpl_new ''t''\<lparr>v8_session := True\<rparr>) = Inr b \<and> \<not> waiting_for_frontend b"
proof -
  let ?a = "AgentImpl_new ''t''\<lparr>v8_session := True\<rparr>" and ?us = "[0x7B, 0x7D]"
  have len: "3 * length ?us < 2 ^ 32" by simp
  have u: "utf16toUTF8 ?us = Inr ([0x7B, 0x7D])" by code_simp
  then have tag: "\<not> is_tag ?us"
    by (simp add: is_tag_def bytes_of_string_def TAG_CONNECT_def TAG_DISCONNECT_def)
  obtain b where b: "dispatch_one (\<lambda>m a. a) (queue_entry (Payload 1 ?us)) ?a = Inr b"
    unfolding dispatch_Payload [OF len tag]
    by (simp add: dispatchMessageFromFrontend_def u Let_def AgentImpl_new_def)
  have ok: "v8_ok (\<lambda>m a. a)" by (simp add: v8_ok_def)
  have "\<not> contains runIfWaiting (utf8_bytes ?us)" by code_simp
  with waiting_after_dispatch [OF ok len tag b] b show ?thesis by blast
qed

end
