(* ===== verification/Ws_Frames.thy ===== *)
theory Ws_Frames
  imports Prelude
begin

unbundle bit_operations_syntax

text \<open>
  The WebSocket frame codec of \<^verbatim>\<open>src/src/inspector/inspector_socket.cpp\<close>:
  \<open>encode_frame_hybi17\<close> for outgoing and \<open>decode_frame_hybi17\<close> for incoming frames, with
  \<^verbatim>\<open>size_t\<close> as 64-bit words, so that the unsigned subtraction in the completeness test
  wraps around as it does in the code. Reads outside the buffer are faults. The reference is the
  framing of RFC 6455: \<open>rfc_server_payload\<close> reads a server frame, \<open>client_frame\<close>
  builds the masked frame of a client.
\<close>

section \<open>Encoding\<close>

definition kFinalBit :: u8 where "kFinalBit = 0x80"
definition kReserved1Bit :: u8 where "kReserved1Bit = 0x40"
definition kReserved2Bit :: u8 where "kReserved2Bit = 0x20"
definition kReserved3Bit :: u8 where "kReserved3Bit = 0x10"
definition kOpCodeMask :: u8 where "kOpCodeMask = 0xF"
definition kMaskBit :: u8 where "kMaskBit = 0x80"
definition kPayloadLengthMask :: u8 where "kPayloadLengthMask = 0x7F"
definition kOpCodeText :: u8 where "kOpCodeText = 1"
definition kOpCodeClose :: u8 where "kOpCodeClose = 8"
definition kMaxSingleBytePayloadLength :: nat where "kMaxSingleBytePayloadLength = 125"
definition kTwoBytePayloadLengthField :: nat where "kTwoBytePayloadLengthField = 126"
definition kEightBytePayloadLengthField :: nat where "kEightBytePayloadLengthField = 127"
definition kMaskingKeyWidthInBytes :: nat where "kMaskingKeyWidthInBytes = 4"

lemmas ws_consts = kFinalBit_def kReserved1Bit_def kReserved2Bit_def kReserved3Bit_def
  kOpCodeMask_def kMaskBit_def kPayloadLengthMask_def kOpCodeText_def kOpCodeClose_def
  kMaxSingleBytePayloadLength_def kTwoBytePayloadLengthField_def
  kEightBytePayloadLengthField_def kMaskingKeyWidthInBytes_def

text \<open>
  The loop that fills \<open>extended_payload_length\<close> from its last byte backwards; it yields the
  bytes and the final \<open>remaining\<close>, which the code checks to be 0.
\<close>

fun fill_extended :: "nat \<Rightarrow> u64 \<Rightarrow> u8 list \<Rightarrow> u8 list \<times> u64" where
  "fill_extended 0 remaining acc = (acc, remaining)"
| "fill_extended (Suc n) remaining acc =
     fill_extended n (drop_bit 8 remaining) (ucast (remaining AND 0xFF) # acc)"

definition encode_frame_hybi17 :: "u8 list \<Rightarrow> u8 list res" where
  "encode_frame_hybi17 message =
     (let data_length = (of_nat (length message) :: u64);
          first = kFinalBit OR kOpCodeText
      in if data_length \<le> of_nat kMaxSingleBytePayloadLength then
           Inr (first # ucast data_length # message)
         else if data_length \<le> 0xFFFF then
           Inr (first # of_nat kTwoBytePayloadLengthField
                  # ucast (drop_bit 8 (data_length AND 0xFF00)) # ucast (data_length AND 0xFF) # message)
         else
           (case fill_extended 8 data_length [] of
              (ext, remaining) \<Rightarrow>
                check (remaining = 0) CheckAbort
                  (Inr (first # of_nat kEightBytePayloadLengthField # ext @ message))))"

section \<open>Decoding\<close>

datatype ws_decode_result = FRAME_OK | FRAME_INCOMPLETE | FRAME_CLOSE | FRAME_ERROR

record decoded =
  result :: ws_decode_result
  bytes_consumed :: u64
  payload :: "u8 list"
  compressed :: bool

text \<open>Big-endian accumulation of the extended length, byte by byte.\<close>

fun read_extended :: "u8 list \<Rightarrow> nat \<Rightarrow> nat \<Rightarrow> u64 \<Rightarrow> u64 res" where
  "read_extended buffer it 0 acc = Inr acc"
| "read_extended buffer it (Suc n) acc =
     bind_res (read_at buffer it) (\<lambda>b.
       read_extended buffer (it + 1) n (push_bit 8 acc OR ucast b))"

text \<open>The unmasking loop: \<open>payload[i] ^ masking_key[i % 4]\<close> for \<open>i\<close> from \<open>i\<close> to \<open>i + n\<close>.\<close>

fun unmask_loop :: "u8 list \<Rightarrow> nat \<Rightarrow> nat \<Rightarrow> nat \<Rightarrow> u8 list \<Rightarrow> u8 list res" where
  "unmask_loop buffer it i 0 output = Inr output"
| "unmask_loop buffer it i (Suc n) output =
     bind_res (read_at buffer (it + kMaskingKeyWidthInBytes + i)) (\<lambda>p.
     bind_res (read_at buffer (it + i mod kMaskingKeyWidthInBytes)) (\<lambda>k.
       unmask_loop buffer it (i + 1) n (output @ [p XOR k])))"

definition frame_result :: "ws_decode_result \<Rightarrow> u64 \<Rightarrow> u8 list \<Rightarrow> bool \<Rightarrow> decoded" where
  "frame_result r n out c = \<lparr>result = r, bytes_consumed = n, payload = out, compressed = c\<rparr>"

definition max_payload_length :: u64 where "max_payload_length = 0x7FFFFFFFFFFFFFFF"
definition max_length :: u64 where "max_length = 0xFFFFFFFFFFFFFFFF"

text \<open>
  \<open>it\<close> counts the bytes read so far. The length of the extended field is chosen from the
  7-bit length; the remaining part works on the decoded 64-bit length.
\<close>

definition decode_payload :: "u8 list \<Rightarrow> nat \<Rightarrow> bool \<Rightarrow> bool \<Rightarrow> u64 \<Rightarrow> decoded res" where
  "decode_payload buffer it closed cmpr payload_length64 =
     (if payload_length64 > max_payload_length
         \<or> payload_length64 > max_length - of_nat kMaskingKeyWidthInBytes
      then Inr (frame_result FRAME_ERROR 0 [] cmpr)
      else if of_nat (length buffer) - of_nat kMaskingKeyWidthInBytes < payload_length64
      then Inr (frame_result FRAME_INCOMPLETE 0 [] cmpr)
      else bind_res (unmask_loop buffer it 0 (unat payload_length64) []) (\<lambda>output.
             Inr (frame_result (if closed then FRAME_CLOSE else FRAME_OK)
                    (of_nat (it + kMaskingKeyWidthInBytes) + payload_length64) output cmpr)))"

definition decode_frame_hybi17 :: "u8 list \<Rightarrow> bool \<Rightarrow> decoded res" where
  "decode_frame_hybi17 buffer client_frame =
     (if length buffer < 2 then Inr (frame_result FRAME_INCOMPLETE 0 [] False)
      else
        let first_byte = buffer ! 0;
            second_byte = buffer ! 1;
            final = (first_byte AND kFinalBit \<noteq> 0);
            reserved1 = (first_byte AND kReserved1Bit \<noteq> 0);
            reserved2 = (first_byte AND kReserved2Bit \<noteq> 0);
            reserved3 = (first_byte AND kReserved3Bit \<noteq> 0);
            op_code = first_byte AND kOpCodeMask;
            masked = (second_byte AND kMaskBit \<noteq> 0);
            cmpr = reserved1;
            err = Inr (frame_result FRAME_ERROR 0 [] cmpr)
        in if \<not> final \<or> reserved2 \<or> reserved3 then err
           else if op_code \<noteq> kOpCodeClose \<and> op_code \<noteq> kOpCodeText then err
           else if client_frame \<and> \<not> masked then err
           else
             let closed = (op_code = kOpCodeClose);
                 len7 = (ucast (second_byte AND kPayloadLengthMask) :: u64)
             in if len7 \<le> of_nat kMaxSingleBytePayloadLength
                then decode_payload buffer 2 closed cmpr len7
                else if len7 = of_nat kTwoBytePayloadLengthField \<or>
                        len7 = of_nat kEightBytePayloadLengthField
                then
                  (let n = (if len7 = of_nat kTwoBytePayloadLengthField then 2 else 8)
                   in if length buffer - 2 < n
                      then Inr (frame_result FRAME_INCOMPLETE 0 [] cmpr)
                      else bind_res (read_extended buffer 2 n 0)
                             (decode_payload buffer (2 + n) closed cmpr))
                else err)"

section \<open>Reference: RFC 6455 framing\<close>

definition be_nat :: "u8 list \<Rightarrow> nat" where
  "be_nat bs = foldl (\<lambda>n b. 256 * n + unat b) 0 bs"

fun be_split :: "nat \<Rightarrow> nat \<Rightarrow> u8 list" where
  "be_split 0 n = []"
| "be_split (Suc k) n = be_split k (n div 256) @ [of_nat (n mod 256)]"

text \<open>What a client reads from an unmasked, final text frame.\<close>

definition rfc_server_payload :: "u8 list \<Rightarrow> u8 list option" where
  "rfc_server_payload f =
     (case f of
        h # l # rest \<Rightarrow>
          if h \<noteq> 0x81 \<or> unat l \<ge> 128 then None
          else if unat l \<le> 125 then
            (if length rest = unat l then Some rest else None)
          else let k = (if unat l = 126 then 2 else 8)
               in if length rest = k + be_nat (take k rest) then Some (drop k rest) else None
      | _ \<Rightarrow> None)"

definition mask_with :: "u8 list \<Rightarrow> u8 list \<Rightarrow> u8 list" where
  "mask_with key data = map (\<lambda>i. data ! i XOR key ! (i mod 4)) [0..<length data]"

text \<open>The frame a client sends: final, masked, with the shortest length field.\<close>

definition client_header :: "u8 \<Rightarrow> nat \<Rightarrow> u8 list" where
  "client_header opcode n =
     (if n \<le> 125 then [0x80 OR opcode, 0x80 OR of_nat n]
      else if n \<le> 0xFFFF then [0x80 OR opcode, 0xFE] @ be_split 2 n
      else [0x80 OR opcode, 0xFF] @ be_split 8 n)"

definition client_frame :: "u8 \<Rightarrow> u8 list \<Rightarrow> u8 list \<Rightarrow> u8 list" where
  "client_frame opcode key data = client_header opcode (length data) @ key @ mask_with key data"

section \<open>Big-endian lengths\<close>

lemma length_be_split [simp]: "length (be_split k n) = k"
  by (induction k n rule: be_split.induct) simp_all

lemma be_nat_snoc: "be_nat (bs @ [b]) = 256 * be_nat bs + unat b"
  by (simp add: be_nat_def)

lemma be_nat_split: "be_nat (be_split k n) = n mod 256 ^ k"
proof (induction k n rule: be_split.induct)
  case (2 k n)
  have "n mod 256 ^ Suc k = 256 * (n div 256 mod 256 ^ k) + n mod 256"
    by (simp add: mod_mult2_eq)
  with 2 show ?case by (simp add: be_nat_snoc unat_of_nat take_bit_eq_mod)
qed (simp add: be_nat_def)

lemma fill_extended_eq:
  "fill_extended n r acc = (be_split n (unat r) @ acc, drop_bit (8 * n) r)"
proof (induction n r acc rule: fill_extended.induct)
  case (2 n r acc)
  have "(ucast (r AND 0xFF) :: u8) = of_nat (unat r mod 256)"
    by (rule word_unat_eq_iff [THEN iffD2])
      (simp add: unat_ucast_mod unat_and_mask [of _ 8] mask_eq_exp_minus_1 unat_of_nat take_bit_eq_mod)
  with 2 show ?case by (simp add: unat_drop_bit_div add.commute)
qed simp

lemma drop_bit_64_u64: "drop_bit 64 (r :: u64) = 0"
  by (rule bit_word_eqI) (auto simp: bit_simps dest: bit_imp_le_length)

lemma read_extended_eq:
  assumes "it + n \<le> length buffer" "unat acc * 256 ^ n + be_nat (take n (drop it buffer)) < 2 ^ 64"
  shows "read_extended buffer it n acc =
    Inr (of_nat (unat acc * 256 ^ n + be_nat (take n (drop it buffer))))"
  using assms
proof (induction n arbitrary: it acc)
  case 0
  then show ?case by (simp add: be_nat_def)
next
  case (Suc n)
  have foldl_acc: "foldl (\<lambda>n b. 256 * n + unat b) a bs = a * 256 ^ length bs + be_nat bs"
    for a and bs :: "u8 list"
    unfolding be_nat_def
  proof (induction bs arbitrary: a)
    case (Cons b bs)
    show ?case
      using Cons [of "256 * a + unat b"] Cons [of "unat b"] by (simp add: algebra_simps)
  qed simp
  let ?b = "buffer ! it"
  let ?acc = "push_bit 8 acc OR ucast ?b :: u64"
  have it: "it < length buffer" using Suc.prems by simp
  then have tk: "take (Suc n) (drop it buffer) = ?b # take n (drop (Suc it) buffer)"
    by (simp add: Cons_nth_drop_Suc [symmetric])
  have be: "be_nat (take (Suc n) (drop it buffer)) =
      unat ?b * 256 ^ n + be_nat (take n (drop (Suc it) buffer))"
    using foldl_acc [of "unat ?b" "take n (drop (Suc it) buffer)"] Suc.prems
    by (simp add: tk be_nat_def)
  have small: "unat acc * 256 < 2 ^ 64"
  proof -
    have "unat acc * 256 \<le> unat acc * 256 ^ Suc n" by (simp add: mult_le_mono)
    with Suc.prems(2) show ?thesis by linarith
  qed
  have acc: "unat ?acc = unat acc * 256 + unat ?b"
  proof -
    have p: "unat (push_bit 8 acc) = 256 * unat acc"
      using unat_push_bit_small [of 8 acc] small by simp
    have c: "unat (ucast ?b :: u64) = unat ?b"
      by (simp add: unat_ucast_mod) (rule mod_less, rule order_less_trans [OF unat_u8_less], simp)
    have "256 * unat acc + unat ?b < 2 ^ 64"
    proof -
      have "unat acc < 2 ^ 56" using small by simp
      then have "256 * (unat acc + 1) \<le> 2 ^ 64" by simp
      moreover have "256 * unat acc + unat ?b < 256 * (unat acc + 1)" by simp
      ultimately show ?thesis by (rule order_less_le_trans [rotated])
    qed
    with p c show ?thesis
      using unat_or_disjoint [of "push_bit 8 acc" 8 "unat acc" "ucast ?b"] by (simp add: mult.commute)
  qed
  have "unat ?acc * 256 ^ n + be_nat (take n (drop (Suc it) buffer)) =
      unat acc * 256 ^ Suc n + be_nat (take (Suc n) (drop it buffer))"
    by (simp add: acc be algebra_simps)
  then show ?case
    using Suc.IH [of "it + 1" ?acc] Suc.prems it by simp
qed

section \<open>The encoder produces the server frame of RFC 6455\<close>

lemma encode_frame_hybi17_eq:
  assumes "length m < 2 ^ 64"
  shows "encode_frame_hybi17 m =
    Inr (0x81 # (if length m \<le> 125 then [of_nat (length m)]
                 else if length m \<le> 0xFFFF then 126 # be_split 2 (length m)
                 else 127 # be_split 8 (length m)) @ m)"
proof -
  let ?d = "of_nat (length m) :: u64"
  have d: "unat ?d = length m" using assms by (simp add: unat_of_nat take_bit_eq_mod)
  have le: "?d \<le> w \<longleftrightarrow> length m \<le> unat w" for w by (simp add: word_le_nat_alt d)
  have first: "kFinalBit OR kOpCodeText = 0x81" by (simp add: ws_consts)
  have lo: "(ucast ?d :: u8) = of_nat (length m)" if "length m \<le> 125"
    using that by (intro word_unat_eq_iff [THEN iffD2]) (simp add: unat_ucast_mod d unat_of_nat take_bit_eq_mod)
  have two: "[ucast (drop_bit 8 (?d AND 0xFF00)), ucast (?d AND 0xFF)] = be_split 2 (length m)"
    if "length m \<le> 0xFFFF"
  proof -
    have "drop_bit 8 (?d AND 0xFF00) = drop_bit 8 ?d AND mask 8"
      by (rule bit_word_eqI) (auto simp: bit_simps mask_eq_exp_minus_1)
    then have "unat (ucast (drop_bit 8 (?d AND 0xFF00)) :: u8) = length m div 256"
      using that by (simp add: unat_ucast_mod unat_and_mask [of _ 8] unat_drop_bit_div d)
    moreover have "unat (ucast (?d AND 0xFF) :: u8) = length m mod 256"
      by (simp add: unat_ucast_mod unat_and_mask [of _ 8] mask_eq_exp_minus_1 d)
    ultimately have "(ucast (drop_bit 8 (?d AND 0xFF00)) :: u8) = of_nat (length m div 256)"
      "(ucast (?d AND 0xFF) :: u8) = of_nat (length m mod 256)"
      by (metis of_nat_unat ucast_id)+
    moreover have "length m div 256 mod 256 = length m div 256" using that by simp
    ultimately show ?thesis by (simp add: numeral_2_eq_2)
  qed
  show ?thesis
    using lo two
    by (auto simp: encode_frame_hybi17_def Let_def first le fill_extended_eq drop_bit_64_u64 d
        kMaxSingleBytePayloadLength_def kTwoBytePayloadLengthField_def kEightBytePayloadLengthField_def)
qed

lemma rfc_server_payload_encode:
  assumes "length m < 2 ^ 64"
  shows "\<exists>f. encode_frame_hybi17 m = Inr f \<and> rfc_server_payload f = Some m"
proof -
  have "be_nat (be_split 2 (length m)) = length m" if "length m \<le> 0xFFFF"
    using that by (simp add: be_nat_split)
  moreover have "be_nat (be_split 8 (length m)) = length m"
    using assms by (simp add: be_nat_split)
  ultimately show ?thesis
    unfolding encode_frame_hybi17_eq [OF assms]
    by (auto simp: rfc_server_payload_def unat_of_nat take_bit_eq_mod Let_def)
qed

section \<open>The decoder\<close>

lemma unmask_loop_ok:
  "it + 4 + i + n \<le> length buffer \<Longrightarrow>
    unmask_loop buffer it i n out =
      Inr (out @ map (\<lambda>j. buffer ! (it + 4 + j) XOR buffer ! (it + j mod 4)) [i..<i + n])"
proof (induction n arbitrary: i out)
  case (Suc n)
  have "i mod 4 \<le> i" by simp
  then have "it + i mod 4 < length buffer" using Suc.prems by linarith
  moreover have "[i..<i + Suc n] = i # [Suc i..<Suc i + n]"
    by (simp add: upt_conv_Cons del: upt_Suc)
  ultimately show ?case
    using Suc by (simp add: kMaskingKeyWidthInBytes_def del: upt_Suc)
qed simp

lemma read_at_Inl: "read_at xs i = Inl e \<Longrightarrow> e = OutOfBounds"
  by (simp add: read_at_def split: if_splits)

lemma unmask_loop_overread:
  "0 < n \<Longrightarrow> length buffer < it + 4 + i + n \<Longrightarrow> unmask_loop buffer it i n out = Inl OutOfBounds"
proof (induction n arbitrary: i out)
  case (Suc n)
  show ?case
  proof (cases "it + 4 + i < length buffer")
    case True
    have "i mod 4 \<le> i" by simp
    then have k: "it + i mod 4 < length buffer" using True by linarith
    have "0 < n" using Suc.prems True by linarith
    with Suc k True show ?thesis by (simp add: kMaskingKeyWidthInBytes_def)
  next
    case False
    then show ?thesis by (simp add: kMaskingKeyWidthInBytes_def)
  qed
qed simp

lemma unmask_loop_cases:
  "unmask_loop buffer it i n out =
    (if n = 0 then Inr out
     else if it + 4 + i + n \<le> length buffer
     then Inr (out @ map (\<lambda>j. buffer ! (it + 4 + j) XOR buffer ! (it + j mod 4)) [i..<i + n])
     else Inl OutOfBounds)"
  using unmask_loop_ok [of it i n buffer out] unmask_loop_overread [of n buffer it i out]
  by (cases "n = 0") auto

text \<open>The completeness test passes whenever the whole frame is there.\<close>

lemma decode_payload_complete:
  assumes "it + 4 + unat len \<le> length buffer" "length buffer < 2 ^ 63"
  shows "decode_payload buffer it closed c len =
    Inr (frame_result (if closed then FRAME_CLOSE else FRAME_OK) (of_nat (it + 4 + unat len))
      (map (\<lambda>j. buffer ! (it + 4 + j) XOR buffer ! (it + j mod 4)) [0..<unat len]) c)"
proof -
  have len: "unat len < 2 ^ 63" using assms by simp
  have "unat (of_nat (length buffer) - of_nat 4 :: u64) = length buffer - 4"
    using assms by (simp add: unat_sub_if' unat_of_nat take_bit_eq_mod)
  then have "\<not> of_nat (length buffer) - of_nat kMaskingKeyWidthInBytes < len"
    using assms(1) by (simp add: word_less_nat_alt kMaskingKeyWidthInBytes_def)
  moreover have "\<not> max_payload_length < len"
    "\<not> max_length - of_nat kMaskingKeyWidthInBytes < len"
    using len by (simp_all add: word_less_nat_alt max_payload_length_def max_length_def
        kMaskingKeyWidthInBytes_def)
  moreover have "(of_nat (it + 4) + len :: u64) = of_nat (it + 4 + unat len)"
    by simp
  ultimately show ?thesis
    using unmask_loop_ok [of it 0 "unat len" buffer "[]"] assms
    by (simp add: decode_payload_def kMaskingKeyWidthInBytes_def)
qed

lemma length_client_header:
  "length (client_header opcode n) = (if n \<le> 125 then 2 else if n \<le> 0xFFFF then 4 else 10)"
  by (simp add: client_header_def)

lemma length_mask_with [simp]: "length (mask_with key data) = length data"
  by (simp add: mask_with_def)

text \<open>Reading key and masked data back out of a frame gives the data.\<close>

lemma unmask_client:
  assumes "length key = 4"
  shows "map (\<lambda>j. (h @ key @ mask_with key data @ rest) ! (length h + 4 + j) XOR
               (h @ key @ mask_with key data @ rest) ! (length h + j mod 4)) [0..<length data] = data"
  (is "map ?f _ = _")
proof (rule nth_equalityI)
  fix j
  assume "j < length (map ?f [0..<length data])"
  then have j: "j < length data" by simp
  have "(h @ key @ mask_with key data @ rest) ! (length h + 4 + j) = data ! j XOR key ! (j mod 4)"
    using j assms by (simp add: nth_append mask_with_def)
  moreover have "(h @ key @ mask_with key data @ rest) ! (length h + j mod 4) = key ! (j mod 4)"
    using assms by (simp add: nth_append)
  ultimately show "map ?f [0..<length data] ! j = data ! j"
    using j by (simp add: xor.assoc)
qed simp

text \<open>
  What the first two bytes of a client frame tell the decoder, given as facts on bytes so that
  the header of \<open>client_header\<close> can be checked against them.
\<close>

lemma client_first_byte:
  assumes "opcode \<in> {1, 8}"
  shows "(0x80 OR opcode :: u8) AND kFinalBit \<noteq> 0" "(0x80 OR opcode) AND kReserved1Bit = 0"
    "(0x80 OR opcode) AND kReserved2Bit = 0" "(0x80 OR opcode) AND kReserved3Bit = 0"
    "(0x80 OR opcode) AND kOpCodeMask = opcode" "opcode = kOpCodeClose \<longleftrightarrow> opcode = 8"
    "opcode = kOpCodeText \<longleftrightarrow> opcode = 1"
  using assms by (auto simp: ws_consts)

text \<open>Past the header checks, the decoder only looks at the second byte.\<close>

lemma decode_checked:
  assumes "2 \<le> length buffer" "buffer ! 0 = 0x80 OR opcode" "opcode \<in> {1, 8}"
    and "buffer ! 1 AND kMaskBit \<noteq> 0" and len7: "len7 = (ucast (buffer ! 1 AND kPayloadLengthMask) :: u64)"
  shows "decode_frame_hybi17 buffer True =
    (if len7 \<le> of_nat kMaxSingleBytePayloadLength
     then decode_payload buffer 2 (opcode = 8) False len7
     else if len7 = of_nat kTwoBytePayloadLengthField \<or> len7 = of_nat kEightBytePayloadLengthField
     then (let n = (if len7 = of_nat kTwoBytePayloadLengthField then 2 else 8)
           in if length buffer - 2 < n
              then Inr (frame_result FRAME_INCOMPLETE 0 [] False)
              else bind_res (read_extended buffer 2 n 0)
                     (decode_payload buffer (2 + n) (opcode = 8) False))
     else Inr (frame_result FRAME_ERROR 0 [] False))"
proof -
  note f = client_first_byte [OF assms(3)]
  have op: "(opcode \<noteq> 8 \<and> opcode \<noteq> 1) = False" using assms(3) by auto
  have c1: "(length buffer < 2) = False" "(buffer ! 1 AND kMaskBit \<noteq> 0) = True"
      "((0x80 OR opcode) AND kFinalBit \<noteq> 0) = True"
    using assms(1,4) f(1) by simp_all
  show ?thesis
    unfolding decode_frame_hybi17_def Let_def assms(2) len7 [symmetric] f(2-7) op c1
    by simp
qed

lemma decode_single:
  assumes "2 \<le> length buffer" "buffer ! 0 = 0x80 OR opcode" "opcode \<in> {1, 8}"
    and "buffer ! 1 = 0x80 OR of_nat n" "n \<le> 125"
  shows "decode_frame_hybi17 buffer True = decode_payload buffer 2 (opcode = 8) False (of_nat n)"
proof -
  have u: "unat (0x80 OR of_nat n :: u8) = 0x80 + n"
    using unat_or_disjoint [of "0x80 :: u8" 7 1 "of_nat n"] assms(5)
    by (simp add: unat_of_nat take_bit_eq_mod)
  have m: "(128 + n) mod 128 = n" using assms(5) by simp
  have masked: "buffer ! 1 AND kMaskBit \<noteq> 0"
  proof -
    have "(0x80 OR x) AND 0x80 = 0x80" for x :: u8
      by (rule u8_eqI) (simp_all add: bit_simps)
    then have "buffer ! 1 AND kMaskBit = 0x80" by (simp only: assms(4) kMaskBit_def)
    then show ?thesis by simp
  qed
  have "unat ((0x80 OR of_nat n :: u8) AND 0x7F) = n"
    using m u by (simp add: unat_and_mask [of _ 7] mask_eq_exp_minus_1)
  then have l: "of_nat n = (ucast (buffer ! 1 AND kPayloadLengthMask) :: u64)"
    using assms(5) unfolding assms(4) kPayloadLengthMask_def
    by (intro word_unat_eq_iff [THEN iffD2]) (simp add: unat_ucast_mod unat_of_nat take_bit_eq_mod)
  have "(of_nat n :: u64) \<le> of_nat kMaxSingleBytePayloadLength"
    using assms(5) by (simp add: word_le_nat_alt unat_of_nat take_bit_eq_mod kMaxSingleBytePayloadLength_def)
  then show ?thesis
    unfolding decode_checked [OF assms(1-3) masked l] by simp
qed

lemma decode_extended:
  assumes "buffer ! 0 = 0x80 OR opcode" "opcode \<in> {1, 8}"
    and k: "(buffer ! 1 = 0xFE \<and> k = 2) \<or> (buffer ! 1 = 0xFF \<and> k = 8)"
    and "2 + k \<le> length buffer" "be_nat (take k (drop 2 buffer)) < 2 ^ 64"
  shows "decode_frame_hybi17 buffer True =
    decode_payload buffer (2 + k) (opcode = 8) False (of_nat (be_nat (take k (drop 2 buffer))))"
proof -
  have re: "read_extended buffer 2 k 0 = Inr (of_nat (be_nat (take k (drop 2 buffer))))"
    using read_extended_eq [of 2 k buffer 0] assms(4,5) by simp
  have len: "2 \<le> length buffer" "\<not> length buffer - 2 < k" using assms(4) by simp_all
  have masked: "buffer ! 1 AND kMaskBit \<noteq> 0" using k by (auto simp: kMaskBit_def)
  have l: "(ucast (buffer ! 1 AND kPayloadLengthMask) :: u64) = (if k = 2 then 126 else 127)"
    using k by (auto simp: kPayloadLengthMask_def)
  have ks: "k = 2 \<or> k = 8" using k by auto
  show ?thesis
    using ks re len(2)
    unfolding decode_checked [OF len(1) assms(1,2) masked refl] l
    by (auto simp: kMaxSingleBytePayloadLength_def kTwoBytePayloadLengthField_def
        kEightBytePayloadLengthField_def Let_def simp del: read_extended.simps)
qed

text \<open>The decoder reaches the payload stage with the length the client announced.\<close>

lemma decode_header:
  assumes "opcode \<in> {1, 8}" "n < 2 ^ 63" "buffer = client_header opcode n @ body"
  shows "decode_frame_hybi17 buffer True =
    decode_payload buffer (length (client_header opcode n)) (opcode = 8) False (of_nat n)"
proof -
  consider "n \<le> 125" | "125 < n" "n \<le> 0xFFFF" | "0xFFFF < n" by linarith
  then show ?thesis
  proof cases
    case 1
    then show ?thesis
      using assms(1) by (subst decode_single [where opcode = opcode and n = n])
        (simp_all add: assms(3) client_header_def numeral_2_eq_2)
  next
    case 2
    then have "be_nat (be_split 2 n) = n" by (simp add: be_nat_split)
    with 2 show ?thesis
      using assms(1) by (subst decode_extended [where opcode = opcode and k = 2])
        (simp_all add: assms(3) client_header_def)
  next
    case 3
    then have "be_nat (be_split 8 n) = n" using assms(2) by (simp add: be_nat_split)
    with 3 show ?thesis
      using assms(1,2) by (subst decode_extended [where opcode = opcode and k = 8])
        (simp_all add: assms(3) client_header_def)
  qed
qed

lemma decode_payload_consumed:
  assumes "decode_payload buffer it closed c len = Inr d" "payload d \<noteq> []" "it \<le> 10"
  shows "unat (bytes_consumed d) = it + 4 + unat len \<and> unat (bytes_consumed d) \<le> length buffer
    \<and> length (payload d) = unat len"
proof -
  from assms(1,2) obtain out where out: "unmask_loop buffer it 0 (unat len) [] = Inr out"
    and d: "d = frame_result (if closed then FRAME_CLOSE else FRAME_OK) (of_nat (it + 4) + len) out c"
    and small: "\<not> max_payload_length < len"
    by (auto simp: decode_payload_def frame_result_def kMaskingKeyWidthInBytes_def res_simps
        split: if_splits)
  have o: "out \<noteq> []" using assms(2) by (simp add: d frame_result_def)
  with out have n: "it + 4 + unat len \<le> length buffer" "length out = unat len"
    by (auto simp: unmask_loop_cases split: if_splits)
  have "unat len < 2 ^ 63"
    using small by (simp add: max_payload_length_def word_less_nat_alt)
  then have "unat (of_nat (it + 4) + len) = it + 4 + unat len"
    using assms(3) by (simp add: unat_word_ariths unat_of_nat take_bit_eq_mod)
  with n show ?thesis by (simp add: d frame_result_def)
qed

lemma decode_reaches_payload:
  assumes "decode_frame_hybi17 buffer c = Inr d" "payload d \<noteq> []"
  shows "\<exists>it closed cm len. it \<le> 10 \<and> decode_payload buffer it closed cm len = Inr d"
proof -
  have fr: "frame_result r n [] cm \<noteq> d" for r n cm
    using assms(2) by (auto simp: frame_result_def)
  show ?thesis
  proof (rule ccontr)
    assume "\<not> ?thesis"
    then have no: "decode_payload buffer it closed cm len \<noteq> Inr d" if "it \<le> 10" for it closed cm len
      using that by blast
    have "decode_frame_hybi17 buffer c \<noteq> Inr d"
      unfolding decode_frame_hybi17_def Let_def
      by (simp add: fr no bind_res_Inr_iff)
    with assms(1) show False by simp
  qed
qed

lemma decode_prefix_payload:
  assumes "opcode \<in> {1, 8}" "length data \<le> 125" "2 \<le> s"
  shows "decode_frame_hybi17 (take s (client_frame opcode key data)) True =
    decode_payload (take s (client_frame opcode key data)) 2 (opcode = 8) False (of_nat (length data))"
proof -
  have "take s (client_frame opcode key data) =
      client_header opcode (length data) @ take (s - 2) (key @ mask_with key data)"
    using assms(2,3) by (simp add: client_frame_def length_client_header)
  then show ?thesis
    using decode_header [OF assms(1), of "length data"] assms(2) by (simp add: length_client_header)
qed

lemma decode_client:
  assumes "opcode \<in> {1, 8}" "length key = 4"
    and "length (client_frame opcode key data @ rest) < 2 ^ 63"
  shows "decode_frame_hybi17 (client_frame opcode key data @ rest) True =
    Inr (frame_result (if opcode = 8 then FRAME_CLOSE else FRAME_OK)
           (of_nat (length (client_frame opcode key data))) data False)"
proof -
  let ?h = "client_header opcode (length data)"
  let ?buffer = "?h @ key @ mask_with key data @ rest"
  have "length data < 2 ^ 63" using assms(3) by (simp add: client_frame_def)
  then have "decode_frame_hybi17 ?buffer True =
      decode_payload ?buffer (length ?h) (opcode = 8) False (of_nat (length data))"
    by (intro decode_header [OF assms(1)]) simp_all
  moreover have "unat (of_nat (length data) :: u64) = length data"
    using \<open>length data < 2 ^ 63\<close> by (simp add: unat_of_nat take_bit_eq_mod)
  ultimately show ?thesis
    using assms(2,3) decode_payload_complete [of "length ?h" "of_nat (length data)" ?buffer "opcode = 8" False]
      unmask_client [OF assms(2), of ?h data rest]
    by (simp add: client_frame_def add.assoc)
qed

lemma decode_incomplete:
  assumes "opcode \<in> {1, 8}" "length key = 4" "length data \<le> 125"
    and "s = 1 \<or> 4 \<le> s \<and> s < length data + 4"
  shows "decode_frame_hybi17 (take s (client_frame opcode key data)) True =
    Inr (frame_result FRAME_INCOMPLETE 0 [] False)"
proof (cases "s = 1")
  case True
  then have "length (take s (client_frame opcode key data)) < 2" by simp
  then show ?thesis by (simp add: decode_frame_hybi17_def del: length_take)
next
  case False
  let ?buffer = "take s (client_frame opcode key data)"
  let ?n = "of_nat (length data) :: u64"
  have len: "length ?buffer = s" "4 \<le> s" "s < length data + 4"
    using assms False by (auto simp: client_frame_def length_client_header)
  have n: "unat ?n = length data" using assms(3) by (simp add: unat_of_nat take_bit_eq_mod)
  have "(of_nat s - of_nat 4 :: u64) = of_nat (s - 4)" using len(2) by (simp add: of_nat_diff)
  moreover have "unat (of_nat (s - 4) :: u64) = s - 4"
    using len(3) assms(3) by (simp add: unat_of_nat take_bit_eq_mod)
  ultimately have "(of_nat s - of_nat 4 :: u64) < ?n" using n len by (simp add: word_less_nat_alt)
  moreover have "\<not> ?n > max_payload_length" "\<not> ?n > max_length - of_nat 4"
    using assms(3) n by (simp_all add: word_less_nat_alt max_payload_length_def max_length_def)
  ultimately show ?thesis
    using decode_prefix_payload [OF assms(1,3), of s key] len
    by (simp add: decode_payload_def kMaskingKeyWidthInBytes_def)
qed

section \<open>Properties\<close>

text \<open>
  C16: The frame decoder accepts every complete client frame: for a final, masked text or close
  frame of RFC 6455 (opcode 1 or 8) with any masking key and any payload, followed by any further
  bytes in the buffer, it returns the unmasked payload, reports exactly the bytes of that frame as
  consumed, and does not flag compression.
\<close>

theorem decode_client_frame:
  assumes "opcode \<in> {1, 8}" "length key = 4"
    and "length (client_frame opcode key data @ rest) < 2 ^ 63"
  shows "decode_frame_hybi17 (client_frame opcode key data @ rest) True =
    Inr (frame_result (if opcode = 8 then FRAME_CLOSE else FRAME_OK)
           (of_nat (length (client_frame opcode key data))) data False)"
  by (rule decode_client [OF assms])

theorem decode_client_frame_witness:
  "decode_frame_hybi17 (client_frame 1 [1, 2, 3, 4] [0x48, 0x69] @ [0x81]) True =
    Inr (frame_result FRAME_OK 8 [0x48, 0x69] False)"
proof -
  have "length (client_frame 1 [1, 2, 3, 4] [0x48, 0x69]) = 8"
    by (simp add: client_frame_def length_client_header)
  then show ?thesis
    using decode_client_frame [of 1 "[1, 2, 3, 4]" "[0x48, 0x69]" "[0x81]"] by simp
qed

text \<open>
  C29: The completeness test of the decoder compares the payload length with the buffer size less
  the masking key and leaves out the header bytes (and its unsigned subtraction wraps around for
  buffers of two or three bytes). For a client frame with a payload of 1 to 125 bytes of which
  only the first 2, 3, \<open>n + 4\<close> or \<open>n + 5\<close> bytes have arrived, the decoder does not
  report an incomplete frame: it reads outside the buffer.
\<close>

theorem decode_partial_frame_overreads:
  assumes "opcode \<in> {1, 8}" "length key = 4" "data \<noteq> []" "length data \<le> 125"
    and "s \<in> {2, 3, length data + 4, length data + 5}"
  shows "decode_frame_hybi17 (take s (client_frame opcode key data)) True = Inl OutOfBounds"
proof -
  let ?buffer = "take s (client_frame opcode key data)"
  let ?n = "of_nat (length data) :: u64"
  have len: "length ?buffer = s" "2 \<le> s" "s < 2 + 4 + length data"
    using assms by (auto simp: client_frame_def length_client_header)
  have n: "unat ?n = length data" using assms(4) by (simp add: unat_of_nat take_bit_eq_mod)
  have "\<not> (of_nat s - of_nat 4 :: u64) < ?n"
  proof (cases "s < 4")
    case True
    then have "s = 2 \<or> s = 3" using len by linarith
    then show ?thesis using assms(4) n by (auto simp: word_less_nat_alt unsigned_minus_1_eq_mask mask_eq_exp_minus_1)
  next
    case False
    then have "unat (of_nat s - of_nat 4 :: u64) = s - 4"
      using len assms(4) by (simp add: unat_sub_if' unat_of_nat take_bit_eq_mod)
    with False assms(5) n show ?thesis by (auto simp: word_less_nat_alt)
  qed
  moreover have "\<not> max_payload_length < ?n" "\<not> max_length - of_nat 4 < ?n"
    using assms(4) n by (simp_all add: word_less_nat_alt max_payload_length_def max_length_def)
  moreover have "unmask_loop ?buffer 2 0 (length data) [] = Inl OutOfBounds"
    using assms(3) len by (intro unmask_loop_overread) auto
  ultimately show ?thesis
    using decode_prefix_payload [OF assms(1,4) len(2), of key] len(1) n
    by (simp add: decode_payload_def kMaskingKeyWidthInBytes_def)
qed

theorem decode_partial_frame_overreads_witness:
  "decode_frame_hybi17 (take 6 (client_frame 1 [1, 2, 3, 4] [0x48, 0x69])) True = Inl OutOfBounds"
  using decode_partial_frame_overreads [of 1 "[1, 2, 3, 4]" "[0x48, 0x69]" 6] by simp

text \<open>
  Whatever bytes arrive, a frame that the decoder returns with a non-empty payload lies inside
  the buffer: the bytes it reports as consumed do not exceed the buffer and hold the header, the
  masking key and the payload.
\<close>

theorem decode_consumed_inside:
  assumes "decode_frame_hybi17 buffer c = Inr d" "payload d \<noteq> []"
  shows "unat (bytes_consumed d) \<le> length buffer \<and>
    length (payload d) + 4 \<le> unat (bytes_consumed d)"
  using decode_reaches_payload [OF assms] decode_payload_consumed [OF _ assms(2)]
  by (metis le_add2 add.commute add_le_mono1)

theorem decode_consumed_inside_witness:
  "unat (8 :: u64) \<le> length (client_frame 1 [1, 2, 3, 4] [0x48, 0x69]) \<and> 2 + 4 \<le> unat (8 :: u64)"
proof -
  have "decode_frame_hybi17 (client_frame 1 [1, 2, 3, 4] [0x48, 0x69]) True =
      Inr (frame_result FRAME_OK 8 [0x48, 0x69] False)" by code_simp
  from decode_consumed_inside [OF this] show ?thesis by (simp add: frame_result_def)
qed

text \<open>
  Every message the server sends is framed correctly: the encoder never fails its check, and
  a client that reads the frame by RFC 6455 recovers exactly the message, for all three forms of
  the length field.
\<close>

theorem encode_frame_readable:
  assumes "length message < 2 ^ 64"
  shows "\<exists>f. encode_frame_hybi17 message = Inr f \<and> rfc_server_payload f = Some message"
  by (rule rfc_server_payload_encode [OF assms])

theorem encode_frame_readable_witness:
  "\<exists>f. encode_frame_hybi17 (replicate 200 7) = Inr f \<and> rfc_server_payload f = Some (replicate 200 7)"
  using encode_frame_readable [of "replicate 200 7"] by simp

end
