(* ===== verification/Inspector_Server.thy ===== *)
theory Inspector_Server
  imports Inspector_Http Inspector_Agent Ws_Frames
begin

text \<open>
  The inspector server: \<^verbatim>\<open>src/src/inspector/inspector_socket_server.cpp\<close> with the protocol
  handlers of \<^verbatim>\<open>inspector_socket.cpp\<close> and the delegate of \<^verbatim>\<open>inspector_agent.cpp\<close>
  that routes sessions to agents, as operations on one \<open>world\<close>. A session owns a socket whose
  handler is first HTTP and, after an accepted upgrade, WebSocket. Bytes that a handler writes are
  collected per session in \<open>raw\<close>, in the order in which they go to the connection. When the
  connection holder of a session is released its delegate reports the end of the session, which
  erases the session: this is one step here. The HTTP parser is a parameter (the callbacks it makes
  and whether it succeeded), as is the operating system's conversion of UTF-8 text.
\<close>

section \<open>State\<close>

datatype ProtocolHandler = HttpProto HttpHandler | WsProto

record SocketSession =
  target :: string
  handler :: ProtocolHandler
  raw :: "u8 list list"

datatype ServerState = sNew | sRunning | sStopping | sStopped

record AgentDelegate =
  targets_map :: "(string, string) smap"
  session_targets_map :: "(int, string option) smap"

text \<open>Agents are known by their target id; a target of the delegate names its agent.\<close>

record world =
  srv_state :: ServerState
  next_session_id :: int
  connected_sessions :: "(int, SocketSession) smap"
  delegate :: "AgentDelegate option"
  agents :: "(string, AgentImpl) smap"
  srv_port :: int

definition Session :: "world \<Rightarrow> int \<Rightarrow> SocketSession option" where
  "Session w sid = sm_find (connected_sessions w) sid"

definition set_session :: "int \<Rightarrow> SocketSession \<Rightarrow> world \<Rightarrow> world" where
  "set_session sid s w = w\<lparr>connected_sessions := sm_upd sid s (connected_sessions w)\<rparr>"

text \<open>\<open>WriteRaw\<close> of the handler of a session; a session that is gone is a null pointer.\<close>

definition WriteRaw :: "int \<Rightarrow> u8 list \<Rightarrow> world \<Rightarrow> world res" where
  "WriteRaw sid bytes w =
     bind_res (deref (Session w sid)) (\<lambda>s. Inr (set_session sid (s\<lparr>raw := raw s @ [bytes]\<rparr>) w))"

section \<open>The delegate\<close>

definition post :: "(string \<Rightarrow> u16 list option) \<Rightarrow> int \<Rightarrow> string option \<Rightarrow> string \<Rightarrow> world \<Rightarrow> world res" where
  "post u sid agent message w =
     bind_res (deref agent) (\<lambda>tid.
     bind_res (deref (sm_find (agents w) tid)) (\<lambda>a.
       case PostIncomingMessage u sid message a of
         None \<Rightarrow> Inl CxxException
       | Some (trigger, a1) \<Rightarrow> Inr (w\<lparr>agents := sm_upd tid a1 (agents w)\<rparr>)))"

definition StartSession :: "(string \<Rightarrow> u16 list option) \<Rightarrow> int \<Rightarrow> string \<Rightarrow> world \<Rightarrow> world res" where
  "StartSession u sid target_id w =
     bind_res (deref (delegate w)) (\<lambda>d.
       let agent = sm_find (targets_map d) target_id;
           d1 = d\<lparr>session_targets_map := sm_emplace sid agent (session_targets_map d)\<rparr>
       in post u sid agent TAG_CONNECT (w\<lparr>delegate := Some d1\<rparr>))"

text \<open>The subscript of an absent session id inserts and yields a null agent.\<close>

definition session_agent :: "AgentDelegate \<Rightarrow> int \<Rightarrow> string option" where
  "session_agent d sid = (case sm_find (session_targets_map d) sid of None \<Rightarrow> None | Some a \<Rightarrow> a)"

definition DelegateMessageReceived :: "(string \<Rightarrow> u16 list option) \<Rightarrow> int \<Rightarrow> string \<Rightarrow> world \<Rightarrow> world res" where
  "DelegateMessageReceived u sid message w =
     bind_res (deref (delegate w)) (\<lambda>d. post u sid (session_agent d sid) message w)"

definition EndSession :: "(string \<Rightarrow> u16 list option) \<Rightarrow> int \<Rightarrow> world \<Rightarrow> world res" where
  "EndSession u sid w =
     bind_res (deref (delegate w)) (\<lambda>d. post u sid (session_agent d sid) TAG_DISCONNECT w)"

definition AddTarget :: "string \<Rightarrow> world \<Rightarrow> world res" where
  "AddTarget tid w =
     bind_res (deref (delegate w)) (\<lambda>d.
       Inr (w\<lparr>delegate := Some (d\<lparr>targets_map := sm_emplace tid tid (targets_map d)\<rparr>)\<rparr>))"

definition RemoveTarget :: "string \<Rightarrow> world \<Rightarrow> world res" where
  "RemoveTarget tid w =
     bind_res (deref (delegate w)) (\<lambda>d.
       Inr (w\<lparr>delegate := Some (d\<lparr>targets_map := sm_erase tid (targets_map d)\<rparr>)\<rparr>))"

definition HasTargets :: "world \<Rightarrow> bool res" where
  "HasTargets w = bind_res (deref (delegate w)) (\<lambda>d. Inr (length (targets_map d) > 0))"

definition GetTargetIds :: "AgentDelegate \<Rightarrow> string list" where
  "GetTargetIds d = sm_keys (targets_map d)"

definition GetTargetTitle :: "world \<Rightarrow> AgentDelegate \<Rightarrow> string \<Rightarrow> string res" where
  "GetTargetTitle w d tid =
     bind_res (deref (sm_find (targets_map d) tid)) (\<lambda>agent.
     bind_res (deref (sm_find (agents w) agent)) (\<lambda>a. Inr (title a)))"

definition GetTargetUrl :: "string \<Rightarrow> string" where
  "GetTargetUrl tid = ''file://'' @ tid"

definition TargetExists :: "world \<Rightarrow> string \<Rightarrow> bool res" where
  "TargetExists w tid = bind_res (deref (delegate w)) (\<lambda>d. Inr (tid \<in> set (GetTargetIds d)))"

section \<open>Handshakes and requests\<close>

text \<open>\<open>CancelHandshake\<close> is a no-op on a WebSocket handler.\<close>

definition CancelHandshake :: "int \<Rightarrow> world \<Rightarrow> world res" where
  "CancelHandshake sid w =
     bind_res (deref (Session w sid)) (\<lambda>s.
       case handler s of
         WsProto \<Rightarrow> Inr w
       | HttpProto h \<Rightarrow> WriteRaw sid (bytes_of_string HANDSHAKE_FAILED_RESPONSE) w)"

text \<open>\<open>AcceptUpgrade\<close>: write the reply, then switch the protocol; \<open>WriteRaw\<close> always returns 0.\<close>

definition AcceptUpgrade :: "int \<Rightarrow> string \<Rightarrow> world \<Rightarrow> world res" where
  "AcceptUpgrade sid accept_key w =
     bind_res (deref (Session w sid)) (\<lambda>s.
       case handler s of
         WsProto \<Rightarrow> Inr w
       | HttpProto h \<Rightarrow>
           bind_res (accept_reply accept_key) (\<lambda>reply.
           bind_res (WriteRaw sid (bytes_of_string reply) w) (\<lambda>w1.
           bind_res (deref (Session w1 sid)) (\<lambda>s1. Inr (set_session sid (s1\<lparr>handler := WsProto\<rparr>) w1)))))"

definition SessionStarted :: "(string \<Rightarrow> u16 list option) \<Rightarrow> int \<Rightarrow> string \<Rightarrow> string \<Rightarrow> world \<Rightarrow> world res" where
  "SessionStarted u sid tid key w =
     bind_res (TargetExists w tid) (\<lambda>ex.
       if \<not> ex then CancelHandshake sid w
       else bind_res (deref (Session w sid)) (\<lambda>s.
            bind_res (AcceptUpgrade sid key (set_session sid (s\<lparr>target := tid\<rparr>) w))
              (StartSession u sid tid)))"

definition SessionTerminated :: "(string \<Rightarrow> u16 list option) \<Rightarrow> int \<Rightarrow> world \<Rightarrow> world res" where
  "SessionTerminated u sid w =
     (case Session w sid of
        None \<Rightarrow> Inr w
      | Some s \<Rightarrow>
          bind_res (if target s \<noteq> [] then EndSession u sid w else Inr w) (\<lambda>w1.
            let w2 = w1\<lparr>connected_sessions := sm_erase sid (connected_sessions w1)\<rparr>
            in Inr (if connected_sessions w2 = [] \<and> srv_state w2 = sStopped
                    then w2\<lparr>delegate := None\<rparr> else w2)))"

text \<open>\<open>InspectorSocket::Write\<close>: framed on a WebSocket, raw on HTTP; an empty message goes out as it is.\<close>

definition SocketWrite :: "int \<Rightarrow> u8 list \<Rightarrow> world \<Rightarrow> world res" where
  "SocketWrite sid bytes w =
     bind_res (deref (Session w sid)) (\<lambda>s.
       case handler s of
         HttpProto h \<Rightarrow> WriteRaw sid bytes w
       | WsProto \<Rightarrow>
           if bytes = [] then WriteRaw sid [] w
           else bind_res (encode_frame_hybi17 bytes) (\<lambda>f. WriteRaw sid f w))"

definition Send :: "int \<Rightarrow> u8 list \<Rightarrow> world \<Rightarrow> world res" where
  "Send sid message w =
     (case Session w sid of None \<Rightarrow> Inr w | Some s \<Rightarrow> SocketWrite sid message w)"

fun write_all :: "int \<Rightarrow> string list \<Rightarrow> world \<Rightarrow> world res" where
  "write_all sid [] w = Inr w"
| "write_all sid (m # ms) w = bind_res (SocketWrite sid (bytes_of_string m) w) (write_all sid ms)"

fun target_maps :: "world \<Rightarrow> AgentDelegate \<Rightarrow> string \<Rightarrow> string list \<Rightarrow> (string, string) smap list res" where
  "target_maps w d host [] = Inr []"
| "target_maps w d host (tid # ids) =
     bind_res (GetTargetTitle w d tid) (\<lambda>tt.
     bind_res (target_maps w d host ids) (\<lambda>ms.
       Inr (target_map tid tt (GetTargetUrl tid)
              (if host = [] then FormatHostPort [] (srv_port w) else host) # ms)))"

definition SendListResponse :: "int \<Rightarrow> string \<Rightarrow> world \<Rightarrow> world res" where
  "SendListResponse sid host w =
     bind_res (deref (delegate w)) (\<lambda>d.
     bind_res (target_maps w d host (GetTargetIds d)) (\<lambda>response.
       write_all sid (SendHttpResponse (MapsToString response)) w))"

definition HandleGetRequest :: "int \<Rightarrow> string \<Rightarrow> string \<Rightarrow> world \<Rightarrow> (bool \<times> world) res" where
  "HandleGetRequest sid host p w =
     bind_res (deref (Session w sid)) (\<lambda>s.
       case get_command p of
         None \<Rightarrow> Inr (False, w)
       | Some ListCmd \<Rightarrow> bind_res (SendListResponse sid host w) (\<lambda>w1. Inr (True, w1))
       | Some ProtocolCmd \<Rightarrow> bind_res (write_all sid SendProtocolJson w) (\<lambda>w1. Inr (True, w1))
       | Some VersionCmd \<Rightarrow> bind_res (write_all sid SendVersionResponse w) (\<lambda>w1. Inr (True, w1)))"

definition OnHttpGet :: "int \<Rightarrow> string \<Rightarrow> string \<Rightarrow> world \<Rightarrow> world res" where
  "OnHttpGet sid host p w =
     bind_res (HandleGetRequest sid host p w) (\<lambda>(ok, w1).
       if \<not> ok then CancelHandshake sid w1 else Inr w1)"

definition OnSocketUpgrade :: "(string \<Rightarrow> u16 list option) \<Rightarrow> int \<Rightarrow> string \<Rightarrow> string \<Rightarrow> world \<Rightarrow> world res" where
  "OnSocketUpgrade u sid p key w = SessionStarted u sid (if p = [] then p else drop 1 p) key w"

section \<open>Incoming data\<close>

text \<open>
  The event loop of \<open>HttpHandler::OnData\<close>. After a successful upgrade the handler object is gone
  and its connection pointer was moved away: touching it for a further event is a fault.
\<close>

definition http_alive :: "int \<Rightarrow> world \<Rightarrow> bool" where
  "http_alive sid w =
     (case Session w sid of None \<Rightarrow> False | Some s \<Rightarrow> (case handler s of HttpProto h \<Rightarrow> True | WsProto \<Rightarrow> False))"

fun http_events :: "(string \<Rightarrow> u16 list option) \<Rightarrow> int \<Rightarrow> HttpEvent list \<Rightarrow> world \<Rightarrow> world res" where
  "http_events u sid [] w = Inr w"
| "http_events u sid (event # es) w =
     check (http_alive sid w) NullDeref
       (case http_action event of
          ActCancel \<Rightarrow> CancelHandshake sid w
        | ActGet host p \<Rightarrow> bind_res (OnHttpGet sid host p w) (http_events u sid es)
        | ActUpgrade host p key \<Rightarrow> bind_res (OnSocketUpgrade u sid p key w) (http_events u sid es))"

definition HttpOnData :: "(string \<Rightarrow> u16 list option) \<Rightarrow> parser_cb list \<Rightarrow> bool \<Rightarrow> int \<Rightarrow> world \<Rightarrow> world res" where
  "HttpOnData u cbs parse_ok sid w =
     bind_res (deref (Session w sid)) (\<lambda>s.
       case handler s of
         WsProto \<Rightarrow> Inr w
       | HttpProto h \<Rightarrow>
           let h1 = fold run_cb cbs h;
               w1 = set_session sid (s\<lparr>handler := HttpProto (h1\<lparr>events := []\<rparr>)\<rparr>) w
           in bind_res (if parse_ok then Inr w1 else CancelHandshake sid w1)
                (http_events u sid (events h1)))"

definition OnWsFrame :: "(string \<Rightarrow> u16 list option) \<Rightarrow> int \<Rightarrow> u8 list \<Rightarrow> world \<Rightarrow> world res" where
  "OnWsFrame u sid data w = DelegateMessageReceived u sid (string_of_bytes data) w"

definition CLOSE_FRAME :: "u8 list" where
  "CLOSE_FRAME = [0x88, 0x00]"

text \<open>
  One frame: the number of bytes consumed and the new world. A close frame is answered with a
  close frame (\<open>OnCloseRecieved\<close> is always \<open>CloseFrameReceived\<close>: the only assignment of
  another value is in \<open>WaitForCloseReply\<close>, which nothing calls).
\<close>

definition ParseWsFrames :: "(string \<Rightarrow> u16 list option) \<Rightarrow> int \<Rightarrow> u8 list \<Rightarrow> world \<Rightarrow> (nat \<times> world) res" where
  "ParseWsFrames u sid buffer w =
     bind_res (decode_frame_hybi17 buffer True) (\<lambda>d.
       if compressed d \<or> result d = FRAME_ERROR then
         bind_res (SessionTerminated u sid w) (\<lambda>w1. Inr (0, w1))
       else if result d = FRAME_CLOSE then
         bind_res (WriteRaw sid CLOSE_FRAME w) (\<lambda>w1. Inr (0, w1))
       else if result d = FRAME_OK then
         bind_res (OnWsFrame u sid (payload d) w) (\<lambda>w1. Inr (unat (bytes_consumed d), w1))
       else Inr (unat (bytes_consumed d), w))"

text \<open>\<open>remove_from_beginning\<close> erases \<open>count\<close> elements, which must be there.\<close>

definition remove_from_beginning :: "u8 list \<Rightarrow> nat \<Rightarrow> u8 list res" where
  "remove_from_beginning buffer count =
     check (count \<le> length buffer) OutOfBounds (Inr (drop count buffer))"

text \<open>The loop of \<open>WsHandler::OnData\<close>; it yields the world and the bytes that remain unread.\<close>

function WsOnData :: "(string \<Rightarrow> u16 list option) \<Rightarrow> int \<Rightarrow> u8 list \<Rightarrow> world \<Rightarrow> (u8 list \<times> world) res" where
  "WsOnData u sid data w =
     (case ParseWsFrames u sid data w of
        Inl e \<Rightarrow> Inl e
      | Inr (processed, w1) \<Rightarrow>
          if processed = 0 then Inr (data, w1)
          else (case remove_from_beginning data processed of
                  Inl e \<Rightarrow> Inl e
                | Inr rest \<Rightarrow> if rest = [] then Inr (rest, w1) else WsOnData u sid rest w1))"
  by pat_completeness auto
termination
  by (relation "measure (\<lambda>(u, sid, data, w). length data)")
    (auto simp: remove_from_beginning_def check_def split: if_splits)

declare WsOnData.simps [simp del]

text \<open>
  \<open>TcpHolder::OnDataReceivedCb\<close>: every read delivers a fresh vector to the handler, which is
  destroyed when the callback returns; what the handler left in it is gone. \<open>parser\<close> gives the
  parser's behaviour on the bytes.
\<close>

definition OnDataReceivedCb :: "(string \<Rightarrow> u16 list option) \<Rightarrow> (u8 list \<Rightarrow> parser_cb list \<times> bool) \<Rightarrow>
    int \<Rightarrow> u8 list \<Rightarrow> bool \<Rightarrow> world \<Rightarrow> world res" where
  "OnDataReceivedCb u parser sid wiredata iseof w =
     (if iseof then SessionTerminated u sid w
      else bind_res (deref (Session w sid)) (\<lambda>s.
             case handler s of
               HttpProto h \<Rightarrow> (case parser wiredata of (cbs, ok) \<Rightarrow> HttpOnData u cbs ok sid w)
             | WsProto \<Rightarrow> bind_res (WsOnData u sid wiredata w) (\<lambda>(rest, w1). Inr w1)))"

section \<open>Life cycle of the server\<close>

definition Accept :: "world \<Rightarrow> world" where
  "Accept w =
     (let sid = next_session_id w
      in set_session sid \<lparr>target = [], handler = HttpProto HttpHandler_init, raw = []\<rparr>
           (w\<lparr>next_session_id := sid + 1\<rparr>))"

definition Start :: "world \<Rightarrow> world res" where
  "Start w = check (srv_state w \<noteq> sStopped) CheckAbort (Inr (w\<lparr>srv_state := sRunning\<rparr>))"

definition Stop :: "world \<Rightarrow> world res" where
  "Stop w =
     (if srv_state w = sStopped then Inr w
      else check (srv_state w = sRunning) CheckAbort
             (Inr (w\<lparr>srv_state := sStopped, delegate := None\<rparr>)))"

definition server_new :: "int \<Rightarrow> world" where
  "server_new p =
     \<lparr>srv_state = sNew, next_session_id = 0, connected_sessions = [],
      delegate = Some \<lparr>targets_map = [], session_targets_map = []\<rparr>, agents = [], srv_port = p\<rparr>"

text \<open>\<open>AgentImpl::Start\<close> for the agent with the given target id, on an existing server.\<close>

definition AgentStart :: "string \<Rightarrow> world \<Rightarrow> world res" where
  "AgentStart tid w =
     bind_res (deref (sm_find (agents w) tid)) (\<lambda>a.
       if IsStarted a then Inr w
       else bind_res (AddTarget tid w) (\<lambda>w1.
              Inr (w1\<lparr>agents := sm_upd tid (a\<lparr>a_state := kAccepting\<rparr>) (agents w1)\<rparr>)))"

text \<open>\<open>AgentImpl::DispatchMessages\<close> in the world: the replies of the agent go to the server in order.\<close>

fun send_replies :: "(int \<times> string_view) list \<Rightarrow> world \<Rightarrow> world res" where
  "send_replies [] w = Inr w"
| "send_replies ((sid, v) # ms) w =
     bind_res (StringViewToUtf8 v) (\<lambda>bytes. bind_res (Send sid bytes w) (send_replies ms))"

definition AgentDispatch :: "v8_session_fn \<Rightarrow> nat \<Rightarrow> string \<Rightarrow> world \<Rightarrow> world res option" where
  "AgentDispatch v8 fuel tid w =
     (case sm_find (agents w) tid of
        None \<Rightarrow> Some (Inl NullDeref)
      | Some a \<Rightarrow>
          map_option (\<lambda>r. bind_res r (\<lambda>b.
              send_replies (to_server b) (w\<lparr>agents := sm_upd tid (b\<lparr>to_server := []\<rparr>) (agents w)\<rparr>)))
            (DispatchMessages v8 fuel a))"

section \<open>Delivery of frames\<close>

lemma post_ok:
  assumes "sm_find (agents w) tid = Some a" "u msg = Some us"
  shows "post u sid (Some tid) msg w =
    Inr (w\<lparr>agents := sm_upd tid (a\<lparr>incoming_queue := incoming_queue a @ [(sid, SV16 us)]\<rparr>) (agents w)\<rparr>)"
  using assms by (simp add: post_def PostIncomingMessage_def AppendMessage_def)

definition attached :: "world \<Rightarrow> int \<Rightarrow> string \<Rightarrow> AgentImpl \<Rightarrow> bool" where
  "attached w sid tid a \<longleftrightarrow>
     (\<exists>d. delegate w = Some d \<and> session_agent d sid = Some tid) \<and> sm_find (agents w) tid = Some a"

definition client_text :: "u8 list \<times> u8 list \<Rightarrow> u8 list" where
  "client_text kd = client_frame 1 (fst kd) (snd kd)"

lemma client_text_not_Nil: "client_text kd \<noteq> []"
  by (simp add: client_text_def client_frame_def client_header_def)

lemma ParseWsFrames_text:
  assumes "attached w sid tid a" "length (fst kd) = 4" "u (string_of_bytes (snd kd)) = Some us"
    and "length (client_text kd @ rest) < 2 ^ 63"
  shows "ParseWsFrames u sid (client_text kd @ rest) w =
    Inr (length (client_text kd),
         w\<lparr>agents := sm_upd tid (a\<lparr>incoming_queue := incoming_queue a @ [(sid, SV16 us)]\<rparr>) (agents w)\<rparr>)"
proof -
  have dec: "decode_frame_hybi17 (client_text kd @ rest) True =
      Inr (frame_result FRAME_OK (of_nat (length (client_text kd))) (snd kd) False)"
    using decode_client [of 1 "fst kd" "snd kd" rest] assms(2,4) by (simp add: client_text_def)
  have n: "unat (of_nat (length (client_text kd)) :: u64) = length (client_text kd)"
    using assms(4) by (simp add: unat_of_nat take_bit_eq_mod)
  from assms(1) obtain d where "delegate w = Some d" "session_agent d sid = Some tid"
    "sm_find (agents w) tid = Some a" by (auto simp: attached_def)
  with dec n show ?thesis
    using post_ok [of w tid a u "string_of_bytes (snd kd)" us sid] assms(3)
    by (simp add: ParseWsFrames_def frame_result_def OnWsFrame_def DelegateMessageReceived_def)
qed

lemma WsOnData_texts:
  assumes "kds \<noteq> []" "attached w sid tid a" "\<forall>kd \<in> set kds. length (fst kd) = 4 \<and> u (string_of_bytes (snd kd)) \<noteq> None"
    and "length (concat (map client_text kds)) < 2 ^ 63"
  shows "WsOnData u sid (concat (map client_text kds)) w =
    Inr ([], w\<lparr>agents := sm_upd tid (a\<lparr>incoming_queue := incoming_queue a @
        map (\<lambda>kd. (sid, SV16 (the (u (string_of_bytes (snd kd)))))) kds\<rparr>) (agents w)\<rparr>)"
  using assms
proof (induction kds arbitrary: w a)
  case (Cons kd kds)
  let ?rest = "concat (map client_text kds)"
  let ?us = "the (u (string_of_bytes (snd kd)))"
  let ?a1 = "a\<lparr>incoming_queue := incoming_queue a @ [(sid, SV16 ?us)]\<rparr>"
  let ?w1 = "w\<lparr>agents := sm_upd tid ?a1 (agents w)\<rparr>"
  have step: "ParseWsFrames u sid (client_text kd @ ?rest) w = Inr (length (client_text kd), ?w1)"
    using Cons.prems by (intro ParseWsFrames_text) auto
  have rest: "remove_from_beginning (client_text kd @ ?rest) (length (client_text kd)) = Inr ?rest"
    by (simp add: remove_from_beginning_def)
  have att: "attached ?w1 sid tid ?a1"
    using Cons.prems(2) by (auto simp: attached_def sm_find_upd)
  show ?case
  proof (cases "kds = []")
    case True
    then show ?thesis
      using step rest client_text_not_Nil [of kd] by (subst WsOnData.simps) simp
  next
    case False
    then have "?rest \<noteq> []" using client_text_not_Nil by (cases kds) auto
    then have "WsOnData u sid (client_text kd @ ?rest) w = WsOnData u sid ?rest ?w1"
      using step rest client_text_not_Nil [of kd]
      by (subst WsOnData.simps) (simp del: concat_eq_Nil_conv)
    also have "\<dots> = Inr ([], ?w1\<lparr>agents := sm_upd tid (?a1\<lparr>incoming_queue := incoming_queue ?a1 @
        map (\<lambda>kd. (sid, SV16 (the (u (string_of_bytes (snd kd)))))) kds\<rparr>) (agents ?w1)\<rparr>)"
      using Cons.prems False att by (intro Cons.IH) auto
    finally show ?thesis by (simp add: sm_upd_upd)
  qed
qed simp

section \<open>The world invariant\<close>

definition session_ok :: "int \<Rightarrow> AgentDelegate option \<Rightarrow> (string, AgentImpl) smap \<Rightarrow> int \<Rightarrow> SocketSession \<Rightarrow> bool" where
  "session_ok n dl ags sid s \<longleftrightarrow>
     sid < n \<and> (handler s = WsProto \<longleftrightarrow> target s \<noteq> []) \<and>
     (\<forall>d. dl = Some d \<longrightarrow>
        (if target s = [] then sm_find (session_targets_map d) sid = None
         else \<exists>t. session_agent d sid = Some t \<and> sm_find ags t \<noteq> None))"

definition delegate_ok :: "int \<Rightarrow> (string, AgentImpl) smap \<Rightarrow> AgentDelegate \<Rightarrow> bool" where
  "delegate_ok n ags d \<longleftrightarrow>
     sm_inv (targets_map d) \<and>
     (\<forall>tid t. sm_find (targets_map d) tid = Some t \<longrightarrow> tid \<noteq> [] \<and> sm_find ags t \<noteq> None) \<and>
     (\<forall>sid. sm_find (session_targets_map d) sid \<noteq> None \<longrightarrow> sid < n)"

definition world_inv :: "world \<Rightarrow> bool" where
  "world_inv w \<longleftrightarrow>
     sm_inv (connected_sessions w) \<and>
     (\<forall>sid s. Session w sid = Some s \<longrightarrow>
        session_ok (next_session_id w) (delegate w) (agents w) sid s) \<and>
     (\<forall>d. delegate w = Some d \<longrightarrow> delegate_ok (next_session_id w) (agents w) d)"

lemma world_invD:
  assumes "world_inv w"
  shows "sm_inv (connected_sessions w)"
    and "Session w sid = Some s \<Longrightarrow> session_ok (next_session_id w) (delegate w) (agents w) sid s"
    and "delegate w = Some d \<Longrightarrow> delegate_ok (next_session_id w) (agents w) d"
  using assms by (simp_all add: world_inv_def)

lemma session_ok_cong:
  "session_ok n dl ags sid s \<Longrightarrow> target s' = target s \<Longrightarrow> handler s' = WsProto \<longleftrightarrow> handler s = WsProto \<Longrightarrow>
    session_ok n dl ags sid s'"
  unfolding session_ok_def by metis

lemma session_ok_mono:
  "session_ok n dl ags sid s \<Longrightarrow> n \<le> n' \<Longrightarrow> (\<And>t. sm_find ags t \<noteq> None \<Longrightarrow> sm_find ags' t \<noteq> None) \<Longrightarrow>
    session_ok n' dl ags' sid s"
  unfolding session_ok_def by (metis order_less_le_trans)

lemma delegate_ok_mono:
  "delegate_ok n ags d \<Longrightarrow> n \<le> n' \<Longrightarrow> (\<And>t. sm_find ags t \<noteq> None \<Longrightarrow> sm_find ags' t \<noteq> None) \<Longrightarrow>
    delegate_ok n' ags' d"
  unfolding delegate_ok_def by (blast intro: order_less_le_trans)

lemma Session_set_session [simp]:
  "Session (set_session sid s w) sid' = (if sid' = sid then Some s else Session w sid')"
  by (simp add: Session_def set_session_def sm_find_upd)

lemma set_session_simps [simp]:
  "delegate (set_session sid s w) = delegate w" "agents (set_session sid s w) = agents w"
  "next_session_id (set_session sid s w) = next_session_id w"
  "srv_state (set_session sid s w) = srv_state w" "srv_port (set_session sid s w) = srv_port w"
  by (simp_all add: set_session_def)

lemma sm_inv_set_session: "sm_inv (connected_sessions w) \<Longrightarrow> sm_inv (connected_sessions (set_session sid s w))"
  by (simp add: set_session_def sm_inv_upd)

lemma Session_update_other [simp]:
  "Session (w\<lparr>delegate := d\<rparr>) = Session w" "Session (w\<lparr>agents := ags\<rparr>) = Session w"
  "Session (w\<lparr>next_session_id := n\<rparr>) = Session w" "Session (w\<lparr>srv_state := st\<rparr>) = Session w"
  by (auto simp: Session_def fun_eq_iff)

text \<open>Replacing a session by one that agrees on target and protocol.\<close>

lemma world_inv_set_session:
  assumes "world_inv w" "Session w sid = Some s" "target s' = target s"
    and "handler s' = WsProto \<longleftrightarrow> handler s = WsProto"
  shows "world_inv (set_session sid s' w)"
  unfolding world_inv_def
  using world_invD [OF assms(1)] session_ok_cong [OF world_invD(2) [OF assms(1,2)] assms(3,4)]
  by (simp add: sm_inv_set_session)

lemma WriteRaw_inv: "world_inv w \<Longrightarrow> WriteRaw sid bs w = Inr w' \<Longrightarrow> world_inv w'"
  by (auto simp: WriteRaw_def res_simps intro!: world_inv_set_session)

lemma CancelHandshake_inv: "world_inv w \<Longrightarrow> CancelHandshake sid w = Inr w' \<Longrightarrow> world_inv w'"
  by (auto simp: CancelHandshake_def res_simps split: ProtocolHandler.split_asm intro: WriteRaw_inv)
    (metis ProtocolHandler.exhaust)+

lemma SocketWrite_inv: "world_inv w \<Longrightarrow> SocketWrite sid bs w = Inr w' \<Longrightarrow> world_inv w'"
  by (auto simp: SocketWrite_def res_simps split: ProtocolHandler.split_asm if_splits intro: WriteRaw_inv)
    (metis ProtocolHandler.exhaust)+

lemma Send_inv: "world_inv w \<Longrightarrow> Send sid bs w = Inr w' \<Longrightarrow> world_inv w'"
  by (auto simp: Send_def split: option.splits intro: SocketWrite_inv)

lemma write_all_inv: "world_inv w \<Longrightarrow> write_all sid ms w = Inr w' \<Longrightarrow> world_inv w'"
  by (induction sid ms w rule: write_all.induct) (auto simp: res_simps dest: SocketWrite_inv)

lemma OnHttpGet_inv: "world_inv w \<Longrightarrow> OnHttpGet sid host p w = Inr w' \<Longrightarrow> world_inv w'"
  by (auto simp: OnHttpGet_def HandleGetRequest_def SendListResponse_def res_simps
      split: option.splits get_command.splits if_splits intro: write_all_inv CancelHandshake_inv)

text \<open>Updating the queue of an agent keeps every agent.\<close>

lemma world_inv_agents:
  assumes "world_inv w"
  shows "world_inv (w\<lparr>agents := sm_upd tid a (agents w)\<rparr>)"
proof -
  have dom: "sm_find (agents w) t \<noteq> None \<Longrightarrow> sm_find (sm_upd tid a (agents w)) t \<noteq> None" for t
    by (simp add: sm_find_upd)
  show ?thesis
    unfolding world_inv_def
    using world_invD [OF assms]
    by simp (blast intro: session_ok_mono [OF _ order_refl dom] delegate_ok_mono [OF _ order_refl dom])
qed

lemma post_inv: "world_inv w \<Longrightarrow> post u sid ag msg w = Inr w' \<Longrightarrow> world_inv w'"
  by (auto simp: post_def res_simps split: option.splits prod.splits intro!: world_inv_agents)

lemma session_agent_emplace:
  "session_agent (d\<lparr>session_targets_map := sm_emplace sid ag (session_targets_map d)\<rparr>) sid' =
     (if sid' = sid \<and> sm_find (session_targets_map d) sid = None then ag else session_agent d sid')"
  by (simp add: session_agent_def sm_find_emplace)

text \<open>What an accepted upgrade leaves: the reply is written, the session is a WebSocket of the
  target, and the agent has been told of the connection.\<close>

definition upgraded :: "int \<Rightarrow> string \<Rightarrow> string \<Rightarrow> SocketSession \<Rightarrow> AgentDelegate \<Rightarrow> string \<Rightarrow> AgentImpl \<Rightarrow>
    u16 list \<Rightarrow> world \<Rightarrow> world" where
  "upgraded sid tid reply s d t a us w =
     (set_session sid (s\<lparr>target := tid, raw := raw s @ [bytes_of_string reply], handler := WsProto\<rparr>) w)
       \<lparr>delegate := Some (d\<lparr>session_targets_map := sm_emplace sid (Some t) (session_targets_map d)\<rparr>),
        agents := sm_upd t (a\<lparr>incoming_queue := incoming_queue a @ [(sid, SV16 us)]\<rparr>) (agents w)\<rparr>"

lemma set_session_twice: "set_session sid s (set_session sid s' w) = set_session sid s w"
  by (simp add: set_session_def sm_upd_upd)

lemma SessionStarted_accepted:
  assumes "Session w sid = Some s" "handler s = HttpProto h" "delegate w = Some d"
    and "sm_find (targets_map d) tid = Some t" "sm_find (agents w) t = Some a"
    and "accept_reply key = Inr reply" "u TAG_CONNECT = Some us"
  shows "SessionStarted u sid tid key w = Inr (upgraded sid tid reply s d t a us w)"
proof -
  have "TargetExists w tid = Inr True"
    using assms(3,4) by (simp add: TargetExists_def GetTargetIds_def in_sm_keys_iff)
  then show ?thesis
    using assms
    by (simp add: SessionStarted_def AcceptUpgrade_def WriteRaw_def set_session_twice StartSession_def
        Let_def post_def PostIncomingMessage_def AppendMessage_def upgraded_def)
qed

lemma SessionStarted_cases:
  assumes "SessionStarted u sid tid key w = Inr w'" "http_alive sid w" "world_inv w"
  shows "CancelHandshake sid w = Inr w' \<or>
    (\<exists>s h d t a reply us. Session w sid = Some s \<and> handler s = HttpProto h \<and> delegate w = Some d \<and>
       sm_find (targets_map d) tid = Some t \<and> sm_find (agents w) t = Some a \<and>
       accept_reply key = Inr reply \<and> u TAG_CONNECT = Some us \<and> w' = upgraded sid tid reply s d t a us w)"
proof -
  from assms(2) obtain s h where s: "Session w sid = Some s" "handler s = HttpProto h"
    by (auto simp: http_alive_def split: option.splits ProtocolHandler.splits)
  from assms(1) obtain d where d: "delegate w = Some d"
    by (auto simp: SessionStarted_def TargetExists_def res_simps)
  show ?thesis
  proof (cases "sm_find (targets_map d) tid")
    case None
    then show ?thesis using assms(1) d
      by (simp add: SessionStarted_def TargetExists_def GetTargetIds_def in_sm_keys_iff)
  next
    case (Some t)
    then obtain a where a: "sm_find (agents w) t = Some a"
      using world_invD(3) [OF assms(3) d] unfolding delegate_ok_def by blast
    have "\<exists>reply us. accept_reply key = Inr reply \<and> u TAG_CONNECT = Some us"
      using assms(1) s d Some a
      by (auto simp: SessionStarted_def TargetExists_def GetTargetIds_def in_sm_keys_iff AcceptUpgrade_def
          WriteRaw_def StartSession_def post_def PostIncomingMessage_def res_simps Let_def
          split: option.splits)
    then show ?thesis
      using SessionStarted_accepted [OF s d Some a] assms(1) s d Some a by fastforce
  qed
qed

lemma upgraded_inv:
  assumes inv: "world_inv w" and s: "Session w sid = Some s" "handler s = HttpProto h"
    and d: "delegate w = Some d" and t: "sm_find (targets_map d) tid = Some t"
    and a: "sm_find (agents w) t = Some a"
  shows "world_inv (upgraded sid tid reply s d t a us w)"
proof -
  let ?w = "upgraded sid tid reply s d t a us w"
  let ?d = "d\<lparr>session_targets_map := sm_emplace sid (Some t) (session_targets_map d)\<rparr>"
  note D = world_invD [OF inv]
  have ok: "session_ok (next_session_id w) (Some d) (agents w) sid s"
    using D(2) [OF s(1)] d by simp
  then have new: "sm_find (session_targets_map d) sid = None" "target s = []" "sid < next_session_id w"
    using s(2) by (auto simp: session_ok_def)
  have tid: "tid \<noteq> []" using D(3) [OF d] t by (auto simp: delegate_ok_def)
  have ag: "sm_find (agents ?w) t' = None \<longleftrightarrow> sm_find (agents w) t' = None" for t'
    using a by (auto simp: upgraded_def sm_find_upd)
  have "session_ok (next_session_id ?w) (delegate ?w) (agents ?w) sid' s'"
    if "Session ?w sid' = Some s'" for sid' s'
  proof (cases "sid' = sid")
    case True
    then have "target s' = tid \<and> handler s' = WsProto" using that by (auto simp: upgraded_def)
    then show ?thesis
      using True new tid a
      by (auto simp: upgraded_def session_ok_def session_agent_emplace sm_find_upd)
  next
    case False
    then have "session_ok (next_session_id w) (Some d) (agents w) sid' s'"
      using that D(2) d by (simp add: upgraded_def)
    then show ?thesis
      using False ag
      by (auto simp: session_ok_def session_agent_emplace sm_find_emplace upgraded_def split: if_splits)
  qed
  moreover have "delegate_ok (next_session_id ?w) (agents ?w) ?d"
    using D(3) [OF d] ag new(3)
    by (auto simp: delegate_ok_def upgraded_def sm_find_emplace)
  moreover have "sm_inv (connected_sessions ?w)"
    using D(1) by (simp add: upgraded_def set_session_def sm_inv_upd)
  ultimately show ?thesis
    unfolding world_inv_def by (simp add: upgraded_def)
qed

lemma SessionStarted_inv:
  assumes "world_inv w" "http_alive sid w" "SessionStarted u sid tid key w = Inr w'"
  shows "world_inv w'"
  using SessionStarted_cases [OF assms(3,2,1)]
  by (elim disjE exE conjE) (auto intro: CancelHandshake_inv [OF assms(1)] upgraded_inv [OF assms(1)])

lemma Session_erase:
  "sm_inv (connected_sessions w) \<Longrightarrow>
    Session (w\<lparr>connected_sessions := sm_erase sid (connected_sessions w)\<rparr>) = (Session w)(sid := None)"
  by (auto simp: Session_def fun_eq_iff sm_find_erase)

lemma world_inv_erase:
  assumes "world_inv w"
  shows "world_inv (w\<lparr>connected_sessions := sm_erase sid (connected_sessions w)\<rparr>)"
  unfolding world_inv_def
  using world_invD [OF assms] by (auto simp: Session_erase sm_inv_erase)

lemma world_inv_no_delegate: "world_inv w \<Longrightarrow> world_inv (w\<lparr>delegate := None\<rparr>)"
  by (auto simp: world_inv_def session_ok_def)

lemma world_inv_srv_state [simp]: "world_inv (w\<lparr>srv_state := st\<rparr>) = world_inv w"
  by (simp add: world_inv_def)

lemma DelegateMessageReceived_inv:
  "world_inv w \<Longrightarrow> DelegateMessageReceived u sid m w = Inr w' \<Longrightarrow> world_inv w'"
  by (auto simp: DelegateMessageReceived_def res_simps intro: post_inv)

lemma EndSession_inv: "world_inv w \<Longrightarrow> EndSession u sid w = Inr w' \<Longrightarrow> world_inv w'"
  by (auto simp: EndSession_def res_simps intro: post_inv)

lemma SessionTerminated_inv:
  assumes "world_inv w" "SessionTerminated u sid w = Inr w'"
  shows "world_inv w'"
proof (cases "Session w sid")
  case None
  then show ?thesis using assms by (simp add: SessionTerminated_def)
next
  case (Some s)
  then obtain w1 where w1: "(if target s \<noteq> [] then EndSession u sid w else Inr w) = Inr w1"
    and w': "w' = (let w2 = w1\<lparr>connected_sessions := sm_erase sid (connected_sessions w1)\<rparr>
            in if connected_sessions w2 = [] \<and> srv_state w2 = sStopped then w2\<lparr>delegate := None\<rparr> else w2)"
    using assms(2) by (auto simp: SessionTerminated_def res_simps Let_def)
  have "world_inv w1"
    using w1 assms(1) EndSession_inv by (auto split: if_splits)
  then show ?thesis
    using world_inv_no_delegate [OF world_inv_erase [of w1 sid]] world_inv_erase [of w1 sid]
    unfolding w' by (simp only: Let_def split: if_split) blast
qed

lemma http_events_inv:
  "world_inv w \<Longrightarrow> http_events u sid es w = Inr w' \<Longrightarrow> world_inv w'"
proof (induction u sid es w rule: http_events.induct)
  case (2 u sid event es w)
  then have alive: "http_alive sid w" by (auto simp: res_simps)
  show ?case
  proof (cases "http_action event")
    case ActCancel
    then show ?thesis using 2 by (auto simp: res_simps intro: CancelHandshake_inv)
  next
    case (ActGet host p)
    then show ?thesis using 2 by (auto simp: res_simps dest: OnHttpGet_inv)
  next
    case (ActUpgrade host p key)
    then show ?thesis using 2 alive
      by (auto simp: res_simps OnSocketUpgrade_def dest: SessionStarted_inv)
  qed
qed simp

lemma HttpOnData_inv:
  assumes "world_inv w" "HttpOnData u cbs ok sid w = Inr w'"
  shows "world_inv w'"
proof -
  from assms(2) obtain s where s: "Session w sid = Some s"
    by (auto simp: HttpOnData_def res_simps)
  show ?thesis
  proof (cases "handler s")
    case WsProto
    then show ?thesis using assms s by (simp add: HttpOnData_def)
  next
    case (HttpProto h)
    let ?w1 = "set_session sid (s\<lparr>handler := HttpProto ((fold run_cb cbs h)\<lparr>events := []\<rparr>)\<rparr>) w"
    have "world_inv ?w1"
      using assms(1) s HttpProto by (intro world_inv_set_session) auto
    moreover from assms(2) s HttpProto obtain w2 where
      "(if ok then Inr ?w1 else CancelHandshake sid ?w1) = Inr w2"
      "http_events u sid (events (fold run_cb cbs h)) w2 = Inr w'"
      by (auto simp: HttpOnData_def res_simps Let_def)
    ultimately show ?thesis
      using CancelHandshake_inv http_events_inv by (metis Inr_inject)
  qed
qed

lemma ParseWsFrames_inv:
  "world_inv w \<Longrightarrow> ParseWsFrames u sid bytes w = Inr (n, w') \<Longrightarrow> world_inv w'"
  by (auto simp: ParseWsFrames_def OnWsFrame_def res_simps split: if_splits
      intro: SessionTerminated_inv WriteRaw_inv DelegateMessageReceived_inv)

lemma WsOnData_inv:
  "world_inv w \<Longrightarrow> WsOnData u sid data w = Inr (rest, w') \<Longrightarrow> world_inv w'"
proof (induction u sid data w rule: WsOnData.induct)
  case (1 u sid data w)
  from 1(3) obtain n w1 where p: "ParseWsFrames u sid data w = Inr (n, w1)"
    by (subst (asm) WsOnData.simps) (auto split: sum.splits)
  have w1: "world_inv w1" using ParseWsFrames_inv 1(2) p by blast
  show ?case
  proof (cases "n = 0")
    case True
    then show ?thesis using 1(3) p w1 by (subst (asm) WsOnData.simps) simp
  next
    case False
    with 1(3) p obtain r where r: "remove_from_beginning data n = Inr r"
      by (subst (asm) WsOnData.simps) (auto split: sum.splits)
    show ?thesis
    proof (cases "r = []")
      case True
      then show ?thesis using 1(3) p r False w1 by (subst (asm) WsOnData.simps) simp
    next
      case ne: False
      then have "WsOnData u sid r w1 = Inr (rest, w')"
        using 1(3) p r False by (subst (asm) WsOnData.simps) simp
      then show ?thesis using 1(1) [OF p refl False r ne w1] by blast
    qed
  qed
qed

lemma OnDataReceivedCb_inv:
  "world_inv w \<Longrightarrow> OnDataReceivedCb u parser sid data eof w = Inr w' \<Longrightarrow> world_inv w'"
  by (auto simp: OnDataReceivedCb_def res_simps split: if_splits ProtocolHandler.splits prod.splits
      intro: SessionTerminated_inv HttpOnData_inv WsOnData_inv)
    (metis ProtocolHandler.exhaust)

lemma Accept_inv:
  assumes "world_inv w"
  shows "world_inv (Accept w)"
proof -
  note D = world_invD [OF assms]
  have fresh: "sm_find (session_targets_map d) (next_session_id w) = None" if "delegate w = Some d" for d
    using D(3) [OF that] unfolding delegate_ok_def by (metis less_irrefl)
  have new: "session_ok (next_session_id w + 1) (delegate w) (agents w) (next_session_id w)
      \<lparr>target = [], handler = HttpProto HttpHandler_init, raw = []\<rparr>"
    using fresh by (simp add: session_ok_def)
  show ?thesis
    unfolding world_inv_def Accept_def Let_def
    using D new session_ok_mono [OF D(2)] delegate_ok_mono [OF D(3)]
    by (simp add: sm_inv_set_session)
qed

lemma session_ok_targets_map [simp]:
  "session_ok n (Some (d\<lparr>targets_map := m\<rparr>)) ags sid s = session_ok n (Some d) ags sid s"
  by (simp add: session_ok_def session_agent_def)

lemma world_inv_targets_map:
  assumes "world_inv w" "delegate w = Some d" "sm_inv m"
    and "\<And>tid t. sm_find m tid = Some t \<Longrightarrow> tid \<noteq> [] \<and> sm_find (agents w) t \<noteq> None"
  shows "world_inv (w\<lparr>delegate := Some (d\<lparr>targets_map := m\<rparr>)\<rparr>)"
  unfolding world_inv_def
  using world_invD [OF assms(1)] assms(2-) by (auto simp: delegate_ok_def)

lemma AddTarget_inv:
  assumes "world_inv w" "tid \<noteq> []" "sm_find (agents w) tid \<noteq> None" "AddTarget tid w = Inr w'"
  shows "world_inv w'"
  using assms world_invD(3) [OF assms(1)]
  by (auto simp: AddTarget_def res_simps delegate_ok_def sm_find_emplace sm_inv_emplace
      intro!: world_inv_targets_map split: if_splits) blast+

lemma RemoveTarget_inv:
  assumes "world_inv w" "RemoveTarget tid w = Inr w'"
  shows "world_inv w'"
  using assms world_invD(3) [OF assms(1)]
  by (auto simp: RemoveTarget_def res_simps delegate_ok_def sm_find_erase sm_inv_erase
      intro!: world_inv_targets_map split: if_splits) blast+

lemma AgentStart_inv:
  assumes "world_inv w" "tid \<noteq> []" "AgentStart tid w = Inr w'"
  shows "world_inv w'"
proof -
  from assms(3) obtain a where a: "sm_find (agents w) tid = Some a"
    by (auto simp: AgentStart_def res_simps)
  show ?thesis
  proof (cases "IsStarted a")
    case False
    then obtain w1 where "AddTarget tid w = Inr w1"
      "w' = w1\<lparr>agents := sm_upd tid (a\<lparr>a_state := kAccepting\<rparr>) (agents w1)\<rparr>"
      using assms(3) a by (auto simp: AgentStart_def res_simps)
    then show ?thesis
      using world_inv_agents [OF AddTarget_inv [OF assms(1,2)]] a by simp
  qed (use assms a in \<open>simp add: AgentStart_def\<close>)
qed

lemma send_replies_inv: "world_inv w \<Longrightarrow> send_replies ms w = Inr w' \<Longrightarrow> world_inv w'"
  by (induction ms w rule: send_replies.induct) (auto simp: res_simps dest: Send_inv)

lemma AgentDispatch_inv:
  "world_inv w \<Longrightarrow> AgentDispatch v8 fuel tid w = Some (Inr w') \<Longrightarrow> world_inv w'"
  by (auto simp: AgentDispatch_def res_simps split: option.splits
      intro: send_replies_inv world_inv_agents)

section \<open>The server as a transition system\<close>

text \<open>
  The events that reach the server: a connection, bytes or the end of a connection, a message or a
  batch of messages of an agent, and the embedding program that creates, starts and removes agents
  and starts and stops the server. A step is a call that returns; a call that faults ends the process.
\<close>

inductive server_step :: "(string \<Rightarrow> u16 list option) \<Rightarrow> (u8 list \<Rightarrow> parser_cb list \<times> bool) \<Rightarrow> v8_session_fn \<Rightarrow>
    world \<Rightarrow> world \<Rightarrow> bool" for u parser v8 where
  step_accept: "server_step u parser v8 w (Accept w)"
| step_data: "OnDataReceivedCb u parser sid data eof w = Inr w' \<Longrightarrow> server_step u parser v8 w w'"
| step_send: "Send sid bytes w = Inr w' \<Longrightarrow> server_step u parser v8 w w'"
| step_dispatch: "AgentDispatch v8 fuel tid w = Some (Inr w') \<Longrightarrow> server_step u parser v8 w w'"
| step_new_agent: "tid \<noteq> [] \<Longrightarrow> sm_find (agents w) tid = None \<Longrightarrow>
    server_step u parser v8 w (w\<lparr>agents := sm_upd tid (AgentImpl_new tid) (agents w)\<rparr>)"
| step_start_agent: "tid \<noteq> [] \<Longrightarrow> AgentStart tid w = Inr w' \<Longrightarrow> server_step u parser v8 w w'"
| step_remove: "RemoveTarget tid w = Inr w' \<Longrightarrow> server_step u parser v8 w w'"
| step_start: "Start w = Inr w' \<Longrightarrow> server_step u parser v8 w w'"
| step_stop: "Stop w = Inr w' \<Longrightarrow> server_step u parser v8 w w'"

lemma server_step_inv:
  assumes "server_step u parser v8 w w'" "world_inv w"
  shows "world_inv w'"
  using assms
proof (induction rule: server_step.induct)
  case (step_stop w w')
  then show ?case
    using world_inv_no_delegate [of "w\<lparr>srv_state := sStopped\<rparr>"]
    by (auto simp: Stop_def res_simps split: if_splits)
qed (auto intro: Accept_inv OnDataReceivedCb_inv Send_inv AgentDispatch_inv world_inv_agents
      AgentStart_inv RemoveTarget_inv simp: Start_def res_simps)

lemma server_new_inv: "world_inv (server_new p)"
  by (simp add: world_inv_def server_new_def Session_def delegate_ok_def)

inductive server_reach :: "(string \<Rightarrow> u16 list option) \<Rightarrow> (u8 list \<Rightarrow> parser_cb list \<times> bool) \<Rightarrow> v8_session_fn \<Rightarrow>
    int \<Rightarrow> world \<Rightarrow> bool" for u parser v8 p where
  reach_new: "server_reach u parser v8 p (server_new p)"
| reach_step: "server_reach u parser v8 p w \<Longrightarrow> server_step u parser v8 w w' \<Longrightarrow> server_reach u parser v8 p w'"

lemma server_reach_inv: "server_reach u parser v8 p w \<Longrightarrow> world_inv w"
  by (induction rule: server_reach.induct) (auto intro: server_new_inv server_step_inv)

inductive_cases server_step_cases [elim]: "server_step u parser v8 w w'"

section \<open>What the server guarantees\<close>

lemma post_total:
  assumes "sm_find (agents w) t = Some a" "u msg \<noteq> None"
  shows "\<exists>ags. post u sid (Some t) msg w = Inr (w\<lparr>agents := ags\<rparr>)"
  using assms post_ok [of w t a u msg _ sid] by fast

lemma attached_session:
  assumes "world_inv w" "delegate w = Some d" "Session w sid = Some s" "target s \<noteq> []"
  obtains t a where "session_agent d sid = Some t" "sm_find (agents w) t = Some a"
  using world_invD(2) [OF assms(1,3)] assms(2,4) by (auto simp: session_ok_def)

lemma EndSession_total:
  assumes "world_inv w" "delegate w = Some d" "Session w sid = Some s" "target s \<noteq> []"
    and "u TAG_DISCONNECT \<noteq> None"
  shows "\<exists>ags. EndSession u sid w = Inr (w\<lparr>agents := ags\<rparr>)"
  using attached_session [OF assms(1-4)] post_total [of w _ _ u TAG_DISCONNECT sid] assms(2,5)
  by (metis EndSession_def bind_res.simps(2) deref_Some)

lemma SessionTerminated_total:
  assumes "world_inv w" "delegate w = Some d" "Session w sid = Some s" "u TAG_DISCONNECT \<noteq> None"
  shows "\<exists>w'. SessionTerminated u sid w = Inr w' \<and> Session w' sid = None"
proof -
  obtain ags where e: "(if target s \<noteq> [] then EndSession u sid w else Inr w) = Inr (w\<lparr>agents := ags\<rparr>)"
  proof (cases "target s = []")
    case True
    then show ?thesis using that [of "agents w"] by simp
  next
    case False
    then show ?thesis using that EndSession_total [of w d sid s u] assms False by auto
  qed
  have inv: "sm_inv (connected_sessions w)" using world_invD(1) [OF assms(1)] .
  show ?thesis
    using assms(3) e inv
    by (simp add: SessionTerminated_def Let_def Session_def sm_find_erase)
qed


definition demo_parser :: "u8 list \<Rightarrow> parser_cb list \<times> bool" where
  "demo_parser bs = ([], True)"

definition demo_v8 :: v8_session_fn where
  "demo_v8 = (\<lambda>m a. a)"

definition demo_world :: world where
  "demo_world = Accept (server_new 9229)"

lemma demo_world_reach: "server_reach (\<lambda>m. Some (wide m)) demo_parser demo_v8 9229 demo_world"
  unfolding demo_world_def by (intro reach_step [OF reach_new] step_accept)


text \<open>C2: A read that holds any number of complete masked text frames delivers every payload to the
  session's agent, in the order of the stream, under the session's id, and touches nothing else.\<close>

theorem ws_frames_delivered:
  assumes "kds \<noteq> []" "attached w sid tid a"
    and "\<forall>kd \<in> set kds. length (fst kd) = 4 \<and> u (string_of_bytes (snd kd)) \<noteq> None"
    and "length (concat (map client_text kds)) < 2 ^ 63"
    and "Session w sid = Some s" "handler s = WsProto"
  shows "OnDataReceivedCb u parser sid (concat (map client_text kds)) False w =
    Inr (w\<lparr>agents := sm_upd tid (a\<lparr>incoming_queue := incoming_queue a @
        map (\<lambda>kd. (sid, SV16 (the (u (string_of_bytes (snd kd)))))) kds\<rparr>) (agents w)\<rparr>)"
  using WsOnData_texts [OF assms(1-4)] assms(5,6) by (simp add: OnDataReceivedCb_def)

definition ws_world :: world where
  "ws_world = (set_session 0 \<lparr>target = ''t'', handler = WsProto, raw = []\<rparr> (server_new 9229))
     \<lparr>delegate := Some \<lparr>targets_map = [(''t'', ''t'')], session_targets_map = [(0, Some ''t'')]\<rparr>,
      agents := [(''t'', AgentImpl_new ''t'')]\<rparr>"

lemma ws_world_attached: "attached ws_world 0 ''t'' (AgentImpl_new ''t'')"
  by (simp add: attached_def ws_world_def session_agent_def)

lemma ws_world_session: "Session ws_world 0 = Some \<lparr>target = ''t'', handler = WsProto, raw = []\<rparr>"
  by (simp add: ws_world_def)

theorem ws_frames_delivered_witness:
  "OnDataReceivedCb (\<lambda>m. Some (wide m)) demo_parser 0
      (concat (map client_text [([1, 2, 3, 4], [0x48]), ([5, 6, 7, 8], [0x69])])) False ws_world =
    Inr (ws_world\<lparr>agents := [(''t'', AgentImpl_new ''t''\<lparr>incoming_queue :=
      [(0, SV16 [0x48]), (0, SV16 [0x69])]\<rparr>)]\<rparr>)"
proof -
  have "length (concat (map client_text [([1, 2, 3, 4], [0x48]), ([5, 6, 7, 8], [0x69])])) = 14"
    by (simp add: client_text_def client_frame_def length_client_header)
  moreover have "agents ws_world = [(''t'', AgentImpl_new ''t'')]" by (simp add: ws_world_def)
  ultimately show ?thesis
    using ws_frames_delivered [of "[([1, 2, 3, 4], [0x48]), ([5, 6, 7, 8], [0x69])]" ws_world 0 "''t''"
        "AgentImpl_new ''t''" "\<lambda>m. Some (wide m)" _ demo_parser] ws_world_attached ws_world_session
    by (simp add: AgentImpl_new_def string_of_bytes_def wide_def)
qed

text \<open>C30: A text frame that is split between two reads is lost: after a read that ends one byte into the
  frame, or anywhere between four bytes and four bytes past its payload length, the world is the same
  as before the read; none of the bytes is kept for the next read, which starts inside the frame.\<close>

theorem ws_split_frame_lost:
  assumes "Session w sid = Some s" "handler s = WsProto" "length key = 4" "length data \<le> 125"
    and "n = 1 \<or> 4 \<le> n \<and> n < length data + 4"
  shows "OnDataReceivedCb u parser sid (take n (client_text (key, data))) False w = Inr w"
  using decode_incomplete [of 1 key data n] assms
  by (simp add: OnDataReceivedCb_def client_text_def WsOnData.simps ParseWsFrames_def frame_result_def)

theorem ws_split_frame_lost_witness:
  "OnDataReceivedCb (\<lambda>m. Some (wide m)) demo_parser 0 (take 1 (client_text ([1, 2, 3, 4], [0x48]))) False ws_world =
    Inr ws_world"
  using ws_split_frame_lost [OF ws_world_session, of "[1, 2, 3, 4]" "[0x48]" 1] by simp



text \<open>C31: A second frontend that connects to an agent which already has one takes the process down:
  the server accepts the upgrade, and the agent's next dispatch fails its state check.\<close>

theorem second_frontend_aborts:
  assumes "Session w sid = Some s" "handler s = HttpProto h"
    and "delegate w = Some d" "u TAG_CONNECT = Some (wide TAG_CONNECT)"
    and "sm_find (targets_map d) tid = Some t" "sm_find (agents w) t = Some a"
    and "a_state a = kConnected" "\<not> dispatching_messages a" "incoming_queue a = []"
  shows "\<exists>w'. OnSocketUpgrade u sid (CHR ''/'' # tid) key w = Inr w' \<and>
    AgentDispatch v8 (Suc fuel) t w' = Some (Inl CheckAbort)"
proof -
  obtain reply where r: "accept_reply key = Inr reply"
    by (simp add: accept_reply_def generate_accept_string_eq)
  let ?w = "upgraded sid tid reply s d t a (wide TAG_CONNECT) w"
  have "OnSocketUpgrade u sid (CHR ''/'' # tid) key w = Inr ?w"
    using SessionStarted_accepted [where u = u, OF assms(1-3,5,6) r assms(4)] by (simp add: OnSocketUpgrade_def)
  moreover have "DispatchMessages v8 (Suc fuel) (a\<lparr>incoming_queue := [(sid, SV16 (wide TAG_CONNECT))]\<rparr>) =
      Some (Inl CheckAbort)"
    using connected_dispatch_aborts [of "a\<lparr>incoming_queue := [(sid, SV16 (wide TAG_CONNECT))]\<rparr>" sid "[]"] assms(7,8)
    by simp
  ultimately show ?thesis
    using assms(9) by (simp add: AgentDispatch_def upgraded_def sm_find_upd)
qed

definition busy_world :: world where
  "busy_world = Accept (ws_world\<lparr>next_session_id := 1,
     agents := [(''t'', AgentImpl_new ''t''\<lparr>a_state := kConnected\<rparr>)]\<rparr>)"

theorem second_frontend_aborts_witness:
  "\<exists>w'. OnSocketUpgrade (\<lambda>m. Some (wide m)) 1 ''/t'' ''k'' busy_world = Inr w' \<and>
    AgentDispatch demo_v8 1 ''t'' w' = Some (Inl CheckAbort)"
  using second_frontend_aborts [of busy_world 1 "the (Session busy_world 1)" HttpHandler_init
      "the (delegate busy_world)" "\<lambda>m. Some (wide m)" "''t''" "''t''"
      "AgentImpl_new ''t''\<lparr>a_state := kConnected\<rparr>" "''k''" demo_v8 0]
  by (simp add: busy_world_def ws_world_def Accept_def AgentImpl_new_def)

end
