(* ===== verification/Ref_Tracker.thy ===== *)
theory Ref_Tracker
  imports Prelude
begin

text \<open>
  \<open>RefTracker\<close> of \<^verbatim>\<open>src/src/node-api/js_native_api_v8.h\<close>: trackers linked into a doubly linked
  list behind a sentinel. The pointers are modelled in a store from addresses to nodes; the locale
  states what the environment relies on (linking is consing, unlinking is removing, for two lists side
  by side), and the store satisfies it. The environment's model in the other theories works with the
  abstract lists.
\<close>

section \<open>Pointers\<close>

record node =
  nxt :: "nat option"
  prv :: "nat option"

type_synonym store = "nat \<Rightarrow> node"

definition set_next :: "nat \<Rightarrow> nat option \<Rightarrow> store \<Rightarrow> store" where
  "set_next p n h = h(p := (h p)\<lparr>nxt := n\<rparr>)"

definition set_prev :: "nat \<Rightarrow> nat option \<Rightarrow> store \<Rightarrow> store" where
  "set_prev p n h = h(p := (h p)\<lparr>prv := n\<rparr>)"

definition Link :: "nat \<Rightarrow> nat \<Rightarrow> store \<Rightarrow> store" where
  "Link this list h =
     (let h1 = set_prev this (Some list) h;
          h2 = set_next this (nxt (h1 list)) h1;
          h3 = (case nxt (h2 this) of None \<Rightarrow> h2 | Some n \<Rightarrow> set_prev n (Some this) h2)
      in set_next list (Some this) h3)"

definition Unlink :: "nat \<Rightarrow> store \<Rightarrow> store" where
  "Unlink this h =
     (let h1 = (case prv (h this) of None \<Rightarrow> h | Some p \<Rightarrow> set_next p (nxt (h this)) h);
          h2 = (case nxt (h1 this) of None \<Rightarrow> h1 | Some n \<Rightarrow> set_prev n (prv (h1 this)) h1)
      in set_next this None (set_prev this None h2))"

section \<open>Lists behind a sentinel\<close>

fun dseg :: "store \<Rightarrow> nat \<Rightarrow> nat list \<Rightarrow> bool" where
  "dseg h p [] \<longleftrightarrow> nxt (h p) = None"
| "dseg h p (x # xs) \<longleftrightarrow> nxt (h p) = Some x \<and> prv (h x) = Some p \<and> dseg h x xs"

lemma dseg_cong:
  "nxt (h' p) = nxt (h p) \<Longrightarrow> (\<And>x. x \<in> set xs \<Longrightarrow> h' x = h x) \<Longrightarrow> dseg h' p xs = dseg h p xs"
  by (induction xs arbitrary: p) auto

lemma dseg_neighbours:
  "dseg h p xs \<Longrightarrow> x \<in> set xs \<Longrightarrow>
    (\<exists>q \<in> set (p # xs). prv (h x) = Some q) \<and> (\<forall>n. nxt (h x) = Some n \<longrightarrow> n \<in> set xs)"
proof (induction xs arbitrary: p)
  case (Cons a xs)
  then show ?case by (cases xs) auto
qed simp

lemma dseg_no_self:
  "dseg h p xs \<Longrightarrow> distinct (p # xs) \<Longrightarrow> x \<in> set xs \<Longrightarrow> prv (h x) \<noteq> Some x \<and> nxt (h x) \<noteq> Some x"
proof (induction xs arbitrary: p)
  case (Cons a xs)
  then show ?case by (cases xs) auto
qed simp

lemma Unlink_pointers:
  assumes "prv (h x) \<noteq> Some x" "nxt (h x) \<noteq> Some x"
  shows "nxt (Unlink x h q) = (if q = x then None else if prv (h x) = Some q then nxt (h x) else nxt (h q))"
    and "prv (Unlink x h q) = (if q = x then None else if nxt (h x) = Some q then prv (h x) else prv (h q))"
  using assms by (auto simp: Unlink_def set_next_def set_prev_def Let_def split: option.splits)

lemma Unlink_frame:
  assumes "dseg h p xs" "distinct (p # xs)" "x \<in> set xs" "q \<notin> set (p # xs)"
  shows "Unlink x h q = h q"
  using dseg_neighbours [OF assms(1,3)] dseg_no_self [OF assms(1-3)] assms(3,4) Unlink_pointers [of h x q]
  by (cases "h q", cases "Unlink x h q") auto

lemma dseg_Unlink:
  assumes "dseg h p xs" "distinct (p # xs)" "x \<in> set xs"
  shows "dseg (Unlink x h) p (remove1 x xs)"
  using assms
proof (induction xs arbitrary: p)
  case (Cons a xs)
  note self = dseg_no_self [OF Cons.prems]
  note ptr = Unlink_pointers [of h x, OF conjunct1 [OF self] conjunct2 [OF self]]
  show ?case
  proof (cases "x = a")
    case True
    show ?thesis
    proof (cases xs)
      case Nil
      then show ?thesis using Cons.prems True ptr by auto
    next
      case (Cons b ys)
      have "dseg (Unlink x h) b ys = dseg h b ys"
        using Cons Cons.prems True ptr
        by (intro dseg_cong) (auto simp: ptr intro!: node.equality)
      then show ?thesis using Cons Cons.prems True by (auto simp: ptr [unfolded True])
    qed
  next
    case False
    then have x: "x \<in> set xs" "dseg h a xs" "distinct (a # xs)" using Cons.prems by auto
    then have "prv (h x) \<noteq> Some p" "nxt (h x) \<noteq> Some a" "x \<noteq> p"
      using dseg_neighbours [OF x(2,1)] Cons.prems(2) by auto
    then show ?thesis using Cons.IH [OF x(2,3,1)] Cons.prems False by (auto simp: ptr)
  qed
qed simp

lemma Link_frame: "q \<noteq> x \<Longrightarrow> q \<noteq> l \<Longrightarrow> nxt (h l) \<noteq> Some q \<Longrightarrow> x \<noteq> l \<Longrightarrow> Link x l h q = h q"
  by (auto simp: Link_def set_next_def set_prev_def Let_def split: option.splits)

lemma dseg_Link:
  assumes "dseg h l xs" "distinct (l # xs)" "x \<notin> set (l # xs)"
  shows "dseg (Link x l h) l (x # xs)"
proof (cases xs)
  case Nil
  then show ?thesis using assms by (simp add: Link_def set_next_def set_prev_def Let_def)
next
  case (Cons a ys)
  then have "dseg (Link x l h) a ys = dseg h a ys"
    using assms
    by (intro dseg_cong) (auto simp: Link_def set_next_def set_prev_def Let_def)
  then show ?thesis
    using assms Cons by (auto simp: Link_def set_next_def set_prev_def Let_def)
qed

section \<open>The interface\<close>

text \<open>What the environment relies on: two lists, the front of each, and trackers that move in and out.\<close>

locale tracked_lists =
  fixes link :: "nat \<Rightarrow> nat \<Rightarrow> 's \<Rightarrow> 's"
    and unlink :: "nat \<Rightarrow> 's \<Rightarrow> 's"
    and front :: "nat \<Rightarrow> 's \<Rightarrow> nat option"
    and rep :: "'s \<Rightarrow> nat list \<Rightarrow> nat list \<Rightarrow> bool"
    and heads :: "nat \<times> nat"
  assumes link_fst: "rep s a b \<Longrightarrow> x \<notin> set (fst heads # snd heads # a @ b) \<Longrightarrow> rep (link x (fst heads) s) (x # a) b"
    and link_snd: "rep s a b \<Longrightarrow> x \<notin> set (fst heads # snd heads # a @ b) \<Longrightarrow> rep (link x (snd heads) s) a (x # b)"
    and unlink_member: "rep s a b \<Longrightarrow> x \<in> set a \<union> set b \<Longrightarrow> rep (unlink x s) (remove1 x a) (remove1 x b)"
    and rep_distinct: "rep s a b \<Longrightarrow> distinct (fst heads # snd heads # a @ b)"
    and front_fst: "rep s a b \<Longrightarrow> front (fst heads) s = (case a of [] \<Rightarrow> None | x # _ \<Rightarrow> Some x)"
    and front_snd: "rep s a b \<Longrightarrow> front (snd heads) s = (case b of [] \<Rightarrow> None | x # _ \<Rightarrow> Some x)"
begin

lemma unlink_front_fst: "rep s (x # a) b \<Longrightarrow> rep (unlink x s) a b"
  using unlink_member [of s "x # a" b x] rep_distinct [of s "x # a" b] by (simp add: remove1_idem)

lemma unlink_front_snd: "rep s a (x # b) \<Longrightarrow> rep (unlink x s) a b"
  using unlink_member [of s a "x # b" x] rep_distinct [of s a "x # b"] by (simp add: remove1_idem)

lemma link_unlink: "rep s a b \<Longrightarrow> x \<notin> set (fst heads # snd heads # a @ b) \<Longrightarrow> rep (unlink x (link x (fst heads) s)) a b"
  by (rule unlink_front_fst [OF link_fst])

lemma drained_fst: "rep s a b \<Longrightarrow> front (fst heads) s = None \<longleftrightarrow> a = []"
  by (simp add: front_fst split: list.split)

end

section \<open>The store implements it\<close>

text \<open>The two sentinels of an environment.\<close>

definition reflist_head :: nat where "reflist_head = 0"
definition finalizing_reflist_head :: nat where "finalizing_reflist_head = 1"

definition store_rep :: "store \<Rightarrow> nat list \<Rightarrow> nat list \<Rightarrow> bool" where
  "store_rep h a b \<longleftrightarrow> distinct (reflist_head # finalizing_reflist_head # a @ b) \<and>
     dseg h reflist_head a \<and> dseg h finalizing_reflist_head b"

lemma dseg_Link_other:
  assumes "dseg h l xs" "dseg h m ys" "distinct (l # m # xs @ ys)" "x \<notin> set (l # m # xs @ ys)"
  shows "dseg (Link x l h) m ys"
proof -
  have "nxt (h l) \<noteq> Some q" if "q \<in> set (m # ys)" for q
    using assms(1,3) that by (cases xs) auto
  then have "Link x l h q = h q" if "q \<in> set (m # ys)" for q
    using assms(3,4) that by (intro Link_frame) auto
  then show ?thesis using assms(2) dseg_cong [of "Link x l h" m h ys] by simp
qed

lemma dseg_Unlink_other:
  assumes "dseg h l xs" "dseg h m ys" "distinct (l # m # xs @ ys)" "x \<in> set xs"
  shows "dseg (Unlink x h) m ys"
proof -
  have "Unlink x h q = h q" if "q \<in> set (m # ys)" for q
    using assms(1,3,4) that by (intro Unlink_frame [of h l xs]) auto
  then show ?thesis using assms(2) dseg_cong [of "Unlink x h" m h ys] by simp
qed

interpretation rt: tracked_lists Link Unlink "\<lambda>l h. nxt (h l)" store_rep "(reflist_head, finalizing_reflist_head)"
proof
  fix s a b x
  assume rep: "store_rep s a b"
  show "distinct (fst (reflist_head, finalizing_reflist_head) # snd (reflist_head, finalizing_reflist_head) # a @ b)"
    using rep by (simp add: store_rep_def)
  show "nxt (s (fst (reflist_head, finalizing_reflist_head))) = (case a of [] \<Rightarrow> None | x # _ \<Rightarrow> Some x)"
    using rep by (cases a) (simp_all add: store_rep_def)
  show "nxt (s (snd (reflist_head, finalizing_reflist_head))) = (case b of [] \<Rightarrow> None | x # _ \<Rightarrow> Some x)"
    using rep by (cases b) (simp_all add: store_rep_def)
  {
    assume x: "x \<notin> set (fst (reflist_head, finalizing_reflist_head) # snd (reflist_head, finalizing_reflist_head) # a @ b)"
    show "store_rep (Link x (fst (reflist_head, finalizing_reflist_head)) s) (x # a) b"
      using rep x dseg_Link [of s reflist_head a x] dseg_Link_other [of s reflist_head a finalizing_reflist_head b x]
      by (auto simp: store_rep_def)
    show "store_rep (Link x (snd (reflist_head, finalizing_reflist_head)) s) a (x # b)"
      using rep x dseg_Link [of s finalizing_reflist_head b x] dseg_Link_other [of s finalizing_reflist_head b reflist_head a x]
      by (auto simp: store_rep_def)
  }
  assume x: "x \<in> set a \<union> set b"
  show "store_rep (Unlink x s) (remove1 x a) (remove1 x b)"
  proof (cases "x \<in> set a")
    case True
    then have "x \<notin> set b" using rep by (auto simp: store_rep_def)
    then show ?thesis
      using rep True dseg_Unlink [of s reflist_head a x] dseg_Unlink_other [of s reflist_head a finalizing_reflist_head b x]
      by (auto simp: store_rep_def remove1_idem dest: notin_set_remove1)
  next
    case False
    then show ?thesis
      using rep x dseg_Unlink [of s finalizing_reflist_head b x] dseg_Unlink_other [of s finalizing_reflist_head b reflist_head a x]
      by (auto simp: store_rep_def remove1_idem Int_commute dest: notin_set_remove1)
  qed
qed

text \<open>Unlinking twice is harmless: an unlinked tracker has no neighbours.\<close>

lemma Unlink_unlinked: "nxt (h x) = None \<Longrightarrow> prv (h x) = None \<Longrightarrow> Unlink x h = h"
  by (auto simp: Unlink_def set_next_def set_prev_def fun_eq_iff intro!: node.equality)

section \<open>Properties\<close>

text \<open>C27: The pointer manipulations of the tracker list are correct: linking a fresh tracker puts it at
  the front of the list, unlinking a member removes exactly it from its list, the other list of the
  environment is untouched, and unlinking it again changes nothing.\<close>

theorem tracker_lists_correct:
  assumes "store_rep h a b" "x \<notin> set (reflist_head # finalizing_reflist_head # a @ b)" "y \<in> set a \<union> set b"
  shows "store_rep (Link x reflist_head h) (x # a) b \<and> store_rep (Link x finalizing_reflist_head h) a (x # b) \<and>
    store_rep (Unlink y h) (remove1 y a) (remove1 y b) \<and> Unlink y (Unlink y h) = Unlink y h"
proof -
  have "Unlink y (Unlink y h) = Unlink y h"
  proof (rule Unlink_unlinked)
    have "prv (h y) \<noteq> Some y \<and> nxt (h y) \<noteq> Some y"
      using assms(1,3) dseg_no_self [of h reflist_head a y] dseg_no_self [of h finalizing_reflist_head b y]
      by (auto simp: store_rep_def)
    then show "nxt (Unlink y h y) = None" "prv (Unlink y h y) = None"
      by (simp_all add: Unlink_pointers)
  qed
  then show ?thesis
    using rt.link_fst [OF assms(1)] rt.link_snd [OF assms(1)] rt.unlink_member [OF assms(1,3)] assms(2) by simp
qed

definition two_trackers :: store where
  "two_trackers = Link 3 reflist_head (Link 2 reflist_head (\<lambda>_. \<lparr>nxt = None, prv = None\<rparr>))"

theorem tracker_lists_correct_witness:
  "store_rep two_trackers [3, 2] [] \<and> store_rep (Unlink 2 two_trackers) [3] []"
proof -
  have 0: "store_rep (\<lambda>_. \<lparr>nxt = None, prv = None\<rparr>) [] []"
    by (simp add: store_rep_def reflist_head_def finalizing_reflist_head_def)
  have 1: "store_rep two_trackers [3, 2] []"
    unfolding two_trackers_def
    using rt.link_fst [OF rt.link_fst [OF 0, of 2], of 3] by (simp add: reflist_head_def finalizing_reflist_head_def)
  then show ?thesis
    using tracker_lists_correct [OF 1, of 4 2] by (simp add: reflist_head_def finalizing_reflist_head_def)
qed

end
