(* ===== verification/Napi_Env.thy ===== *)
theory Napi_Env
  imports Prelude
begin

text \<open>
  The environment of the Node-API: \<^verbatim>\<open>src/src/node-api/js_native_api_v8.h\<close>, the error
  reporting of \<^verbatim>\<open>js_native_api_v8.cc\<close> and the overrides of \<^verbatim>\<open>v8_api.cpp\<close>.
  An API function is a function on the environment that yields a status, the value it stored through
  its result pointer (\<open>None\<close> if it stored nothing) and the new environment, or a fault where the
  code aborts or touches freed memory. Pointer arguments are options (\<open>None\<close> is the null pointer);
  an out-pointer is a flag that says whether it is non-null.

  The guard macros are combinators of the same names that take the rest of the function as a
  continuation. The engine (V8) is a parameter: a record of operations on the environment, since
  running JavaScript can call native functions which change it.
\<close>

section \<open>Data\<close>

datatype napi_status =
    napi_ok | napi_invalid_arg | napi_object_expected | napi_string_expected | napi_name_expected
  | napi_function_expected | napi_number_expected | napi_boolean_expected | napi_array_expected
  | napi_generic_failure | napi_pending_exception | napi_cancelled | napi_escape_called_twice
  | napi_handle_scope_mismatch | napi_callback_scope_mismatch | napi_queue_full | napi_closing
  | napi_bigint_expected | napi_date_expected | napi_arraybuffer_expected
  | napi_detachable_arraybuffer_expected | napi_would_deadlock | napi_no_external_buffers_allowed
  | napi_cannot_run_js

type_synonym ptr = nat

text \<open>\<open>Finalizer\<close>; \<open>fin_env\<close> says whether \<^verbatim>\<open>env_\<close> is still set.\<close>

record Finalizer =
  fin_env :: bool
  finalize_callback :: "ptr option"
  finalize_data :: ptr
  finalize_hint :: ptr

datatype ReferenceOwnership = kRuntime | kUserland

datatype ref_class = PlainRef | WithData ptr | WithFinalizer Finalizer

text \<open>\<open>Reference\<close>: \<open>persistent\<close> is \<open>None\<close> once the handle is reset.\<close>

record 'v Reference =
  persistent :: "'v option"
  is_weak :: bool
  refcount :: u32
  ownership :: ReferenceOwnership
  can_be_weak :: bool
  cls :: ref_class

datatype 'v tracker = TReference "'v Reference" | TTracked Finalizer | TString Finalizer

text \<open>\<open>ExternalWrapper\<close>: the tag is \<open>None\<close> while \<^verbatim>\<open>has_tag_\<close> is unset.\<close>

record ExternalWrapper =
  ew_data :: ptr
  ew_tag :: "(u64 \<times> u64) option"

record CallbackBundle =
  bundle_cb :: ptr
  bundle_data :: ptr

text \<open>
  The environment. Trackers (references and finalizers) live in the C++ heap; the two lists hold the
  linked ones, front first. \<open>try_catch\<close> is the innermost active \<^verbatim>\<open>TryCatch\<close> with what it
  has caught; \<open>finalized\<close> records every call of a finalizer callback. \<open>externals\<close>, \<open>bundles\<close> and
  \<open>deferreds\<close> are the other heap cells the library allocates, \<open>next_cell\<close> the next free address.
\<close>

record ('v, 'h) napi_env =
  error_code :: napi_status
  engine_error_code :: u32
  error_message :: "string option"
  last_exception :: "'v option"
  try_catch :: "'v option option"
  isolate_exception :: "'v option"
  open_handle_scopes :: int
  open_callback_scopes :: int
  refs :: int
  instance_data :: "nat option"
  module_api_version :: int
  in_gc_finalizer :: bool
  is_destructing :: bool
  is_scheduled :: bool
  env_deleted :: bool
  reflist :: "nat list"
  finalizing_reflist :: "nat list"
  pending_finalizers :: "nat list"
  trackers :: "nat \<Rightarrow> 'v tracker option"
  next_tracker :: nat
  finalized :: "(nat \<times> ptr \<times> ptr \<times> ptr) list"
  scopes :: "nat \<Rightarrow> bool option"
  next_scope :: nat
  externals :: "nat \<Rightarrow> ExternalWrapper option"
  bundles :: "nat \<Rightarrow> CallbackBundle option"
  deferreds :: "nat \<Rightarrow> 'v option"
  next_cell :: nat
  isolate :: 'h

definition NAPI_VERSION_EXPERIMENTAL :: int where
  "NAPI_VERSION_EXPERIMENTAL = 2147483647"

text \<open>The out-value and the environment of a call.\<close>

type_synonym ('v, 'h, 'a) api = "('v, 'h) napi_env \<Rightarrow> (napi_status \<times> 'a option \<times> ('v, 'h) napi_env) res"

section \<open>Last error\<close>

definition napi_clear_last_error :: "('v, 'h) napi_env \<Rightarrow> ('v, 'h) napi_env" where
  "napi_clear_last_error e = e\<lparr>error_code := napi_ok, engine_error_code := 0, error_message := None\<rparr>"

definition napi_set_last_error :: "napi_status \<Rightarrow> ('v, 'h) napi_env \<Rightarrow> ('v, 'h) napi_env" where
  "napi_set_last_error st e = e\<lparr>error_code := st, engine_error_code := 0\<rparr>"

text \<open>The two ways a function returns: an error status, or success with an optional value.\<close>

definition fail :: "napi_status \<Rightarrow> ('v, 'h, 'a) api" where
  "fail st e = Inr (st, None, napi_set_last_error st e)"

definition succeed :: "'a option \<Rightarrow> ('v, 'h, 'a) api" where
  "succeed out e = Inr (napi_ok, out, napi_clear_last_error e)"

section \<open>Guards\<close>

text \<open>\<open>CHECK_ENV\<close>: a null environment is refused before anything is touched.\<close>

definition CHECK_ENV :: "('v, 'h, 'a) api \<Rightarrow> ('v, 'h) napi_env option \<Rightarrow>
    (napi_status \<times> 'a option \<times> ('v, 'h) napi_env option) res" where
  "CHECK_ENV f env =
     (case env of
        None \<Rightarrow> Inr (napi_invalid_arg, None, None)
      | Some e \<Rightarrow> bind_res (f e) (\<lambda>(st, out, e1). Inr (st, out, Some e1)))"

definition CheckGCAccess :: "('v, 'h) napi_env \<Rightarrow> bool" where
  "CheckGCAccess e \<longleftrightarrow> \<not> (module_api_version e = NAPI_VERSION_EXPERIMENTAL \<and> in_gc_finalizer e)"

definition CHECK_ENV_NOT_IN_GC :: "('v, 'h, 'a) api \<Rightarrow> ('v, 'h, 'a) api" where
  "CHECK_ENV_NOT_IN_GC k e = check (CheckGCAccess e) CheckAbort (k e)"

definition RETURN_STATUS_IF_FALSE :: "bool \<Rightarrow> napi_status \<Rightarrow> ('v, 'h, 'a) api \<Rightarrow> ('v, 'h, 'a) api" where
  "RETURN_STATUS_IF_FALSE b st k e = (if b then k e else fail st e)"

definition CHECK_ARG :: "'b option \<Rightarrow> ('b \<Rightarrow> ('v, 'h, 'a) api) \<Rightarrow> ('v, 'h, 'a) api" where
  "CHECK_ARG arg k e = (case arg of None \<Rightarrow> fail napi_invalid_arg e | Some x \<Rightarrow> k x e)"

definition CHECK_OUT :: "bool \<Rightarrow> ('v, 'h, 'a) api \<Rightarrow> ('v, 'h, 'a) api" where
  "CHECK_OUT result k = RETURN_STATUS_IF_FALSE result napi_invalid_arg k"

text \<open>\<open>try_catch.HasCaught()\<close>\<close>

definition HasCaught :: "('v, 'h) napi_env \<Rightarrow> bool" where
  "HasCaught e = (case try_catch e of Some (Some x) \<Rightarrow> True | _ \<Rightarrow> False)"

definition RETURN_STATUS_IF_FALSE_WITH_PREAMBLE :: "bool \<Rightarrow> napi_status \<Rightarrow> ('v, 'h, 'a) api \<Rightarrow> ('v, 'h, 'a) api" where
  "RETURN_STATUS_IF_FALSE_WITH_PREAMBLE b st k e =
     (if b then k e else fail (if HasCaught e then napi_pending_exception else st) e)"

definition CHECK_ARG_WITH_PREAMBLE :: "'b option \<Rightarrow> ('b \<Rightarrow> ('v, 'h, 'a) api) \<Rightarrow> ('v, 'h, 'a) api" where
  "CHECK_ARG_WITH_PREAMBLE arg k e =
     (case arg of None \<Rightarrow> fail (if HasCaught e then napi_pending_exception else napi_invalid_arg) e
      | Some x \<Rightarrow> k x e)"

definition CHECK_MAYBE :: "'b option \<Rightarrow> napi_status \<Rightarrow> ('b \<Rightarrow> ('v, 'h, 'a) api) \<Rightarrow> ('v, 'h, 'a) api" where
  "CHECK_MAYBE m st k e = (case m of None \<Rightarrow> fail st e | Some x \<Rightarrow> k x e)"

definition CHECK_MAYBE_WITH_PREAMBLE :: "'b option \<Rightarrow> napi_status \<Rightarrow> ('b \<Rightarrow> ('v, 'h, 'a) api) \<Rightarrow> ('v, 'h, 'a) api" where
  "CHECK_MAYBE_WITH_PREAMBLE m st k e =
     (case m of None \<Rightarrow> fail (if HasCaught e then napi_pending_exception else st) e | Some x \<Rightarrow> k x e)"

text \<open>\<open>GET_RETURN_STATUS\<close>, with the value stored so far.\<close>

definition GET_RETURN_STATUS :: "'a option \<Rightarrow> ('v, 'h, 'a) api" where
  "GET_RETURN_STATUS out e =
     (if HasCaught e then Inr (napi_pending_exception, out, napi_set_last_error napi_pending_exception e)
      else Inr (napi_ok, out, e))"

text \<open>\<open>STATUS_CALL\<close>: run a call, go on only if it succeeded.\<close>

definition STATUS_CALL :: "('v, 'h, 'b) api \<Rightarrow> ('b option \<Rightarrow> ('v, 'h, 'a) api) \<Rightarrow> ('v, 'h, 'a) api" where
  "STATUS_CALL call k e =
     bind_res (call e) (\<lambda>(st, out, e1). if st \<noteq> napi_ok then Inr (st, None, e1) else k out e1)"

text \<open>
  Pieces of control flow: leave with the status ok and nothing else, use a local that a call has set,
  \<open>FromJust\<close> (fatal when empty), \<open>CHECK\<close>, a call whose status is ignored, and a value that has been
  stored through the result pointer before the rest of the function runs.
\<close>

definition proceed :: "('v, 'h, 'a) api" where
  "proceed e = Inr (napi_ok, None, e)"

definition with_out :: "'b option \<Rightarrow> ('b \<Rightarrow> ('v, 'h, 'a) api) \<Rightarrow> ('v, 'h, 'a) api" where
  "with_out m k e = (case m of None \<Rightarrow> Inl NullDeref | Some x \<Rightarrow> k x e)"

definition from_just :: "'b option \<Rightarrow> ('b \<Rightarrow> ('v, 'h, 'a) api) \<Rightarrow> ('v, 'h, 'a) api" where
  "from_just m k e = (case m of None \<Rightarrow> Inl CheckAbort | Some x \<Rightarrow> k x e)"

definition CHECK :: "bool \<Rightarrow> ('v, 'h, 'a) api \<Rightarrow> ('v, 'h, 'a) api" where
  "CHECK b k e = check b CheckAbort (k e)"

definition ignoring :: "('v, 'h, 'b) api \<Rightarrow> ('v, 'h, 'a) api \<Rightarrow> ('v, 'h, 'a) api" where
  "ignoring call k e = bind_res (call e) (\<lambda>(_, _, e1). k e1)"

definition stored :: "'a \<Rightarrow> ('v, 'h, 'a) api \<Rightarrow> ('v, 'h, 'a) api" where
  "stored x f e =
     bind_res (f e) (\<lambda>(st, out, e1). Inr (st, Some (case out of None \<Rightarrow> x | Some y \<Rightarrow> y), e1))"

definition map_out :: "('a \<Rightarrow> 'b option) \<Rightarrow> ('v, 'h, 'a) api \<Rightarrow> ('v, 'h, 'b) api" where
  "map_out g f e = bind_res (f e) (\<lambda>(st, out, e1). Inr (st, Option.bind out g, e1))"

text \<open>An allocation on the C++ heap, and an access to a cell of it.\<close>

definition with_new :: "(('v, 'h) napi_env \<Rightarrow> 'b \<times> ('v, 'h) napi_env) \<Rightarrow> ('b \<Rightarrow> ('v, 'h, 'a) api) \<Rightarrow> ('v, 'h, 'a) api" where
  "with_new mk k e = (case mk e of (i, e1) \<Rightarrow> k i e1)"

definition with_cell :: "(('v, 'h) napi_env \<Rightarrow> 'b option) \<Rightarrow> ('b \<Rightarrow> ('v, 'h, 'a) api) \<Rightarrow> ('v, 'h, 'a) api" where
  "with_cell get k e = (case get e of None \<Rightarrow> Inl NullDeref | Some x \<Rightarrow> k x e)"

section \<open>Exceptions\<close>

definition can_call_into_js :: "('v, 'h) napi_env \<Rightarrow> bool" where
  "can_call_into_js e = (\<not> is_destructing e)"

text \<open>\<open>Isolate::ThrowException\<close>: the innermost \<open>TryCatch\<close> gets it; without one it stays with the isolate.\<close>

definition ThrowException :: "'v \<Rightarrow> ('v, 'h) napi_env \<Rightarrow> ('v, 'h) napi_env" where
  "ThrowException x e =
     (case try_catch e of
        None \<Rightarrow> e\<lparr>isolate_exception := Some x\<rparr>
      | Some c \<Rightarrow> e\<lparr>try_catch := Some (Some x)\<rparr>)"

text \<open>The destructor of \<open>TryCatch\<close>, which hands what was caught to the environment.\<close>

definition TryCatch_end :: "'v option option \<Rightarrow> ('v, 'h) napi_env \<Rightarrow> ('v, 'h) napi_env" where
  "TryCatch_end outer e =
     (case try_catch e of
        Some (Some x) \<Rightarrow> e\<lparr>last_exception := Some x, try_catch := outer\<rparr>
      | _ \<Rightarrow> e\<lparr>try_catch := outer\<rparr>)"

definition with_TryCatch :: "('v, 'h, 'a) api \<Rightarrow> ('v, 'h, 'a) api" where
  "with_TryCatch body e =
     bind_res (body (e\<lparr>try_catch := Some None\<rparr>)) (\<lambda>(st, out, e1).
       Inr (st, out, TryCatch_end (try_catch e) e1))"

definition NAPI_PREAMBLE :: "('v, 'h, 'a) api \<Rightarrow> ('v, 'h, 'a) api" where
  "NAPI_PREAMBLE body =
     CHECK_ENV_NOT_IN_GC (\<lambda>e.
       RETURN_STATUS_IF_FALSE (last_exception e = None) napi_pending_exception (\<lambda>e.
       RETURN_STATUS_IF_FALSE (can_call_into_js e)
         (if module_api_version e = NAPI_VERSION_EXPERIMENTAL then napi_cannot_run_js
          else napi_pending_exception) (\<lambda>e.
         with_TryCatch body (napi_clear_last_error e)) e) e)"

section \<open>The engine\<close>

datatype napi_typedarray_type =
    napi_int8_array | napi_uint8_array | napi_uint8_clamped_array | napi_int16_array | napi_uint16_array
  | napi_int32_array | napi_uint32_array | napi_float32_array | napi_float64_array
  | napi_bigint64_array | napi_biguint64_array

datatype v8_type =
    tObject | tFunction | tSymbol | tString | tName | tNumber | tBigInt | tExternal | tBoolean
  | tUndefined | tNull | tArray | tArrayBuffer | tTypedArray | tDataView | tDate | tPromise
  | tNativeError | tInt32 | tUint32 | tArrayOf napi_typedarray_type

text \<open>A key of a property operation: a value (name) or an index.\<close>

datatype 'v prop_key = KeyV 'v | KeyI u32

datatype integrity = kFrozen | kSealed

text \<open>A property descriptor as the engine takes it, and the attributes of a template property.\<close>

datatype 'v v8_descriptor =
    DescAccessor "'v option" "'v option" bool bool
  | DescData 'v bool bool bool

text \<open>Engine operations that can run JavaScript, hence throw and re-enter native code.\<close>

datatype 'v v8_vop =
    oToObject 'v | oToString 'v | oToNumber 'v
  | oGet 'v "'v prop_key" | oGetPropertyNames 'v bool u32 bool
  | oCall 'v 'v "'v list" | oNewInstance 'v "'v list"
  | oNewFromUtf8 "u8 list" bool | oNewFromOneByte "u8 list" | oNewFromTwoByte "u16 list" bool
  | oNewExternalOneByte "u8 list" nat | oNewExternalTwoByte "u16 list" nat
  | oNewBigIntWords int "u64 list" | oNewDate u64 | oNewResolver | oCompile 'v "'v option" | oRun 'v | oFunctionNew 'v
  | oGetPrivate 'v string | oTemplateGetFunction 'v

datatype 'v v8_bop =
    oSet 'v "'v prop_key" 'v | oHas 'v "'v prop_key" | oDelete 'v "'v prop_key" | oHasOwn 'v 'v
  | oDefineProperty 'v 'v "'v v8_descriptor" | oCreateDataProperty 'v 'v 'v
  | oSetIntegrityLevel 'v integrity | oInstanceOf 'v 'v | oResolve 'v 'v | oReject 'v 'v
  | oHasPrivate 'v string | oSetPrivate 'v string 'v | oDeletePrivate 'v string

text \<open>Engine operations that only allocate, with the value they yield. A double is its 64-bit pattern.\<close>

datatype error_kind = kError | kTypeError | kRangeError | kSyntaxError

datatype 'v v8_new =
    nObject | nArray | nArrayLength int | nNumber u64 | nInt32 "32 word" | nUint32 "32 word"
  | nNumberOfInt64 "64 word" | nBigIntInt64 "64 word" | nBigIntUint64 "64 word"
  | nSymbol "'v option" | nSymbolFor 'v | nError error_kind 'v | nGlobal | nExternal nat
  | nArrayBuffer nat | nExternalArrayBuffer ptr nat "(ptr \<times> ptr) option"
  | nTypedArray napi_typedarray_type 'v nat nat | nDataView 'v nat nat
  | nPromiseOf 'v | nPrototypeOf 'v | nBufferOf 'v | nTemplate 'v "'v option"

text \<open>Engine operations without a result.\<close>

datatype 'v v8_eff =
    fSetName 'v 'v | fSetClassName 'v 'v | fDetach 'v
  | fTemplateAccessor 'v 'v "'v option" "'v option" u32 | fTemplateSet 'v 'v 'v u32

text \<open>Reads of the heap: sizes, addresses and bit patterns, integers, and tests.\<close>

datatype 'v v8_read =
    rStringLength 'v | rUtf8Length 'v | rArrayLength 'v | rByteLength 'v | rByteOffset 'v | rLength 'v
  | rData 'v | rExternalValue 'v | rNumberValue 'v | rDateValue 'v

datatype 'v v8_iread = iInt32Value 'v | iUint32Value 'v | iIntegerValue 'v | iInt64Value 'v | iUint64Value 'v

datatype 'v v8_test =
    sStrictEquals 'v 'v | sBooleanValue 'v | sIsDetachable 'v | sWasDetached 'v
  | sInt64Lossless 'v | sUint64Lossless 'v

datatype str_enc = Latin1 | Utf8 | Utf16

text \<open>
  \<open>string_write\<close> gives the units that \<open>String::Write*\<close> stores for a length argument, \<open>bigint_words\<close>
  the sign and the words of a \<open>BigInt\<close>, \<open>adjust_memory\<close> is \<open>AdjustAmountOfExternalAllocatedMemory\<close>.
\<close>

record ('v, 'h) v8 =
  Is :: "v8_type \<Rightarrow> 'v \<Rightarrow> bool"
  vop :: "'v v8_vop \<Rightarrow> ('v, 'h) napi_env \<Rightarrow> ('v option \<times> 'v option \<times> ('v, 'h) napi_env) res"
  bop :: "'v v8_bop \<Rightarrow> ('v, 'h) napi_env \<Rightarrow> (bool option \<times> 'v option \<times> ('v, 'h) napi_env) res"
  new :: "'v v8_new \<Rightarrow> 'h \<Rightarrow> 'v \<times> 'h"
  eff :: "'v v8_eff \<Rightarrow> 'h \<Rightarrow> 'h"
  rd :: "'v v8_read \<Rightarrow> 'h \<Rightarrow> nat"
  rdi :: "'v v8_iread \<Rightarrow> 'h \<Rightarrow> int"
  tst :: "'v v8_test \<Rightarrow> 'h \<Rightarrow> bool"
  string_write :: "str_enc \<Rightarrow> 'v \<Rightarrow> int \<Rightarrow> 'h \<Rightarrow> u16 list"
  bigint_words :: "'v \<Rightarrow> 'h \<Rightarrow> bool \<times> u64 list"
  adjust_memory :: "int \<Rightarrow> 'h \<Rightarrow> int \<times> 'h"
  v_undefined :: 'v
  v_null :: 'v
  v_bool :: "bool \<Rightarrow> 'v"

text \<open>Calls of the two kinds: what is thrown goes to the innermost \<open>TryCatch\<close>.\<close>

definition js_end :: "('r option \<times> 'v option \<times> ('v, 'h) napi_env) res \<Rightarrow> ('r option \<Rightarrow> ('v, 'h, 'a) api) \<Rightarrow>
    (napi_status \<times> 'a option \<times> ('v, 'h) napi_env) res" where
  "js_end r k =
     bind_res r (\<lambda>(m, exc, e1). k m (case exc of None \<Rightarrow> e1 | Some x \<Rightarrow> ThrowException x e1))"

definition jsv :: "('v, 'h) v8 \<Rightarrow> 'v v8_vop \<Rightarrow> ('v option \<Rightarrow> ('v, 'h, 'a) api) \<Rightarrow> ('v, 'h, 'a) api" where
  "jsv V p k e = js_end (vop V p e) k"

definition jsb :: "('v, 'h) v8 \<Rightarrow> 'v v8_bop \<Rightarrow> (bool option \<Rightarrow> ('v, 'h, 'a) api) \<Rightarrow> ('v, 'h, 'a) api" where
  "jsb V p k e = js_end (bop V p e) k"

definition alloc :: "('v, 'h) v8 \<Rightarrow> 'v v8_new \<Rightarrow> ('v \<Rightarrow> ('v, 'h, 'a) api) \<Rightarrow> ('v, 'h, 'a) api" where
  "alloc V p k e = (case new V p (isolate e) of (v, h) \<Rightarrow> k v (e\<lparr>isolate := h\<rparr>))"

definition effect :: "('v, 'h) v8 \<Rightarrow> 'v v8_eff \<Rightarrow> ('v, 'h, 'a) api \<Rightarrow> ('v, 'h, 'a) api" where
  "effect V p k e = k (e\<lparr>isolate := eff V p (isolate e)\<rparr>)"

definition FromMaybe :: "bool option \<Rightarrow> bool" where
  "FromMaybe m = (m = Some True)"

text \<open>The conversion guards.\<close>

definition CHECK_TO_OBJECT :: "('v, 'h) v8 \<Rightarrow> 'v option \<Rightarrow> ('v \<Rightarrow> ('v, 'h, 'a) api) \<Rightarrow> ('v, 'h, 'a) api" where
  "CHECK_TO_OBJECT V src k =
     CHECK_ARG src (\<lambda>v. jsv V (oToObject v) (\<lambda>m. CHECK_MAYBE m napi_object_expected k))"

definition CHECK_TO_OBJECT_WITH_PREAMBLE :: "('v, 'h) v8 \<Rightarrow> 'v option \<Rightarrow> ('v \<Rightarrow> ('v, 'h, 'a) api) \<Rightarrow> ('v, 'h, 'a) api" where
  "CHECK_TO_OBJECT_WITH_PREAMBLE V src k =
     CHECK_ARG_WITH_PREAMBLE src (\<lambda>v. jsv V (oToObject v) (\<lambda>m. CHECK_MAYBE_WITH_PREAMBLE m napi_object_expected k))"

definition CHECK_TO_STRING :: "('v, 'h) v8 \<Rightarrow> 'v option \<Rightarrow> ('v \<Rightarrow> ('v, 'h, 'a) api) \<Rightarrow> ('v, 'h, 'a) api" where
  "CHECK_TO_STRING V src k =
     CHECK_ARG src (\<lambda>v. jsv V (oToString v) (\<lambda>m. CHECK_MAYBE m napi_string_expected k))"

definition CHECK_TO_NUMBER :: "('v, 'h) v8 \<Rightarrow> 'v option \<Rightarrow> ('v \<Rightarrow> ('v, 'h, 'a) api) \<Rightarrow> ('v, 'h, 'a) api" where
  "CHECK_TO_NUMBER V src k =
     CHECK_ARG src (\<lambda>v. jsv V (oToNumber v) (\<lambda>m. CHECK_MAYBE m napi_number_expected k))"

definition CHECK_TO_FUNCTION :: "('v, 'h) v8 \<Rightarrow> 'v option \<Rightarrow> ('v \<Rightarrow> ('v, 'h, 'a) api) \<Rightarrow> ('v, 'h, 'a) api" where
  "CHECK_TO_FUNCTION V src k =
     CHECK_ARG src (\<lambda>v. RETURN_STATUS_IF_FALSE (Is V tFunction v) napi_invalid_arg (k v))"

text \<open>\<open>CHECK_NEW_FROM_UTF8_LEN\<close>: the length is an \<^verbatim>\<open>int\<close> for V8, with \<open>NAPI_AUTO_LENGTH\<close> for a
  zero-terminated string; \<open>str\<close> is the memory at the pointer.\<close>

definition NAPI_AUTO_LENGTH :: nat where
  "NAPI_AUTO_LENGTH = 2 ^ 64 - 1"

definition INT_MAX :: nat where
  "INT_MAX = 2 ^ 31 - 1"

definition str_len :: "'c::zero list \<Rightarrow> nat \<Rightarrow> 'c list" where
  "str_len str len = (if len = NAPI_AUTO_LENGTH then takeWhile (\<lambda>c. c \<noteq> 0) str else take len str)"

definition CHECK_NEW_FROM_UTF8_LEN :: "('v, 'h) v8 \<Rightarrow> u8 list option \<Rightarrow> nat \<Rightarrow> ('v \<Rightarrow> ('v, 'h, 'a) api) \<Rightarrow> ('v, 'h, 'a) api" where
  "CHECK_NEW_FROM_UTF8_LEN V str len k =
     RETURN_STATUS_IF_FALSE (len = NAPI_AUTO_LENGTH \<or> len \<le> INT_MAX) napi_invalid_arg
       (CHECK_ARG str (\<lambda>s. jsv V (oNewFromUtf8 (str_len s len) True) (\<lambda>m. CHECK_MAYBE m napi_generic_failure k)))"

definition CHECK_NEW_FROM_UTF8 :: "('v, 'h) v8 \<Rightarrow> u8 list option \<Rightarrow> ('v \<Rightarrow> ('v, 'h, 'a) api) \<Rightarrow> ('v, 'h, 'a) api" where
  "CHECK_NEW_FROM_UTF8 V str = CHECK_NEW_FROM_UTF8_LEN V str NAPI_AUTO_LENGTH"

section \<open>Error information\<close>

primrec status_index :: "napi_status \<Rightarrow> nat" where
  "status_index napi_ok = 0"
| "status_index napi_invalid_arg = 1"
| "status_index napi_object_expected = 2"
| "status_index napi_string_expected = 3"
| "status_index napi_name_expected = 4"
| "status_index napi_function_expected = 5"
| "status_index napi_number_expected = 6"
| "status_index napi_boolean_expected = 7"
| "status_index napi_array_expected = 8"
| "status_index napi_generic_failure = 9"
| "status_index napi_pending_exception = 10"
| "status_index napi_cancelled = 11"
| "status_index napi_escape_called_twice = 12"
| "status_index napi_handle_scope_mismatch = 13"
| "status_index napi_callback_scope_mismatch = 14"
| "status_index napi_queue_full = 15"
| "status_index napi_closing = 16"
| "status_index napi_bigint_expected = 17"
| "status_index napi_date_expected = 18"
| "status_index napi_arraybuffer_expected = 19"
| "status_index napi_detachable_arraybuffer_expected = 20"
| "status_index napi_would_deadlock = 21"
| "status_index napi_no_external_buffers_allowed = 22"
| "status_index napi_cannot_run_js = 23"

lemma status_index_inj: "status_index a = status_index b \<Longrightarrow> a = b"
  by (cases a; cases b) simp_all

text \<open>The enumeration is ordered by its underlying values, as the code compares it.\<close>

instantiation napi_status :: linorder
begin

definition less_eq_napi_status :: "napi_status \<Rightarrow> napi_status \<Rightarrow> bool" where
  "less_eq_napi_status a b \<longleftrightarrow> status_index a \<le> status_index b"

definition less_napi_status :: "napi_status \<Rightarrow> napi_status \<Rightarrow> bool" where
  "less_napi_status a b \<longleftrightarrow> status_index a < status_index b"

instance
  by standard (auto simp: less_eq_napi_status_def less_napi_status_def status_index_inj)

end

definition error_messages :: "string option list" where
  "error_messages =
     [None,
      Some ''Invalid argument'',
      Some ''An object was expected'',
      Some ''A string was expected'',
      Some ''A string or symbol was expected'',
      Some ''A function was expected'',
      Some ''A number was expected'',
      Some ''A boolean was expected'',
      Some ''An array was expected'',
      Some ''Unknown failure'',
      Some ''An exception is pending'',
      Some ''The async work item was cancelled'',
      Some ''napi_escape_handle already called on scope'',
      Some ''Invalid handle scope usage'',
      Some ''Invalid callback scope usage'',
      Some ''Thread-safe function queue is full'',
      Some ''Thread-safe function handle is closing'',
      Some ''A bigint was expected'',
      Some ''A date was expected'',
      Some ''An arraybuffer was expected'',
      Some ''A detachable arraybuffer was expected'',
      Some ''Main thread would deadlock'',
      Some ''External buffers are not allowed'',
      Some ''Cannot run JavaScript'']"

definition napi_get_last_error_info :: "bool \<Rightarrow> ('v, 'h, napi_status \<times> string option) api" where
  "napi_get_last_error_info result =
     CHECK_OUT result (\<lambda>e.
       check (error_code e \<le> napi_cannot_run_js) CheckAbort
         (bind_res (read_at error_messages (status_index (error_code e))) (\<lambda>msg.
            let e1 = e\<lparr>error_message := msg\<rparr>;
                e2 = (if error_code e1 = napi_ok then napi_clear_last_error e1 else e1)
            in Inr (napi_ok, Some (error_code e2, error_message e2), e2))))"

section \<open>Calls into the module\<close>

text \<open>\<open>CallIntoModule\<close>: the scopes must be balanced by the callee, and a pending exception goes to
  the handler (the flag of the result tells whether it ran). \<open>terminating\<close> is \<open>Isolate::IsExecutionTerminating\<close>.\<close>

definition terminatedOrTerminating :: "bool \<Rightarrow> ('v, 'h) napi_env \<Rightarrow> bool" where
  "terminatedOrTerminating terminating e \<longleftrightarrow> terminating \<or> \<not> can_call_into_js e"

definition CallIntoModule :: "(('v, 'h) napi_env \<Rightarrow> ('a \<times> ('v, 'h) napi_env) res) \<Rightarrow>
    ('v \<Rightarrow> ('v, 'h) napi_env \<Rightarrow> ('v, 'h) napi_env res) \<Rightarrow> ('v, 'h) napi_env \<Rightarrow>
    ('a \<times> bool \<times> ('v, 'h) napi_env) res" where
  "CallIntoModule call handle_exception e =
     bind_res (call (napi_clear_last_error e)) (\<lambda>(r, e1).
     check (open_handle_scopes e1 = open_handle_scopes e) CheckAbort
     (check (open_callback_scopes e1 = open_callback_scopes e) CheckAbort
       (case last_exception e1 of
          None \<Rightarrow> Inr (r, False, e1)
        | Some x \<Rightarrow> bind_res (handle_exception x e1) (\<lambda>e2. Inr (r, True, e2\<lparr>last_exception := None\<rparr>)))))"

definition HandleThrow :: "bool \<Rightarrow> 'v \<Rightarrow> ('v, 'h) napi_env \<Rightarrow> ('v, 'h) napi_env res" where
  "HandleThrow terminating x e =
     Inr (if terminatedOrTerminating terminating e then e else ThrowException x e)"

text \<open>\<open>FunctionCallbackWrapper::InvokeCallback\<close>: run the native callback; its value becomes the return
  value of the JavaScript call unless an exception was raised.\<close>

definition InvokeCallback :: "bool \<Rightarrow> (('v, 'h) napi_env \<Rightarrow> ('v option \<times> ('v, 'h) napi_env) res) \<Rightarrow>
    ('v, 'h) napi_env \<Rightarrow> ('v option \<times> ('v, 'h) napi_env) res" where
  "InvokeCallback terminating cb e =
     bind_res (CallIntoModule cb (HandleThrow terminating) e) (\<lambda>(result, exceptionOccurred, e1).
       Inr (if exceptionOccurred then None else result, e1))"

text \<open>\<open>FunctionCallbackWrapper::Args\<close> fills the caller's buffer with the arguments, then with undefined.\<close>

definition Args :: "'v \<Rightarrow> 'v list \<Rightarrow> nat \<Rightarrow> 'v list" where
  "Args undef cbinfo buffer_length =
     (let min_arg_count = min buffer_length (length cbinfo)
      in map (\<lambda>i. if i < min_arg_count then cbinfo ! i else undef) [0..<buffer_length])"

record 'v callback_info =
  cb_args :: "'v list"
  cb_this :: 'v
  cb_data :: ptr
  cb_new_target :: "'v option"

text \<open>\<open>argc\<close> gives the size of the \<open>argv\<close> buffer; the results are the buffer (if asked for), the number
  of arguments, \<open>this\<close> and the data.\<close>

definition napi_get_cb_info :: "('v, 'h) v8 \<Rightarrow> 'v callback_info option \<Rightarrow> nat option \<Rightarrow> bool \<Rightarrow>
    ('v, 'h, 'v list option \<times> nat \<times> 'v \<times> ptr) api" where
  "napi_get_cb_info V cbinfo argc argv =
     CHECK_ARG cbinfo (\<lambda>info.
       if argv then
         CHECK_ARG argc (\<lambda>n. succeed (Some (Some (Args (v_undefined V) (cb_args info) n),
           length (cb_args info), cb_this info, cb_data info)))
       else succeed (Some (None, length (cb_args info), cb_this info, cb_data info)))"

definition napi_get_new_target :: "'v callback_info option \<Rightarrow> bool \<Rightarrow> ('v, 'h, 'v option) api" where
  "napi_get_new_target cbinfo result =
     CHECK_ENV_NOT_IN_GC (CHECK_ARG cbinfo (\<lambda>info. CHECK_OUT result (succeed (Some (cb_new_target info)))))"

section \<open>Exceptions of the environment\<close>

definition napi_is_exception_pending :: "bool \<Rightarrow> ('v, 'h, bool) api" where
  "napi_is_exception_pending result =
     CHECK_ENV_NOT_IN_GC (CHECK_OUT result (\<lambda>e. succeed (Some (last_exception e \<noteq> None)) e))"

definition napi_get_undefined :: "('v, 'h) v8 \<Rightarrow> bool \<Rightarrow> ('v, 'h, 'v) api" where
  "napi_get_undefined V result = CHECK_ENV_NOT_IN_GC (CHECK_OUT result (succeed (Some (v_undefined V))))"

definition napi_get_and_clear_last_exception :: "('v, 'h) v8 \<Rightarrow> bool \<Rightarrow> ('v, 'h, 'v) api" where
  "napi_get_and_clear_last_exception V result =
     CHECK_ENV_NOT_IN_GC (CHECK_OUT result (\<lambda>e.
       case last_exception e of
         None \<Rightarrow> napi_get_undefined V result e
       | Some x \<Rightarrow> succeed (Some x) (e\<lparr>last_exception := None\<rparr>)))"

end
