(* ===== verification/Napi_Contract.thy ===== *)
theory Napi_Contract
  imports Napi_Env
begin

text \<open>
  The contract that every Node-API function keeps, and the rules by which it is proved. A function that
  can run JavaScript works under a \<open>TryCatch\<close>: \<open>good\<close> is the contract of such a body (started with
  nothing caught) and \<open>goodc\<close> the one of a continuation after a failed engine call (something may have
  been caught). \<open>plain\<close> is the contract of functions without a \<open>TryCatch\<close>, and \<open>api_contract\<close> the
  one of an exported function. The rules follow the guard macros, so that the proof for a function is
  its definition read backwards.
\<close>

text \<open>
  What the contract relies on of V8: native code that an operation calls back into runs inside
  \<open>CallIntoModule\<close> or its own \<open>TryCatch\<close> and leaves those of its callers alone, and an operation
  that throws has no result.
\<close>

definition engine_ok :: "('v, 'h) v8 \<Rightarrow> bool" where
  "engine_ok V \<longleftrightarrow>
     (\<forall>p e m exc e1. vop V p e = Inr (m, exc, e1) \<longrightarrow>
        try_catch e1 = try_catch e \<and> last_exception e1 = last_exception e \<and>
        is_destructing e1 = is_destructing e \<and> (exc \<noteq> None \<longrightarrow> m = None)) \<and>
     (\<forall>p e m exc e1. bop V p e = Inr (m, exc, e1) \<longrightarrow>
        try_catch e1 = try_catch e \<and> last_exception e1 = last_exception e \<and>
        is_destructing e1 = is_destructing e \<and> (exc \<noteq> None \<longrightarrow> m = None))"

lemma engine_okD:
  assumes "engine_ok V"
  shows "vop V p e = Inr (m, exc, e1) \<Longrightarrow>
      try_catch e1 = try_catch e \<and> last_exception e1 = last_exception e \<and>
      is_destructing e1 = is_destructing e \<and> (exc \<noteq> None \<longrightarrow> m = None)"
    and "bop V q e = Inr (mb, exc, e1) \<Longrightarrow>
      try_catch e1 = try_catch e \<and> last_exception e1 = last_exception e \<and>
      is_destructing e1 = is_destructing e \<and> (exc \<noteq> None \<longrightarrow> mb = None)"
  using assms unfolding engine_ok_def by blast+

definition in_body :: "('v, 'h) napi_env \<Rightarrow> bool" where
  "in_body e \<longleftrightarrow> try_catch e \<noteq> None \<and> last_exception e = None \<and> \<not> is_destructing e"

definition body_post :: "napi_status \<Rightarrow> ('v, 'h) napi_env \<Rightarrow> bool" where
  "body_post st e \<longleftrightarrow> try_catch e \<noteq> None \<and> \<not> is_destructing e \<and>
     (st \<noteq> napi_ok \<longrightarrow> error_code e = st) \<and>
     (st = napi_ok \<longrightarrow> \<not> HasCaught e \<and> last_exception e = None) \<and>
     (st = napi_pending_exception \<longrightarrow> HasCaught e \<or> last_exception e \<noteq> None)"

definition goodc :: "('v, 'h, 'a) api \<Rightarrow> bool" where
  "goodc f \<longleftrightarrow> (\<forall>e st out e'. in_body e \<longrightarrow> f e = Inr (st, out, e') \<longrightarrow> body_post st e')"

definition good :: "('v, 'h, 'a) api \<Rightarrow> bool" where
  "good f \<longleftrightarrow> (\<forall>e st out e'. in_body e \<longrightarrow> \<not> HasCaught e \<longrightarrow> f e = Inr (st, out, e') \<longrightarrow> body_post st e')"

definition plain :: "('v, 'h, 'a) api \<Rightarrow> bool" where
  "plain f \<longleftrightarrow> (\<forall>e st out e'. f e = Inr (st, out, e') \<longrightarrow>
     (st \<noteq> napi_ok \<longrightarrow> error_code e' = st) \<and> st \<noteq> napi_pending_exception \<and>
     (try_catch e = None \<longrightarrow> try_catch e' = None) \<and> last_exception e' \<in> {last_exception e, None})"

definition api_contract :: "('v, 'h, 'a) api \<Rightarrow> bool" where
  "api_contract f \<longleftrightarrow> (\<forall>e st out e'. f e = Inr (st, out, e') \<longrightarrow>
     (st \<noteq> napi_ok \<longrightarrow> error_code e' = st) \<and>
     (try_catch e = None \<longrightarrow> try_catch e' = None) \<and>
     (st = napi_ok \<longrightarrow> last_exception e = None \<longrightarrow> last_exception e' = None) \<and>
     (st = napi_pending_exception \<longrightarrow> last_exception e' \<noteq> None \<or> is_destructing e))"

named_theorems contract_intros \<open>rules for the contracts of API functions\<close>

section \<open>Field updates\<close>

lemma last_error_fields [simp]:
  "try_catch (napi_set_last_error st e) = try_catch e" "try_catch (napi_clear_last_error e) = try_catch e"
  "last_exception (napi_set_last_error st e) = last_exception e"
  "last_exception (napi_clear_last_error e) = last_exception e"
  "is_destructing (napi_set_last_error st e) = is_destructing e"
  "is_destructing (napi_clear_last_error e) = is_destructing e"
  "error_code (napi_set_last_error st e) = st" "error_code (napi_clear_last_error e) = napi_ok"
  "HasCaught (napi_set_last_error st e) = HasCaught e" "HasCaught (napi_clear_last_error e) = HasCaught e"
  by (simp_all add: napi_set_last_error_def napi_clear_last_error_def HasCaught_def)

lemma ThrowException_fields [simp]:
  "try_catch (ThrowException x e) = (case try_catch e of None \<Rightarrow> None | Some c \<Rightarrow> Some (Some x))"
  "last_exception (ThrowException x e) = last_exception e"
  "is_destructing (ThrowException x e) = is_destructing e"
  by (simp_all add: ThrowException_def split: option.split)

lemma in_body_throw: "in_body e \<Longrightarrow> in_body (case exc of None \<Rightarrow> e | Some x \<Rightarrow> ThrowException x e)"
  by (auto simp: in_body_def split: option.split)

lemma in_body_cong:
  "try_catch e' = try_catch e \<Longrightarrow> last_exception e' = last_exception e \<Longrightarrow>
    is_destructing e' = is_destructing e \<Longrightarrow> in_body e' = in_body e"
  by (simp add: in_body_def)

section \<open>Rules for bodies\<close>

lemma goodc_good: "goodc f \<Longrightarrow> good f"
  unfolding goodc_def good_def by blast

lemma goodD: "good f \<Longrightarrow> in_body e \<Longrightarrow> \<not> HasCaught e \<Longrightarrow> f e = Inr (st, out, e') \<Longrightarrow> body_post st e'"
  unfolding good_def by blast

lemma goodcD: "goodc f \<Longrightarrow> in_body e \<Longrightarrow> f e = Inr (st, out, e') \<Longrightarrow> body_post st e'"
  unfolding goodc_def by blast

lemma goodc_fail [contract_intros]: "st \<noteq> napi_ok \<Longrightarrow> st \<noteq> napi_pending_exception \<Longrightarrow> goodc (fail st)"
  by (auto simp: goodc_def fail_def body_post_def in_body_def)

lemma good_fail [contract_intros]: "st \<noteq> napi_ok \<Longrightarrow> st \<noteq> napi_pending_exception \<Longrightarrow> good (fail st)"
  by (rule goodc_good [OF goodc_fail])

lemma goodc_fail_pending [contract_intros]:
  "st \<noteq> napi_ok \<Longrightarrow> st \<noteq> napi_pending_exception \<Longrightarrow>
    goodc (\<lambda>e. fail (if HasCaught e then napi_pending_exception else st) e)"
  by (auto simp: goodc_def fail_def body_post_def in_body_def)

lemma good_succeed [contract_intros]: "good (succeed out)"
  by (auto simp: good_def succeed_def body_post_def in_body_def)

lemma goodc_GET_RETURN_STATUS [contract_intros]: "goodc (GET_RETURN_STATUS out)"
  by (auto simp: goodc_def GET_RETURN_STATUS_def body_post_def in_body_def split: if_splits)

lemma good_GET_RETURN_STATUS [contract_intros]: "good (GET_RETURN_STATUS out)"
  by (rule goodc_good [OF goodc_GET_RETURN_STATUS])

lemma good_RETURN_STATUS_IF_FALSE [contract_intros]:
  "(b \<Longrightarrow> good k) \<Longrightarrow> st \<noteq> napi_ok \<Longrightarrow> st \<noteq> napi_pending_exception \<Longrightarrow> good (RETURN_STATUS_IF_FALSE b st k)"
  using good_fail [of st] by (cases b) (auto simp: good_def RETURN_STATUS_IF_FALSE_def)

lemma good_CHECK_OUT [contract_intros]: "good k \<Longrightarrow> good (CHECK_OUT result k)"
  unfolding CHECK_OUT_def by (rule good_RETURN_STATUS_IF_FALSE) auto

lemma goodc_RETURN_STATUS_IF_FALSE_WITH_PREAMBLE [contract_intros]:
  "(b \<Longrightarrow> goodc k) \<Longrightarrow> st \<noteq> napi_ok \<Longrightarrow> st \<noteq> napi_pending_exception \<Longrightarrow>
    goodc (RETURN_STATUS_IF_FALSE_WITH_PREAMBLE b st k)"
  using goodc_fail_pending [of st]
  by (cases b) (auto simp: goodc_def RETURN_STATUS_IF_FALSE_WITH_PREAMBLE_def)

lemma good_RETURN_STATUS_IF_FALSE_WITH_PREAMBLE [contract_intros]:
  "(b \<Longrightarrow> good k) \<Longrightarrow> st \<noteq> napi_ok \<Longrightarrow> st \<noteq> napi_pending_exception \<Longrightarrow>
    good (RETURN_STATUS_IF_FALSE_WITH_PREAMBLE b st k)"
  using good_fail [of st]
  by (cases b) (auto simp: good_def RETURN_STATUS_IF_FALSE_WITH_PREAMBLE_def)

lemma good_CHECK_ARG [contract_intros]: "(\<And>x. arg = Some x \<Longrightarrow> good (k x)) \<Longrightarrow> good (CHECK_ARG arg k)"
  using good_fail [of napi_invalid_arg] by (cases arg) (auto simp: good_def CHECK_ARG_def)

lemma good_CHECK_ARG_WITH_PREAMBLE [contract_intros]:
  "(\<And>x. arg = Some x \<Longrightarrow> good (k x)) \<Longrightarrow> good (CHECK_ARG_WITH_PREAMBLE arg k)"
  using good_fail [of napi_invalid_arg]
  by (cases arg) (auto simp: good_def CHECK_ARG_WITH_PREAMBLE_def)

lemma CHECK_MAYBE_simps [simp]:
  "CHECK_MAYBE (Some x) st k = k x" "CHECK_MAYBE None st k = fail st"
  "CHECK_MAYBE_WITH_PREAMBLE (Some x) st k = k x"
  "CHECK_MAYBE_WITH_PREAMBLE None st k = (\<lambda>e. fail (if HasCaught e then napi_pending_exception else st) e)"
  by (simp_all add: CHECK_MAYBE_def CHECK_MAYBE_WITH_PREAMBLE_def fun_eq_iff)

lemma RETURN_STATUS_simps [simp]:
  "RETURN_STATUS_IF_FALSE True st k = k" "RETURN_STATUS_IF_FALSE False st k = fail st"
  "RETURN_STATUS_IF_FALSE_WITH_PREAMBLE True st k = k"
  "RETURN_STATUS_IF_FALSE_WITH_PREAMBLE False st k =
     (\<lambda>e. fail (if HasCaught e then napi_pending_exception else st) e)"
  by (simp_all add: RETURN_STATUS_IF_FALSE_def RETURN_STATUS_IF_FALSE_WITH_PREAMBLE_def fun_eq_iff)

lemma FromMaybe_simps [simp]: "FromMaybe None = False" "FromMaybe (Some b) = b"
  by (simp_all add: FromMaybe_def)

lemma good_js_end:
  assumes "\<And>e m exc e1. op e = Inr (m, exc, e1) \<Longrightarrow> try_catch e1 = try_catch e \<and>
      last_exception e1 = last_exception e \<and> is_destructing e1 = is_destructing e \<and> (exc \<noteq> None \<longrightarrow> m = None)"
    and "\<And>v. good (k (Some v))" "goodc (k None)"
  shows "good (\<lambda>e. js_end (op e) k)"
  unfolding good_def
proof (intro allI impI)
  fix e st out e'
  assume e: "in_body e" "\<not> HasCaught e" and r: "js_end (op e) k = Inr (st, out, e')"
  obtain m exc e1 where op: "op e = Inr (m, exc, e1)"
    and k: "k m (case exc of None \<Rightarrow> e1 | Some x \<Rightarrow> ThrowException x e1) = Inr (st, out, e')"
    using r by (auto simp: js_end_def res_simps)
  note fr = assms(1) [OF op]
  have b: "in_body e1" "\<not> HasCaught e1" using e fr by (auto simp: in_body_def HasCaught_def)
  show "body_post st e'"
  proof (cases exc)
    case None
    then show ?thesis using b k goodD [OF assms(2)] goodcD [OF assms(3)] by (cases m) auto
  next
    case (Some x)
    then have "m = None" using fr by auto
    then show ?thesis using k goodcD [OF assms(3) in_body_throw [OF b(1), of exc]] by simp
  qed
qed

lemma good_jsv [contract_intros]:
  "engine_ok V \<Longrightarrow> (\<And>v. good (k (Some v))) \<Longrightarrow> goodc (k None) \<Longrightarrow> good (jsv V p k)"
  unfolding jsv_def by (rule good_js_end) (use engine_okD(1) in blast)+

lemma good_jsb [contract_intros]:
  "engine_ok V \<Longrightarrow> (\<And>b. good (k (Some b))) \<Longrightarrow> goodc (k None) \<Longrightarrow> good (jsb V p k)"
  unfolding jsb_def by (rule good_js_end) (use engine_okD(2) in blast)+

lemma good_update:
  assumes "good k" "\<And>e. try_catch (g e) = try_catch e" "\<And>e. last_exception (g e) = last_exception e"
    and "\<And>e. is_destructing (g e) = is_destructing e"
  shows "good (\<lambda>e. k (g e))"
  unfolding good_def
proof (intro allI impI)
  fix e st out e'
  assume "in_body e" "\<not> HasCaught e" and r: "k (g e) = Inr (st, out, e')"
  then have "in_body (g e)" "\<not> HasCaught (g e)"
    using in_body_cong [of "g e" e] assms(2-4) by (auto simp: HasCaught_def)
  then show "body_post st e'" using assms(1) r unfolding good_def by blast
qed

lemma good_alloc [contract_intros]:
  assumes "\<And>v. good (k v)"
  shows "good (alloc V p k)"
  unfolding good_def
proof (intro allI impI)
  fix e st out e'
  assume e: "in_body e" "\<not> HasCaught e" and r: "alloc V p k e = Inr (st, out, e')"
  obtain v h where "new V p (isolate e) = (v, h)" by fastforce
  then have "k v (e\<lparr>isolate := h\<rparr>) = Inr (st, out, e')" using r by (simp add: alloc_def)
  moreover have "in_body (e\<lparr>isolate := h\<rparr>)" "\<not> HasCaught (e\<lparr>isolate := h\<rparr>)"
    using e by (simp_all add: in_body_def HasCaught_def)
  ultimately show "body_post st e'" using goodD [OF assms] by blast
qed

lemma good_STATUS_CALL [contract_intros]:
  assumes "good call" "\<And>out. good (k out)"
  shows "good (STATUS_CALL call k)"
  unfolding good_def
proof (intro allI impI)
  fix e st out e'
  assume e: "in_body e" "\<not> HasCaught e" and r: "STATUS_CALL call k e = Inr (st, out, e')"
  obtain st1 out1 e1 where c: "call e = Inr (st1, out1, e1)"
    and k: "(if st1 \<noteq> napi_ok then Inr (st1, None, e1) else k out1 e1) = Inr (st, out, e')"
    using r by (auto simp: STATUS_CALL_def res_simps)
  have p: "body_post st1 e1" using assms(1) e c unfolding good_def by blast
  show "body_post st e'"
  proof (cases "st1 = napi_ok")
    case True
    then have "in_body e1" "\<not> HasCaught e1" using p by (auto simp: body_post_def in_body_def)
    then show ?thesis using True k assms(2) unfolding good_def by auto
  qed (use k p in auto)
qed

lemma TryCatch_end_fields [simp]:
  "try_catch (TryCatch_end outer e) = outer" "error_code (TryCatch_end outer e) = error_code e"
  "is_destructing (TryCatch_end outer e) = is_destructing e"
  "last_exception (TryCatch_end outer e) = (if HasCaught e then the (try_catch e) else last_exception e)"
  by (simp_all add: TryCatch_end_def HasCaught_def split: option.split)

text \<open>What a guarded body leaves behind.\<close>

lemma with_TryCatch_post:
  assumes "good body" "last_exception e = None" "\<not> is_destructing e"
    and "with_TryCatch body e = Inr (st, out, e')"
  shows "(st \<noteq> napi_ok \<longrightarrow> error_code e' = st) \<and> try_catch e' = try_catch e \<and> \<not> is_destructing e' \<and>
    (st = napi_ok \<longrightarrow> last_exception e' = None) \<and> (st = napi_pending_exception \<longrightarrow> last_exception e' \<noteq> None)"
proof -
  obtain e1 where b: "body (e\<lparr>try_catch := Some None\<rparr>) = Inr (st, out, e1)"
    and e': "e' = TryCatch_end (try_catch e) e1"
    using assms(4) by (auto simp: with_TryCatch_def res_simps)
  have "body_post st e1"
    using assms(2,3) by (intro goodD [OF assms(1) _ _ b]) (simp_all add: in_body_def HasCaught_def)
  moreover have "HasCaught e1 \<Longrightarrow> the (try_catch e1) \<noteq> None"
    by (auto simp: HasCaught_def split: option.splits)
  ultimately show ?thesis by (auto simp: e' body_post_def)
qed

lemma good_NAPI_PREAMBLE [contract_intros]:
  assumes "good body"
  shows "good (NAPI_PREAMBLE body)"
  unfolding good_def
proof (intro allI impI)
  fix e st out e'
  assume e: "in_body e" "\<not> HasCaught e" and r: "NAPI_PREAMBLE body e = Inr (st, out, e')"
  then have "with_TryCatch body (napi_clear_last_error e) = Inr (st, out, e')"
    by (auto simp: NAPI_PREAMBLE_def CHECK_ENV_NOT_IN_GC_def in_body_def can_call_into_js_def res_simps)
  from with_TryCatch_post [OF assms _ _ this] e show "body_post st e'"
    by (auto simp: in_body_def body_post_def HasCaught_def)
qed

lemma contract_NAPI_PREAMBLE [contract_intros]:
  assumes "good body"
  shows "api_contract (NAPI_PREAMBLE body)"
  unfolding api_contract_def
proof (intro allI impI)
  fix e st out e'
  assume r: "NAPI_PREAMBLE body e = Inr (st, out, e')"
  show "(st \<noteq> napi_ok \<longrightarrow> error_code e' = st) \<and> (try_catch e = None \<longrightarrow> try_catch e' = None) \<and>
    (st = napi_ok \<longrightarrow> last_exception e = None \<longrightarrow> last_exception e' = None) \<and>
    (st = napi_pending_exception \<longrightarrow> last_exception e' \<noteq> None \<or> is_destructing e)"
  proof (cases "last_exception e = None \<and> \<not> is_destructing e")
    case True
    then have "with_TryCatch body (napi_clear_last_error e) = Inr (st, out, e')"
      using r by (auto simp: NAPI_PREAMBLE_def CHECK_ENV_NOT_IN_GC_def can_call_into_js_def res_simps)
    from with_TryCatch_post [OF assms _ _ this] True show ?thesis by auto
  next
    case False
    then show ?thesis
      using r by (auto simp: NAPI_PREAMBLE_def CHECK_ENV_NOT_IN_GC_def can_call_into_js_def
          RETURN_STATUS_IF_FALSE_def fail_def res_simps split: if_splits)
  qed
qed

section \<open>Rules for functions without a TryCatch\<close>

lemma plainD:
  "plain f \<Longrightarrow> f e = Inr (st, out, e') \<Longrightarrow>
     (st \<noteq> napi_ok \<longrightarrow> error_code e' = st) \<and> st \<noteq> napi_pending_exception \<and>
     (try_catch e = None \<longrightarrow> try_catch e' = None) \<and> last_exception e' \<in> {last_exception e, None}"
  unfolding plain_def by blast

lemma plain_contract: "plain f \<Longrightarrow> api_contract f"
  unfolding api_contract_def by (auto dest: plainD)

lemma plain_fail [contract_intros]: "st \<noteq> napi_ok \<Longrightarrow> st \<noteq> napi_pending_exception \<Longrightarrow> plain (fail st)"
  by (simp add: plain_def fail_def)

lemma plain_succeed [contract_intros]: "plain (succeed out)"
  by (simp add: plain_def succeed_def)

lemma plain_succeed_dep [contract_intros]: "plain (\<lambda>e. succeed (out e) e)"
  by (simp add: plain_def succeed_def)

lemma plain_if [contract_intros]: "(b \<Longrightarrow> plain f) \<Longrightarrow> (\<not> b \<Longrightarrow> plain g) \<Longrightarrow> plain (if b then f else g)"
  by simp

lemma good_if [contract_intros]: "(b \<Longrightarrow> good f) \<Longrightarrow> (\<not> b \<Longrightarrow> good g) \<Longrightarrow> good (if b then f else g)"
  by simp

lemma plain_CHECK_ENV_NOT_IN_GC [contract_intros]: "plain k \<Longrightarrow> plain (CHECK_ENV_NOT_IN_GC k)"
  unfolding plain_def CHECK_ENV_NOT_IN_GC_def check_Inr_iff by blast

lemma plain_RETURN_STATUS_IF_FALSE [contract_intros]:
  "(b \<Longrightarrow> plain k) \<Longrightarrow> st \<noteq> napi_ok \<Longrightarrow> st \<noteq> napi_pending_exception \<Longrightarrow> plain (RETURN_STATUS_IF_FALSE b st k)"
  using plain_fail [of st] by (cases b) simp_all

lemma plain_CHECK_OUT [contract_intros]: "plain k \<Longrightarrow> plain (CHECK_OUT result k)"
  unfolding CHECK_OUT_def by (rule plain_RETURN_STATUS_IF_FALSE) auto

lemma CHECK_ARG_simps [simp]: "CHECK_ARG None k = fail napi_invalid_arg" "CHECK_ARG (Some x) k = k x"
  by (simp_all add: CHECK_ARG_def fun_eq_iff)

lemma plain_CHECK_ARG [contract_intros]: "(\<And>x. arg = Some x \<Longrightarrow> plain (k x)) \<Longrightarrow> plain (CHECK_ARG arg k)"
  using plain_fail [of napi_invalid_arg] by (cases arg) simp_all

lemma plain_CHECK_MAYBE [contract_intros]:
  "(\<And>x. plain (k x)) \<Longrightarrow> st \<noteq> napi_ok \<Longrightarrow> st \<noteq> napi_pending_exception \<Longrightarrow> plain (CHECK_MAYBE m st k)"
  using plain_fail [of st] by (cases m) simp_all

lemma plain_update:
  "plain k \<Longrightarrow> (\<And>e. try_catch (g e) = try_catch e) \<Longrightarrow> (\<And>e. last_exception (g e) = last_exception e) \<Longrightarrow>
    plain (\<lambda>e. k (g e))"
  unfolding plain_def by metis

lemma plain_alloc [contract_intros]: "(\<And>v. plain (k v)) \<Longrightarrow> plain (alloc V p k)"
  unfolding plain_def alloc_def by (auto split: prod.splits) fastforce+

lemma plain_js_end:
  assumes "\<And>e m exc e1. op e = Inr (m, exc, e1) \<Longrightarrow>
      try_catch e1 = try_catch e \<and> last_exception e1 = last_exception e"
    and "\<And>m. plain (k m)"
  shows "plain (\<lambda>e. js_end (op e) k)"
  unfolding plain_def
proof (intro allI impI)
  fix e st out e'
  assume r: "js_end (op e) k = Inr (st, out, e')"
  obtain m exc e1 where op: "op e = Inr (m, exc, e1)"
    and k: "k m (case exc of None \<Rightarrow> e1 | Some x \<Rightarrow> ThrowException x e1) = Inr (st, out, e')"
    using r by (auto simp: js_end_def res_simps)
  show "(st \<noteq> napi_ok \<longrightarrow> error_code e' = st) \<and> st \<noteq> napi_pending_exception \<and>
     (try_catch e = None \<longrightarrow> try_catch e' = None) \<and> last_exception e' \<in> {last_exception e, None}"
    using plainD [OF assms(2) k] assms(1) [OF op] by (cases exc) auto
qed

lemma plain_jsv [contract_intros]: "engine_ok V \<Longrightarrow> (\<And>m. plain (k m)) \<Longrightarrow> plain (jsv V p k)"
  unfolding jsv_def by (rule plain_js_end) (use engine_okD(1) in blast)+

lemma plain_jsb [contract_intros]: "engine_ok V \<Longrightarrow> (\<And>m. plain (k m)) \<Longrightarrow> plain (jsb V p k)"
  unfolding jsb_def by (rule plain_js_end) (use engine_okD(2) in blast)+

lemma plain_STATUS_CALL [contract_intros]:
  assumes "plain call" "\<And>out. plain (k out)"
  shows "plain (STATUS_CALL call k)"
  unfolding plain_def
proof (intro allI impI)
  fix e st out e'
  assume r: "STATUS_CALL call k e = Inr (st, out, e')"
  obtain st1 out1 e1 where c: "call e = Inr (st1, out1, e1)"
    and k: "(if st1 \<noteq> napi_ok then Inr (st1, None, e1) else k out1 e1) = Inr (st, out, e')"
    using r by (auto simp: STATUS_CALL_def res_simps)
  show "(st \<noteq> napi_ok \<longrightarrow> error_code e' = st) \<and> st \<noteq> napi_pending_exception \<and>
     (try_catch e = None \<longrightarrow> try_catch e' = None) \<and> last_exception e' \<in> {last_exception e, None}"
    using k plainD [OF assms(1) c] plainD [OF assms(2), of out1 e1 st out e']
    by (cases "st1 = napi_ok") auto
qed

text \<open>A function without a \<open>TryCatch\<close> of its own that does not run JavaScript can be called from a body.\<close>

definition quiet :: "('v, 'h, 'a) api \<Rightarrow> bool" where
  "quiet f \<longleftrightarrow> (\<forall>e st out e'. f e = Inr (st, out, e') \<longrightarrow>
     (st \<noteq> napi_ok \<longrightarrow> error_code e' = st) \<and> st \<noteq> napi_pending_exception \<and>
     try_catch e' = try_catch e \<and> last_exception e' = last_exception e \<and> is_destructing e' = is_destructing e)"

lemma quiet_good: "quiet f \<Longrightarrow> good f"
  unfolding quiet_def good_def by (auto simp: in_body_def body_post_def HasCaught_def)

lemma contract_simple_last_error [contract_intros]: "api_contract (napi_get_last_error_info r)"
  by (auto simp: api_contract_def napi_get_last_error_info_def CHECK_OUT_def RETURN_STATUS_IF_FALSE_def
      fail_def res_simps Let_def split: if_splits)

lemma contract_env_functions [contract_intros]:
  "api_contract (napi_get_cb_info V info argc argv)" "api_contract (napi_get_new_target info r)"
  "api_contract (napi_is_exception_pending r)" "api_contract (napi_get_undefined V r)"
  unfolding napi_get_cb_info_def napi_get_new_target_def napi_is_exception_pending_def napi_get_undefined_def
  by (intro plain_contract contract_intros; simp)+

lemma contract_get_and_clear [contract_intros]: "api_contract (napi_get_and_clear_last_exception V r)"
proof -
  have "plain (\<lambda>e. case last_exception e of None \<Rightarrow> napi_get_undefined V r e
      | Some x \<Rightarrow> succeed (Some x) (e\<lparr>last_exception := None\<rparr>))"
    by (auto simp: plain_def napi_get_undefined_def CHECK_ENV_NOT_IN_GC_def CHECK_OUT_def
        RETURN_STATUS_IF_FALSE_def fail_def succeed_def res_simps split: option.splits if_splits)
  then show ?thesis
    unfolding napi_get_and_clear_last_exception_def by (intro plain_contract contract_intros)
qed

section \<open>Rules for the control-flow pieces\<close>

lemma good_proceed [contract_intros]: "good proceed"
  by (auto simp: good_def proceed_def body_post_def in_body_def)

lemma good_value [contract_intros]: "good (\<lambda>e. Inr (napi_ok, out, e))"
  by (auto simp: good_def body_post_def in_body_def)

lemma good_dep: "(\<And>x. good (k x)) \<Longrightarrow> good (\<lambda>e. k (g e) e)"
  unfolding good_def by blast

lemma plain_dep: "(\<And>x. plain (k x)) \<Longrightarrow> plain (\<lambda>e. k (g e) e)"
  unfolding plain_def by blast

lemma good_GET_RETURN_STATUS_dep [contract_intros]: "good (\<lambda>e. GET_RETURN_STATUS (out e) e)"
  by (rule good_dep) (rule good_GET_RETURN_STATUS)

lemma good_succeed_dep [contract_intros]: "good (\<lambda>e. succeed (out e) e)"
  by (rule good_dep) (rule good_succeed)

lemma good_with_out [contract_intros]: "(\<And>x. good (k x)) \<Longrightarrow> good (with_out m k)"
  by (cases m) (simp_all add: good_def with_out_def)

lemma plain_with_out [contract_intros]: "(\<And>x. plain (k x)) \<Longrightarrow> plain (with_out m k)"
  by (cases m) (simp_all add: plain_def with_out_def)

lemma good_from_just [contract_intros]: "(\<And>x. m = Some x \<Longrightarrow> good (k x)) \<Longrightarrow> good (from_just m k)"
  by (cases m) (simp_all add: good_def from_just_def)

lemma goodc_from_just_None [contract_intros]: "goodc (from_just None k)"
  by (simp add: goodc_def from_just_def)

lemma good_CHECK [contract_intros]: "good k \<Longrightarrow> good (CHECK b k)"
  by (auto simp: good_def CHECK_def res_simps)

lemma good_with_cell [contract_intros]: "(\<And>x. good (k x)) \<Longrightarrow> good (with_cell get k)"
  by (auto simp: good_def with_cell_def split: option.splits)

lemma plain_with_cell [contract_intros]: "(\<And>x. plain (k x)) \<Longrightarrow> plain (with_cell get k)"
  by (auto simp: plain_def with_cell_def split: option.splits)

text \<open>An update of the environment that leaves the exception state alone.\<close>

definition calm :: "(('v, 'h) napi_env \<Rightarrow> ('v, 'h) napi_env) \<Rightarrow> bool" where
  "calm g \<longleftrightarrow> (\<forall>e. try_catch (g e) = try_catch e \<and> last_exception (g e) = last_exception e \<and>
     is_destructing (g e) = is_destructing e)"

lemma good_calm: "good k \<Longrightarrow> calm g \<Longrightarrow> good (\<lambda>e. k (g e))"
  unfolding calm_def by (rule good_update) auto

lemma goodc_calm:
  assumes "goodc k" "calm g"
  shows "goodc (\<lambda>e. k (g e))"
  unfolding goodc_def
proof (intro allI impI)
  fix e st out e'
  assume "in_body e" "k (g e) = Inr (st, out, e')"
  then show "body_post st e'"
    using goodcD [OF assms(1), of "g e"] assms(2) in_body_cong [of "g e" e] by (auto simp: calm_def)
qed

lemma good_with_new [contract_intros]:
  assumes "calm (\<lambda>e. snd (mk e))" "\<And>i. good (k i)"
  shows "good (with_new mk k)"
proof -
  have "good (\<lambda>e. k (fst (mk e)) (snd (mk e)))"
    unfolding good_def
  proof (intro allI impI)
    fix e st out e'
    assume "in_body e" "\<not> HasCaught e" "k (fst (mk e)) (snd (mk e)) = Inr (st, out, e')"
    then show "body_post st e'"
      using goodD [OF assms(2), of "snd (mk e)"] assms(1) in_body_cong [of "snd (mk e)" e]
      by (auto simp: calm_def HasCaught_def)
  qed
  then show ?thesis by (simp add: with_new_def case_prod_beta good_def)
qed

lemma plain_calm: "plain k \<Longrightarrow> calm g \<Longrightarrow> plain (\<lambda>e. k (g e))"
  unfolding calm_def by (rule plain_update) auto

lemma plain_with_new [contract_intros]:
  assumes "calm (\<lambda>e. snd (mk e))" "\<And>i. plain (k i)"
  shows "plain (with_new mk k)"
  unfolding plain_def
proof (intro allI impI)
  fix e st out e'
  assume "with_new mk k e = Inr (st, out, e')"
  then have "k (fst (mk e)) (snd (mk e)) = Inr (st, out, e')" by (simp add: with_new_def case_prod_beta)
  from plainD [OF assms(2) this]
  show "(st \<noteq> napi_ok \<longrightarrow> error_code e' = st) \<and> st \<noteq> napi_pending_exception \<and>
     (try_catch e = None \<longrightarrow> try_catch e' = None) \<and> last_exception e' \<in> {last_exception e, None}"
    using assms(1) by (simp add: calm_def)
qed

lemma good_effect [contract_intros]: "good k \<Longrightarrow> good (effect V p k)"
  unfolding effect_def by (erule good_calm) (simp add: calm_def)

lemma plain_effect [contract_intros]: "plain k \<Longrightarrow> plain (effect V p k)"
  unfolding effect_def by (erule plain_calm) (simp add: calm_def)

lemma good_stored [contract_intros]: "good f \<Longrightarrow> good (stored x f)"
  by (auto simp: good_def stored_def res_simps)

lemma good_map_out [contract_intros]: "good f \<Longrightarrow> good (map_out g f)"
  by (auto simp: good_def map_out_def res_simps)

lemma contract_map_out [contract_intros]: "api_contract f \<Longrightarrow> api_contract (map_out g f)"
  unfolding api_contract_def map_out_def by (simp add: res_simps) blast

lemma plain_map_out [contract_intros]: "plain f \<Longrightarrow> plain (map_out g f)"
  unfolding plain_def map_out_def by (simp add: res_simps) metis

text \<open>A call whose status is ignored, followed by an error status.\<close>

definition tame :: "('v, 'h, 'a) api \<Rightarrow> bool" where
  "tame f \<longleftrightarrow> (\<forall>e st out e'. in_body e \<longrightarrow> \<not> HasCaught e \<longrightarrow> f e = Inr (st, out, e') \<longrightarrow>
     try_catch e' \<noteq> None \<and> \<not> is_destructing e')"

lemma good_ignoring [contract_intros]:
  assumes "tame call" "st \<noteq> napi_ok" "st \<noteq> napi_pending_exception"
  shows "good (ignoring call (fail st))"
  using assms by (auto simp: good_def ignoring_def tame_def fail_def body_post_def res_simps)

lemma contract_STATUS_CALL:
  assumes "api_contract call" "\<And>out. plain (k out)"
  shows "api_contract (STATUS_CALL call k)"
  unfolding api_contract_def
proof (intro allI impI)
  fix e st out e'
  assume r: "STATUS_CALL call k e = Inr (st, out, e')"
  obtain st1 out1 e1 where c: "call e = Inr (st1, out1, e1)"
    and k: "(if st1 \<noteq> napi_ok then Inr (st1, None, e1) else k out1 e1) = Inr (st, out, e')"
    using r by (auto simp: STATUS_CALL_def res_simps)
  note c1 = assms(1) [unfolded api_contract_def, rule_format, OF c]
  show "(st \<noteq> napi_ok \<longrightarrow> error_code e' = st) \<and> (try_catch e = None \<longrightarrow> try_catch e' = None) \<and>
    (st = napi_ok \<longrightarrow> last_exception e = None \<longrightarrow> last_exception e' = None) \<and>
    (st = napi_pending_exception \<longrightarrow> last_exception e' \<noteq> None \<or> is_destructing e)"
    using c1 k plainD [OF assms(2), of out1 e1 st out e'] by (cases "st1 = napi_ok") auto
qed

lemma good_case_option [contract_intros]:
  "good f \<Longrightarrow> (\<And>x. m = Some x \<Longrightarrow> good (g x)) \<Longrightarrow> good (case m of None \<Rightarrow> f | Some x \<Rightarrow> g x)"
  by (cases m) simp_all

lemma plain_case_option [contract_intros]:
  "plain f \<Longrightarrow> (\<And>x. m = Some x \<Longrightarrow> plain (g x)) \<Longrightarrow> plain (case m of None \<Rightarrow> f | Some x \<Rightarrow> g x)"
  by (cases m) simp_all

lemma goodc_CHECK_MAYBE_None [contract_intros]:
  "st \<noteq> napi_ok \<Longrightarrow> st \<noteq> napi_pending_exception \<Longrightarrow> goodc (CHECK_MAYBE None st k)"
  "st \<noteq> napi_ok \<Longrightarrow> st \<noteq> napi_pending_exception \<Longrightarrow> goodc (CHECK_MAYBE_WITH_PREAMBLE None st k)"
  using goodc_fail [of st] goodc_fail_pending [of st] by simp_all

lemma good_CHECK_MAYBE_Some [contract_intros]:
  "good (k x) \<Longrightarrow> good (CHECK_MAYBE (Some x) st k)"
  "good (k x) \<Longrightarrow> good (CHECK_MAYBE_WITH_PREAMBLE (Some x) st k)"
  by simp_all

lemma goodc_RETURN_False [contract_intros]:
  "st \<noteq> napi_ok \<Longrightarrow> st \<noteq> napi_pending_exception \<Longrightarrow> goodc (RETURN_STATUS_IF_FALSE (FromMaybe None) st k)"
  "st \<noteq> napi_ok \<Longrightarrow> st \<noteq> napi_pending_exception \<Longrightarrow>
    goodc (RETURN_STATUS_IF_FALSE_WITH_PREAMBLE (FromMaybe None) st k)"
  using goodc_fail [of st] goodc_fail_pending [of st] by simp_all

lemma good_conversions [contract_intros]:
  assumes "engine_ok V" "\<And>x. good (k x)"
  shows "good (CHECK_TO_OBJECT V src k)" "good (CHECK_TO_OBJECT_WITH_PREAMBLE V src k)"
    "good (CHECK_TO_STRING V src k)" "good (CHECK_TO_NUMBER V src k)" "good (CHECK_TO_FUNCTION V src k)"
    "good (CHECK_NEW_FROM_UTF8_LEN V str n k)" "good (CHECK_NEW_FROM_UTF8 V str k)"
  unfolding CHECK_TO_OBJECT_def CHECK_TO_OBJECT_WITH_PREAMBLE_def CHECK_TO_STRING_def CHECK_TO_NUMBER_def
    CHECK_TO_FUNCTION_def CHECK_NEW_FROM_UTF8_def CHECK_NEW_FROM_UTF8_LEN_def
  by (intro contract_intros assms; simp)+

lemma plain_utf8 [contract_intros]:
  assumes "engine_ok V" "\<And>x. plain (k x)"
  shows "plain (CHECK_NEW_FROM_UTF8_LEN V str n k)" "plain (CHECK_NEW_FROM_UTF8 V str k)"
  unfolding CHECK_NEW_FROM_UTF8_def CHECK_NEW_FROM_UTF8_LEN_def
  by (intro contract_intros assms; simp)+

lemma plain_proceed [contract_intros]: "plain proceed"
  by (simp add: plain_def proceed_def)

end
