(* ===== verification/Napi_Refs.thy ===== *)
theory Napi_Refs
  imports Napi_Contract
begin

text \<open>
  References and finalizers of the Node-API (\<^verbatim>\<open>src/src/node-api/js_native_api_v8.cc\<close>) with the
  life cycle of the environment (\<^verbatim>\<open>NodeApiEnv\<close> in \<^verbatim>\<open>v8_api.cpp\<close>): reference counting,
  weak callbacks of the garbage collector, the queue of pending finalizers, finalization of everything
  when the environment goes away, instance data and handle scopes. Access to a deleted tracker is the
  fault \<open>NullDeref\<close>. The user's finalizer callbacks are a parameter \<open>U\<close>; the element that an
  unordered set yields first is a parameter \<open>pick\<close>.
\<close>

section \<open>Trackers\<close>

type_synonym ('v, 'h) user = "ptr \<Rightarrow> ptr \<Rightarrow> ptr \<Rightarrow> ('v, 'h) napi_env \<Rightarrow> ('v, 'h) napi_env res"

definition set_tracker :: "nat \<Rightarrow> 'v tracker \<Rightarrow> ('v, 'h) napi_env \<Rightarrow> ('v, 'h) napi_env" where
  "set_tracker i t e = e\<lparr>trackers := (trackers e)(i \<mapsto> t)\<rparr>"

definition LinkRef :: "nat \<Rightarrow> ('v, 'h) napi_env \<Rightarrow> ('v, 'h) napi_env" where
  "LinkRef i e = e\<lparr>reflist := i # reflist e\<rparr>"

definition LinkFinalizing :: "nat \<Rightarrow> ('v, 'h) napi_env \<Rightarrow> ('v, 'h) napi_env" where
  "LinkFinalizing i e = e\<lparr>finalizing_reflist := i # finalizing_reflist e\<rparr>"

definition UnlinkTracker :: "nat \<Rightarrow> ('v, 'h) napi_env \<Rightarrow> ('v, 'h) napi_env" where
  "UnlinkTracker i e =
     e\<lparr>reflist := remove1 i (reflist e), finalizing_reflist := remove1 i (finalizing_reflist e)\<rparr>"

definition new_tracker :: "'v tracker \<Rightarrow> ('v, 'h) napi_env \<Rightarrow> nat \<times> ('v, 'h) napi_env" where
  "new_tracker t e =
     (next_tracker e, e\<lparr>trackers := (trackers e)(next_tracker e \<mapsto> t), next_tracker := next_tracker e + 1\<rparr>)"

text \<open>\<open>NodeApiEnv::EnqueueFinalizer\<close> schedules one task that drains the queue and holds a reference to
  the environment.\<close>

definition EnqueueFinalizer :: "nat \<Rightarrow> ('v, 'h) napi_env \<Rightarrow> ('v, 'h) napi_env" where
  "EnqueueFinalizer i e =
     (let e1 = e\<lparr>pending_finalizers := List.insert i (pending_finalizers e)\<rparr>
      in if \<not> is_scheduled e1 \<and> \<not> is_destructing e1
         then e1\<lparr>is_scheduled := True, refs := refs e1 + 1\<rparr> else e1)"

definition DequeueFinalizer :: "nat \<Rightarrow> ('v, 'h) napi_env \<Rightarrow> ('v, 'h) napi_env" where
  "DequeueFinalizer i e = e\<lparr>pending_finalizers := removeAll i (pending_finalizers e)\<rparr>"

section \<open>Finalizers\<close>

definition ResetEnv :: "Finalizer \<Rightarrow> Finalizer" where
  "ResetEnv f = f\<lparr>fin_env := False\<rparr>"

definition ResetFinalizer :: "Finalizer \<Rightarrow> Finalizer" where
  "ResetFinalizer f = f\<lparr>finalize_callback := None, finalize_data := 0, finalize_hint := 0\<rparr>"

definition get_finalizer :: "'v tracker \<Rightarrow> Finalizer option" where
  "get_finalizer t =
     (case t of
        TReference r \<Rightarrow> (case cls r of WithFinalizer f \<Rightarrow> Some f | _ \<Rightarrow> None)
      | TTracked f \<Rightarrow> Some f
      | TString f \<Rightarrow> Some f)"

definition set_finalizer :: "Finalizer \<Rightarrow> 'v tracker \<Rightarrow> 'v tracker" where
  "set_finalizer f t =
     (case t of
        TReference r \<Rightarrow> (case cls r of WithFinalizer g \<Rightarrow> TReference (r\<lparr>cls := WithFinalizer f\<rparr>) | _ \<Rightarrow> t)
      | TTracked g \<Rightarrow> TTracked f
      | TString g \<Rightarrow> TString f)"

text \<open>\<open>NodeApiEnv::CallFinalizer\<close>: an exception that the callback leaves behind is fatal.\<close>

definition EnvCallFinalizer :: "('v, 'h) user \<Rightarrow> ptr \<Rightarrow> ptr \<Rightarrow> ptr \<Rightarrow> ('v, 'h) napi_env \<Rightarrow> ('v, 'h) napi_env res" where
  "EnvCallFinalizer U cb data hint e =
     (if in_gc_finalizer e then U cb data hint e
      else bind_res (CallIntoModule (\<lambda>e. bind_res (U cb data hint e) (\<lambda>e1. Inr ((), e1)))
             (\<lambda>x e. if terminatedOrTerminating False e then Inr e else Inl CheckAbort) e)
             (\<lambda>(r, b, e1). Inr e1))"

text \<open>\<open>Finalizer::CallFinalizer\<close> on the finalizer of a tracker: it is reset before the callback runs.\<close>

definition CallFinalizer :: "('v, 'h) user \<Rightarrow> nat \<Rightarrow> ('v, 'h) napi_env \<Rightarrow> ('v, 'h) napi_env res" where
  "CallFinalizer U i e =
     bind_res (deref (trackers e i)) (\<lambda>t.
     bind_res (deref (get_finalizer t)) (\<lambda>f.
       let e1 = set_tracker i (set_finalizer (ResetFinalizer f) t) e
       in case finalize_callback f of
            None \<Rightarrow> Inr e1
          | Some cb \<Rightarrow>
              let e2 = e1\<lparr>finalized := finalized e1 @ [(i, cb, finalize_data f, finalize_hint f)]\<rparr>
              in if \<not> fin_env f then U cb (finalize_data f) (finalize_hint f) e2
                 else EnvCallFinalizer U cb (finalize_data f) (finalize_hint f) e2))"

section \<open>References\<close>

definition CanBeHeldWeakly :: "('v, 'h) v8 \<Rightarrow> 'v \<Rightarrow> bool" where
  "CanBeHeldWeakly V v \<longleftrightarrow> Is V tObject v \<or> Is V tSymbol v"

definition SetWeak :: "'v Reference \<Rightarrow> 'v Reference" where
  "SetWeak r = (if can_be_weak r then r\<lparr>is_weak := True\<rparr> else r\<lparr>persistent := None\<rparr>)"

definition Reference_init :: "('v, 'h) v8 \<Rightarrow> 'v \<Rightarrow> u32 \<Rightarrow> ReferenceOwnership \<Rightarrow> ref_class \<Rightarrow> 'v Reference" where
  "Reference_init V value initial_refcount own c =
     (let r = \<lparr>persistent = Some value, is_weak = False, refcount = initial_refcount, ownership = own,
               can_be_weak = CanBeHeldWeakly V value, cls = c\<rparr>
      in if refcount r = 0 then SetWeak r else r)"

text \<open>\<open>Reference::New\<close>, \<open>ReferenceWithData::New\<close> and \<open>ReferenceWithFinalizer::New\<close>\<close>

definition Reference_New :: "('v, 'h) v8 \<Rightarrow> 'v \<Rightarrow> u32 \<Rightarrow> ReferenceOwnership \<Rightarrow> ('v, 'h) napi_env \<Rightarrow> nat \<times> ('v, 'h) napi_env" where
  "Reference_New V value n own e =
     (let (i, e1) = new_tracker (TReference (Reference_init V value n own PlainRef)) e in (i, LinkRef i e1))"

definition ReferenceWithData_New :: "('v, 'h) v8 \<Rightarrow> 'v \<Rightarrow> u32 \<Rightarrow> ReferenceOwnership \<Rightarrow> ptr \<Rightarrow> ('v, 'h) napi_env \<Rightarrow>
    nat \<times> ('v, 'h) napi_env" where
  "ReferenceWithData_New V value n own data e =
     (let (i, e1) = new_tracker (TReference (Reference_init V value n own (WithData data))) e in (i, LinkRef i e1))"

definition ReferenceWithFinalizer_New :: "('v, 'h) v8 \<Rightarrow> 'v \<Rightarrow> u32 \<Rightarrow> ReferenceOwnership \<Rightarrow> ptr option \<Rightarrow> ptr \<Rightarrow> ptr \<Rightarrow>
    ('v, 'h) napi_env \<Rightarrow> nat \<times> ('v, 'h) napi_env" where
  "ReferenceWithFinalizer_New V value n own cb data hint e =
     (let (i, e1) = new_tracker (TReference (Reference_init V value n own
            (WithFinalizer \<lparr>fin_env = True, finalize_callback = cb, finalize_data = data, finalize_hint = hint\<rparr>))) e
      in (i, LinkFinalizing i e1))"

definition TrackedFinalizer_New :: "ptr option \<Rightarrow> ptr \<Rightarrow> ptr \<Rightarrow> ('v, 'h) napi_env \<Rightarrow> nat \<times> ('v, 'h) napi_env" where
  "TrackedFinalizer_New cb data hint e =
     (let (i, e1) = new_tracker
            (TTracked \<lparr>fin_env = True, finalize_callback = cb, finalize_data = data, finalize_hint = hint\<rparr>) e
      in (i, LinkFinalizing i e1))"

definition TrackedStringResource_New :: "ptr option \<Rightarrow> ptr \<Rightarrow> ptr \<Rightarrow> ('v, 'h) napi_env \<Rightarrow> nat \<times> ('v, 'h) napi_env" where
  "TrackedStringResource_New cb data hint e =
     (let (i, e1) = new_tracker
            (TString \<lparr>fin_env = True, finalize_callback = cb, finalize_data = data, finalize_hint = hint\<rparr>) e
      in (i, if cb = None then LinkRef i e1 else LinkFinalizing i e1))"

definition Ref :: "'v Reference \<Rightarrow> u32 \<times> 'v Reference" where
  "Ref r =
     (if persistent r = None then (0, r)
      else let r1 = r\<lparr>refcount := refcount r + 1\<rparr>;
               r2 = (if refcount r1 = 1 \<and> can_be_weak r1 then r1\<lparr>is_weak := False\<rparr> else r1)
           in (refcount r2, r2))"

definition Unref :: "'v Reference \<Rightarrow> u32 \<times> 'v Reference" where
  "Unref r =
     (if persistent r = None \<or> refcount r = 0 then (0, r)
      else let r1 = r\<lparr>refcount := refcount r - 1\<rparr>;
               r2 = (if refcount r1 = 0 then SetWeak r1 else r1)
           in (refcount r2, r2))"

definition Reference_Data :: "'v Reference \<Rightarrow> ptr" where
  "Reference_Data r = (case cls r of PlainRef \<Rightarrow> 0 | WithData d \<Rightarrow> d | WithFinalizer f \<Rightarrow> finalize_data f)"

text \<open>The destructors of a \<open>Reference\<close> (all classes) and of a \<open>TrackedFinalizer\<close>.\<close>

definition delete_tracker :: "nat \<Rightarrow> ('v, 'h) napi_env \<Rightarrow> ('v, 'h) napi_env res" where
  "delete_tracker i e =
     bind_res (deref (trackers e i)) (\<lambda>t.
       let e1 = (if get_finalizer t \<noteq> None then DequeueFinalizer i e else e);
           e2 = UnlinkTracker i e1
       in Inr (e2\<lparr>trackers := (trackers e2)(i := None)\<rparr>))"

section \<open>Finalization\<close>

definition Reference_Finalize :: "('v, 'h) user \<Rightarrow> nat \<Rightarrow> 'v Reference \<Rightarrow> ('v, 'h) napi_env \<Rightarrow> ('v, 'h) napi_env res" where
  "Reference_Finalize U i r e =
     (let e1 = set_tracker i (TReference (r\<lparr>persistent := None\<rparr>)) e;
          deleteMe = (ownership r = kRuntime);
          e2 = UnlinkTracker i e1
      in bind_res (case cls r of WithFinalizer f \<Rightarrow> CallFinalizer U i e2 | _ \<Rightarrow> Inr e2) (\<lambda>e3.
           if deleteMe then delete_tracker i e3 else Inr e3))"

definition TrackedFinalizer_Finalize :: "('v, 'h) user \<Rightarrow> nat \<Rightarrow> ('v, 'h) napi_env \<Rightarrow> ('v, 'h) napi_env res" where
  "TrackedFinalizer_Finalize U i e =
     bind_res (CallFinalizer U i (UnlinkTracker i e)) (delete_tracker i)"

definition TrackedStringResource_Finalize :: "nat \<Rightarrow> Finalizer \<Rightarrow> ('v, 'h) napi_env \<Rightarrow> ('v, 'h) napi_env res" where
  "TrackedStringResource_Finalize i f e = Inr (set_tracker i (TString (ResetEnv f)) (UnlinkTracker i e))"

text \<open>The virtual call \<open>RefTracker::Finalize\<close>\<close>

definition Finalize :: "('v, 'h) user \<Rightarrow> nat \<Rightarrow> ('v, 'h) napi_env \<Rightarrow> ('v, 'h) napi_env res" where
  "Finalize U i e =
     bind_res (deref (trackers e i)) (\<lambda>t.
       case t of
         TReference r \<Rightarrow> Reference_Finalize U i r e
       | TTracked f \<Rightarrow> TrackedFinalizer_Finalize U i e
       | TString f \<Rightarrow> TrackedStringResource_Finalize i f e)"

text \<open>The destructor of a string resource, run by V8 when the string dies.\<close>

definition TrackedStringResource_delete :: "('v, 'h) user \<Rightarrow> nat \<Rightarrow> ('v, 'h) napi_env \<Rightarrow> ('v, 'h) napi_env res" where
  "TrackedStringResource_delete U i e =
     bind_res (CallFinalizer U i (UnlinkTracker i e)) (\<lambda>e1. Inr (e1\<lparr>trackers := (trackers e1)(i := None)\<rparr>))"

definition EnvInvokeFinalizerFromGC :: "('v, 'h) user \<Rightarrow> nat \<Rightarrow> ('v, 'h) napi_env \<Rightarrow> ('v, 'h) napi_env res" where
  "EnvInvokeFinalizerFromGC U i e =
     (if module_api_version e \<noteq> NAPI_VERSION_EXPERIMENTAL then Inr (EnqueueFinalizer i e)
      else bind_res (Finalize U i (e\<lparr>in_gc_finalizer := True\<rparr>)) (\<lambda>e1.
             Inr (e1\<lparr>in_gc_finalizer := in_gc_finalizer e\<rparr>)))"

text \<open>\<open>Reference::WeakCallback\<close>\<close>

definition WeakCallback :: "('v, 'h) user \<Rightarrow> nat \<Rightarrow> ('v, 'h) napi_env \<Rightarrow> ('v, 'h) napi_env res" where
  "WeakCallback U i e =
     bind_res (deref (trackers e i)) (\<lambda>t.
       case t of
         TReference r \<Rightarrow>
           let r1 = r\<lparr>persistent := None\<rparr>; e1 = set_tracker i (TReference r1) e
           in (case cls r of
                 WithFinalizer f \<Rightarrow> EnvInvokeFinalizerFromGC U i e1
               | _ \<Rightarrow> Reference_Finalize U i r1 e1)
       | _ \<Rightarrow> Inl NullDeref)"

text \<open>The loops take fuel; running out of it is \<open>None\<close>.\<close>

fun DrainFinalizerQueue :: "('v, 'h) user \<Rightarrow> (nat list \<Rightarrow> nat) \<Rightarrow> nat \<Rightarrow> ('v, 'h) napi_env \<Rightarrow>
    ('v, 'h) napi_env res option" where
  "DrainFinalizerQueue U pick fuel e =
     (if pending_finalizers e = [] then Some (Inr e)
      else (case fuel of
              0 \<Rightarrow> None
            | Suc n \<Rightarrow>
                let i = pick (pending_finalizers e); e1 = DequeueFinalizer i e
                in (case Finalize U i e1 of
                      Inl f \<Rightarrow> Some (Inl f)
                    | Inr e2 \<Rightarrow> DrainFinalizerQueue U pick n e2)))"

declare DrainFinalizerQueue.simps [simp del]

fun FinalizeAll :: "(('v, 'h) napi_env \<Rightarrow> nat list) \<Rightarrow> ('v, 'h) user \<Rightarrow> nat \<Rightarrow> ('v, 'h) napi_env \<Rightarrow>
    ('v, 'h) napi_env res option" where
  "FinalizeAll lst U fuel e =
     (case lst e of
        [] \<Rightarrow> Some (Inr e)
      | i # _ \<Rightarrow>
          (case fuel of
             0 \<Rightarrow> None
           | Suc n \<Rightarrow>
               (case Finalize U i e of
                  Inl f \<Rightarrow> Some (Inl f)
                | Inr e1 \<Rightarrow> FinalizeAll lst U n e1)))"

declare FinalizeAll.simps [simp del]

definition then_run :: "'s res option \<Rightarrow> ('s \<Rightarrow> 's res option) \<Rightarrow> 's res option" where
  "then_run r k = (case r of None \<Rightarrow> None | Some (Inl f) \<Rightarrow> Some (Inl f) | Some (Inr s) \<Rightarrow> k s)"

text \<open>\<open>NodeApiEnv::DeleteMe\<close> with \<open>napi_env__::DeleteMe\<close>\<close>

definition DeleteMe :: "('v, 'h) user \<Rightarrow> (nat list \<Rightarrow> nat) \<Rightarrow> nat \<Rightarrow> ('v, 'h) napi_env \<Rightarrow> ('v, 'h) napi_env res option" where
  "DeleteMe U pick fuel e =
     then_run (DrainFinalizerQueue U pick fuel (e\<lparr>is_destructing := True\<rparr>)) (\<lambda>e1.
     then_run (FinalizeAll finalizing_reflist U fuel e1) (\<lambda>e2.
     then_run (FinalizeAll reflist U fuel e2) (\<lambda>e3. Some (Inr (e3\<lparr>env_deleted := True\<rparr>)))))"

definition EnvUnref :: "('v, 'h) user \<Rightarrow> (nat list \<Rightarrow> nat) \<Rightarrow> nat \<Rightarrow> ('v, 'h) napi_env \<Rightarrow> ('v, 'h) napi_env res option" where
  "EnvUnref U pick fuel e =
     (let e1 = e\<lparr>refs := refs e - 1\<rparr> in if refs e1 = 0 then DeleteMe U pick fuel e1 else Some (Inr e1))"

text \<open>The task that \<open>EnqueueFinalizer\<close> posts.\<close>

definition finalizer_task :: "('v, 'h) user \<Rightarrow> (nat list \<Rightarrow> nat) \<Rightarrow> nat \<Rightarrow> ('v, 'h) napi_env \<Rightarrow> ('v, 'h) napi_env res option" where
  "finalizer_task U pick fuel e =
     then_run (EnvUnref U pick fuel (e\<lparr>is_scheduled := False\<rparr>)) (\<lambda>e1.
       if env_deleted e1 then Some (Inl NullDeref) else DrainFinalizerQueue U pick fuel e1)"

section \<open>API functions on references\<close>

text \<open>The reference behind a \<open>napi_ref\<close>.\<close>

definition with_reference :: "nat \<Rightarrow> ('v Reference \<Rightarrow> ('v, 'h, 'a) api) \<Rightarrow> ('v, 'h, 'a) api" where
  "with_reference i k e =
     (case trackers e i of Some (TReference r) \<Rightarrow> k r e | _ \<Rightarrow> Inl NullDeref)"

definition napi_create_reference :: "('v, 'h) v8 \<Rightarrow> 'v option \<Rightarrow> u32 \<Rightarrow> bool \<Rightarrow> ('v, 'h, nat) api" where
  "napi_create_reference V value initial_refcount result =
     CHECK_ENV_NOT_IN_GC (CHECK_ARG value (\<lambda>v. CHECK_OUT result (\<lambda>e.
       if module_api_version e \<noteq> NAPI_VERSION_EXPERIMENTAL \<and>
          \<not> (Is V tObject v \<or> Is V tFunction v \<or> Is V tSymbol v)
       then fail napi_invalid_arg e
       else (case Reference_New V v initial_refcount kUserland e of (i, e1) \<Rightarrow> succeed (Some i) e1))))"

definition napi_delete_reference :: "nat option \<Rightarrow> ('v, 'h, unit) api" where
  "napi_delete_reference ref =
     CHECK_ENV_NOT_IN_GC (CHECK_ARG ref (\<lambda>i e. bind_res (delete_tracker i e) (succeed None)))"

definition napi_reference_ref :: "nat option \<Rightarrow> bool \<Rightarrow> ('v, 'h, u32) api" where
  "napi_reference_ref ref result =
     CHECK_ENV_NOT_IN_GC (CHECK_ARG ref (\<lambda>i. with_reference i (\<lambda>r e.
       case Ref r of (count, r1) \<Rightarrow>
         succeed (if result then Some count else None) (set_tracker i (TReference r1) e))))"

definition napi_reference_unref :: "nat option \<Rightarrow> bool \<Rightarrow> ('v, 'h, u32) api" where
  "napi_reference_unref ref result =
     CHECK_ENV_NOT_IN_GC (CHECK_ARG ref (\<lambda>i. with_reference i (\<lambda>r e.
       if refcount r = 0 then fail napi_generic_failure e
       else (case Unref r of (count, r1) \<Rightarrow>
         succeed (if result then Some count else None) (set_tracker i (TReference r1) e)))))"

text \<open>The value is \<open>None\<close> inside when the reference is empty (a null \<open>napi_value\<close>).\<close>

definition napi_get_reference_value :: "nat option \<Rightarrow> bool \<Rightarrow> ('v, 'h, 'v option) api" where
  "napi_get_reference_value ref result =
     CHECK_ENV_NOT_IN_GC (CHECK_ARG ref (\<lambda>i. CHECK_OUT result (with_reference i (\<lambda>r.
       succeed (Some (persistent r))))))"

definition napi_add_finalizer :: "('v, 'h) v8 \<Rightarrow> 'v option \<Rightarrow> ptr \<Rightarrow> ptr option \<Rightarrow> ptr \<Rightarrow> bool \<Rightarrow> ('v, 'h, nat) api" where
  "napi_add_finalizer V js_object data finalize_cb hint result =
     CHECK_ENV_NOT_IN_GC (CHECK_ARG js_object (\<lambda>v. CHECK_ARG finalize_cb (\<lambda>cb.
       RETURN_STATUS_IF_FALSE (Is V tObject v) napi_invalid_arg (\<lambda>e.
         case ReferenceWithFinalizer_New V v 0 (if \<not> result then kRuntime else kUserland) (Some cb) data hint e
         of (i, e1) \<Rightarrow> succeed (if result then Some i else None) e1))))"

definition node_api_post_finalizer :: "ptr option \<Rightarrow> ptr \<Rightarrow> ptr \<Rightarrow> ('v, 'h, unit) api" where
  "node_api_post_finalizer finalize_cb data hint e =
     (case TrackedFinalizer_New finalize_cb data hint e of (i, e1) \<Rightarrow> succeed None (EnqueueFinalizer i e1))"

definition napi_set_instance_data :: "ptr \<Rightarrow> ptr option \<Rightarrow> ptr \<Rightarrow> ('v, 'h, unit) api" where
  "napi_set_instance_data data finalize_cb hint e =
     bind_res (case instance_data e of None \<Rightarrow> Inr e | Some old \<Rightarrow> delete_tracker old e) (\<lambda>e1.
       case TrackedFinalizer_New finalize_cb data hint e1 of (i, e2) \<Rightarrow>
         succeed None (e2\<lparr>instance_data := Some i\<rparr>))"

text \<open>A null pointer is 0.\<close>

definition napi_get_instance_data :: "bool \<Rightarrow> ('v, 'h, ptr) api" where
  "napi_get_instance_data data =
     CHECK_OUT data (\<lambda>e.
       case instance_data e of
         None \<Rightarrow> succeed (Some 0) e
       | Some i \<Rightarrow>
           bind_res (deref (trackers e i)) (\<lambda>t.
           bind_res (deref (get_finalizer t)) (\<lambda>f. succeed (Some (finalize_data f)) e)))"

section \<open>Handle scopes\<close>

definition open_scope :: "('v, 'h, nat) api" where
  "open_scope e =
     succeed (Some (next_scope e))
       (e\<lparr>scopes := (scopes e)(next_scope e \<mapsto> False), next_scope := next_scope e + 1,
          open_handle_scopes := open_handle_scopes e + 1\<rparr>)"

definition napi_open_handle_scope :: "bool \<Rightarrow> ('v, 'h, nat) api" where
  "napi_open_handle_scope result = CHECK_ENV_NOT_IN_GC (CHECK_OUT result open_scope)"

definition napi_open_escapable_handle_scope :: "bool \<Rightarrow> ('v, 'h, nat) api" where
  "napi_open_escapable_handle_scope result = CHECK_ENV_NOT_IN_GC (CHECK_OUT result open_scope)"

text \<open>Both close functions return the mismatch without recording it as the last error.\<close>

definition close_scope :: "nat \<Rightarrow> ('v, 'h, unit) api" where
  "close_scope i e =
     (if open_handle_scopes e = 0 then Inr (napi_handle_scope_mismatch, None, e)
      else bind_res (deref (scopes e i)) (\<lambda>_.
             succeed None (e\<lparr>scopes := (scopes e)(i := None), open_handle_scopes := open_handle_scopes e - 1\<rparr>)))"

definition napi_close_handle_scope :: "nat option \<Rightarrow> ('v, 'h, unit) api" where
  "napi_close_handle_scope sc = CHECK_ENV_NOT_IN_GC (CHECK_ARG sc close_scope)"

definition napi_close_escapable_handle_scope :: "nat option \<Rightarrow> ('v, 'h, unit) api" where
  "napi_close_escapable_handle_scope sc = CHECK_ENV_NOT_IN_GC (CHECK_ARG sc close_scope)"

definition napi_escape_handle :: "nat option \<Rightarrow> 'v option \<Rightarrow> bool \<Rightarrow> ('v, 'h, 'v) api" where
  "napi_escape_handle sc escapee result =
     CHECK_ENV_NOT_IN_GC (CHECK_ARG sc (\<lambda>i. CHECK_ARG escapee (\<lambda>v. CHECK_OUT result (\<lambda>e.
       case scopes e i of
         None \<Rightarrow> Inl NullDeref
       | Some escape_called \<Rightarrow>
           if \<not> escape_called then succeed (Some v) (e\<lparr>scopes := (scopes e)(i \<mapsto> True)\<rparr>)
           else fail napi_escape_called_twice e))))"

section \<open>The invariant of trackers\<close>

definition linked :: "('v, 'h) napi_env \<Rightarrow> nat list" where
  "linked e = reflist e @ finalizing_reflist e"

definition disarmed :: "'v tracker option \<Rightarrow> bool" where
  "disarmed t \<longleftrightarrow> (\<forall>x f. t = Some x \<longrightarrow> get_finalizer x = Some f \<longrightarrow> finalize_callback f = None)"

definition ref_inv :: "('v, 'h) napi_env \<Rightarrow> bool" where
  "ref_inv e \<longleftrightarrow>
     distinct (linked e) \<and>
     (\<forall>i \<in> set (linked e) \<union> set (pending_finalizers e). trackers e i \<noteq> None) \<and>
     (\<forall>i \<in> set (pending_finalizers e). \<forall>t. trackers e i = Some t \<longrightarrow> get_finalizer t \<noteq> None) \<and>
     (\<forall>i. trackers e i \<noteq> None \<longrightarrow> i < next_tracker e) \<and>
     distinct (map fst (finalized e)) \<and>
     (\<forall>i \<in> fst ` set (finalized e). i < next_tracker e \<and> disarmed (trackers e i))"

text \<open>The invariant looks at the trackers only.\<close>

lemma ref_inv_cong:
  "reflist e' = reflist e \<Longrightarrow> finalizing_reflist e' = finalizing_reflist e \<Longrightarrow>
    pending_finalizers e' = pending_finalizers e \<Longrightarrow> trackers e' = trackers e \<Longrightarrow>
    next_tracker e' = next_tracker e \<Longrightarrow> finalized e' = finalized e \<Longrightarrow> ref_inv e' = ref_inv e"
  by (simp add: ref_inv_def linked_def)

lemma ref_inv_irrelevant [simp]:
  "ref_inv (napi_clear_last_error e) = ref_inv e" "ref_inv (napi_set_last_error st e) = ref_inv e"
  "ref_inv (e\<lparr>in_gc_finalizer := b\<rparr>) = ref_inv e" "ref_inv (e\<lparr>is_destructing := b\<rparr>) = ref_inv e"
  "ref_inv (e\<lparr>is_scheduled := b\<rparr>) = ref_inv e" "ref_inv (e\<lparr>refs := n\<rparr>) = ref_inv e"
  "ref_inv (e\<lparr>last_exception := x\<rparr>) = ref_inv e" "ref_inv (e\<lparr>env_deleted := b\<rparr>) = ref_inv e"
  "ref_inv (e\<lparr>instance_data := d\<rparr>) = ref_inv e"
  by (rule ref_inv_cong; simp add: napi_clear_last_error_def napi_set_last_error_def)+

lemma ref_inv_scopes [simp]:
  "ref_inv (e\<lparr>scopes := s, next_scope := k, open_handle_scopes := n\<rparr>) = ref_inv e"
  "ref_inv (e\<lparr>scopes := s, open_handle_scopes := n\<rparr>) = ref_inv e" "ref_inv (e\<lparr>scopes := s\<rparr>) = ref_inv e"
  by (rule ref_inv_cong; simp)+

lemma set_tracker_inv:
  assumes "ref_inv e" "trackers e i = Some t" "get_finalizer t' = None \<longleftrightarrow> get_finalizer t = None"
    and "\<And>f. get_finalizer t' = Some f \<Longrightarrow> finalize_callback f \<noteq> None \<Longrightarrow>
      \<exists>g. get_finalizer t = Some g \<and> finalize_callback g \<noteq> None"
  shows "ref_inv (set_tracker i t' e)"
  using assms by (auto simp: ref_inv_def set_tracker_def linked_def disarmed_def)

lemma ref_inv_fresh:
  assumes "ref_inv e"
  shows "trackers e (next_tracker e) = None" "next_tracker e \<notin> set (reflist e)"
    "next_tracker e \<notin> set (finalizing_reflist e)" "next_tracker e \<notin> set (pending_finalizers e)"
    "next_tracker e \<notin> fst ` set (finalized e)"
proof -
  show n: "trackers e (next_tracker e) = None"
    using assms unfolding ref_inv_def by (metis less_irrefl)
  show "next_tracker e \<notin> set (reflist e)" "next_tracker e \<notin> set (finalizing_reflist e)"
    "next_tracker e \<notin> set (pending_finalizers e)"
    using assms n unfolding ref_inv_def linked_def by (metis UnI1 UnI2 set_append)+
  show "next_tracker e \<notin> fst ` set (finalized e)"
    using assms unfolding ref_inv_def by (metis less_irrefl)
qed

lemma new_tracker_inv:
  assumes "ref_inv e"
  shows "ref_inv (LinkRef (next_tracker e) (snd (new_tracker t e)))"
    and "ref_inv (LinkFinalizing (next_tracker e) (snd (new_tracker t e)))"
  using assms ref_inv_fresh [OF assms]
  by (auto simp: ref_inv_def new_tracker_def LinkRef_def LinkFinalizing_def linked_def less_Suc_eq)

lemma remove_tracker_inv:
  assumes "ref_inv e" "i \<notin> set (linked e)" "i \<notin> set (pending_finalizers e)"
  shows "ref_inv (e\<lparr>trackers := (trackers e)(i := None)\<rparr>)"
  using assms by (auto simp: ref_inv_def linked_def disarmed_def)

lemma UnlinkTracker_inv: "ref_inv e \<Longrightarrow> ref_inv (UnlinkTracker i e)"
  by (auto simp: ref_inv_def UnlinkTracker_def linked_def dest: notin_set_remove1)

lemma DequeueFinalizer_inv: "ref_inv e \<Longrightarrow> ref_inv (DequeueFinalizer i e)"
  by (auto simp: ref_inv_def DequeueFinalizer_def linked_def)

lemma EnqueueFinalizer_inv: "ref_inv e \<Longrightarrow> trackers e i = Some t \<Longrightarrow> get_finalizer t \<noteq> None \<Longrightarrow> ref_inv (EnqueueFinalizer i e)"
  by (auto simp: ref_inv_def EnqueueFinalizer_def linked_def Let_def)

lemma delete_tracker_inv:
  assumes "ref_inv e" "delete_tracker i e = Inr e'"
  shows "ref_inv e'"
proof -
  obtain t where t: "trackers e i = Some t"
    using assms(2) by (auto simp: delete_tracker_def res_simps)
  let ?e1 = "if get_finalizer t \<noteq> None then DequeueFinalizer i e else e"
  have e': "e' = (UnlinkTracker i ?e1)\<lparr>trackers := (trackers e)(i := None)\<rparr>"
    using assms(2) t by (auto simp: delete_tracker_def Let_def UnlinkTracker_def DequeueFinalizer_def)
  have tr: "trackers (UnlinkTracker i ?e1) = trackers e"
    "pending_finalizers (UnlinkTracker i ?e1) = pending_finalizers ?e1"
    by (simp_all add: UnlinkTracker_def DequeueFinalizer_def)
  have "i \<notin> set (pending_finalizers ?e1)"
    using assms(1) t by (auto simp: ref_inv_def DequeueFinalizer_def)
  moreover have "ref_inv (UnlinkTracker i ?e1)"
    using assms(1) by (simp add: UnlinkTracker_inv DequeueFinalizer_inv)
  moreover have "i \<notin> set (linked (UnlinkTracker i ?e1))"
    using assms(1) by (auto simp: ref_inv_def UnlinkTracker_def DequeueFinalizer_def linked_def)
  ultimately show ?thesis
    using remove_tracker_inv [of "UnlinkTracker i ?e1" i] tr unfolding e' by metis
qed

lemma get_set_finalizer:
  "get_finalizer t = Some f \<Longrightarrow> get_finalizer (set_finalizer g t) = Some g"
  by (auto simp: get_finalizer_def set_finalizer_def split: tracker.splits ref_class.splits)

text \<open>A callback of the user acts on the environment through the API; the library's own callback
  \<open>CallbackBundle::Delete\<close> frees a bundle.\<close>

datatype 'v ref_op =
    OpCreate "'v option" u32 bool | OpDelete "nat option" | OpRef "nat option" bool | OpUnref "nat option" bool
  | OpGet "nat option" bool | OpAddFinalizer "'v option" ptr "ptr option" ptr bool
  | OpPost "ptr option" ptr ptr | OpSetInstance ptr "ptr option" ptr | OpGetInstance bool
  | OpOpen bool | OpClose "nat option" | OpEscape "nat option" "'v option" bool
  | OpFreeBundle nat

definition env_of :: "(napi_status \<times> 'a option \<times> ('v, 'h) napi_env) res \<Rightarrow> ('v, 'h) napi_env res" where
  "env_of r = bind_res r (\<lambda>(st, out, e). Inr e)"

fun run_ref_op :: "('v, 'h) v8 \<Rightarrow> 'v ref_op \<Rightarrow> ('v, 'h) napi_env \<Rightarrow> ('v, 'h) napi_env res" where
  "run_ref_op V (OpCreate v n b) e = env_of (napi_create_reference V v n b e)"
| "run_ref_op V (OpDelete r) e = env_of (napi_delete_reference r e)"
| "run_ref_op V (OpRef r b) e = env_of (napi_reference_ref r b e)"
| "run_ref_op V (OpUnref r b) e = env_of (napi_reference_unref r b e)"
| "run_ref_op V (OpGet r b) e = env_of (napi_get_reference_value r b e)"
| "run_ref_op V (OpAddFinalizer v d cb h b) e = env_of (napi_add_finalizer V v d cb h b e)"
| "run_ref_op V (OpPost cb d h) e = env_of (node_api_post_finalizer cb d h e)"
| "run_ref_op V (OpSetInstance d cb h) e = env_of (napi_set_instance_data d cb h e)"
| "run_ref_op V (OpGetInstance b) e = env_of (napi_get_instance_data b e)"
| "run_ref_op V (OpOpen b) e = env_of (napi_open_handle_scope b e)"
| "run_ref_op V (OpClose s) e = env_of (napi_close_handle_scope s e)"
| "run_ref_op V (OpEscape s v b) e = env_of (napi_escape_handle s v b e)"
| "run_ref_op V (OpFreeBundle d) e = Inr (e\<lparr>bundles := (bundles e)(d := None)\<rparr>)"

fun run_ref_ops :: "('v, 'h) v8 \<Rightarrow> 'v ref_op list \<Rightarrow> ('v, 'h) napi_env \<Rightarrow> ('v, 'h) napi_env res" where
  "run_ref_ops V [] e = Inr e"
| "run_ref_ops V (p # ps) e = bind_res (run_ref_op V p e) (run_ref_ops V ps)"

definition user_ok :: "('v, 'h) v8 \<Rightarrow> ('v, 'h) user \<Rightarrow> bool" where
  "user_ok V U \<longleftrightarrow> (\<forall>cb d h e e'. U cb d h e = Inr e' \<longrightarrow> (\<exists>ps. run_ref_ops V ps e = Inr e'))"

lemmas guard_defs = CHECK_ENV_NOT_IN_GC_def CHECK_ARG_def CHECK_OUT_def RETURN_STATUS_IF_FALSE_def
  fail_def succeed_def with_reference_def

lemma New_inv:
  assumes "ref_inv e"
  shows "Reference_New V v n own e = (i, e1) \<Longrightarrow> ref_inv e1"
    and "ReferenceWithData_New V v n own d e = (i, e1) \<Longrightarrow> ref_inv e1"
    and "ReferenceWithFinalizer_New V v n own cb d h e = (i, e1) \<Longrightarrow> ref_inv e1"
    and "TrackedFinalizer_New cb d h e = (i, e1) \<Longrightarrow> ref_inv e1"
    and "TrackedStringResource_New cb d h e = (i, e1) \<Longrightarrow> ref_inv e1"
  using new_tracker_inv [OF assms]
  by (auto simp: Reference_New_def ReferenceWithData_New_def ReferenceWithFinalizer_New_def
      TrackedFinalizer_New_def TrackedStringResource_New_def new_tracker_def Let_def split: if_splits)

lemma TrackedFinalizer_New_live:
  "TrackedFinalizer_New cb d h e = (i, e1) \<Longrightarrow> \<exists>f. trackers e1 i = Some (TTracked f)"
  by (auto simp: TrackedFinalizer_New_def new_tracker_def LinkFinalizing_def Let_def)

lemma cls_Ref: "cls (snd (Ref r)) = cls r" "cls (snd (Unref r)) = cls r"
  by (simp_all add: Ref_def Unref_def SetWeak_def Let_def)

lemma set_reference_inv:
  assumes "ref_inv e" "trackers e i = Some (TReference r)" "cls r' = cls r"
  shows "ref_inv (set_tracker i (TReference r') e)"
  using set_tracker_inv [OF assms(1,2), of "TReference r'"] assms(3)
  by (simp add: get_finalizer_def)

lemma napi_set_instance_data_inv:
  assumes "ref_inv e" "napi_set_instance_data d cb h e = Inr (st, out, e')"
  shows "ref_inv e'"
proof -
  obtain e1 where e1: "(case instance_data e of None \<Rightarrow> Inr e | Some old \<Rightarrow> delete_tracker old e) = Inr e1"
    and r: "(case TrackedFinalizer_New cb d h e1 of (i, e2) \<Rightarrow> succeed None (e2\<lparr>instance_data := Some i\<rparr>)) = Inr (st, out, e')"
    using assms(2) unfolding napi_set_instance_data_def bind_res_Inr_iff by blast
  obtain i e2 where new: "TrackedFinalizer_New cb d h e1 = (i, e2)" by fastforce
  have e': "e' = napi_clear_last_error (e2\<lparr>instance_data := Some i\<rparr>)" using r new by (simp add: succeed_def)
  have "ref_inv e1"
    using e1 assms(1) delete_tracker_inv [OF assms(1)] by (auto split: option.splits)
  then show ?thesis
    using New_inv(4) [OF _ new] e' by simp
qed

lemma run_ref_op_inv:
  assumes "ref_inv e" "run_ref_op V p e = Inr e'"
  shows "ref_inv e'"
proof (cases p)
  case (OpCreate v n b)
  then show ?thesis
    using assms New_inv(1) [OF assms(1)]
    by (auto simp: env_of_def napi_create_reference_def guard_defs res_simps
        split: option.splits if_splits prod.splits)
next
  case (OpDelete r)
  then show ?thesis
    using assms delete_tracker_inv [OF assms(1)]
    by (auto simp: env_of_def napi_delete_reference_def guard_defs res_simps split: option.splits)
next
  case (OpRef r b)
  then show ?thesis
    using assms set_reference_inv [OF assms(1)] cls_Ref(1)
    by (fastforce simp: env_of_def napi_reference_ref_def guard_defs res_simps
        split: option.splits tracker.splits prod.splits)
next
  case (OpUnref r b)
  then show ?thesis
    using assms set_reference_inv [OF assms(1)] cls_Ref(2)
    by (fastforce simp: env_of_def napi_reference_unref_def guard_defs res_simps
        split: option.splits tracker.splits prod.splits if_splits)
next
  case (OpGet r b)
  then show ?thesis
    using assms
    by (auto simp: env_of_def napi_get_reference_value_def guard_defs res_simps
        split: option.splits tracker.splits if_splits)
next
  case (OpAddFinalizer v d cb h b)
  then show ?thesis
    using assms New_inv(3) [OF assms(1)]
    by (auto simp: env_of_def napi_add_finalizer_def guard_defs res_simps
        split: option.splits if_splits prod.splits)
next
  case (OpPost cb d h)
  obtain i e1 where n: "TrackedFinalizer_New cb d h e = (i, e1)" by fastforce
  then obtain f where "trackers e1 i = Some (TTracked f)" using TrackedFinalizer_New_live by blast
  then show ?thesis
    using OpPost assms n EnqueueFinalizer_inv [OF New_inv(4) [OF assms(1) n]]
    by (auto simp: env_of_def node_api_post_finalizer_def succeed_def get_finalizer_def)
next
  case (OpSetInstance d cb h)
  then show ?thesis
    using assms(2) napi_set_instance_data_inv [OF assms(1)] by (auto simp: env_of_def res_simps)
next
  case (OpGetInstance b)
  then show ?thesis
    using assms
    by (auto simp: env_of_def napi_get_instance_data_def guard_defs res_simps split: option.splits if_splits)
next
  case (OpOpen b)
  then show ?thesis
    using assms
    by (auto simp: env_of_def napi_open_handle_scope_def open_scope_def guard_defs res_simps split: if_splits)
next
  case (OpClose sc)
  then show ?thesis
    using assms
    by (auto simp: env_of_def napi_close_handle_scope_def close_scope_def guard_defs res_simps
        split: option.splits if_splits)
next
  case (OpEscape sc v b)
  then show ?thesis
    using assms
    by (auto simp: env_of_def napi_escape_handle_def guard_defs res_simps split: option.splits if_splits)
next
  case (OpFreeBundle d)
  then show ?thesis using assms ref_inv_cong [of e' e] by auto
qed

lemma run_ref_ops_inv: "ref_inv e \<Longrightarrow> run_ref_ops V ps e = Inr e' \<Longrightarrow> ref_inv e'"
  by (induction V ps e rule: run_ref_ops.induct) (auto simp: res_simps dest: run_ref_op_inv)

lemma user_inv: "user_ok V U \<Longrightarrow> ref_inv e \<Longrightarrow> U cb d h e = Inr e' \<Longrightarrow> ref_inv e'"
  unfolding user_ok_def by (blast intro: run_ref_ops_inv)

section \<open>Finalization keeps the invariant\<close>

lemma EnvCallFinalizer_inv:
  assumes "user_ok V U" "ref_inv e" "EnvCallFinalizer U cb d h e = Inr e'"
  shows "ref_inv e'"
proof (cases "in_gc_finalizer e")
  case True
  then show ?thesis using assms by (auto simp: EnvCallFinalizer_def dest: user_inv)
next
  case False
  then obtain r b where c: "CallIntoModule (\<lambda>e. bind_res (U cb d h e) (\<lambda>e1. Inr ((), e1)))
      (\<lambda>x e. if terminatedOrTerminating False e then Inr e else Inl CheckAbort) e = Inr (r, b, e')"
    using assms(3) by (auto simp: EnvCallFinalizer_def res_simps)
  then obtain e1 where "U cb d h (napi_clear_last_error e) = Inr e1"
    and "e' = e1 \<or> e' = e1\<lparr>last_exception := None\<rparr>"
    by (auto simp: CallIntoModule_def res_simps split: option.splits if_splits)
  then have "ref_inv e1" using user_inv [OF assms(1), of "napi_clear_last_error e" cb d h e1] assms(2) by simp
  then show ?thesis using \<open>e' = e1 \<or> e' = e1\<lparr>last_exception := None\<rparr>\<close> by auto
qed

text \<open>Disarming a finalizer and recording its call.\<close>

lemma record_call_inv:
  assumes "ref_inv e" "trackers e i = Some t" "get_finalizer t = Some f" "finalize_callback f = Some cb"
  shows "ref_inv ((set_tracker i (set_finalizer (ResetFinalizer f) t) e)\<lparr>finalized := finalized e @ [(i, x)]\<rparr>)"
proof -
  have "i \<notin> fst ` set (finalized e)"
    using assms unfolding ref_inv_def disarmed_def by force
  moreover have "i < next_tracker e" using assms(1,2) by (auto simp: ref_inv_def)
  ultimately show ?thesis
    using assms get_set_finalizer [OF assms(3), of "ResetFinalizer f"]
    by (auto simp: ref_inv_def set_tracker_def linked_def disarmed_def ResetFinalizer_def)
qed

lemma CallFinalizer_inv:
  assumes "user_ok V U" "ref_inv e" "CallFinalizer U i e = Inr e'"
  shows "ref_inv e'"
proof -
  obtain t f where t: "trackers e i = Some t" "get_finalizer t = Some f"
    using assms(3) by (auto simp: CallFinalizer_def res_simps)
  let ?e1 = "set_tracker i (set_finalizer (ResetFinalizer f) t) e"
  show ?thesis
  proof (cases "finalize_callback f")
    case None
    then have "e' = ?e1" using assms(3) t by (simp add: CallFinalizer_def)
    then show ?thesis
      using set_tracker_inv [OF assms(2) t(1), of "set_finalizer (ResetFinalizer f) t"]
        get_set_finalizer [OF t(2), of "ResetFinalizer f"] t(2)
      by (simp add: ResetFinalizer_def)
  next
    case (Some cb)
    let ?e2 = "?e1\<lparr>finalized := finalized e @ [(i, cb, finalize_data f, finalize_hint f)]\<rparr>"
    have "finalized ?e1 = finalized e" by (simp add: set_tracker_def)
    then have "(if \<not> fin_env f then U cb (finalize_data f) (finalize_hint f) ?e2
        else EnvCallFinalizer U cb (finalize_data f) (finalize_hint f) ?e2) = Inr e'"
      using assms(3) t Some by (simp add: CallFinalizer_def Let_def)
    then have "U cb (finalize_data f) (finalize_hint f) ?e2 = Inr e' \<or>
        EnvCallFinalizer U cb (finalize_data f) (finalize_hint f) ?e2 = Inr e'" by presburger
    moreover have inv: "ref_inv ?e2" by (rule record_call_inv [OF assms(2) t Some])
    ultimately show ?thesis
      using user_inv [OF assms(1) inv] EnvCallFinalizer_inv [OF assms(1) inv] by blast
  qed
qed

lemma Reference_Finalize_inv:
  assumes "user_ok V U" "ref_inv e" "trackers e i = Some (TReference r)" "Reference_Finalize U i r e = Inr e'"
  shows "ref_inv e'"
proof -
  let ?e2 = "UnlinkTracker i (set_tracker i (TReference (r\<lparr>persistent := None\<rparr>)) e)"
  have "ref_inv ?e2" using assms(2,3) by (intro UnlinkTracker_inv set_reference_inv) auto
  moreover obtain e3 where "(case cls r of WithFinalizer f \<Rightarrow> CallFinalizer U i ?e2 | _ \<Rightarrow> Inr ?e2) = Inr e3"
    and "(if ownership r = kRuntime then delete_tracker i e3 else Inr e3) = Inr e'"
    using assms(4) by (auto simp: Reference_Finalize_def Let_def bind_res_Inr_iff)
  ultimately have "ref_inv e3"
    using CallFinalizer_inv [OF assms(1), of ?e2 i e3] by (auto split: ref_class.splits)
  then show ?thesis
    using \<open>(if ownership r = kRuntime then delete_tracker i e3 else Inr e3) = Inr e'\<close> delete_tracker_inv [of e3 i e']
    by (auto split: if_splits)
qed

lemma Finalize_inv:
  assumes "user_ok V U" "ref_inv e" "Finalize U i e = Inr e'"
  shows "ref_inv e'"
proof -
  obtain t where t: "trackers e i = Some t" using assms(3) by (auto simp: Finalize_def res_simps)
  show ?thesis
  proof (cases t)
    case (TReference r)
    then show ?thesis using assms t Reference_Finalize_inv [OF assms(1,2)] by (simp add: Finalize_def)
  next
    case (TTracked f)
    then obtain e1 where "CallFinalizer U i (UnlinkTracker i e) = Inr e1" "delete_tracker i e1 = Inr e'"
      using assms(3) t by (auto simp: Finalize_def TrackedFinalizer_Finalize_def res_simps)
    then show ?thesis
      using CallFinalizer_inv [OF assms(1) UnlinkTracker_inv [OF assms(2)]] delete_tracker_inv by blast
  next
    case (TString f)
    have "trackers (UnlinkTracker i e) i = Some (TString f)" using t TString by (simp add: UnlinkTracker_def)
    from set_tracker_inv [OF UnlinkTracker_inv [OF assms(2)] this, of "TString (ResetEnv f)"]
    show ?thesis
      using assms(3) t TString
      by (simp add: Finalize_def TrackedStringResource_Finalize_def get_finalizer_def ResetEnv_def)
  qed
qed

lemma WeakCallback_inv:
  assumes "user_ok V U" "ref_inv e" "WeakCallback U i e = Inr e'"
  shows "ref_inv e'"
proof -
  obtain x where x: "trackers e i = Some x" using assms(3) by (auto simp: WeakCallback_def res_simps)
  then obtain r where t: "trackers e i = Some (TReference r)"
    using assms(3) by (cases x) (auto simp: WeakCallback_def)
  let ?r = "r\<lparr>persistent := None\<rparr>"
  let ?e1 = "set_tracker i (TReference ?r) e"
  have inv: "ref_inv ?e1" using assms(2) t by (intro set_reference_inv) auto
  have t1: "trackers ?e1 i = Some (TReference ?r)" by (simp add: set_tracker_def)
  show ?thesis
  proof (cases "cls r")
    case (WithFinalizer f)
    then have r: "EnvInvokeFinalizerFromGC U i ?e1 = Inr e'" using assms(3) t by (simp add: WeakCallback_def Let_def)
    show ?thesis
    proof (cases "module_api_version ?e1 = NAPI_VERSION_EXPERIMENTAL")
      case True
      then show ?thesis
        using r inv Finalize_inv [OF assms(1), of "?e1\<lparr>in_gc_finalizer := True\<rparr>" i]
        by (auto simp: EnvInvokeFinalizerFromGC_def res_simps)
    next
      case False
      then show ?thesis
        using r EnqueueFinalizer_inv [OF inv t1] WithFinalizer
        by (simp add: EnvInvokeFinalizerFromGC_def get_finalizer_def)
    qed
  qed (use assms(1,3) t t1 inv Reference_Finalize_inv in \<open>fastforce simp: WeakCallback_def Let_def\<close>)+
qed

lemma DrainFinalizerQueue_inv:
  "user_ok V U \<Longrightarrow> ref_inv e \<Longrightarrow> DrainFinalizerQueue U pick n e = Some (Inr e') \<Longrightarrow> ref_inv e'"
proof (induction n arbitrary: e)
  case (Suc n)
  then show ?case
    by (subst (asm) DrainFinalizerQueue.simps)
      (auto simp: Let_def split: if_splits sum.splits dest: Finalize_inv [OF _ DequeueFinalizer_inv])
qed (auto simp: DrainFinalizerQueue.simps split: if_splits)

lemma FinalizeAll_inv:
  "user_ok V U \<Longrightarrow> ref_inv e \<Longrightarrow> FinalizeAll lst U n e = Some (Inr e') \<Longrightarrow> ref_inv e'"
proof (induction n arbitrary: e)
  case (Suc n)
  then show ?case
    by (subst (asm) FinalizeAll.simps) (auto split: list.splits sum.splits dest: Finalize_inv)
qed (auto simp: FinalizeAll.simps split: list.splits)

lemma then_run_Some_Inr: "then_run r k = Some (Inr e') \<longleftrightarrow> (\<exists>e. r = Some (Inr e) \<and> k e = Some (Inr e'))"
  by (auto simp: then_run_def split: option.splits sum.splits)

lemma DeleteMe_cases:
  assumes "DeleteMe U pick n e = Some (Inr e')"
  obtains e1 e2 e3 where "DrainFinalizerQueue U pick n (e\<lparr>is_destructing := True\<rparr>) = Some (Inr e1)"
    "FinalizeAll finalizing_reflist U n e1 = Some (Inr e2)" "FinalizeAll reflist U n e2 = Some (Inr e3)"
    "e' = e3\<lparr>env_deleted := True\<rparr>"
  using assms by (auto simp: DeleteMe_def then_run_Some_Inr)

lemma DeleteMe_inv:
  assumes "user_ok V U" "ref_inv e" "DeleteMe U pick n e = Some (Inr e')"
  shows "ref_inv e'"
  using assms(3)
proof (cases rule: DeleteMe_cases)
  case (1 e1 e2 e3)
  have "ref_inv e1" using DrainFinalizerQueue_inv [OF assms(1) _ 1(1)] assms(2) by simp
  then show ?thesis
    using FinalizeAll_inv [OF assms(1) FinalizeAll_inv [OF assms(1) _ 1(2)] 1(3)] 1(4) by simp
qed

section \<open>Reachable environments\<close>

text \<open>User code never links or queues a tracker that already existed.\<close>

definition op_frame :: "('v, 'h) napi_env \<Rightarrow> ('v, 'h) napi_env \<Rightarrow> bool" where
  "op_frame e e' \<longleftrightarrow> next_tracker e \<le> next_tracker e' \<and>
     (\<forall>i < next_tracker e. i \<in> set (linked e') \<union> set (pending_finalizers e') \<longrightarrow>
        i \<in> set (linked e) \<union> set (pending_finalizers e))"

lemma op_frame_refl: "op_frame e e"
  by (simp add: op_frame_def)

lemma op_frame_trans: "op_frame e e' \<Longrightarrow> op_frame e' e'' \<Longrightarrow> op_frame e e''"
  unfolding op_frame_def by (meson order_less_le_trans order_trans)

lemma op_frame_cong:
  "reflist e' = reflist e \<Longrightarrow> finalizing_reflist e' = finalizing_reflist e \<Longrightarrow>
    pending_finalizers e' = pending_finalizers e \<Longrightarrow> next_tracker e' = next_tracker e \<Longrightarrow> op_frame e e'"
  by (simp add: op_frame_def linked_def)

lemma op_frame_last_error [simp]:
  "op_frame e (napi_clear_last_error e') = op_frame e e'" "op_frame e (napi_set_last_error st e') = op_frame e e'"
  "op_frame e (e'\<lparr>instance_data := d\<rparr>) = op_frame e e'" "op_frame e (e'\<lparr>last_exception := x\<rparr>) = op_frame e e'"
  "op_frame (napi_clear_last_error e) e' = op_frame e e'" "op_frame e (set_tracker i t e') = op_frame e e'"
  by (simp_all add: op_frame_def linked_def napi_clear_last_error_def napi_set_last_error_def set_tracker_def)

lemma New_frame:
  "Reference_New V v n own e = (i, e1) \<Longrightarrow> op_frame e e1"
  "ReferenceWithFinalizer_New V v n own cb d h e = (i, e1) \<Longrightarrow> op_frame e e1"
  "TrackedFinalizer_New cb d h e = (i, e1) \<Longrightarrow> op_frame e e1 \<and> op_frame e (EnqueueFinalizer i e1)"
  by (auto simp: op_frame_def linked_def Reference_New_def ReferenceWithFinalizer_New_def TrackedFinalizer_New_def
      new_tracker_def LinkRef_def LinkFinalizing_def EnqueueFinalizer_def Let_def split: if_splits)

lemma unlink_frame: "op_frame e (UnlinkTracker i e)" "op_frame e (DequeueFinalizer i e)"
  using set_remove1_subset [of i "reflist e"] set_remove1_subset [of i "finalizing_reflist e"]
  by (auto simp: op_frame_def linked_def UnlinkTracker_def DequeueFinalizer_def)

lemma op_frame_trackers [simp]: "op_frame e (e'\<lparr>trackers := ts\<rparr>) = op_frame e e'"
  by (simp add: op_frame_def linked_def)

lemma delete_tracker_frame:
  assumes "delete_tracker i e = Inr e'"
  shows "op_frame e e'"
proof -
  obtain t where "trackers e i = Some t" using assms by (auto simp: delete_tracker_def res_simps)
  let ?e1 = "if get_finalizer t \<noteq> None then DequeueFinalizer i e else e"
  have "op_frame e (UnlinkTracker i ?e1)"
    using op_frame_trans [OF unlink_frame(2) [of e i] unlink_frame(1) [of _ i]] unlink_frame(1) [of e i]
    by (cases "get_finalizer t") simp_all
  then show ?thesis
    using assms \<open>trackers e i = Some t\<close> by (auto simp: delete_tracker_def Let_def)
qed

lemma run_ref_op_frame:
  assumes "run_ref_op V p e = Inr e'"
  shows "op_frame e e'"
proof (cases p)
  case (OpSetInstance d cb h)
  then obtain st and out :: "unit option" where r: "napi_set_instance_data d cb h e = Inr (st, out, e')"
    using assms by (auto simp: env_of_def res_simps)
  obtain e1 where e1: "(case instance_data e of None \<Rightarrow> Inr e | Some old \<Rightarrow> delete_tracker old e) = Inr e1"
    and n: "(case TrackedFinalizer_New cb d h e1 of (i, e2) \<Rightarrow> succeed None (e2\<lparr>instance_data := Some i\<rparr>)) = Inr (st, out, e')"
    using r unfolding napi_set_instance_data_def bind_res_Inr_iff by blast
  have "op_frame e e1" using e1 delete_tracker_frame op_frame_refl by (auto split: option.splits)
  moreover have "op_frame e1 e'"
    using n New_frame(3) [of cb d h e1] by (auto simp: succeed_def split: prod.splits)
  ultimately show ?thesis by (rule op_frame_trans)
next
  case (OpCreate v n b)
  then show ?thesis
    using assms New_frame(1) [of V]
    by (auto simp: env_of_def napi_create_reference_def guard_defs res_simps op_frame_refl
        split: option.splits if_splits prod.splits tracker.splits)
next
  case (OpDelete r)
  then show ?thesis
    using assms delete_tracker_frame [of _ e]
    by (auto simp: env_of_def napi_delete_reference_def guard_defs res_simps op_frame_refl
        split: option.splits if_splits prod.splits tracker.splits)
next
  case (OpRef r b)
  then show ?thesis
    using assms 
    by (auto simp: env_of_def napi_reference_ref_def guard_defs res_simps op_frame_refl
        split: option.splits if_splits prod.splits tracker.splits)
next
  case (OpUnref r b)
  then show ?thesis
    using assms 
    by (auto simp: env_of_def napi_reference_unref_def guard_defs res_simps op_frame_refl
        split: option.splits if_splits prod.splits tracker.splits)
next
  case (OpGet r b)
  then show ?thesis
    using assms 
    by (auto simp: env_of_def napi_get_reference_value_def guard_defs res_simps op_frame_refl
        split: option.splits if_splits prod.splits tracker.splits)
next
  case (OpAddFinalizer v d cb h b)
  then show ?thesis
    using assms New_frame(2) [of V]
    by (auto simp: env_of_def napi_add_finalizer_def guard_defs res_simps op_frame_refl
        split: option.splits if_splits prod.splits tracker.splits)
next
  case (OpPost cb d h)
  then show ?thesis
    using assms New_frame(3) [of cb d h e]
    by (auto simp: env_of_def node_api_post_finalizer_def guard_defs res_simps op_frame_refl
        split: option.splits if_splits prod.splits tracker.splits)
next
  case (OpGetInstance b)
  then show ?thesis
    using assms 
    by (auto simp: env_of_def napi_get_instance_data_def guard_defs res_simps op_frame_refl
        split: option.splits if_splits prod.splits tracker.splits)
next
  case (OpOpen b)
  then show ?thesis
    using assms 
    by (auto simp: env_of_def napi_open_handle_scope_def open_scope_def guard_defs res_simps op_frame_refl op_frame_def linked_def napi_clear_last_error_def napi_set_last_error_def
        split: option.splits if_splits prod.splits tracker.splits)
next
  case (OpClose sc)
  then show ?thesis
    using assms 
    by (auto simp: env_of_def napi_close_handle_scope_def close_scope_def guard_defs res_simps op_frame_refl op_frame_def linked_def napi_clear_last_error_def napi_set_last_error_def
        split: option.splits if_splits prod.splits tracker.splits)
next
  case (OpEscape sc v b)
  then show ?thesis
    using assms 
    by (auto simp: env_of_def napi_escape_handle_def guard_defs res_simps op_frame_refl op_frame_def linked_def napi_clear_last_error_def napi_set_last_error_def
        split: option.splits if_splits prod.splits tracker.splits)
next
  case (OpFreeBundle d)
  then show ?thesis using assms by (auto simp: op_frame_def linked_def)
qed

lemma run_ref_ops_frame: "run_ref_ops V ps e = Inr e' \<Longrightarrow> op_frame e e'"
  by (induction V ps e rule: run_ref_ops.induct)
    (auto simp: res_simps op_frame_refl dest!: run_ref_op_frame intro: op_frame_trans)

lemma user_frame: "user_ok V U \<Longrightarrow> U cb d h e = Inr e' \<Longrightarrow> op_frame e e'"
  unfolding user_ok_def by (blast dest: run_ref_ops_frame)

lemma EnvCallFinalizer_frame:
  assumes "user_ok V U" "EnvCallFinalizer U cb d h e = Inr e'"
  shows "op_frame e e'"
proof (cases "in_gc_finalizer e")
  case True
  then show ?thesis using assms user_frame by (auto simp: EnvCallFinalizer_def)
next
  case False
  then obtain e1 where "U cb d h (napi_clear_last_error e) = Inr e1"
    and e': "e' = e1 \<or> e' = e1\<lparr>last_exception := None\<rparr>"
    using assms(2) by (auto simp: EnvCallFinalizer_def CallIntoModule_def res_simps split: option.splits if_splits)
  then have "op_frame e e1" using user_frame [OF assms(1), of cb d h "napi_clear_last_error e"] by simp
  then show ?thesis using e' by auto
qed

lemma CallFinalizer_frame:
  assumes "user_ok V U" "CallFinalizer U i e = Inr e'"
  shows "op_frame e e'"
proof -
  obtain t f where t: "trackers e i = Some t" "get_finalizer t = Some f"
    using assms(2) by (auto simp: CallFinalizer_def res_simps)
  let ?e1 = "set_tracker i (set_finalizer (ResetFinalizer f) t) e"
  show ?thesis
  proof (cases "finalize_callback f")
    case None
    then have "e' = ?e1" using assms(2) t by (simp add: CallFinalizer_def)
    then show ?thesis by (simp add: op_frame_refl)
  next
    case (Some cb)
    let ?e2 = "?e1\<lparr>finalized := finalized ?e1 @ [(i, cb, finalize_data f, finalize_hint f)]\<rparr>"
    have "U cb (finalize_data f) (finalize_hint f) ?e2 = Inr e' \<or>
        EnvCallFinalizer U cb (finalize_data f) (finalize_hint f) ?e2 = Inr e'"
      using assms(2) t Some by (auto simp: CallFinalizer_def Let_def split: if_splits)
    moreover have "op_frame e ?e2" by (rule op_frame_cong) (simp_all add: set_tracker_def)
    ultimately show ?thesis
      using user_frame [OF assms(1)] EnvCallFinalizer_frame [OF assms(1)] op_frame_trans by blast
  qed
qed

lemma TrackedStringResource_delete_inv:
  assumes "user_ok V U" "ref_inv e" "trackers e i = Some (TString f)" "i \<notin> set (pending_finalizers e)"
    and "TrackedStringResource_delete U i e = Inr e'"
  shows "ref_inv e'"
proof -
  obtain e1 where e1: "CallFinalizer U i (UnlinkTracker i e) = Inr e1" "e' = e1\<lparr>trackers := (trackers e1)(i := None)\<rparr>"
    using assms(5) by (auto simp: TrackedStringResource_delete_def res_simps)
  have "i < next_tracker e" using assms(2,3) by (auto simp: ref_inv_def)
  moreover have "i \<notin> set (linked (UnlinkTracker i e)) \<union> set (pending_finalizers (UnlinkTracker i e))"
    using assms(2,4) by (auto simp: ref_inv_def linked_def UnlinkTracker_def)
  moreover have "next_tracker (UnlinkTracker i e) = next_tracker e" by (simp add: UnlinkTracker_def)
  ultimately have "i \<notin> set (linked e1) \<union> set (pending_finalizers e1)"
    using CallFinalizer_frame [OF assms(1) e1(1)] by (auto simp: op_frame_def)
  then show ?thesis
    using remove_tracker_inv [OF CallFinalizer_inv [OF assms(1) UnlinkTracker_inv [OF assms(2)] e1(1)]] e1(2) by simp
qed

text \<open>The constructor of the environment.\<close>

definition napi_env_new :: "'h \<Rightarrow> int \<Rightarrow> ('v, 'h) napi_env" where
  "napi_env_new h version =
     \<lparr>error_code = napi_ok, engine_error_code = 0, error_message = None, last_exception = None, try_catch = None,
      isolate_exception = None, open_handle_scopes = 0, open_callback_scopes = 0, refs = 1, instance_data = None,
      module_api_version = version, in_gc_finalizer = False, is_destructing = False, is_scheduled = False,
      env_deleted = False, reflist = [], finalizing_reflist = [], pending_finalizers = [],
      trackers = (\<lambda>_. None), next_tracker = 1, finalized = [], scopes = (\<lambda>_. None), next_scope = 1,
      externals = (\<lambda>_. None), bundles = (\<lambda>_. None), deferreds = (\<lambda>_. None), next_cell = 1, isolate = h\<rparr>"

text \<open>
  What happens to an environment: calls of the API, the garbage collector collecting the target of a
  weak reference or an external string, the task that drains the queue, and its end.
\<close>

inductive ref_reach :: "('v, 'h) v8 \<Rightarrow> ('v, 'h) user \<Rightarrow> (nat list \<Rightarrow> nat) \<Rightarrow> ('v, 'h) napi_env \<Rightarrow> bool"
  for V U pick where
  ref_new: "ref_reach V U pick (napi_env_new h version)"
| ref_api: "ref_reach V U pick e \<Longrightarrow> run_ref_op V p e = Inr e' \<Longrightarrow> ref_reach V U pick e'"
| ref_string: "ref_reach V U pick e \<Longrightarrow> TrackedStringResource_New cb d h e = (i, e') \<Longrightarrow> ref_reach V U pick e'"
| ref_gc: "ref_reach V U pick e \<Longrightarrow> trackers e i = Some (TReference r) \<Longrightarrow> is_weak r \<Longrightarrow> persistent r \<noteq> None \<Longrightarrow>
    WeakCallback U i e = Inr e' \<Longrightarrow> ref_reach V U pick e'"
| ref_gc_string: "ref_reach V U pick e \<Longrightarrow> trackers e i = Some (TString f) \<Longrightarrow> i \<notin> set (pending_finalizers e) \<Longrightarrow>
    TrackedStringResource_delete U i e = Inr e' \<Longrightarrow> ref_reach V U pick e'"
| ref_drain: "ref_reach V U pick e \<Longrightarrow> DrainFinalizerQueue U pick n e = Some (Inr e') \<Longrightarrow> ref_reach V U pick e'"
| ref_delete: "ref_reach V U pick e \<Longrightarrow> DeleteMe U pick n e = Some (Inr e') \<Longrightarrow> ref_reach V U pick e'"

lemma ref_reach_inv: "ref_reach V U pick e \<Longrightarrow> user_ok V U \<Longrightarrow> ref_inv e"
proof (induction rule: ref_reach.induct)
  case (ref_new h version)
  show ?case by (simp add: ref_inv_def napi_env_new_def linked_def)
qed (auto intro: run_ref_op_inv New_inv WeakCallback_inv TrackedStringResource_delete_inv
      DrainFinalizerQueue_inv DeleteMe_inv)

section \<open>Teardown\<close>

text \<open>Callbacks that make no calls of the API.\<close>

definition silent :: "('v, 'h) user" where
  "silent cb d h e = Inr e"

definition armed :: "'v tracker \<Rightarrow> (ptr \<times> ptr \<times> ptr) option" where
  "armed t =
     (case t of
        TString f \<Rightarrow> None
      | _ \<Rightarrow> (case get_finalizer t of
                None \<Rightarrow> None
              | Some f \<Rightarrow> map_option (\<lambda>cb. (cb, finalize_data f, finalize_hint f)) (finalize_callback f)))"

definition call_entry :: "nat \<Rightarrow> 'v tracker \<Rightarrow> (nat \<times> ptr \<times> ptr \<times> ptr) list" where
  "call_entry i t = (case armed t of None \<Rightarrow> [] | Some x \<Rightarrow> [(i, x)])"

definition dying :: "('v, 'h) napi_env \<Rightarrow> bool" where
  "dying e \<longleftrightarrow> is_destructing e"

lemma EnvCallFinalizer_silent:
  assumes "dying e"
  shows "\<exists>e'. EnvCallFinalizer silent cb d h e = Inr e' \<and> dying e' \<and> linked e' = linked e \<and>
    reflist e' = reflist e \<and> finalizing_reflist e' = finalizing_reflist e \<and>
    pending_finalizers e' = pending_finalizers e \<and> trackers e' = trackers e \<and> finalized e' = finalized e \<and>
    instance_data e' = instance_data e"
  using assms
  by (auto simp: EnvCallFinalizer_def silent_def CallIntoModule_def terminatedOrTerminating_def can_call_into_js_def
      dying_def napi_clear_last_error_def linked_def split: option.split)

lemma CallFinalizer_silent:
  assumes "dying e" "trackers e i = Some t" "get_finalizer t = Some f" "\<And>g. t \<noteq> TString g"
  shows "\<exists>e' t'. CallFinalizer silent i e = Inr e' \<and> dying e' \<and>
    reflist e' = reflist e \<and> finalizing_reflist e' = finalizing_reflist e \<and>
    pending_finalizers e' = pending_finalizers e \<and> trackers e' = (trackers e)(i \<mapsto> t') \<and>
    finalized e' = finalized e @ call_entry i t \<and> instance_data e' = instance_data e"
proof -
  let ?t = "set_finalizer (ResetFinalizer f) t"
  show ?thesis
  proof (cases "finalize_callback f")
    case None
    then have "call_entry i t = []"
      using assms(3) by (cases t) (auto simp: call_entry_def armed_def)
    then show ?thesis
      using assms None by (auto simp: CallFinalizer_def set_tracker_def dying_def)
  next
    case (Some cb)
    have c: "call_entry i t = [(i, cb, finalize_data f, finalize_hint f)]"
      using assms(3,4) Some by (cases t) (auto simp: call_entry_def armed_def)
    let ?e2 = "(set_tracker i ?t e)\<lparr>finalized := finalized e @ [(i, cb, finalize_data f, finalize_hint f)]\<rparr>"
    have "dying ?e2" using assms(1) by (simp add: dying_def set_tracker_def)
    then obtain e' where e': "EnvCallFinalizer silent cb (finalize_data f) (finalize_hint f) ?e2 = Inr e'"
      "dying e'" "reflist e' = reflist ?e2" "finalizing_reflist e' = finalizing_reflist ?e2"
      "pending_finalizers e' = pending_finalizers ?e2" "trackers e' = trackers ?e2"
      "finalized e' = finalized ?e2" "instance_data e' = instance_data ?e2"
      using EnvCallFinalizer_silent by blast
    have fe: "finalized (set_tracker i ?t e) = finalized e" by (simp add: set_tracker_def)
    show ?thesis
    proof (cases "fin_env f")
      case True
      then have "CallFinalizer silent i e = Inr e'"
        using assms(2,3) Some e'(1) fe by (simp add: CallFinalizer_def Let_def)
      then show ?thesis using e'(2-) c by (auto simp: set_tracker_def)
    next
      case False
      then have "CallFinalizer silent i e = Inr ?e2"
        using assms(2,3) Some fe by (simp add: CallFinalizer_def Let_def silent_def)
      then show ?thesis using \<open>dying ?e2\<close> c by (auto simp: set_tracker_def)
    qed
  qed
qed

end
