(* ===== verification/Napi_Values.thy ===== *)
theory Napi_Values
  imports Napi_Contract
begin

text \<open>
  The Node-API functions that make, inspect and convert values
  (\<^verbatim>\<open>src/src/node-api/js_native_api_v8.cc\<close>): numbers, strings, symbols, big integers, dates, errors
  and exceptions, array buffers, typed arrays and data views. A \<^verbatim>\<open>size_t\<close> whose arithmetic can wrap is
  a \<open>u64\<close>; conversions to \<^verbatim>\<open>int\<close> are written out (\<open>to_int\<close>).
\<close>

section \<open>Primitive values\<close>

definition napi_create_object :: "('v, 'h) v8 \<Rightarrow> bool \<Rightarrow> ('v, 'h, 'v) api" where
  "napi_create_object V result =
     CHECK_ENV_NOT_IN_GC (CHECK_OUT result (alloc V nObject (\<lambda>v. succeed (Some v))))"

definition napi_create_array :: "('v, 'h) v8 \<Rightarrow> bool \<Rightarrow> ('v, 'h, 'v) api" where
  "napi_create_array V result =
     CHECK_ENV_NOT_IN_GC (CHECK_OUT result (alloc V nArray (\<lambda>v. succeed (Some v))))"

definition napi_create_array_with_length :: "('v, 'h) v8 \<Rightarrow> nat \<Rightarrow> bool \<Rightarrow> ('v, 'h, 'v) api" where
  "napi_create_array_with_length V len result =
     CHECK_ENV_NOT_IN_GC (CHECK_OUT result (alloc V (nArrayLength (to_int len)) (\<lambda>v. succeed (Some v))))"

definition napi_create_double :: "('v, 'h) v8 \<Rightarrow> u64 \<Rightarrow> bool \<Rightarrow> ('v, 'h, 'v) api" where
  "napi_create_double V value result =
     CHECK_ENV_NOT_IN_GC (CHECK_OUT result (alloc V (nNumber value) (\<lambda>v. succeed (Some v))))"

definition napi_create_int32 :: "('v, 'h) v8 \<Rightarrow> 32 word \<Rightarrow> bool \<Rightarrow> ('v, 'h, 'v) api" where
  "napi_create_int32 V value result =
     CHECK_ENV_NOT_IN_GC (CHECK_OUT result (alloc V (nInt32 value) (\<lambda>v. succeed (Some v))))"

definition napi_create_uint32 :: "('v, 'h) v8 \<Rightarrow> 32 word \<Rightarrow> bool \<Rightarrow> ('v, 'h, 'v) api" where
  "napi_create_uint32 V value result =
     CHECK_ENV_NOT_IN_GC (CHECK_OUT result (alloc V (nUint32 value) (\<lambda>v. succeed (Some v))))"

definition napi_create_int64 :: "('v, 'h) v8 \<Rightarrow> 64 word \<Rightarrow> bool \<Rightarrow> ('v, 'h, 'v) api" where
  "napi_create_int64 V value result =
     CHECK_ENV_NOT_IN_GC (CHECK_OUT result (alloc V (nNumberOfInt64 value) (\<lambda>v. succeed (Some v))))"

definition napi_create_bigint_int64 :: "('v, 'h) v8 \<Rightarrow> 64 word \<Rightarrow> bool \<Rightarrow> ('v, 'h, 'v) api" where
  "napi_create_bigint_int64 V value result =
     CHECK_ENV_NOT_IN_GC (CHECK_OUT result (alloc V (nBigIntInt64 value) (\<lambda>v. succeed (Some v))))"

definition napi_create_bigint_uint64 :: "('v, 'h) v8 \<Rightarrow> 64 word \<Rightarrow> bool \<Rightarrow> ('v, 'h, 'v) api" where
  "napi_create_bigint_uint64 V value result =
     CHECK_ENV_NOT_IN_GC (CHECK_OUT result (alloc V (nBigIntUint64 value) (\<lambda>v. succeed (Some v))))"

definition napi_create_bigint_words :: "('v, 'h) v8 \<Rightarrow> int \<Rightarrow> nat \<Rightarrow> u64 list option \<Rightarrow> bool \<Rightarrow> ('v, 'h, 'v) api" where
  "napi_create_bigint_words V sign_bit word_count words result =
     NAPI_PREAMBLE (CHECK_ARG words (\<lambda>ws. CHECK_OUT result
       (RETURN_STATUS_IF_FALSE (word_count \<le> INT_MAX) napi_invalid_arg
         (jsv V (oNewBigIntWords sign_bit (take word_count ws)) (\<lambda>b.
           CHECK_MAYBE_WITH_PREAMBLE b napi_generic_failure (\<lambda>v. GET_RETURN_STATUS (Some v)))))))"

definition napi_get_boolean :: "('v, 'h) v8 \<Rightarrow> bool \<Rightarrow> bool \<Rightarrow> ('v, 'h, 'v) api" where
  "napi_get_boolean V value result =
     CHECK_ENV_NOT_IN_GC (CHECK_OUT result (succeed (Some (if value then v_bool V True else v_bool V False))))"

definition napi_get_null :: "('v, 'h) v8 \<Rightarrow> bool \<Rightarrow> ('v, 'h, 'v) api" where
  "napi_get_null V result = CHECK_ENV_NOT_IN_GC (CHECK_OUT result (succeed (Some (v_null V))))"

definition napi_get_global :: "('v, 'h) v8 \<Rightarrow> bool \<Rightarrow> ('v, 'h, 'v) api" where
  "napi_get_global V result =
     CHECK_ENV_NOT_IN_GC (CHECK_OUT result (alloc V nGlobal (\<lambda>v. succeed (Some v))))"

section \<open>Strings and symbols\<close>

definition CHECK_NEW_STRING_ARGS :: "'c list option \<Rightarrow> nat \<Rightarrow> bool \<Rightarrow> ('v, 'h, 'a) api \<Rightarrow> ('v, 'h, 'a) api" where
  "CHECK_NEW_STRING_ARGS str len result k =
     CHECK_ENV_NOT_IN_GC
       (let rest = CHECK_OUT result
              (RETURN_STATUS_IF_FALSE (len = NAPI_AUTO_LENGTH \<or> len \<le> INT_MAX) napi_invalid_arg k)
        in if len > 0 then CHECK_ARG str (\<lambda>_. rest) else rest)"

definition NewString :: "('v, 'h) v8 \<Rightarrow> 'c list option \<Rightarrow> nat \<Rightarrow> bool \<Rightarrow>
    (('v option \<Rightarrow> ('v, 'h, 'v) api) \<Rightarrow> ('v, 'h, 'v) api) \<Rightarrow> ('v, 'h, 'v) api" where
  "NewString V str len result string_maker =
     CHECK_NEW_STRING_ARGS str len result
       (string_maker (\<lambda>str_maybe. CHECK_MAYBE str_maybe napi_generic_failure (\<lambda>v. succeed (Some v))))"

definition chars :: "'c::zero list option \<Rightarrow> nat \<Rightarrow> 'c list" where
  "chars str len = (case str of None \<Rightarrow> [] | Some s \<Rightarrow> str_len s len)"

definition napi_create_string_latin1 :: "('v, 'h) v8 \<Rightarrow> u8 list option \<Rightarrow> nat \<Rightarrow> bool \<Rightarrow> ('v, 'h, 'v) api" where
  "napi_create_string_latin1 V str len result =
     NewString V str len result (jsv V (oNewFromOneByte (chars str len)))"

definition napi_create_string_utf8 :: "('v, 'h) v8 \<Rightarrow> u8 list option \<Rightarrow> nat \<Rightarrow> bool \<Rightarrow> ('v, 'h, 'v) api" where
  "napi_create_string_utf8 V str len result =
     NewString V str len result (jsv V (oNewFromUtf8 (chars str len) False))"

definition napi_create_string_utf16 :: "('v, 'h) v8 \<Rightarrow> u16 list option \<Rightarrow> nat \<Rightarrow> bool \<Rightarrow> ('v, 'h, 'v) api" where
  "napi_create_string_utf16 V str len result =
     NewString V str len result (jsv V (oNewFromTwoByte (chars str len) False))"

definition node_api_create_property_key_utf16 :: "('v, 'h) v8 \<Rightarrow> u16 list option \<Rightarrow> nat \<Rightarrow> bool \<Rightarrow> ('v, 'h, 'v) api" where
  "node_api_create_property_key_utf16 V str len result =
     NewString V str len result (jsv V (oNewFromTwoByte (chars str len) True))"

definition napi_create_symbol :: "('v, 'h) v8 \<Rightarrow> 'v option \<Rightarrow> bool \<Rightarrow> ('v, 'h, 'v) api" where
  "napi_create_symbol V description result =
     CHECK_ENV_NOT_IN_GC (CHECK_OUT result
       (case description of
          None \<Rightarrow> alloc V (nSymbol None) (\<lambda>v. succeed (Some v))
        | Some desc \<Rightarrow> RETURN_STATUS_IF_FALSE (Is V tString desc) napi_string_expected
            (alloc V (nSymbol (Some desc)) (\<lambda>v. succeed (Some v)))))"

definition node_api_symbol_for :: "('v, 'h) v8 \<Rightarrow> u8 list option \<Rightarrow> nat \<Rightarrow> bool \<Rightarrow> ('v, 'h, 'v) api" where
  "node_api_symbol_for V utf8description len result =
     CHECK_ENV_NOT_IN_GC (CHECK_OUT result
       (STATUS_CALL (napi_create_string_utf8 V utf8description len True) (\<lambda>js_description_string.
          with_out js_description_string (\<lambda>s. alloc V (nSymbolFor s) (\<lambda>v. succeed (Some v))))))"

section \<open>Errors and exceptions\<close>

definition set_error_code :: "('v, 'h) v8 \<Rightarrow> 'v \<Rightarrow> 'v option \<Rightarrow> u8 list option \<Rightarrow> ('v, 'h, unit) api" where
  "set_error_code V error code code_cstring =
     (if code \<noteq> None \<or> code_cstring \<noteq> None then
        (let set_code = (\<lambda>code_value.
               CHECK_NEW_FROM_UTF8 V (Some (bytes_of_string ''code'')) (\<lambda>code_key.
                 jsb V (oSet error (KeyV code_key) code_value) (\<lambda>set_maybe.
                   RETURN_STATUS_IF_FALSE (FromMaybe set_maybe) napi_generic_failure
                     proceed)))
         in case code of
              Some c \<Rightarrow> RETURN_STATUS_IF_FALSE (Is V tString c) napi_string_expected (set_code c)
            | None \<Rightarrow> CHECK_NEW_FROM_UTF8 V code_cstring set_code)
      else proceed)"

text \<open>The body that the four functions creating an error share.\<close>

definition create_error_of :: "error_kind \<Rightarrow> ('v, 'h) v8 \<Rightarrow> 'v option \<Rightarrow> 'v option \<Rightarrow> bool \<Rightarrow> ('v, 'h, 'v) api" where
  "create_error_of kind V code msg result =
     CHECK_ENV_NOT_IN_GC (CHECK_ARG msg (\<lambda>message_value. CHECK_OUT result
       (RETURN_STATUS_IF_FALSE (Is V tString message_value) napi_string_expected
         (alloc V (nError kind message_value) (\<lambda>error_obj.
           STATUS_CALL (set_error_code V error_obj code None) (\<lambda>_. succeed (Some error_obj)))))))"

definition napi_create_error :: "('v, 'h) v8 \<Rightarrow> 'v option \<Rightarrow> 'v option \<Rightarrow> bool \<Rightarrow> ('v, 'h, 'v) api" where
  "napi_create_error = create_error_of kError"

definition napi_create_type_error :: "('v, 'h) v8 \<Rightarrow> 'v option \<Rightarrow> 'v option \<Rightarrow> bool \<Rightarrow> ('v, 'h, 'v) api" where
  "napi_create_type_error = create_error_of kTypeError"

definition napi_create_range_error :: "('v, 'h) v8 \<Rightarrow> 'v option \<Rightarrow> 'v option \<Rightarrow> bool \<Rightarrow> ('v, 'h, 'v) api" where
  "napi_create_range_error = create_error_of kRangeError"

definition node_api_create_syntax_error :: "('v, 'h) v8 \<Rightarrow> 'v option \<Rightarrow> 'v option \<Rightarrow> bool \<Rightarrow> ('v, 'h, 'v) api" where
  "node_api_create_syntax_error = create_error_of kSyntaxError"

definition napi_throw :: "'v option \<Rightarrow> ('v, 'h, unit) api" where
  "napi_throw error = NAPI_PREAMBLE (CHECK_ARG error (\<lambda>x e. succeed None (ThrowException x e)))"

text \<open>The body that the four functions throwing a new error share.\<close>

definition throw_error_of :: "error_kind \<Rightarrow> ('v, 'h) v8 \<Rightarrow> u8 list option \<Rightarrow> u8 list option \<Rightarrow> ('v, 'h, unit) api" where
  "throw_error_of kind V code msg =
     NAPI_PREAMBLE (CHECK_NEW_FROM_UTF8 V msg (\<lambda>str.
       alloc V (nError kind str) (\<lambda>error_obj.
         STATUS_CALL (set_error_code V error_obj None code) (\<lambda>_ e.
           succeed None (ThrowException error_obj e)))))"

definition napi_throw_error :: "('v, 'h) v8 \<Rightarrow> u8 list option \<Rightarrow> u8 list option \<Rightarrow> ('v, 'h, unit) api" where
  "napi_throw_error = throw_error_of kError"

definition napi_throw_type_error :: "('v, 'h) v8 \<Rightarrow> u8 list option \<Rightarrow> u8 list option \<Rightarrow> ('v, 'h, unit) api" where
  "napi_throw_type_error = throw_error_of kTypeError"

definition napi_throw_range_error :: "('v, 'h) v8 \<Rightarrow> u8 list option \<Rightarrow> u8 list option \<Rightarrow> ('v, 'h, unit) api" where
  "napi_throw_range_error = throw_error_of kRangeError"

definition node_api_throw_syntax_error :: "('v, 'h) v8 \<Rightarrow> u8 list option \<Rightarrow> u8 list option \<Rightarrow> ('v, 'h, unit) api" where
  "node_api_throw_syntax_error = throw_error_of kSyntaxError"

definition THROW_RANGE_ERROR_IF_FALSE :: "('v, 'h) v8 \<Rightarrow> bool \<Rightarrow> string \<Rightarrow> string \<Rightarrow> ('v, 'h, 'a) api \<Rightarrow> ('v, 'h, 'a) api" where
  "THROW_RANGE_ERROR_IF_FALSE V condition error message k =
     (if condition then k
      else ignoring (napi_throw_range_error V (Some (bytes_of_string error)) (Some (bytes_of_string message)))
             (fail napi_generic_failure))"

section \<open>Inspection\<close>

text \<open>The predicates that only test the kind of a value.\<close>

definition is_kind :: "('v, 'h) v8 \<Rightarrow> v8_type \<Rightarrow> 'v option \<Rightarrow> bool \<Rightarrow> ('v, 'h, bool) api" where
  "is_kind V t value result =
     CHECK_ENV_NOT_IN_GC (CHECK_ARG value (\<lambda>val. CHECK_OUT result (succeed (Some (Is V t val)))))"

definition napi_is_array :: "('v, 'h) v8 \<Rightarrow> 'v option \<Rightarrow> bool \<Rightarrow> ('v, 'h, bool) api" where
  "napi_is_array V = is_kind V tArray"

definition napi_is_error :: "('v, 'h) v8 \<Rightarrow> 'v option \<Rightarrow> bool \<Rightarrow> ('v, 'h, bool) api" where
  "napi_is_error V = is_kind V tNativeError"

definition napi_is_arraybuffer :: "('v, 'h) v8 \<Rightarrow> 'v option \<Rightarrow> bool \<Rightarrow> ('v, 'h, bool) api" where
  "napi_is_arraybuffer V = is_kind V tArrayBuffer"

definition napi_is_typedarray :: "('v, 'h) v8 \<Rightarrow> 'v option \<Rightarrow> bool \<Rightarrow> ('v, 'h, bool) api" where
  "napi_is_typedarray V = is_kind V tTypedArray"

definition napi_is_dataview :: "('v, 'h) v8 \<Rightarrow> 'v option \<Rightarrow> bool \<Rightarrow> ('v, 'h, bool) api" where
  "napi_is_dataview V = is_kind V tDataView"

definition napi_is_promise :: "('v, 'h) v8 \<Rightarrow> 'v option \<Rightarrow> bool \<Rightarrow> ('v, 'h, bool) api" where
  "napi_is_promise V = is_kind V tPromise"

definition napi_is_date :: "('v, 'h) v8 \<Rightarrow> 'v option \<Rightarrow> bool \<Rightarrow> ('v, 'h, bool) api" where
  "napi_is_date V = is_kind V tDate"

datatype napi_valuetype =
    napi_undefined | napi_null | napi_boolean | napi_number | napi_string | napi_symbol | napi_object
  | napi_function | napi_external | napi_bigint

definition napi_typeof :: "('v, 'h) v8 \<Rightarrow> 'v option \<Rightarrow> bool \<Rightarrow> ('v, 'h, napi_valuetype) api" where
  "napi_typeof V value result =
     CHECK_ENV_NOT_IN_GC (CHECK_ARG value (\<lambda>v. CHECK_OUT result
       (if Is V tNumber v then succeed (Some napi_number)
        else if Is V tBigInt v then succeed (Some napi_bigint)
        else if Is V tString v then succeed (Some napi_string)
        else if Is V tFunction v then succeed (Some napi_function)
        else if Is V tExternal v then succeed (Some napi_external)
        else if Is V tObject v then succeed (Some napi_object)
        else if Is V tBoolean v then succeed (Some napi_boolean)
        else if Is V tUndefined v then succeed (Some napi_undefined)
        else if Is V tSymbol v then succeed (Some napi_symbol)
        else if Is V tNull v then succeed (Some napi_null)
        else fail napi_invalid_arg)))"

definition napi_get_array_length :: "('v, 'h) v8 \<Rightarrow> 'v option \<Rightarrow> bool \<Rightarrow> ('v, 'h, nat) api" where
  "napi_get_array_length V value result =
     NAPI_PREAMBLE (CHECK_ARG value (\<lambda>val. CHECK_OUT result
       (RETURN_STATUS_IF_FALSE (Is V tArray val) napi_array_expected
         (\<lambda>e. GET_RETURN_STATUS (Some (rd V (rArrayLength val) (isolate e))) e))))"

definition napi_strict_equals :: "('v, 'h) v8 \<Rightarrow> 'v option \<Rightarrow> 'v option \<Rightarrow> bool \<Rightarrow> ('v, 'h, bool) api" where
  "napi_strict_equals V lhs rhs result =
     NAPI_PREAMBLE (CHECK_ARG lhs (\<lambda>a. CHECK_ARG rhs (\<lambda>b. CHECK_OUT result
       (\<lambda>e. GET_RETURN_STATUS (Some (tst V (sStrictEquals a b) (isolate e))) e))))"

section \<open>Reading values\<close>

definition napi_get_value_double :: "('v, 'h) v8 \<Rightarrow> 'v option \<Rightarrow> bool \<Rightarrow> ('v, 'h, u64) api" where
  "napi_get_value_double V value result =
     CHECK_ENV_NOT_IN_GC (CHECK_ARG value (\<lambda>val. CHECK_OUT result
       (RETURN_STATUS_IF_FALSE (Is V tNumber val) napi_number_expected
         (\<lambda>e. succeed (Some (word_of_nat (rd V (rNumberValue val) (isolate e)))) e))))"

definition napi_get_value_int32 :: "('v, 'h) v8 \<Rightarrow> 'v option \<Rightarrow> bool \<Rightarrow> ('v, 'h, int) api" where
  "napi_get_value_int32 V value result =
     CHECK_ENV_NOT_IN_GC (CHECK_ARG value (\<lambda>val. CHECK_OUT result
       (if Is V tInt32 val then (\<lambda>e. succeed (Some (rdi V (iInt32Value val) (isolate e))) e)
        else RETURN_STATUS_IF_FALSE (Is V tNumber val) napi_number_expected
          (\<lambda>e. succeed (Some (rdi V (iInt32Value val) (isolate e))) e))))"

definition napi_get_value_uint32 :: "('v, 'h) v8 \<Rightarrow> 'v option \<Rightarrow> bool \<Rightarrow> ('v, 'h, int) api" where
  "napi_get_value_uint32 V value result =
     CHECK_ENV_NOT_IN_GC (CHECK_ARG value (\<lambda>val. CHECK_OUT result
       (if Is V tUint32 val then (\<lambda>e. succeed (Some (rdi V (iUint32Value val) (isolate e))) e)
        else RETURN_STATUS_IF_FALSE (Is V tNumber val) napi_number_expected
          (\<lambda>e. succeed (Some (rdi V (iUint32Value val) (isolate e))) e))))"

text \<open>\<open>std::isfinite\<close> on the bits of a double: the exponent is not all ones.\<close>

definition isfinite :: "u64 \<Rightarrow> bool" where
  "isfinite d \<longleftrightarrow> drop_bit 52 d AND 0x7FF \<noteq> 0x7FF"

definition napi_get_value_int64 :: "('v, 'h) v8 \<Rightarrow> 'v option \<Rightarrow> bool \<Rightarrow> ('v, 'h, int) api" where
  "napi_get_value_int64 V value result =
     CHECK_ENV_NOT_IN_GC (CHECK_ARG value (\<lambda>val. CHECK_OUT result
       (if Is V tInt32 val then (\<lambda>e. succeed (Some (rdi V (iInt32Value val) (isolate e))) e)
        else RETURN_STATUS_IF_FALSE (Is V tNumber val) napi_number_expected (\<lambda>e.
          if isfinite (word_of_nat (rd V (rNumberValue val) (isolate e)))
          then succeed (Some (rdi V (iIntegerValue val) (isolate e))) e
          else succeed (Some 0) e))))"

definition napi_get_value_bigint_int64 :: "('v, 'h) v8 \<Rightarrow> 'v option \<Rightarrow> bool \<Rightarrow> bool \<Rightarrow> ('v, 'h, int \<times> bool) api" where
  "napi_get_value_bigint_int64 V value result lossless =
     CHECK_ENV_NOT_IN_GC (CHECK_ARG value (\<lambda>val. CHECK_OUT result (CHECK_OUT lossless
       (RETURN_STATUS_IF_FALSE (Is V tBigInt val) napi_bigint_expected (\<lambda>e.
          succeed (Some (rdi V (iInt64Value val) (isolate e), tst V (sInt64Lossless val) (isolate e))) e)))))"

definition napi_get_value_bigint_uint64 :: "('v, 'h) v8 \<Rightarrow> 'v option \<Rightarrow> bool \<Rightarrow> bool \<Rightarrow> ('v, 'h, int \<times> bool) api" where
  "napi_get_value_bigint_uint64 V value result lossless =
     CHECK_ENV_NOT_IN_GC (CHECK_ARG value (\<lambda>val. CHECK_OUT result (CHECK_OUT lossless
       (RETURN_STATUS_IF_FALSE (Is V tBigInt val) napi_bigint_expected (\<lambda>e.
          succeed (Some (rdi V (iUint64Value val) (isolate e), tst V (sUint64Lossless val) (isolate e))) e)))))"

text \<open>\<open>BigInt::ToWordsArray\<close>: the sign, the number of words of the value and the words that fit.\<close>

definition ToWordsArray :: "bool \<times> u64 list \<Rightarrow> int \<Rightarrow> bool \<times> int \<times> u64 list" where
  "ToWordsArray b word_count = (fst b, int (length (snd b)), take (nat word_count) (snd b))"

text \<open>The out-values: the word count (a \<^verbatim>\<open>size_t\<close>) and, if asked for, the sign and the words.\<close>

definition napi_get_value_bigint_words :: "('v, 'h) v8 \<Rightarrow> 'v option \<Rightarrow> bool \<Rightarrow> nat option \<Rightarrow> bool \<Rightarrow>
    ('v, 'h, nat \<times> (bool \<times> u64 list) option) api" where
  "napi_get_value_bigint_words V value sign_bit word_count words =
     CHECK_ENV_NOT_IN_GC (CHECK_ARG value (\<lambda>val. CHECK_ARG word_count (\<lambda>wc.
       RETURN_STATUS_IF_FALSE (Is V tBigInt val) napi_bigint_expected
         (if \<not> sign_bit \<and> \<not> words then
            (\<lambda>e. succeed (Some (length (snd (bigint_words V val (isolate e))), None)) e)
          else CHECK_OUT sign_bit (CHECK_OUT words (\<lambda>e.
            case ToWordsArray (bigint_words V val (isolate e)) (to_int wc) of (sign, count, ws) \<Rightarrow>
              succeed (Some (nat count, Some (sign, ws))) e))))))"

definition napi_get_value_bool :: "('v, 'h) v8 \<Rightarrow> 'v option \<Rightarrow> bool \<Rightarrow> ('v, 'h, bool) api" where
  "napi_get_value_bool V value result =
     CHECK_ENV_NOT_IN_GC (CHECK_ARG value (\<lambda>val. CHECK_OUT result
       (RETURN_STATUS_IF_FALSE (Is V tBoolean val) napi_boolean_expected
         (\<lambda>e. succeed (Some (tst V (sBooleanValue val) (isolate e))) e))))"

text \<open>
  The three functions that copy a string into a buffer of \<open>bufsize\<close> units (\<open>buf\<close> tells whether there is
  one). The out-values are the units stored, the terminator included, and the result count.
  Storing past the end of the buffer is the fault \<open>OutOfBounds\<close>.
\<close>

definition store_terminated :: "u16 list \<Rightarrow> nat \<Rightarrow> bool \<Rightarrow> ('v, 'h, u16 list \<times> nat option) api" where
  "store_terminated ws bufsize result e =
     check (length ws < bufsize) OutOfBounds
       (succeed (Some (ws @ [0], if result then Some (length ws) else None)) e)"

definition get_value_string_of :: "str_enc \<Rightarrow> ('v \<Rightarrow> 'v v8_read) \<Rightarrow> ('v, 'h) v8 \<Rightarrow> 'v option \<Rightarrow> bool \<Rightarrow> nat \<Rightarrow> bool \<Rightarrow>
    ('v, 'h, u16 list \<times> nat option) api" where
  "get_value_string_of enc len V value buf bufsize result =
     CHECK_ENV_NOT_IN_GC (CHECK_ARG value (\<lambda>val.
       RETURN_STATUS_IF_FALSE (Is V tString val) napi_string_expected
         (if \<not> buf then CHECK_OUT result (\<lambda>e. succeed (Some ([], Some (rd V (len val) (isolate e)))) e)
          else if bufsize \<noteq> 0 then
            (\<lambda>e. store_terminated (string_write V enc val (to_int (bufsize - 1)) (isolate e)) bufsize result e)
          else if result then succeed (Some ([], Some 0))
          else succeed None)))"

definition napi_get_value_string_latin1 :: "('v, 'h) v8 \<Rightarrow> 'v option \<Rightarrow> bool \<Rightarrow> nat \<Rightarrow> bool \<Rightarrow>
    ('v, 'h, u16 list \<times> nat option) api" where
  "napi_get_value_string_latin1 = get_value_string_of Latin1 rStringLength"

definition napi_get_value_string_utf8 :: "('v, 'h) v8 \<Rightarrow> 'v option \<Rightarrow> bool \<Rightarrow> nat \<Rightarrow> bool \<Rightarrow>
    ('v, 'h, u16 list \<times> nat option) api" where
  "napi_get_value_string_utf8 = get_value_string_of Utf8 rUtf8Length"

definition napi_get_value_string_utf16 :: "('v, 'h) v8 \<Rightarrow> 'v option \<Rightarrow> bool \<Rightarrow> nat \<Rightarrow> bool \<Rightarrow>
    ('v, 'h, u16 list \<times> nat option) api" where
  "napi_get_value_string_utf16 = get_value_string_of Utf16 rStringLength"

section \<open>Coercions\<close>

definition napi_coerce_to_bool :: "('v, 'h) v8 \<Rightarrow> 'v option \<Rightarrow> bool \<Rightarrow> ('v, 'h, 'v) api" where
  "napi_coerce_to_bool V value result =
     NAPI_PREAMBLE (CHECK_ARG value (\<lambda>v. CHECK_OUT result
       (\<lambda>e. GET_RETURN_STATUS (Some (v_bool V (tst V (sBooleanValue v) (isolate e)))) e)))"

definition napi_coerce_to_number :: "('v, 'h) v8 \<Rightarrow> 'v option \<Rightarrow> bool \<Rightarrow> ('v, 'h, 'v) api" where
  "napi_coerce_to_number V value result =
     NAPI_PREAMBLE (CHECK_ARG value (\<lambda>_. CHECK_OUT result
       (CHECK_TO_NUMBER V value (\<lambda>x. GET_RETURN_STATUS (Some x)))))"

definition napi_coerce_to_object :: "('v, 'h) v8 \<Rightarrow> 'v option \<Rightarrow> bool \<Rightarrow> ('v, 'h, 'v) api" where
  "napi_coerce_to_object V value result =
     NAPI_PREAMBLE (CHECK_ARG value (\<lambda>_. CHECK_OUT result
       (CHECK_TO_OBJECT V value (\<lambda>x. GET_RETURN_STATUS (Some x)))))"

definition napi_coerce_to_string :: "('v, 'h) v8 \<Rightarrow> 'v option \<Rightarrow> bool \<Rightarrow> ('v, 'h, 'v) api" where
  "napi_coerce_to_string V value result =
     NAPI_PREAMBLE (CHECK_ARG value (\<lambda>_. CHECK_OUT result
       (CHECK_TO_STRING V value (\<lambda>x. GET_RETURN_STATUS (Some x)))))"

section \<open>Array buffers, typed arrays and data views\<close>

definition napi_create_arraybuffer :: "('v, 'h) v8 \<Rightarrow> nat \<Rightarrow> bool \<Rightarrow> bool \<Rightarrow> ('v, 'h, 'v \<times> ptr option) api" where
  "napi_create_arraybuffer V byte_length data result =
     NAPI_PREAMBLE (CHECK_OUT result (alloc V (nArrayBuffer byte_length) (\<lambda>buffer e.
       GET_RETURN_STATUS (Some (buffer, if data then Some (rd V (rData buffer) (isolate e)) else None)) e)))"

definition napi_get_arraybuffer_info :: "('v, 'h) v8 \<Rightarrow> 'v option \<Rightarrow> bool \<Rightarrow> bool \<Rightarrow> ('v, 'h, ptr option \<times> nat option) api" where
  "napi_get_arraybuffer_info V arraybuffer data byte_length =
     CHECK_ENV_NOT_IN_GC (CHECK_ARG arraybuffer (\<lambda>ab.
       RETURN_STATUS_IF_FALSE (Is V tArrayBuffer ab) napi_invalid_arg (\<lambda>e.
         succeed (Some (if data then Some (rd V (rData ab) (isolate e)) else None,
                        if byte_length then Some (rd V (rByteLength ab) (isolate e)) else None)) e)))"

fun size_of_element :: "napi_typedarray_type \<Rightarrow> u64" where
  "size_of_element napi_int8_array = 1"
| "size_of_element napi_uint8_array = 1"
| "size_of_element napi_uint8_clamped_array = 1"
| "size_of_element napi_int16_array = 2"
| "size_of_element napi_uint16_array = 2"
| "size_of_element napi_int32_array = 4"
| "size_of_element napi_uint32_array = 4"
| "size_of_element napi_float32_array = 4"
| "size_of_element napi_float64_array = 8"
| "size_of_element napi_bigint64_array = 8"
| "size_of_element napi_biguint64_array = 8"

fun alignment_message :: "napi_typedarray_type \<Rightarrow> string" where
  "alignment_message napi_int8_array = ''''"
| "alignment_message napi_uint8_array = ''''"
| "alignment_message napi_uint8_clamped_array = ''''"
| "alignment_message napi_int16_array = ''start offset of Int16Array should be a multiple of 2''"
| "alignment_message napi_uint16_array = ''start offset of Uint16Array should be a multiple of 2''"
| "alignment_message napi_int32_array = ''start offset of Int32Array should be a multiple of 4''"
| "alignment_message napi_uint32_array = ''start offset of Uint32Array should be a multiple of 4''"
| "alignment_message napi_float32_array = ''start offset of Float32Array should be a multiple of 4''"
| "alignment_message napi_float64_array = ''start offset of Float64Array should be a multiple of 8''"
| "alignment_message napi_bigint64_array = ''start offset of BigInt64Array should be a multiple of 8''"
| "alignment_message napi_biguint64_array = ''start offset of BigUint64Array should be a multiple of 8''"

text \<open>The size check is computed in \<^verbatim>\<open>size_t\<close>.\<close>

definition CREATE_TYPED_ARRAY :: "('v, 'h) v8 \<Rightarrow> napi_typedarray_type \<Rightarrow> 'v \<Rightarrow> u64 \<Rightarrow> u64 \<Rightarrow>
    ('v \<Rightarrow> ('v, 'h, 'a) api) \<Rightarrow> ('v, 'h, 'a) api" where
  "CREATE_TYPED_ARRAY V type buffer byte_offset len k =
     (let size = size_of_element type;
          create = (\<lambda>e. THROW_RANGE_ERROR_IF_FALSE V
            (len * size + byte_offset \<le> word_of_nat (rd V (rByteLength buffer) (isolate e)))
            ''ERR_NAPI_INVALID_TYPEDARRAY_LENGTH'' ''Invalid typed array length''
            (alloc V (nTypedArray type buffer (unat byte_offset) (unat len)) k) e)
      in if size > 1 then
           THROW_RANGE_ERROR_IF_FALSE V (byte_offset mod size = 0)
             ''ERR_NAPI_INVALID_TYPEDARRAY_ALIGNMENT'' (alignment_message type) create
         else create)"

text \<open>A type outside the enumeration is \<open>None\<close>.\<close>

definition napi_create_typedarray :: "('v, 'h) v8 \<Rightarrow> napi_typedarray_type option \<Rightarrow> u64 \<Rightarrow> 'v option \<Rightarrow> u64 \<Rightarrow> bool \<Rightarrow>
    ('v, 'h, 'v) api" where
  "napi_create_typedarray V type len arraybuffer byte_offset result =
     NAPI_PREAMBLE (CHECK_ARG arraybuffer (\<lambda>value. CHECK_OUT result
       (RETURN_STATUS_IF_FALSE (Is V tArrayBuffer value) napi_invalid_arg
         (case type of
            None \<Rightarrow> fail napi_invalid_arg
          | Some t \<Rightarrow> CREATE_TYPED_ARRAY V t value byte_offset len
              (\<lambda>typedArray. GET_RETURN_STATUS (Some typedArray))))))"

text \<open>The kind of a typed array, tested in the order of the code.\<close>

definition typedarray_kind :: "('v, 'h) v8 \<Rightarrow> 'v \<Rightarrow> napi_typedarray_type option" where
  "typedarray_kind V v =
     find (\<lambda>t. Is V (tArrayOf t) v)
       [napi_int8_array, napi_uint8_array, napi_uint8_clamped_array, napi_int16_array, napi_uint16_array,
        napi_int32_array, napi_uint32_array, napi_float32_array, napi_float64_array,
        napi_bigint64_array, napi_biguint64_array]"

record 'v view_info =
  vi_type :: "napi_typedarray_type option"
  vi_length :: nat
  vi_data :: "ptr option"
  vi_buffer :: "'v option"
  vi_offset :: nat

text \<open>The buffer is only fetched when the data or the buffer is asked for.\<close>

definition view_buffer :: "('v, 'h) v8 \<Rightarrow> 'v \<Rightarrow> bool \<Rightarrow> bool \<Rightarrow> napi_typedarray_type option \<Rightarrow> nat \<Rightarrow>
    ('v, 'h, 'v view_info) api" where
  "view_buffer V array data arraybuffer t len =
     (let info = (\<lambda>buffer e. \<lparr>vi_type = t, vi_length = len,
            vi_data = (if data then map_option (\<lambda>b. rd V (rData b) (isolate e) + rd V (rByteOffset array) (isolate e)) buffer
                       else None),
            vi_buffer = (if arraybuffer then buffer else None),
            vi_offset = rd V (rByteOffset array) (isolate e)\<rparr>)
      in if data \<or> arraybuffer then
           alloc V (nBufferOf array) (\<lambda>buffer e. succeed (Some (info (Some buffer) e)) e)
         else (\<lambda>e. succeed (Some (info None e)) e))"

definition napi_get_typedarray_info :: "('v, 'h) v8 \<Rightarrow> 'v option \<Rightarrow> bool \<Rightarrow> bool \<Rightarrow> bool \<Rightarrow> ('v, 'h, 'v view_info) api" where
  "napi_get_typedarray_info V typedarray type data arraybuffer =
     CHECK_ENV_NOT_IN_GC (CHECK_ARG typedarray (\<lambda>array.
       RETURN_STATUS_IF_FALSE (Is V tTypedArray array) napi_invalid_arg (\<lambda>e.
         view_buffer V array data arraybuffer (if type then typedarray_kind V array else None)
           (rd V (rLength array) (isolate e)) e)))"

definition napi_create_dataview :: "('v, 'h) v8 \<Rightarrow> u64 \<Rightarrow> 'v option \<Rightarrow> u64 \<Rightarrow> bool \<Rightarrow> ('v, 'h, 'v) api" where
  "napi_create_dataview V byte_length arraybuffer byte_offset result =
     NAPI_PREAMBLE (CHECK_ARG arraybuffer (\<lambda>buffer. CHECK_OUT result
       (RETURN_STATUS_IF_FALSE (Is V tArrayBuffer buffer) napi_invalid_arg (\<lambda>e.
         if byte_length + byte_offset > word_of_nat (rd V (rByteLength buffer) (isolate e)) then
           ignoring (napi_throw_range_error V (Some (bytes_of_string ''ERR_NAPI_INVALID_DATAVIEW_ARGS''))
               (Some (bytes_of_string ''byte_offset + byte_length should be less than or equal to the size in bytes of the array passed in'')))
             (fail napi_pending_exception) e
         else alloc V (nDataView buffer (unat byte_offset) (unat byte_length))
           (\<lambda>v. GET_RETURN_STATUS (Some v)) e))))"

definition napi_get_dataview_info :: "('v, 'h) v8 \<Rightarrow> 'v option \<Rightarrow> bool \<Rightarrow> bool \<Rightarrow> ('v, 'h, 'v view_info) api" where
  "napi_get_dataview_info V dataview data arraybuffer =
     CHECK_ENV_NOT_IN_GC (CHECK_ARG dataview (\<lambda>array.
       RETURN_STATUS_IF_FALSE (Is V tDataView array) napi_invalid_arg (\<lambda>e.
         view_buffer V array data arraybuffer None (rd V (rByteLength array) (isolate e)) e)))"

definition napi_detach_arraybuffer :: "('v, 'h) v8 \<Rightarrow> 'v option \<Rightarrow> ('v, 'h, unit) api" where
  "napi_detach_arraybuffer V arraybuffer =
     CHECK_ENV_NOT_IN_GC (CHECK_ARG arraybuffer (\<lambda>it.
       RETURN_STATUS_IF_FALSE (Is V tArrayBuffer it) napi_arraybuffer_expected (\<lambda>e.
         RETURN_STATUS_IF_FALSE (tst V (sIsDetachable it) (isolate e)) napi_detachable_arraybuffer_expected
           (effect V (fDetach it) (succeed None)) e)))"

definition napi_is_detached_arraybuffer :: "('v, 'h) v8 \<Rightarrow> 'v option \<Rightarrow> bool \<Rightarrow> ('v, 'h, bool) api" where
  "napi_is_detached_arraybuffer V arraybuffer result =
     CHECK_ENV_NOT_IN_GC (CHECK_ARG arraybuffer (\<lambda>value. CHECK_OUT result (\<lambda>e.
       succeed (Some (Is V tArrayBuffer value \<and> tst V (sWasDetached value) (isolate e))) e)))"

section \<open>Dates, version and memory\<close>

definition napi_create_date :: "('v, 'h) v8 \<Rightarrow> u64 \<Rightarrow> bool \<Rightarrow> ('v, 'h, 'v) api" where
  "napi_create_date V time result =
     NAPI_PREAMBLE (CHECK_OUT result (jsv V (oNewDate time) (\<lambda>maybe_date.
       CHECK_MAYBE maybe_date napi_generic_failure (\<lambda>v. GET_RETURN_STATUS (Some v)))))"

definition napi_get_date_value :: "('v, 'h) v8 \<Rightarrow> 'v option \<Rightarrow> bool \<Rightarrow> ('v, 'h, u64) api" where
  "napi_get_date_value V value result =
     NAPI_PREAMBLE (CHECK_ARG value (\<lambda>val. CHECK_OUT result
       (RETURN_STATUS_IF_FALSE (Is V tDate val) napi_date_expected
         (\<lambda>e. GET_RETURN_STATUS (Some (word_of_nat (rd V (rDateValue val) (isolate e)))) e))))"

definition NODE_API_SUPPORTED_VERSION_MAX :: nat where
  "NODE_API_SUPPORTED_VERSION_MAX = 9"

definition napi_get_version :: "bool \<Rightarrow> ('v, 'h, nat) api" where
  "napi_get_version result = CHECK_OUT result (succeed (Some NODE_API_SUPPORTED_VERSION_MAX))"

definition napi_adjust_external_memory :: "('v, 'h) v8 \<Rightarrow> int \<Rightarrow> bool \<Rightarrow> ('v, 'h, int) api" where
  "napi_adjust_external_memory V change_in_bytes adjusted_value =
     CHECK_OUT adjusted_value (\<lambda>e.
       case adjust_memory V change_in_bytes (isolate e) of (n, h) \<Rightarrow> succeed (Some n) (e\<lparr>isolate := h\<rparr>))"

end
