(* ===== verification/Napi_Objects.thy ===== *)
theory Napi_Objects
  imports Napi_Refs Napi_Values
begin

text \<open>
  The Node-API functions on objects, functions, classes, wrapped and tagged objects, promises, scripts and
  external memory (\<^verbatim>\<open>src/src/node-api/js_native_api_v8.cc\<close>, the last two also
  \<^verbatim>\<open>v8_api.cpp\<close>). A list of arguments or descriptors comes with its count, of which the
  first elements are used.
\<close>

section \<open>Functions\<close>

text \<open>\<open>CallbackBundle\<close>: the address of its deleter stands for \<open>CallbackBundle::Delete\<close>; \<open>library_callbacks\<close>
  adds it to the callbacks of the user.\<close>

definition CallbackBundle_Delete :: ptr where
  "CallbackBundle_Delete = 1"

definition library_callbacks :: "('v, 'h) user \<Rightarrow> ('v, 'h) user" where
  "library_callbacks U cb data hint e =
     (if cb = CallbackBundle_Delete then Inr (e\<lparr>bundles := (bundles e)(data := None)\<rparr>) else U cb data hint e)"

definition CallbackBundle_New :: "('v, 'h) v8 \<Rightarrow> ptr \<Rightarrow> ptr \<Rightarrow> ('v, 'h) napi_env \<Rightarrow> 'v \<times> ('v, 'h) napi_env" where
  "CallbackBundle_New V cb data e =
     (let b = next_cell e;
          e1 = e\<lparr>bundles := (bundles e)(b \<mapsto> \<lparr>bundle_cb = cb, bundle_data = data\<rparr>), next_cell := b + 1\<rparr>;
          (cbdata, h) = new V (nExternal b) (isolate e1);
          (i, e2) = ReferenceWithFinalizer_New V cbdata 0 kRuntime (Some CallbackBundle_Delete) b 0 (e1\<lparr>isolate := h\<rparr>)
      in (cbdata, e2))"

definition NewFunction :: "('v, 'h) v8 \<Rightarrow> ptr \<Rightarrow> ptr \<Rightarrow> ('v, 'h, 'v) api" where
  "NewFunction V cb data =
     with_new (CallbackBundle_New V cb data) (\<lambda>cbdata.
       jsv V (oFunctionNew cbdata) (\<lambda>maybe_function.
         CHECK_MAYBE maybe_function napi_generic_failure (\<lambda>f. succeed (Some f))))"

definition NewTemplate :: "('v, 'h) v8 \<Rightarrow> ptr \<Rightarrow> ptr \<Rightarrow> 'v option \<Rightarrow> ('v, 'h, 'v) api" where
  "NewTemplate V cb data sig =
     with_new (CallbackBundle_New V cb data) (\<lambda>cbdata.
       alloc V (nTemplate cbdata sig) (\<lambda>t. succeed (Some t)))"

definition napi_create_function :: "('v, 'h) v8 \<Rightarrow> u8 list option \<Rightarrow> nat \<Rightarrow> ptr option \<Rightarrow> ptr \<Rightarrow> bool \<Rightarrow> ('v, 'h, 'v) api" where
  "napi_create_function V utf8name len cb callback_data result =
     NAPI_PREAMBLE (CHECK_OUT result (CHECK_ARG cb (\<lambda>c.
       STATUS_CALL (NewFunction V c callback_data) (\<lambda>fn. with_out fn (\<lambda>f.
         if utf8name \<noteq> None then
           CHECK_NEW_FROM_UTF8_LEN V utf8name len (\<lambda>name_string.
             effect V (fSetName f name_string) (GET_RETURN_STATUS (Some f)))
         else GET_RETURN_STATUS (Some f))))))"

definition napi_call_function :: "('v, 'h) v8 \<Rightarrow> 'v option \<Rightarrow> 'v option \<Rightarrow> nat \<Rightarrow> 'v list option \<Rightarrow> bool \<Rightarrow> ('v, 'h, 'v) api" where
  "napi_call_function V recv func argc argv result =
     NAPI_PREAMBLE (CHECK_ARG recv (\<lambda>v8recv.
       let call = (\<lambda>args. CHECK_TO_FUNCTION V func (\<lambda>v8func.
             jsv V (oCall v8func v8recv args) (\<lambda>maybe.
               CHECK_MAYBE_WITH_PREAMBLE maybe napi_generic_failure
                 (\<lambda>v. succeed (if result then Some v else None)))))
       in if argc > 0 then CHECK_ARG argv (\<lambda>args. call (take argc args)) else call []))"

definition napi_new_instance :: "('v, 'h) v8 \<Rightarrow> 'v option \<Rightarrow> nat \<Rightarrow> 'v list option \<Rightarrow> bool \<Rightarrow> ('v, 'h, 'v) api" where
  "napi_new_instance V constructor argc argv result =
     NAPI_PREAMBLE (CHECK_ARG constructor (\<lambda>_.
       let create = (\<lambda>args. CHECK_OUT result (CHECK_TO_FUNCTION V constructor (\<lambda>ctor.
             jsv V (oNewInstance ctor args) (\<lambda>maybe.
               CHECK_MAYBE_WITH_PREAMBLE maybe napi_generic_failure (\<lambda>v. succeed (Some v))))))
       in if argc > 0 then CHECK_ARG argv (\<lambda>args. create (take argc args)) else create []))"

definition napi_instanceof :: "('v, 'h) v8 \<Rightarrow> 'v option \<Rightarrow> 'v option \<Rightarrow> bool \<Rightarrow> ('v, 'h, bool) api" where
  "napi_instanceof V object constructor result =
     NAPI_PREAMBLE (CHECK_ARG object (\<lambda>val. CHECK_OUT result (stored False
       (CHECK_TO_OBJECT V constructor (\<lambda>ctor.
         if \<not> Is V tFunction ctor then
           ignoring (napi_throw_type_error V (Some (bytes_of_string ''ERR_NAPI_CONS_FUNCTION''))
               (Some (bytes_of_string ''Constructor must be a function'')))
             (fail napi_function_expected)
         else jsb V (oInstanceOf val ctor) (\<lambda>maybe_result.
           CHECK_MAYBE_WITH_PREAMBLE maybe_result napi_generic_failure (\<lambda>b. succeed (Some b))))))))"

section \<open>Properties\<close>

definition napi_writable :: u32 where "napi_writable = 1"
definition napi_enumerable :: u32 where "napi_enumerable = 2"
definition napi_configurable :: u32 where "napi_configurable = 4"
definition napi_static :: u32 where "napi_static = 1024"

definition has_attr :: "u32 \<Rightarrow> u32 \<Rightarrow> bool" where
  "has_attr attributes flag \<longleftrightarrow> attributes AND flag \<noteq> 0"

record 'v napi_property_descriptor =
  utf8name :: "u8 list option"
  pd_name :: "'v option"
  pd_method :: "ptr option"
  pd_getter :: "ptr option"
  pd_setter :: "ptr option"
  pd_value :: 'v
  attributes :: u32
  pd_data :: ptr

definition V8NameFromPropertyDescriptor :: "('v, 'h) v8 \<Rightarrow> 'v napi_property_descriptor \<Rightarrow> ('v, 'h, 'v) api" where
  "V8NameFromPropertyDescriptor V p =
     (if utf8name p \<noteq> None then CHECK_NEW_FROM_UTF8 V (utf8name p) (\<lambda>s e. Inr (napi_ok, Some s, e))
      else with_out (pd_name p) (\<lambda>property_value.
        RETURN_STATUS_IF_FALSE (Is V tName property_value) napi_name_expected
          (\<lambda>e. Inr (napi_ok, Some property_value, e))))"

text \<open>The values of \<open>v8::PropertyAttribute\<close>\<close>

definition ReadOnly :: u32 where "ReadOnly = 1"
definition DontEnum :: u32 where "DontEnum = 2"
definition DontDelete :: u32 where "DontDelete = 4"

definition V8PropertyAttributesFromDescriptor :: "'v napi_property_descriptor \<Rightarrow> u32" where
  "V8PropertyAttributesFromDescriptor d =
     (let f0 = 0;
          f1 = (if (pd_getter d = None \<and> pd_setter d = None) \<and> \<not> has_attr (attributes d) napi_writable
                then f0 OR ReadOnly else f0);
          f2 = (if \<not> has_attr (attributes d) napi_enumerable then f1 OR DontEnum else f1)
      in if \<not> has_attr (attributes d) napi_configurable then f2 OR DontDelete else f2)"

datatype napi_key_collection_mode = napi_key_include_prototypes | napi_key_own_only
datatype napi_key_conversion = napi_key_keep_numbers | napi_key_numbers_to_strings

definition napi_key_writable :: u32 where "napi_key_writable = 1"
definition napi_key_enumerable :: u32 where "napi_key_enumerable = 2"
definition napi_key_configurable :: u32 where "napi_key_configurable = 4"
definition napi_key_skip_strings :: u32 where "napi_key_skip_strings = 8"
definition napi_key_skip_symbols :: u32 where "napi_key_skip_symbols = 16"

text \<open>The values of \<open>v8::PropertyFilter\<close>\<close>

definition ONLY_WRITABLE :: u32 where "ONLY_WRITABLE = 1"
definition ONLY_ENUMERABLE :: u32 where "ONLY_ENUMERABLE = 2"
definition ONLY_CONFIGURABLE :: u32 where "ONLY_CONFIGURABLE = 4"
definition SKIP_STRINGS :: u32 where "SKIP_STRINGS = 8"
definition SKIP_SYMBOLS :: u32 where "SKIP_SYMBOLS = 16"

definition v8_filter :: "u32 \<Rightarrow> u32" where
  "v8_filter key_filter =
     (let f0 = 0;
          f1 = (if has_attr key_filter napi_key_writable then f0 OR ONLY_WRITABLE else f0);
          f2 = (if has_attr key_filter napi_key_enumerable then f1 OR ONLY_ENUMERABLE else f1);
          f3 = (if has_attr key_filter napi_key_configurable then f2 OR ONLY_CONFIGURABLE else f2);
          f4 = (if has_attr key_filter napi_key_skip_strings then f3 OR SKIP_STRINGS else f3)
      in if has_attr key_filter napi_key_skip_symbols then f4 OR SKIP_SYMBOLS else f4)"

text \<open>A mode outside its enumeration is \<open>None\<close>. The flags for the engine: include prototypes, convert to strings.\<close>

definition napi_get_all_property_names :: "('v, 'h) v8 \<Rightarrow> 'v option \<Rightarrow> napi_key_collection_mode option \<Rightarrow> u32 \<Rightarrow>
    napi_key_conversion option \<Rightarrow> bool \<Rightarrow> ('v, 'h, 'v) api" where
  "napi_get_all_property_names V object key_mode key_filter key_conversion result =
     NAPI_PREAMBLE (CHECK_OUT result (CHECK_TO_OBJECT V object (\<lambda>obj.
       case key_mode of
         None \<Rightarrow> fail napi_invalid_arg
       | Some mode \<Rightarrow>
           (case key_conversion of
              None \<Rightarrow> fail napi_invalid_arg
            | Some conv \<Rightarrow>
                jsv V (oGetPropertyNames obj (mode = napi_key_include_prototypes) (v8_filter key_filter)
                    (conv = napi_key_numbers_to_strings)) (\<lambda>names.
                  CHECK_MAYBE_WITH_PREAMBLE names napi_generic_failure (\<lambda>v. GET_RETURN_STATUS (Some v)))))))"

definition napi_get_property_names :: "('v, 'h) v8 \<Rightarrow> 'v option \<Rightarrow> bool \<Rightarrow> ('v, 'h, 'v) api" where
  "napi_get_property_names V object result =
     napi_get_all_property_names V object (Some napi_key_include_prototypes)
       (napi_key_enumerable OR napi_key_skip_symbols) (Some napi_key_numbers_to_strings) result"

definition napi_set_property :: "('v, 'h) v8 \<Rightarrow> 'v option \<Rightarrow> 'v option \<Rightarrow> 'v option \<Rightarrow> ('v, 'h, unit) api" where
  "napi_set_property V object key value =
     NAPI_PREAMBLE (CHECK_ARG key (\<lambda>k. CHECK_ARG value (\<lambda>val. CHECK_TO_OBJECT V object (\<lambda>obj.
       jsb V (oSet obj (KeyV k) val) (\<lambda>set_maybe.
         RETURN_STATUS_IF_FALSE_WITH_PREAMBLE (FromMaybe set_maybe) napi_generic_failure
           (GET_RETURN_STATUS None))))))"

definition napi_has_property :: "('v, 'h) v8 \<Rightarrow> 'v option \<Rightarrow> 'v option \<Rightarrow> bool \<Rightarrow> ('v, 'h, bool) api" where
  "napi_has_property V object key result =
     NAPI_PREAMBLE (CHECK_OUT result (CHECK_ARG key (\<lambda>k. CHECK_TO_OBJECT V object (\<lambda>obj.
       jsb V (oHas obj (KeyV k)) (\<lambda>has_maybe.
         CHECK_MAYBE_WITH_PREAMBLE has_maybe napi_generic_failure (\<lambda>b. GET_RETURN_STATUS (Some b)))))))"

definition napi_get_property :: "('v, 'h) v8 \<Rightarrow> 'v option \<Rightarrow> 'v option \<Rightarrow> bool \<Rightarrow> ('v, 'h, 'v) api" where
  "napi_get_property V object key result =
     NAPI_PREAMBLE (CHECK_ARG key (\<lambda>k. CHECK_OUT result (CHECK_TO_OBJECT V object (\<lambda>obj.
       jsv V (oGet obj (KeyV k)) (\<lambda>get_maybe.
         CHECK_MAYBE_WITH_PREAMBLE get_maybe napi_generic_failure (\<lambda>v. GET_RETURN_STATUS (Some v)))))))"

definition napi_delete_property :: "('v, 'h) v8 \<Rightarrow> 'v option \<Rightarrow> 'v option \<Rightarrow> bool \<Rightarrow> ('v, 'h, bool) api" where
  "napi_delete_property V object key result =
     NAPI_PREAMBLE (CHECK_ARG key (\<lambda>k. CHECK_TO_OBJECT V object (\<lambda>obj.
       jsb V (oDelete obj (KeyV k)) (\<lambda>delete_maybe.
         CHECK_MAYBE_WITH_PREAMBLE delete_maybe napi_generic_failure
           (\<lambda>b. GET_RETURN_STATUS (if result then Some b else None))))))"

definition napi_has_own_property :: "('v, 'h) v8 \<Rightarrow> 'v option \<Rightarrow> 'v option \<Rightarrow> bool \<Rightarrow> ('v, 'h, bool) api" where
  "napi_has_own_property V object key result =
     NAPI_PREAMBLE (CHECK_ARG key (\<lambda>k. CHECK_OUT result (CHECK_TO_OBJECT V object (\<lambda>obj.
       RETURN_STATUS_IF_FALSE (Is V tName k) napi_name_expected
         (jsb V (oHasOwn obj k) (\<lambda>has_maybe.
           CHECK_MAYBE_WITH_PREAMBLE has_maybe napi_generic_failure (\<lambda>b. GET_RETURN_STATUS (Some b))))))))"

definition napi_set_named_property :: "('v, 'h) v8 \<Rightarrow> 'v option \<Rightarrow> u8 list option \<Rightarrow> 'v option \<Rightarrow> ('v, 'h, unit) api" where
  "napi_set_named_property V object name value =
     NAPI_PREAMBLE (CHECK_ARG value (\<lambda>val. CHECK_TO_OBJECT V object (\<lambda>obj.
       CHECK_NEW_FROM_UTF8 V name (\<lambda>key.
         jsb V (oSet obj (KeyV key) val) (\<lambda>set_maybe.
           RETURN_STATUS_IF_FALSE_WITH_PREAMBLE (FromMaybe set_maybe) napi_generic_failure
             (GET_RETURN_STATUS None))))))"

definition napi_has_named_property :: "('v, 'h) v8 \<Rightarrow> 'v option \<Rightarrow> u8 list option \<Rightarrow> bool \<Rightarrow> ('v, 'h, bool) api" where
  "napi_has_named_property V object name result =
     NAPI_PREAMBLE (CHECK_OUT result (CHECK_TO_OBJECT V object (\<lambda>obj.
       CHECK_NEW_FROM_UTF8 V name (\<lambda>key.
         jsb V (oHas obj (KeyV key)) (\<lambda>has_maybe.
           CHECK_MAYBE_WITH_PREAMBLE has_maybe napi_generic_failure (\<lambda>b. GET_RETURN_STATUS (Some b)))))))"

definition napi_get_named_property :: "('v, 'h) v8 \<Rightarrow> 'v option \<Rightarrow> u8 list option \<Rightarrow> bool \<Rightarrow> ('v, 'h, 'v) api" where
  "napi_get_named_property V object name result =
     NAPI_PREAMBLE (CHECK_OUT result (CHECK_NEW_FROM_UTF8 V name (\<lambda>key.
       CHECK_TO_OBJECT V object (\<lambda>obj.
         jsv V (oGet obj (KeyV key)) (\<lambda>get_maybe.
           CHECK_MAYBE_WITH_PREAMBLE get_maybe napi_generic_failure (\<lambda>v. GET_RETURN_STATUS (Some v)))))))"

definition napi_set_element :: "('v, 'h) v8 \<Rightarrow> 'v option \<Rightarrow> u32 \<Rightarrow> 'v option \<Rightarrow> ('v, 'h, unit) api" where
  "napi_set_element V object index value =
     NAPI_PREAMBLE (CHECK_ARG value (\<lambda>val. CHECK_TO_OBJECT V object (\<lambda>obj.
       jsb V (oSet obj (KeyI index) val) (\<lambda>set_maybe.
         RETURN_STATUS_IF_FALSE_WITH_PREAMBLE (FromMaybe set_maybe) napi_generic_failure
           (GET_RETURN_STATUS None)))))"

definition napi_has_element :: "('v, 'h) v8 \<Rightarrow> 'v option \<Rightarrow> u32 \<Rightarrow> bool \<Rightarrow> ('v, 'h, bool) api" where
  "napi_has_element V object index result =
     NAPI_PREAMBLE (CHECK_OUT result (CHECK_TO_OBJECT V object (\<lambda>obj.
       jsb V (oHas obj (KeyI index)) (\<lambda>has_maybe.
         CHECK_MAYBE_WITH_PREAMBLE has_maybe napi_generic_failure (\<lambda>b. GET_RETURN_STATUS (Some b))))))"

definition napi_get_element :: "('v, 'h) v8 \<Rightarrow> 'v option \<Rightarrow> u32 \<Rightarrow> bool \<Rightarrow> ('v, 'h, 'v) api" where
  "napi_get_element V object index result =
     NAPI_PREAMBLE (CHECK_OUT result (CHECK_TO_OBJECT V object (\<lambda>obj.
       jsv V (oGet obj (KeyI index)) (\<lambda>get_maybe.
         CHECK_MAYBE_WITH_PREAMBLE get_maybe napi_generic_failure (\<lambda>v. GET_RETURN_STATUS (Some v))))))"

definition napi_delete_element :: "('v, 'h) v8 \<Rightarrow> 'v option \<Rightarrow> u32 \<Rightarrow> bool \<Rightarrow> ('v, 'h, bool) api" where
  "napi_delete_element V object index result =
     NAPI_PREAMBLE (CHECK_TO_OBJECT V object (\<lambda>obj.
       jsb V (oDelete obj (KeyI index)) (\<lambda>delete_maybe.
         CHECK_MAYBE_WITH_PREAMBLE delete_maybe napi_generic_failure
           (\<lambda>b. GET_RETURN_STATUS (if result then Some b else None)))))"

text \<open>An optional accessor function or template of a descriptor.\<close>

definition optional_new :: "(ptr \<Rightarrow> ('v, 'h, 'v) api) \<Rightarrow> ptr option \<Rightarrow> ('v option \<Rightarrow> ('v, 'h, 'a) api) \<Rightarrow> ('v, 'h, 'a) api" where
  "optional_new mk cb k = (case cb of None \<Rightarrow> k None | Some c \<Rightarrow> STATUS_CALL (mk c) k)"

text \<open>The body of the loop of \<open>napi_define_properties\<close> after the name is made.\<close>

definition define_property :: "('v, 'h) v8 \<Rightarrow> 'v \<Rightarrow> 'v napi_property_descriptor \<Rightarrow> 'v \<Rightarrow> ('v, 'h, unit) api" where
  "define_property V obj p property_name =
     (let w = has_attr (attributes p) napi_writable;
          en = has_attr (attributes p) napi_enumerable;
          c = has_attr (attributes p) napi_configurable
      in if pd_getter p \<noteq> None \<or> pd_setter p \<noteq> None then
           optional_new (\<lambda>g. NewFunction V g (pd_data p)) (pd_getter p) (\<lambda>local_getter.
           optional_new (\<lambda>s. NewFunction V s (pd_data p)) (pd_setter p) (\<lambda>local_setter.
             jsb V (oDefineProperty obj property_name (DescAccessor local_getter local_setter en c)) (\<lambda>define_maybe.
               RETURN_STATUS_IF_FALSE_WITH_PREAMBLE (FromMaybe define_maybe) napi_invalid_arg proceed)))
         else (case pd_method p of
           Some m \<Rightarrow>
             STATUS_CALL (NewFunction V m (pd_data p)) (\<lambda>fn. with_out fn (\<lambda>method.
               jsb V (oDefineProperty obj property_name (DescData method w en c)) (\<lambda>define_maybe.
                 RETURN_STATUS_IF_FALSE_WITH_PREAMBLE (FromMaybe define_maybe) napi_generic_failure proceed)))
         | None \<Rightarrow>
             jsb V (if en \<and> w \<and> c then oCreateDataProperty obj property_name (pd_value p)
                    else oDefineProperty obj property_name (DescData (pd_value p) w en c)) (\<lambda>define_maybe.
               RETURN_STATUS_IF_FALSE_WITH_PREAMBLE (FromMaybe define_maybe) napi_invalid_arg proceed)))"

fun define_all :: "('v, 'h) v8 \<Rightarrow> 'v \<Rightarrow> 'v napi_property_descriptor list \<Rightarrow> ('v, 'h, unit) api" where
  "define_all V obj [] = proceed"
| "define_all V obj (p # ps) =
     STATUS_CALL (V8NameFromPropertyDescriptor V p) (\<lambda>n. with_out n (\<lambda>property_name.
       STATUS_CALL (define_property V obj p property_name) (\<lambda>_. define_all V obj ps)))"

text \<open>The descriptors of a call.\<close>

definition with_properties :: "nat \<Rightarrow> 'p list option \<Rightarrow> ('p list \<Rightarrow> ('v, 'h, 'a) api) \<Rightarrow> ('v, 'h, 'a) api" where
  "with_properties property_count properties k =
     (if property_count > 0 then CHECK_ARG properties (\<lambda>ps. k (take property_count ps)) else k [])"

definition napi_define_properties :: "('v, 'h) v8 \<Rightarrow> 'v option \<Rightarrow> nat \<Rightarrow> 'v napi_property_descriptor list option \<Rightarrow>
    ('v, 'h, unit) api" where
  "napi_define_properties V object property_count properties =
     NAPI_PREAMBLE (with_properties property_count properties (\<lambda>ps.
       CHECK_TO_OBJECT V object (\<lambda>obj.
         STATUS_CALL (define_all V obj ps) (\<lambda>_. GET_RETURN_STATUS None))))"

definition set_integrity :: "integrity \<Rightarrow> ('v, 'h) v8 \<Rightarrow> 'v option \<Rightarrow> ('v, 'h, unit) api" where
  "set_integrity level V object =
     NAPI_PREAMBLE (CHECK_TO_OBJECT V object (\<lambda>obj.
       jsb V (oSetIntegrityLevel obj level) (\<lambda>set_maybe.
         RETURN_STATUS_IF_FALSE_WITH_PREAMBLE (FromMaybe set_maybe) napi_generic_failure
           (GET_RETURN_STATUS None))))"

definition napi_object_freeze :: "('v, 'h) v8 \<Rightarrow> 'v option \<Rightarrow> ('v, 'h, unit) api" where
  "napi_object_freeze = set_integrity kFrozen"

definition napi_object_seal :: "('v, 'h) v8 \<Rightarrow> 'v option \<Rightarrow> ('v, 'h, unit) api" where
  "napi_object_seal = set_integrity kSealed"

definition napi_get_prototype :: "('v, 'h) v8 \<Rightarrow> 'v option \<Rightarrow> bool \<Rightarrow> ('v, 'h, 'v) api" where
  "napi_get_prototype V object result =
     NAPI_PREAMBLE (CHECK_OUT result (CHECK_TO_OBJECT V object (\<lambda>obj.
       alloc V (nPrototypeOf obj) (\<lambda>v. GET_RETURN_STATUS (Some v)))))"

section \<open>Classes\<close>

text \<open>The body of the loop over the instance properties of a class, and the loop.\<close>

definition define_member :: "('v, 'h) v8 \<Rightarrow> 'v \<Rightarrow> 'v napi_property_descriptor \<Rightarrow> 'v \<Rightarrow> ('v, 'h, unit) api" where
  "define_member V tpl p property_name =
     (let attrs = V8PropertyAttributesFromDescriptor p
      in if pd_getter p \<noteq> None \<or> pd_setter p \<noteq> None then
           optional_new (\<lambda>g. NewTemplate V g (pd_data p) None) (pd_getter p) (\<lambda>getter_tpl.
           optional_new (\<lambda>s. NewTemplate V s (pd_data p) None) (pd_setter p) (\<lambda>setter_tpl.
             effect V (fTemplateAccessor tpl property_name getter_tpl setter_tpl attrs) proceed))
         else (case pd_method p of
           Some m \<Rightarrow>
             STATUS_CALL (NewTemplate V m (pd_data p) (Some tpl)) (\<lambda>t. with_out t (\<lambda>method.
               effect V (fTemplateSet tpl property_name method attrs) proceed))
         | None \<Rightarrow> effect V (fTemplateSet tpl property_name (pd_value p) attrs) proceed))"

fun define_members :: "('v, 'h) v8 \<Rightarrow> 'v \<Rightarrow> 'v napi_property_descriptor list \<Rightarrow> ('v, 'h, unit) api" where
  "define_members V tpl [] = proceed"
| "define_members V tpl (p # ps) =
     (if has_attr (attributes p) napi_static then define_members V tpl ps
      else STATUS_CALL (V8NameFromPropertyDescriptor V p) (\<lambda>n. with_out n (\<lambda>property_name.
        STATUS_CALL (define_member V tpl p property_name) (\<lambda>_. define_members V tpl ps))))"

definition napi_define_class :: "('v, 'h) v8 \<Rightarrow> u8 list option \<Rightarrow> nat \<Rightarrow> ptr option \<Rightarrow> ptr \<Rightarrow> nat \<Rightarrow>
    'v napi_property_descriptor list option \<Rightarrow> bool \<Rightarrow> ('v, 'h, 'v) api" where
  "napi_define_class V name len constructor callback_data property_count properties result =
     NAPI_PREAMBLE (CHECK_OUT result (CHECK_ARG constructor (\<lambda>ctor.
       with_properties property_count properties (\<lambda>ps.
         STATUS_CALL (NewTemplate V ctor callback_data None) (\<lambda>t. with_out t (\<lambda>tpl.
           CHECK_NEW_FROM_UTF8_LEN V name len (\<lambda>name_string.
             effect V (fSetClassName tpl name_string)
               (STATUS_CALL (define_members V tpl ps) (\<lambda>_.
                 jsv V (oTemplateGetFunction tpl) (\<lambda>f. from_just f (\<lambda>fn.
                   let static_descriptors = filter (\<lambda>p. has_attr (attributes p) napi_static) ps
                   in if static_descriptors \<noteq> [] then
                        stored fn (STATUS_CALL
                          (napi_define_properties V (Some fn) (length static_descriptors) (Some static_descriptors))
                          (\<lambda>_. GET_RETURN_STATUS (Some fn)))
                      else GET_RETURN_STATUS (Some fn))))))))))))"

section \<open>Wrapped objects\<close>

definition wrapper_key :: string where "wrapper_key = ''wrapper''"
definition type_tag_key :: string where "type_tag_key = ''type_tag''"

definition Wrap :: "('v, 'h) v8 \<Rightarrow> 'v option \<Rightarrow> ptr \<Rightarrow> ptr option \<Rightarrow> ptr \<Rightarrow> bool \<Rightarrow> ('v, 'h, nat) api" where
  "Wrap V js_object native_object finalize_cb hint result =
     NAPI_PREAMBLE (CHECK_ARG js_object (\<lambda>obj.
       RETURN_STATUS_IF_FALSE (Is V tObject obj) napi_invalid_arg
         (jsb V (oHasPrivate obj wrapper_key) (\<lambda>has. from_just has (\<lambda>wrapped.
           RETURN_STATUS_IF_FALSE (\<not> wrapped) napi_invalid_arg
             (let attach = (\<lambda>reference. alloc V (nExternal reference) (\<lambda>ext.
                    jsb V (oSetPrivate obj wrapper_key ext) (\<lambda>set_maybe. from_just set_maybe (\<lambda>b.
                      CHECK b (GET_RETURN_STATUS (if result then Some reference else None))))))
              in if result then
                   CHECK_ARG finalize_cb (\<lambda>cb.
                     with_new (ReferenceWithFinalizer_New V obj 0 kUserland (Some cb) native_object hint) attach)
                 else (case finalize_cb of
                   Some cb \<Rightarrow>
                     with_new (ReferenceWithFinalizer_New V obj 0 kRuntime (Some cb) native_object hint) attach
                 | None \<Rightarrow> with_new (ReferenceWithData_New V obj 0 kRuntime native_object) attach)))))))"

datatype UnwrapAction = KeepWrap | RemoveWrap

text \<open>\<open>Reference::ResetFinalizer\<close>, empty for references without a finalizer.\<close>

definition Reference_ResetFinalizer :: "'v Reference \<Rightarrow> 'v Reference" where
  "Reference_ResetFinalizer r =
     (case cls r of WithFinalizer f \<Rightarrow> r\<lparr>cls := WithFinalizer (ResetFinalizer f)\<rparr> | _ \<Rightarrow> r)"

definition remove_wrap :: "nat \<Rightarrow> ptr option \<Rightarrow> ('v, 'h, ptr) api" where
  "remove_wrap i out =
     with_reference i (\<lambda>reference e.
       if ownership reference = kUserland then
         GET_RETURN_STATUS out (set_tracker i (TReference (Reference_ResetFinalizer reference)) e)
       else bind_res (delete_tracker i e) (GET_RETURN_STATUS out))"

definition Unwrap :: "('v, 'h) v8 \<Rightarrow> 'v option \<Rightarrow> bool \<Rightarrow> UnwrapAction \<Rightarrow> ('v, 'h, ptr) api" where
  "Unwrap V js_object result action =
     NAPI_PREAMBLE (CHECK_ARG js_object (\<lambda>obj.
       CHECK_OUT (action = KeepWrap \<longrightarrow> result)
         (RETURN_STATUS_IF_FALSE (Is V tObject obj) napi_invalid_arg
           (jsv V (oGetPrivate obj wrapper_key) (\<lambda>maybe_val. from_just maybe_val (\<lambda>val.
             RETURN_STATUS_IF_FALSE (Is V tExternal val) napi_invalid_arg (\<lambda>e.
               let i = rd V (rExternalValue val) (isolate e)
               in with_reference i (\<lambda>reference.
                    let out = (if result then Some (Reference_Data reference) else None)
                    in if action = RemoveWrap then
                         jsb V (oDeletePrivate obj wrapper_key) (\<lambda>deleted. from_just deleted (\<lambda>b.
                           CHECK b (remove_wrap i out)))
                       else GET_RETURN_STATUS out) e)))))))"

definition napi_wrap :: "('v, 'h) v8 \<Rightarrow> 'v option \<Rightarrow> ptr \<Rightarrow> ptr option \<Rightarrow> ptr \<Rightarrow> bool \<Rightarrow> ('v, 'h, nat) api" where
  "napi_wrap V js_object native_object finalize_cb hint result =
     Wrap V js_object native_object finalize_cb hint result"

definition napi_unwrap :: "('v, 'h) v8 \<Rightarrow> 'v option \<Rightarrow> bool \<Rightarrow> ('v, 'h, ptr) api" where
  "napi_unwrap V obj result = Unwrap V obj result KeepWrap"

definition napi_remove_wrap :: "('v, 'h) v8 \<Rightarrow> 'v option \<Rightarrow> bool \<Rightarrow> ('v, 'h, ptr) api" where
  "napi_remove_wrap V obj result = Unwrap V obj result RemoveWrap"

section \<open>Externals and type tags\<close>

definition ExternalWrapper_New :: "('v, 'h) v8 \<Rightarrow> ptr \<Rightarrow> ('v, 'h) napi_env \<Rightarrow> 'v \<times> ('v, 'h) napi_env" where
  "ExternalWrapper_New V data e =
     (let w = next_cell e; (ext, h) = new V (nExternal w) (isolate e)
      in (ext, e\<lparr>externals := (externals e)(w \<mapsto> \<lparr>ew_data = data, ew_tag = None\<rparr>), next_cell := w + 1, isolate := h\<rparr>))"

text \<open>The weak callback of the wrapper, when its external is collected.\<close>

definition ExternalWrapper_WeakCallback :: "nat \<Rightarrow> ('v, 'h) napi_env \<Rightarrow> ('v, 'h) napi_env" where
  "ExternalWrapper_WeakCallback w e = e\<lparr>externals := (externals e)(w := None)\<rparr>"

text \<open>\<open>ExternalWrapper::From\<close>\<close>

definition ExternalWrapper_From :: "('v, 'h) v8 \<Rightarrow> 'v \<Rightarrow> ('v, 'h) napi_env \<Rightarrow> (nat \<times> ExternalWrapper) option" where
  "ExternalWrapper_From V ext e =
     (let w = rd V (rExternalValue ext) (isolate e) in map_option (Pair w) (externals e w))"

text \<open>\<open>ExternalWrapper::TypeTag\<close> and \<open>CheckTypeTag\<close>; the pointer is only read when it is needed.\<close>

definition TypeTag :: "ExternalWrapper \<Rightarrow> (u64 \<times> u64) option \<Rightarrow> (bool \<times> ExternalWrapper) res" where
  "TypeTag w type_tag =
     (if ew_tag w \<noteq> None then Inr (False, w)
      else bind_res (deref type_tag) (\<lambda>t. Inr (True, w\<lparr>ew_tag := Some t\<rparr>)))"

definition CheckTypeTag :: "ExternalWrapper \<Rightarrow> (u64 \<times> u64) option \<Rightarrow> bool res" where
  "CheckTypeTag w type_tag =
     (case ew_tag w of None \<Rightarrow> Inr False | Some t \<Rightarrow> bind_res (deref type_tag) (\<lambda>t'. Inr (t' = t)))"

definition napi_create_external :: "('v, 'h) v8 \<Rightarrow> ptr \<Rightarrow> ptr option \<Rightarrow> ptr \<Rightarrow> bool \<Rightarrow> ('v, 'h, 'v) api" where
  "napi_create_external V data finalize_cb hint result =
     NAPI_PREAMBLE (CHECK_OUT result (with_new (ExternalWrapper_New V data) (\<lambda>external_value.
       case finalize_cb of
         Some cb \<Rightarrow>
           with_new (ReferenceWithFinalizer_New V external_value 0 kRuntime (Some cb) data hint)
             (\<lambda>_. succeed (Some external_value))
       | None \<Rightarrow> succeed (Some external_value))))"

definition napi_get_value_external :: "('v, 'h) v8 \<Rightarrow> 'v option \<Rightarrow> bool \<Rightarrow> ('v, 'h, ptr) api" where
  "napi_get_value_external V value result =
     CHECK_ENV_NOT_IN_GC (CHECK_ARG value (\<lambda>val. CHECK_OUT result
       (RETURN_STATUS_IF_FALSE (Is V tExternal val) napi_invalid_arg
         (with_cell (ExternalWrapper_From V val) (\<lambda>(_, w). succeed (Some (ew_data w)))))))"

definition napi_type_tag_object :: "('v, 'h) v8 \<Rightarrow> 'v option \<Rightarrow> (u64 \<times> u64) option \<Rightarrow> ('v, 'h, unit) api" where
  "napi_type_tag_object V object_or_external type_tag =
     NAPI_PREAMBLE (CHECK_ARG object_or_external (\<lambda>val.
       if Is V tExternal val then
         with_cell (ExternalWrapper_From V val) (\<lambda>(i, w) e.
           bind_res (TypeTag w type_tag) (\<lambda>(b, w1).
             RETURN_STATUS_IF_FALSE_WITH_PREAMBLE b napi_invalid_arg (GET_RETURN_STATUS None)
               (e\<lparr>externals := (externals e)(i \<mapsto> w1)\<rparr>)))
       else CHECK_TO_OBJECT_WITH_PREAMBLE V object_or_external (\<lambda>obj.
         CHECK_ARG_WITH_PREAMBLE type_tag (\<lambda>(lower, upper).
           jsb V (oHasPrivate obj type_tag_key) (\<lambda>maybe_has.
             CHECK_MAYBE_WITH_PREAMBLE maybe_has napi_generic_failure (\<lambda>has.
               RETURN_STATUS_IF_FALSE_WITH_PREAMBLE (\<not> has) napi_invalid_arg
                 (jsv V (oNewBigIntWords 0 [lower, upper]) (\<lambda>tag.
                   CHECK_MAYBE_WITH_PREAMBLE tag napi_generic_failure (\<lambda>t.
                     jsb V (oSetPrivate obj type_tag_key t) (\<lambda>maybe_set.
                       CHECK_MAYBE_WITH_PREAMBLE maybe_set napi_generic_failure (\<lambda>b.
                         RETURN_STATUS_IF_FALSE_WITH_PREAMBLE b napi_generic_failure
                           (GET_RETURN_STATUS None)))))))))))) "

text \<open>The comparison of a stored \<open>BigInt\<close> with a tag.\<close>

definition tag_matches :: "bool \<times> u64 list \<Rightarrow> u64 \<times> u64 \<Rightarrow> bool" where
  "tag_matches b type_tag =
     (case ToWordsArray b 2 of (sign, n, tag) \<Rightarrow>
        \<not> sign \<and>
        (if n = 2 then tag ! 0 = fst type_tag \<and> tag ! 1 = snd type_tag
         else if n = 1 then tag ! 0 = fst type_tag \<and> 0 = snd type_tag
         else n = 0 \<and> 0 = fst type_tag \<and> 0 = snd type_tag))"

definition napi_check_object_type_tag :: "('v, 'h) v8 \<Rightarrow> 'v option \<Rightarrow> (u64 \<times> u64) option \<Rightarrow> bool \<Rightarrow> ('v, 'h, bool) api" where
  "napi_check_object_type_tag V object_or_external type_tag result =
     NAPI_PREAMBLE (CHECK_ARG object_or_external (\<lambda>obj_val.
       if Is V tExternal obj_val then
         with_cell (ExternalWrapper_From V obj_val) (\<lambda>(_, w) e.
           bind_res (CheckTypeTag w type_tag) (\<lambda>b.
             check result NullDeref (GET_RETURN_STATUS (Some b) e)))
       else CHECK_TO_OBJECT_WITH_PREAMBLE V object_or_external (\<lambda>obj.
         CHECK_ARG_WITH_PREAMBLE type_tag (\<lambda>tag.
           RETURN_STATUS_IF_FALSE_WITH_PREAMBLE result napi_invalid_arg
             (jsv V (oGetPrivate obj type_tag_key) (\<lambda>maybe_value.
               CHECK_MAYBE_WITH_PREAMBLE maybe_value napi_generic_failure (\<lambda>val e.
                 GET_RETURN_STATUS
                   (Some (Is V tBigInt val \<and> tag_matches (bigint_words V val (isolate e)) tag)) e)))))))"

section \<open>Promises\<close>

definition new_deferred :: "'v \<Rightarrow> ('v, 'h) napi_env \<Rightarrow> nat \<times> ('v, 'h) napi_env" where
  "new_deferred v e =
     (next_cell e, e\<lparr>deferreds := (deferreds e)(next_cell e \<mapsto> v), next_cell := next_cell e + 1\<rparr>)"

definition napi_create_promise :: "('v, 'h) v8 \<Rightarrow> bool \<Rightarrow> bool \<Rightarrow> ('v, 'h, nat \<times> 'v) api" where
  "napi_create_promise V deferred promise =
     NAPI_PREAMBLE (CHECK_OUT deferred (CHECK_OUT promise (jsv V oNewResolver (\<lambda>maybe.
       CHECK_MAYBE maybe napi_generic_failure (\<lambda>v8_resolver.
         with_new (new_deferred v8_resolver) (\<lambda>v8_deferred.
           alloc V (nPromiseOf v8_resolver) (\<lambda>p. GET_RETURN_STATUS (Some (v8_deferred, p)))))))))"

definition delete_deferred :: "nat \<Rightarrow> ('v, 'h, 'a) api \<Rightarrow> ('v, 'h, 'a) api" where
  "delete_deferred d k e =
     bind_res (deref (deferreds e d)) (\<lambda>_. k (e\<lparr>deferreds := (deferreds e)(d := None)\<rparr>))"

definition ConcludeDeferred :: "('v, 'h) v8 \<Rightarrow> nat \<Rightarrow> 'v option \<Rightarrow> bool \<Rightarrow> ('v, 'h, unit) api" where
  "ConcludeDeferred V deferred result is_resolved =
     NAPI_PREAMBLE (CHECK_ARG result (\<lambda>value.
       with_cell (\<lambda>e. deferreds e deferred) (\<lambda>v8_resolver.
         jsb V (if is_resolved then oResolve v8_resolver value else oReject v8_resolver value) (\<lambda>success.
           delete_deferred deferred
             (RETURN_STATUS_IF_FALSE (FromMaybe success) napi_generic_failure (GET_RETURN_STATUS None))))))"

definition napi_resolve_deferred :: "('v, 'h) v8 \<Rightarrow> nat \<Rightarrow> 'v option \<Rightarrow> ('v, 'h, unit) api" where
  "napi_resolve_deferred V deferred resolution = ConcludeDeferred V deferred resolution True"

definition napi_reject_deferred :: "('v, 'h) v8 \<Rightarrow> nat \<Rightarrow> 'v option \<Rightarrow> ('v, 'h, unit) api" where
  "napi_reject_deferred V deferred resolution = ConcludeDeferred V deferred resolution False"

section \<open>Scripts\<close>

definition napi_run_script :: "('v, 'h) v8 \<Rightarrow> 'v option \<Rightarrow> bool \<Rightarrow> ('v, 'h, 'v) api" where
  "napi_run_script V script result =
     NAPI_PREAMBLE (CHECK_ARG script (\<lambda>v8_script. CHECK_OUT result
       (RETURN_STATUS_IF_FALSE (Is V tString v8_script) napi_string_expected
         (jsv V (oCompile v8_script None) (\<lambda>maybe_script.
           CHECK_MAYBE maybe_script napi_generic_failure (\<lambda>s.
             jsv V (oRun s) (\<lambda>script_result.
               CHECK_MAYBE script_result napi_generic_failure (\<lambda>v. GET_RETURN_STATUS (Some v)))))))))"

text \<open>\<open>NodeApiEnv::runScript\<close>, with a source URL.\<close>

definition runScript :: "('v, 'h) v8 \<Rightarrow> 'v option \<Rightarrow> u8 list option \<Rightarrow> bool \<Rightarrow> ('v, 'h, 'v) api" where
  "runScript V source source_url result =
     NAPI_PREAMBLE (CHECK_ARG source (\<lambda>v8_source. CHECK_OUT result
       (RETURN_STATUS_IF_FALSE (Is V tString v8_source) napi_string_expected
         (jsv V (oNewFromUtf8 (chars (Some (case source_url of None \<Rightarrow> [] | Some u \<Rightarrow> u)) NAPI_AUTO_LENGTH) False)
           (\<lambda>maybe_url. from_just maybe_url (\<lambda>urlV8String.
             jsv V (oCompile v8_source (Some urlV8String)) (\<lambda>maybe_script.
               CHECK_MAYBE maybe_script napi_generic_failure (\<lambda>s.
                 jsv V (oRun s) (\<lambda>script_result.
                   CHECK_MAYBE script_result napi_generic_failure (\<lambda>v. GET_RETURN_STATUS (Some v)))))))))))"

section \<open>External memory\<close>

text \<open>\<open>NewExternalString\<close>; \<open>sandbox\<close> is \<^verbatim>\<open>V8_ENABLE_SANDBOX\<close>. With it the string is copied and the
  finalizer runs at once. The out-values are the string and what is stored through \<open>copied\<close>.\<close>

definition NewExternalString :: "bool \<Rightarrow> ('v, 'h) user \<Rightarrow> ptr \<Rightarrow> 'c list option \<Rightarrow> nat \<Rightarrow> ptr option \<Rightarrow> ptr \<Rightarrow> bool \<Rightarrow> bool \<Rightarrow>
    ('v, 'h, 'v) api \<Rightarrow> (('v option \<Rightarrow> ('v, 'h, 'v) api) \<Rightarrow> ('v, 'h, 'v) api) \<Rightarrow> ('v, 'h) v8 \<Rightarrow> ('v, 'h, 'v \<times> bool option) api" where
  "NewExternalString sandbox U address str len finalize_cb hint result copied create_api string_maker V =
     CHECK_NEW_STRING_ARGS str len result
       (if sandbox then (\<lambda>e.
          bind_res (create_api e) (\<lambda>(status, out, e1).
            if status = napi_ok then
              (let out1 = map_option (\<lambda>v. (v, if copied then Some True else None)) out
               in case finalize_cb of
                    None \<Rightarrow> Inr (status, out1, e1)
                  | Some cb \<Rightarrow> bind_res (EnvCallFinalizer U cb address hint e1) (\<lambda>e2. Inr (status, out1, e2)))
            else Inr (status, None, e1)))
        else map_out (\<lambda>v. Some (v, if copied then Some False else None)) (NewString V str len result string_maker))"

definition node_api_create_external_string_latin1 :: "bool \<Rightarrow> ('v, 'h) user \<Rightarrow> ('v, 'h) v8 \<Rightarrow> ptr \<Rightarrow> u8 list option \<Rightarrow> nat \<Rightarrow>
    ptr option \<Rightarrow> ptr \<Rightarrow> bool \<Rightarrow> bool \<Rightarrow> ('v, 'h, 'v \<times> bool option) api" where
  "node_api_create_external_string_latin1 sandbox U V address str len finalize_cb hint result copied =
     NewExternalString sandbox U address str len finalize_cb hint result copied
       (napi_create_string_latin1 V str len result)
       (\<lambda>k. with_new (TrackedStringResource_New finalize_cb address hint) (\<lambda>resource.
          jsv V (oNewExternalOneByte (chars str len) resource) k)) V"

definition node_api_create_external_string_utf16 :: "bool \<Rightarrow> ('v, 'h) user \<Rightarrow> ('v, 'h) v8 \<Rightarrow> ptr \<Rightarrow> u16 list option \<Rightarrow> nat \<Rightarrow>
    ptr option \<Rightarrow> ptr \<Rightarrow> bool \<Rightarrow> bool \<Rightarrow> ('v, 'h, 'v \<times> bool option) api" where
  "node_api_create_external_string_utf16 sandbox U V address str len finalize_cb hint result copied =
     NewExternalString sandbox U address str len finalize_cb hint result copied
       (napi_create_string_utf16 V str len result)
       (\<lambda>k. with_new (TrackedStringResource_New finalize_cb address hint) (\<lambda>resource.
          jsv V (oNewExternalTwoByte (chars str len) resource) k)) V"

text \<open>\<open>napi_create_external_buffer\<close>: the address 0 is the null pointer, for which the finalizer runs at once.\<close>

definition napi_create_external_buffer :: "('v, 'h) user \<Rightarrow> ('v, 'h) v8 \<Rightarrow> nat \<Rightarrow> ptr \<Rightarrow> ptr option \<Rightarrow> ptr \<Rightarrow> bool \<Rightarrow>
    ('v, 'h, 'v) api" where
  "napi_create_external_buffer U V len data finalize_cb hint result =
     NAPI_PREAMBLE (CHECK_OUT result
       (alloc V (nExternalArrayBuffer data len (map_option (\<lambda>cb. (cb, hint)) finalize_cb)) (\<lambda>arrayBuffer.
         let create = alloc V (nTypedArray napi_uint8_array arrayBuffer 0 len) (\<lambda>buffer. GET_RETURN_STATUS (Some buffer))
         in if data = 0 then
              effect V (fDetach arrayBuffer) (\<lambda>e.
                bind_res (case finalize_cb of None \<Rightarrow> Inr e | Some cb \<Rightarrow> U cb 0 hint e) create)
            else create)))"

definition napi_create_external_arraybuffer :: "('v, 'h) user \<Rightarrow> ('v, 'h) v8 \<Rightarrow> ptr \<Rightarrow> nat \<Rightarrow> ptr option \<Rightarrow> ptr \<Rightarrow> bool \<Rightarrow>
    ('v, 'h, 'v) api" where
  "napi_create_external_arraybuffer U V external_data byte_length finalize_cb hint result =
     STATUS_CALL (napi_create_external_buffer U V byte_length external_data finalize_cb hint True) (\<lambda>buffer.
       map_out vi_buffer (napi_get_typedarray_info V buffer False False result))"

end
