(* ===== verification/Napi_Api.thy ===== *)
theory Napi_Api
  imports Napi_Objects
begin

text \<open>
  The contract of the whole Node-API. \<open>nogc_call\<close>, \<open>guarded_call\<close> and \<open>preamble_call\<close> collect the exported functions
  without a guard against garbage collection, with the guard only, and with \<open>NAPI_PREAMBLE\<close> (the value of the result
  is dropped); the rules of \<open>Napi_Contract\<close> give the contract of each.
\<close>

definition drop_out :: "('v, 'h, 'a) api \<Rightarrow> ('v, 'h, unit) api" where
  "drop_out f = map_out (\<lambda>_. None) f"

section \<open>Functions without a preamble\<close>

lemma plain_if_dep [contract_intros]: "plain f \<Longrightarrow> plain g \<Longrightarrow> plain (\<lambda>e. if b e then f e else g e)"
  unfolding plain_def by auto

lemma good_if_dep [contract_intros]: "good f \<Longrightarrow> good g \<Longrightarrow> good (\<lambda>e. if b e then f e else g e)"
  unfolding good_def by auto

lemma plain_RETURN_dep [contract_intros]:
  assumes "plain k" "st \<noteq> napi_ok" "st \<noteq> napi_pending_exception"
  shows "plain (\<lambda>e. RETURN_STATUS_IF_FALSE (b e) st k e)"
  using plain_dep [of "\<lambda>x. RETURN_STATUS_IF_FALSE x st k" b] plain_RETURN_STATUS_IF_FALSE assms by blast

lemma plain_with_reference [contract_intros]: "(\<And>r. plain (k r)) \<Longrightarrow> plain (with_reference i k)"
  by (auto simp: plain_def with_reference_def split: option.splits tracker.splits)

lemma plain_creations [contract_intros]:
  "plain (napi_create_object V r)" "plain (napi_create_array V r)" "plain (napi_create_array_with_length V n r)"
  "plain (napi_create_double V d r)" "plain (napi_create_int32 V w r)" "plain (napi_create_uint32 V w r)"
  "plain (napi_create_int64 V x r)" "plain (napi_create_bigint_int64 V x r)" "plain (napi_create_bigint_uint64 V x r)"
  "plain (napi_get_boolean V b r)" "plain (napi_get_null V r)" "plain (napi_get_global V r)"
  "plain (napi_create_symbol V dsc r)"
  unfolding napi_create_object_def napi_create_array_def napi_create_array_with_length_def
    napi_create_double_def napi_create_int32_def napi_create_uint32_def napi_create_int64_def
    napi_create_bigint_int64_def napi_create_bigint_uint64_def napi_get_boolean_def napi_get_null_def
    napi_get_global_def napi_create_symbol_def
  by (intro contract_intros; simp)+

lemma plain_NewString [contract_intros]:
  assumes "\<And>k. (\<And>m. plain (k m)) \<Longrightarrow> plain (mk k)"
  shows "plain (NewString V str n r mk)"
  unfolding NewString_def CHECK_NEW_STRING_ARGS_def Let_def by (intro contract_intros assms; simp)+

lemma plain_strings [contract_intros]:
  assumes "engine_ok V"
  shows "plain (napi_create_string_latin1 V s n r)" "plain (napi_create_string_utf8 V s n r)"
    "plain (napi_create_string_utf16 V s16 n r)" "plain (node_api_create_property_key_utf16 V s16 n r)"
  unfolding napi_create_string_latin1_def napi_create_string_utf8_def napi_create_string_utf16_def
    node_api_create_property_key_utf16_def
  by (intro plain_NewString plain_jsv assms; assumption)+

lemma plain_symbol_for [contract_intros]: "engine_ok V \<Longrightarrow> plain (node_api_symbol_for V s n r)"
  unfolding node_api_symbol_for_def by (intro contract_intros)

lemma plain_set_error_code [contract_intros]: "engine_ok V \<Longrightarrow> plain (set_error_code V x c s)"
  unfolding set_error_code_def Let_def by (intro contract_intros; simp)

lemma plain_create_errors [contract_intros]:
  assumes "engine_ok V"
  shows "plain (napi_create_error V c m r)" "plain (napi_create_type_error V c m r)"
    "plain (napi_create_range_error V c m r)" "plain (node_api_create_syntax_error V c m r)"
  unfolding napi_create_error_def napi_create_type_error_def napi_create_range_error_def
    node_api_create_syntax_error_def create_error_of_def
  by (intro contract_intros assms; simp)+

lemma plain_tests [contract_intros]:
  "plain (napi_is_array V v r)" "plain (napi_is_error V v r)" "plain (napi_is_arraybuffer V v r)"
  "plain (napi_is_typedarray V v r)" "plain (napi_is_dataview V v r)" "plain (napi_is_promise V v r)"
  "plain (napi_is_date V v r)" "plain (napi_typeof V v r)"
  unfolding napi_is_array_def napi_is_error_def napi_is_arraybuffer_def napi_is_typedarray_def
    napi_is_dataview_def napi_is_promise_def napi_is_date_def napi_typeof_def is_kind_def
  by (intro contract_intros; simp)+

lemma plain_reads [contract_intros]:
  "plain (napi_get_value_double V v r)" "plain (napi_get_value_int32 V v r)" "plain (napi_get_value_uint32 V v r)"
  "plain (napi_get_value_int64 V v r)" "plain (napi_get_value_bigint_int64 V v r l)"
  "plain (napi_get_value_bigint_uint64 V v r l)" "plain (napi_get_value_bool V v r)"
  "plain (napi_get_arraybuffer_info V v r l)" "plain (napi_is_detached_arraybuffer V v r)"
  "plain (napi_detach_arraybuffer V v)"
  unfolding napi_get_value_double_def napi_get_value_int32_def napi_get_value_uint32_def napi_get_value_int64_def
    napi_get_value_bigint_int64_def napi_get_value_bigint_uint64_def napi_get_value_bool_def
    napi_get_arraybuffer_info_def napi_is_detached_arraybuffer_def napi_detach_arraybuffer_def
  by (intro contract_intros; simp)+

lemma plain_bigint_words [contract_intros]: "plain (napi_get_value_bigint_words V v s n w)"
  unfolding napi_get_value_bigint_words_def ToWordsArray_def prod.case by (intro contract_intros; simp)

lemma plain_store_terminated: "plain (\<lambda>e. store_terminated (ws e) n r e)"
  by (auto simp: plain_def store_terminated_def succeed_def res_simps)

lemma plain_get_strings [contract_intros]:
  "plain (napi_get_value_string_latin1 V v b n r)" "plain (napi_get_value_string_utf8 V v b n r)"
  "plain (napi_get_value_string_utf16 V v b n r)"
  unfolding napi_get_value_string_latin1_def napi_get_value_string_utf8_def napi_get_value_string_utf16_def
    get_value_string_of_def
  by (intro contract_intros plain_store_terminated; simp)+

lemma plain_view_buffer: "plain (\<lambda>e. view_buffer V a d b t (n e) e)"
proof -
  have "\<And>x. plain (view_buffer V a d b t x)"
    unfolding view_buffer_def Let_def by (intro contract_intros)
  then show ?thesis by (rule plain_dep)
qed

lemma plain_views [contract_intros]:
  "plain (napi_get_typedarray_info V v t d b)" "plain (napi_get_dataview_info V v d b)"
  unfolding napi_get_typedarray_info_def napi_get_dataview_info_def
  by (intro contract_intros plain_view_buffer; simp)+

lemma plain_misc [contract_intros]: "plain (napi_get_version r)" "plain (napi_adjust_external_memory V n r)"
proof -
  show "plain (napi_get_version r)" unfolding napi_get_version_def by (intro contract_intros)
  have "plain (\<lambda>e. case adjust_memory V n (isolate e) of (n, h) \<Rightarrow> succeed (Some n) (e\<lparr>isolate := h\<rparr>))"
    by (auto simp: plain_def succeed_def split: prod.splits)
  then show "plain (napi_adjust_external_memory V n r)"
    unfolding napi_adjust_external_memory_def by (rule plain_CHECK_OUT)
qed

lemma plain_external_value [contract_intros]: "plain (napi_get_value_external V v r)"
  unfolding napi_get_value_external_def case_prod_beta by (intro contract_intros; simp)

text \<open>References, finalizers, instance data and handle scopes.\<close>

lemma calm_New [contract_intros]:
  "calm (\<lambda>e. snd (Reference_New V v n own e))" "calm (\<lambda>e. snd (ReferenceWithData_New V v n own d e))"
  "calm (\<lambda>e. snd (ReferenceWithFinalizer_New V v n own cb d h e))"
  "calm (\<lambda>e. snd (TrackedFinalizer_New cb d h e))" "calm (\<lambda>e. snd (TrackedStringResource_New cb d h e))"
  "calm (\<lambda>e. snd (CallbackBundle_New V c d e))" "calm (\<lambda>e. snd (ExternalWrapper_New V d e))"
  "calm (\<lambda>e. snd (new_deferred v e))"
  by (auto simp: calm_def Reference_New_def ReferenceWithData_New_def ReferenceWithFinalizer_New_def
      TrackedFinalizer_New_def TrackedStringResource_New_def CallbackBundle_New_def ExternalWrapper_New_def
      new_deferred_def new_tracker_def LinkRef_def LinkFinalizing_def Let_def split: prod.splits)

lemma plain_case_new [contract_intros]:
  "calm (\<lambda>e. snd (mk e)) \<Longrightarrow> (\<And>i. plain (k i)) \<Longrightarrow> plain (\<lambda>e. case mk e of (i, e1) \<Rightarrow> k i e1)"
  using plain_with_new [of mk k] by (simp add: with_new_def plain_def)

lemma calm_trackers:
  "calm (set_tracker i t)" "calm (EnqueueFinalizer i)" "calm (DequeueFinalizer i)" "calm (UnlinkTracker i)"
  "calm (\<lambda>e. e\<lparr>instance_data := d\<rparr>)"
  by (auto simp: calm_def set_tracker_def EnqueueFinalizer_def DequeueFinalizer_def UnlinkTracker_def Let_def)

lemma delete_tracker_calm:
  assumes "delete_tracker i e = Inr e'"
  shows "try_catch e' = try_catch e \<and> last_exception e' = last_exception e \<and> is_destructing e' = is_destructing e"
proof -
  obtain t where "trackers e i = Some t" using assms by (auto simp: delete_tracker_def res_simps)
  then show ?thesis
    using assms by (cases "get_finalizer t") (auto simp: delete_tracker_def UnlinkTracker_def DequeueFinalizer_def)
qed

lemma plain_bind:
  assumes "\<And>e e'. f e = Inr e' \<Longrightarrow> try_catch e' = try_catch e \<and> last_exception e' = last_exception e" "plain k"
  shows "plain (\<lambda>e. bind_res (f e) k)"
  unfolding plain_def
proof (intro allI impI)
  fix e st out e'
  assume "bind_res (f e) k = Inr (st, out, e')"
  then obtain e1 where e1: "f e = Inr e1" "k e1 = Inr (st, out, e')" unfolding bind_res_Inr_iff by blast
  show "(st \<noteq> napi_ok \<longrightarrow> error_code e' = st) \<and> st \<noteq> napi_pending_exception \<and>
     (try_catch e = None \<longrightarrow> try_catch e' = None) \<and> last_exception e' \<in> {last_exception e, None}"
    using plainD [OF assms(2) e1(2)] assms(1) [OF e1(1)] by simp
qed

lemma plain_succeed_calm: "calm g \<Longrightarrow> plain (\<lambda>e. succeed out (g e))"
  using plain_calm [OF plain_succeed] by blast

lemma plain_delete_tracker: "plain k \<Longrightarrow> plain (\<lambda>e. bind_res (delete_tracker i e) k)"
  by (rule plain_bind) (auto dest: delete_tracker_calm)

lemma plain_references [contract_intros]:
  "plain (napi_create_reference V v n r)" "plain (napi_delete_reference i)" "plain (napi_reference_ref i r)"
  "plain (napi_reference_unref i r)" "plain (napi_get_reference_value i r)"
  "plain (napi_add_finalizer V v d cb h r)" "plain (node_api_post_finalizer cb d h)"
  unfolding napi_create_reference_def napi_delete_reference_def napi_reference_ref_def napi_reference_unref_def
    napi_get_reference_value_def napi_add_finalizer_def node_api_post_finalizer_def case_prod_beta [of _ "Ref _"]
    case_prod_beta [of _ "Unref _"]
  by (intro contract_intros plain_succeed_calm calm_trackers plain_delete_tracker; simp)+

lemma plain_instance_data [contract_intros]:
  "plain (napi_set_instance_data d cb h)" "plain (napi_get_instance_data r)"
proof -
  have "plain (\<lambda>e. case TrackedFinalizer_New cb d h e of (i, e2) \<Rightarrow> succeed None (e2\<lparr>instance_data := Some i\<rparr>))"
    by (intro plain_case_new calm_New plain_succeed_calm calm_trackers)
  then show "plain (napi_set_instance_data d cb h)"
    unfolding napi_set_instance_data_def
    by (intro plain_bind) (auto split: option.splits dest: delete_tracker_calm)
  show "plain (napi_get_instance_data r)"
    by (auto simp: plain_def napi_get_instance_data_def guard_defs res_simps split: option.splits if_splits)
qed

lemma plain_scopes [contract_intros]:
  "plain (napi_open_handle_scope r)" "plain (napi_open_escapable_handle_scope r)" "plain (napi_escape_handle i v r)"
proof -
  have o: "plain open_scope" by (auto simp: plain_def open_scope_def succeed_def)
  show "plain (napi_open_handle_scope r)" "plain (napi_open_escapable_handle_scope r)"
    unfolding napi_open_handle_scope_def napi_open_escapable_handle_scope_def by (intro contract_intros o)+
  show "plain (napi_escape_handle i v r)"
    by (auto simp: plain_def napi_escape_handle_def guard_defs res_simps split: option.splits if_splits)
qed

section \<open>Functions with a preamble\<close>

lemma good_NewFunction [contract_intros]:
  assumes "engine_ok V"
  shows "good (NewFunction V c d)" "good (NewTemplate V c d sig)"
  unfolding NewFunction_def NewTemplate_def by (intro contract_intros assms; simp)+

lemma good_function_bodies [contract_intros]:
  assumes "engine_ok V"
  shows "api_contract (napi_create_function V s n cb d r)" "api_contract (napi_call_function V rv f n args r)"
    "api_contract (napi_new_instance V f n args r)"
  unfolding napi_create_function_def napi_call_function_def napi_new_instance_def Let_def
  by (intro contract_intros assms; simp)+

section \<open>Functions that throw\<close>

text \<open>The contract of a body that ends by throwing: it has caught the exception when it succeeds.\<close>

definition thrower :: "('v, 'h, 'a) api \<Rightarrow> bool" where
  "thrower f \<longleftrightarrow> (\<forall>e st out e'. in_body e \<longrightarrow> \<not> HasCaught e \<longrightarrow> f e = Inr (st, out, e') \<longrightarrow>
     (if st = napi_ok then HasCaught e' \<and> \<not> is_destructing e' else body_post st e'))"

lemma thrower_throw [contract_intros]: "thrower (\<lambda>e. succeed out (ThrowException x e))"
  by (auto simp: thrower_def succeed_def in_body_def HasCaught_def)

lemma thrower_CHECK_ARG [contract_intros]: "(\<And>x. thrower (k x)) \<Longrightarrow> thrower (CHECK_ARG arg k)"
  using good_fail [of napi_invalid_arg] by (cases arg) (auto simp: thrower_def good_def fail_def)

lemma thrower_with_out [contract_intros]: "(\<And>x. thrower (k x)) \<Longrightarrow> thrower (with_out m k)"
  by (cases m) (simp_all add: thrower_def with_out_def)

lemma thrower_alloc [contract_intros]:
  assumes "\<And>v. thrower (k v)"
  shows "thrower (alloc V p k)"
  unfolding thrower_def
proof (intro allI impI)
  fix e st out e'
  assume e: "in_body e" "\<not> HasCaught e" and r: "alloc V p k e = Inr (st, out, e')"
  obtain v h where "new V p (isolate e) = (v, h)" by fastforce
  then have "k v (e\<lparr>isolate := h\<rparr>) = Inr (st, out, e')" using r by (simp add: alloc_def)
  moreover have "in_body (e\<lparr>isolate := h\<rparr>)" "\<not> HasCaught (e\<lparr>isolate := h\<rparr>)"
    using e by (simp_all add: in_body_def HasCaught_def)
  ultimately show "if st = napi_ok then HasCaught e' \<and> \<not> is_destructing e' else body_post st e'"
    using assms unfolding thrower_def by blast
qed

lemma thrower_STATUS_CALL [contract_intros]:
  assumes "good call" "\<And>out. thrower (k out)"
  shows "thrower (STATUS_CALL call k)"
  unfolding thrower_def
proof (intro allI impI)
  fix e st out e'
  assume e: "in_body e" "\<not> HasCaught e" and r: "STATUS_CALL call k e = Inr (st, out, e')"
  obtain st1 out1 e1 where c: "call e = Inr (st1, out1, e1)"
    and k: "(if st1 \<noteq> napi_ok then Inr (st1, None, e1) else k out1 e1) = Inr (st, out, e')"
    using r by (auto simp: STATUS_CALL_def res_simps)
  note p = goodD [OF assms(1) e c]
  show "if st = napi_ok then HasCaught e' \<and> \<not> is_destructing e' else body_post st e'"
  proof (cases "st1 = napi_ok")
    case True
    then have "in_body e1" "\<not> HasCaught e1" using p by (auto simp: body_post_def in_body_def)
    then show ?thesis using True k assms(2) unfolding thrower_def by auto
  qed (use k p in auto)
qed

lemma CHECK_NEW_FROM_UTF8_split:
  "CHECK_NEW_FROM_UTF8 V str k =
    STATUS_CALL (CHECK_NEW_FROM_UTF8 V str (\<lambda>s e. Inr (napi_ok, Some s, e))) (\<lambda>m. with_out m k)"
proof
  fix e
  show "CHECK_NEW_FROM_UTF8 V str k e =
      STATUS_CALL (CHECK_NEW_FROM_UTF8 V str (\<lambda>s e. Inr (napi_ok, Some s, e))) (\<lambda>m. with_out m k) e"
  proof (cases str)
    case None
    then show ?thesis by (simp add: CHECK_NEW_FROM_UTF8_def CHECK_NEW_FROM_UTF8_LEN_def STATUS_CALL_def fail_def)
  next
    case (Some s)
    show ?thesis
    proof (cases "vop V (oNewFromUtf8 (str_len s NAPI_AUTO_LENGTH) True) e")
      case (Inr r)
      obtain m exc e1 where "r = (m, exc, e1)" by (cases r) auto
      then show ?thesis
        using Some Inr by (cases m) (simp_all add: CHECK_NEW_FROM_UTF8_def CHECK_NEW_FROM_UTF8_LEN_def
            STATUS_CALL_def fail_def jsv_def js_end_def with_out_def)
    qed (simp add: Some CHECK_NEW_FROM_UTF8_def CHECK_NEW_FROM_UTF8_LEN_def STATUS_CALL_def jsv_def js_end_def)
  qed
qed

lemma good_set_error_code [contract_intros]: "engine_ok V \<Longrightarrow> good (set_error_code V x c s)"
  unfolding set_error_code_def Let_def by (intro contract_intros; simp)

lemma thrower_utf8 [contract_intros]:
  assumes "engine_ok V" "\<And>x. thrower (k x)"
  shows "thrower (CHECK_NEW_FROM_UTF8 V str k)"
  by (subst CHECK_NEW_FROM_UTF8_split) (intro contract_intros assms)

definition throw_contract :: "('v, 'h, 'a) api \<Rightarrow> bool" where
  "throw_contract f \<longleftrightarrow> (\<forall>e st out e'. f e = Inr (st, out, e') \<longrightarrow>
     (st \<noteq> napi_ok \<longrightarrow> error_code e' = st) \<and> (try_catch e = None \<longrightarrow> try_catch e' = None) \<and>
     (st = napi_ok \<longrightarrow> last_exception e = None \<and> last_exception e' \<noteq> None) \<and>
     (st = napi_pending_exception \<longrightarrow> last_exception e' \<noteq> None \<or> is_destructing e))"

lemma thrower_post:
  assumes "thrower body" "last_exception e = None" "\<not> is_destructing e"
    and "with_TryCatch body e = Inr (st, out, e')"
  shows "(st \<noteq> napi_ok \<longrightarrow> error_code e' = st) \<and> try_catch e' = try_catch e \<and> \<not> is_destructing e' \<and>
    (st = napi_ok \<longrightarrow> last_exception e' \<noteq> None) \<and> (st = napi_pending_exception \<longrightarrow> last_exception e' \<noteq> None)"
proof -
  obtain e1 where b: "body (e\<lparr>try_catch := Some None\<rparr>) = Inr (st, out, e1)"
    and e': "e' = TryCatch_end (try_catch e) e1"
    using assms(4) by (auto simp: with_TryCatch_def res_simps)
  have "in_body (e\<lparr>try_catch := Some None\<rparr>)" "\<not> HasCaught (e\<lparr>try_catch := Some None\<rparr>)"
    using assms(2,3) by (simp_all add: in_body_def HasCaught_def)
  then have "if st = napi_ok then HasCaught e1 \<and> \<not> is_destructing e1 else body_post st e1"
    using assms(1) b unfolding thrower_def by blast
  moreover have "HasCaught e1 \<Longrightarrow> the (try_catch e1) \<noteq> None"
    by (auto simp: HasCaught_def split: option.splits)
  ultimately show ?thesis by (auto simp: e' body_post_def split: if_splits)
qed

lemma preamble_cases:
  assumes "NAPI_PREAMBLE body e = Inr (st, out, e')"
  obtains "last_exception e = None" "\<not> is_destructing e" "with_TryCatch body (napi_clear_last_error e) = Inr (st, out, e')"
  | "last_exception e \<noteq> None \<or> is_destructing e" "st \<in> {napi_pending_exception, napi_cannot_run_js}"
    "out = None" "e' = napi_set_last_error st e"
    "last_exception e \<noteq> None \<Longrightarrow> st = napi_pending_exception"
  using assms
  by (auto simp: NAPI_PREAMBLE_def CHECK_ENV_NOT_IN_GC_def can_call_into_js_def RETURN_STATUS_IF_FALSE_def
      fail_def res_simps split: if_splits)

lemma throw_contract_PREAMBLE [contract_intros]:
  assumes "thrower body"
  shows "throw_contract (NAPI_PREAMBLE body)"
  unfolding throw_contract_def
proof (intro allI impI)
  fix e st out e'
  assume "NAPI_PREAMBLE body e = Inr (st, out, e')"
  then show "(st \<noteq> napi_ok \<longrightarrow> error_code e' = st) \<and> (try_catch e = None \<longrightarrow> try_catch e' = None) \<and>
     (st = napi_ok \<longrightarrow> last_exception e = None \<and> last_exception e' \<noteq> None) \<and>
     (st = napi_pending_exception \<longrightarrow> last_exception e' \<noteq> None \<or> is_destructing e)"
  proof (cases rule: preamble_cases)
    case 1
    then show ?thesis using thrower_post [OF assms _ _ 1(3)] by auto
  next
    case 2
    then show ?thesis by auto
  qed
qed

lemma tame_PREAMBLE [contract_intros]:
  assumes "thrower body"
  shows "tame (NAPI_PREAMBLE body)"
  unfolding tame_def
proof (intro allI impI)
  fix e st out e'
  assume e: "in_body e" "\<not> HasCaught e" and "NAPI_PREAMBLE body e = Inr (st, out, e')"
  from this(3) show "try_catch e' \<noteq> None \<and> \<not> is_destructing e'"
  proof (cases rule: preamble_cases)
    case 1
    then show ?thesis using thrower_post [OF assms _ _ 1(3)] e by (auto simp: in_body_def)
  next
    case 2
    then show ?thesis using e by (auto simp: in_body_def)
  qed
qed

lemma thrower_throw_error: "engine_ok V \<Longrightarrow>
  thrower (CHECK_NEW_FROM_UTF8 V msg (\<lambda>str. alloc V (nError kind str) (\<lambda>error_obj.
    STATUS_CALL (set_error_code V error_obj None code) (\<lambda>_ e. succeed None (ThrowException error_obj e)))))"
  by (intro contract_intros)

lemma throw_contracts [contract_intros]:
  assumes "engine_ok V"
  shows "throw_contract (napi_throw x)" "throw_contract (napi_throw_error V c m)"
    "throw_contract (napi_throw_type_error V c m)" "throw_contract (napi_throw_range_error V c m)"
    "throw_contract (node_api_throw_syntax_error V c m)"
  unfolding napi_throw_def napi_throw_error_def napi_throw_type_error_def napi_throw_range_error_def
    node_api_throw_syntax_error_def throw_error_of_def
  by (intro throw_contract_PREAMBLE thrower_throw_error assms thrower_CHECK_ARG thrower_throw)+

lemma tame_throws [contract_intros]:
  assumes "engine_ok V"
  shows "tame (napi_throw_type_error V c m)" "tame (napi_throw_range_error V c m)"
  unfolding napi_throw_type_error_def napi_throw_range_error_def throw_error_of_def
  by (intro tame_PREAMBLE thrower_throw_error assms)+

section \<open>The other functions with a preamble\<close>

lemma contract_value_functions [contract_intros]:
  assumes "engine_ok V"
  shows "api_contract (napi_create_bigint_words V sg n ws r)" "api_contract (napi_get_array_length V v r)"
    "api_contract (napi_strict_equals V a b r)" "api_contract (napi_coerce_to_bool V v r)"
    "api_contract (napi_coerce_to_number V v r)" "api_contract (napi_coerce_to_object V v r)"
    "api_contract (napi_coerce_to_string V v r)" "api_contract (napi_create_arraybuffer V n d r)"
    "api_contract (napi_create_date V t r)" "api_contract (napi_get_date_value V v r)"
  unfolding napi_create_bigint_words_def napi_get_array_length_def napi_strict_equals_def napi_coerce_to_bool_def
    napi_coerce_to_number_def napi_coerce_to_object_def napi_coerce_to_string_def napi_create_arraybuffer_def
    napi_create_date_def napi_get_date_value_def
  by (intro contract_intros assms; simp)+

lemma good_THROW_RANGE_ERROR [contract_intros]:
  assumes "engine_ok V" "good k"
  shows "good (THROW_RANGE_ERROR_IF_FALSE V c err msg k)"
  unfolding THROW_RANGE_ERROR_IF_FALSE_def by (intro contract_intros assms; simp)

lemma contract_create_typedarray [contract_intros]:
  assumes "engine_ok V"
  shows "api_contract (napi_create_typedarray V t n v off r)"
proof -
  have c: "good (CREATE_TYPED_ARRAY V ty buf off n k)" if "\<And>x. good (k x)" for ty buf and k :: "'a \<Rightarrow> ('a, 'b, 'a) api"
  proof -
    have "good (\<lambda>e. THROW_RANGE_ERROR_IF_FALSE V (c e) err msg (alloc V p k) e)" for c err msg p
      by (rule good_dep [of "\<lambda>x. THROW_RANGE_ERROR_IF_FALSE V x err msg (alloc V p k)" c])
        (intro good_THROW_RANGE_ERROR assms good_alloc that)
    then show ?thesis
      unfolding CREATE_TYPED_ARRAY_def Let_def by (intro good_if good_THROW_RANGE_ERROR assms)
  qed
  show ?thesis
    unfolding napi_create_typedarray_def by (intro contract_intros c; simp)
qed

lemma contract_instanceof [contract_intros]: "engine_ok V \<Longrightarrow> api_contract (napi_instanceof V v c r)"
  unfolding napi_instanceof_def by (intro contract_intros; simp)

lemma contract_properties [contract_intros]:
  assumes "engine_ok V"
  shows "api_contract (napi_get_all_property_names V v md f c r)" "api_contract (napi_get_property_names V v r)"
    "api_contract (napi_set_property V v k x)" "api_contract (napi_has_property V v k r)"
    "api_contract (napi_get_property V v k r)" "api_contract (napi_delete_property V v k r)"
    "api_contract (napi_has_own_property V v k r)" "api_contract (napi_set_named_property V v s x)"
    "api_contract (napi_has_named_property V v s r)" "api_contract (napi_get_named_property V v s r)"
    "api_contract (napi_set_element V v i x)" "api_contract (napi_has_element V v i r)"
    "api_contract (napi_get_element V v i r)" "api_contract (napi_delete_element V v i r)"
    "api_contract (napi_object_freeze V v)" "api_contract (napi_object_seal V v)"
    "api_contract (napi_get_prototype V v r)"
  unfolding napi_get_property_names_def napi_get_all_property_names_def napi_set_property_def napi_has_property_def
    napi_get_property_def napi_delete_property_def napi_has_own_property_def napi_set_named_property_def
    napi_has_named_property_def napi_get_named_property_def napi_set_element_def napi_has_element_def
    napi_get_element_def napi_delete_element_def napi_object_freeze_def napi_object_seal_def set_integrity_def
    napi_get_prototype_def
  by (intro contract_intros assms; simp)+

lemma good_V8Name [contract_intros]: "engine_ok V \<Longrightarrow> good (V8NameFromPropertyDescriptor V p)"
  unfolding V8NameFromPropertyDescriptor_def by (intro contract_intros; simp)

lemma good_optional_new [contract_intros]:
  "(\<And>c. good (mk c)) \<Longrightarrow> (\<And>m. good (k m)) \<Longrightarrow> good (optional_new mk cb k)"
  by (cases cb) (auto simp: optional_new_def intro: good_STATUS_CALL)

lemma good_define_property [contract_intros]: "engine_ok V \<Longrightarrow> good (define_property V obj p n)"
  unfolding define_property_def Let_def by (intro contract_intros; simp)

lemma good_define_all [contract_intros]: "engine_ok V \<Longrightarrow> good (define_all V obj ps)"
  by (induction ps) (auto intro!: contract_intros)

lemma good_with_properties [contract_intros]: "(\<And>ps. good (k ps)) \<Longrightarrow> good (with_properties n ps k)"
  unfolding with_properties_def by (intro contract_intros)

lemma contract_define_properties [contract_intros]: "engine_ok V \<Longrightarrow> api_contract (napi_define_properties V v n ps)"
  unfolding napi_define_properties_def by (intro contract_intros; simp)

lemma good_define_properties [contract_intros]: "engine_ok V \<Longrightarrow> good (napi_define_properties V v n ps)"
  unfolding napi_define_properties_def by (intro contract_intros; simp)

lemma good_define_member [contract_intros]: "engine_ok V \<Longrightarrow> good (define_member V tpl p n)"
  unfolding define_member_def Let_def by (intro contract_intros; simp)

lemma good_define_members [contract_intros]: "engine_ok V \<Longrightarrow> good (define_members V tpl ps)"
  by (induction ps) (auto intro!: contract_intros)

lemma contract_define_class [contract_intros]: "engine_ok V \<Longrightarrow> api_contract (napi_define_class V s n c d k ps r)"
  unfolding napi_define_class_def Let_def by (intro contract_intros; simp)

lemma contract_Wrap [contract_intros]: "engine_ok V \<Longrightarrow> api_contract (napi_wrap V v d cb h r)"
  unfolding napi_wrap_def Wrap_def Let_def by (intro contract_intros; simp)

lemma good_with_reference [contract_intros]: "(\<And>r. good (k r)) \<Longrightarrow> good (with_reference i k)"
  by (auto simp: good_def with_reference_def split: option.splits tracker.splits)

lemma good_remove_wrap [contract_intros]: "good (remove_wrap i out)"
proof -
  have "good (\<lambda>e. GET_RETURN_STATUS out (set_tracker i t e))" for t
    by (rule good_calm [OF good_GET_RETURN_STATUS calm_trackers(1)])
  moreover have "good (\<lambda>e. bind_res (delete_tracker i e) (GET_RETURN_STATUS out))"
    unfolding good_def
  proof (intro allI impI)
    fix e st out' e'
    assume e: "in_body e" "\<not> HasCaught e" and "bind_res (delete_tracker i e) (GET_RETURN_STATUS out) = Inr (st, out', e')"
    then obtain e1 where e1: "delete_tracker i e = Inr e1" "GET_RETURN_STATUS out e1 = Inr (st, out', e')"
      by (auto simp: res_simps)
    have "in_body e1" "\<not> HasCaught e1"
      using e delete_tracker_calm [OF e1(1)] by (auto simp: in_body_def HasCaught_def)
    then show "body_post st e'" using goodD [OF good_GET_RETURN_STATUS _ _ e1(2)] by blast
  qed
  ultimately show ?thesis unfolding remove_wrap_def by (intro contract_intros) auto
qed

lemma contract_Unwrap [contract_intros]:
  assumes "engine_ok V"
  shows "api_contract (napi_unwrap V v r)" "api_contract (napi_remove_wrap V v r)"
proof -
  have "good (\<lambda>e. let i = rd V (rExternalValue val) (isolate e)
      in with_reference i (\<lambda>reference.
           let out = (if r then Some (Reference_Data reference) else None)
           in if a = RemoveWrap then
                jsb V (oDeletePrivate obj wrapper_key) (\<lambda>deleted. from_just deleted (\<lambda>b. CHECK b (remove_wrap i out)))
              else GET_RETURN_STATUS out) e)" for val obj a
    unfolding Let_def
    by (rule good_dep [of "\<lambda>i. with_reference i (\<lambda>reference.
           if a = RemoveWrap then jsb V (oDeletePrivate obj wrapper_key)
             (\<lambda>deleted. from_just deleted (\<lambda>b. CHECK b (remove_wrap i (if r then Some (Reference_Data reference) else None))))
           else GET_RETURN_STATUS (if r then Some (Reference_Data reference) else None))"])
      (intro contract_intros assms)
  then have "api_contract (Unwrap V v r a)" for a
    unfolding Unwrap_def by (intro contract_intros assms) simp_all
  then show "api_contract (napi_unwrap V v r)" "api_contract (napi_remove_wrap V v r)"
    by (simp_all add: napi_unwrap_def napi_remove_wrap_def)
qed

lemma contract_create_external [contract_intros]: "api_contract (napi_create_external V d cb h r)"
  unfolding napi_create_external_def by (intro contract_intros)

lemma contract_promises [contract_intros]:
  assumes "engine_ok V"
  shows "api_contract (napi_create_promise V d r)" "api_contract (napi_run_script V v r)"
    "api_contract (runScript V v u r)"
  unfolding napi_create_promise_def napi_run_script_def runScript_def by (intro contract_intros assms; simp)+

lemma good_bind:
  assumes "\<And>e e'. f e = Inr e' \<Longrightarrow> try_catch e' = try_catch e \<and> last_exception e' = last_exception e \<and>
      is_destructing e' = is_destructing e" "good k"
  shows "good (\<lambda>e. bind_res (f e) k)"
  unfolding good_def
proof (intro allI impI)
  fix e st out e'
  assume e: "in_body e" "\<not> HasCaught e" and "bind_res (f e) k = Inr (st, out, e')"
  then obtain e1 where e1: "f e = Inr e1" "k e1 = Inr (st, out, e')" unfolding bind_res_Inr_iff by blast
  have "in_body e1" "\<not> HasCaught e1" using e assms(1) [OF e1(1)] by (auto simp: in_body_def HasCaught_def)
  then show "body_post st e'" using goodD [OF assms(2) _ _ e1(2)] by blast
qed

lemma good_delete_deferred [contract_intros]: "good k \<Longrightarrow> good (delete_deferred d k)"
  using good_calm [of k "\<lambda>e. e\<lparr>deferreds := (deferreds e)(d := None)\<rparr>"]
  by (auto simp: delete_deferred_def good_def calm_def res_simps)

lemma goodc_delete_deferred [contract_intros]: "goodc k \<Longrightarrow> goodc (delete_deferred d k)"
  using goodc_calm [of k "\<lambda>e. e\<lparr>deferreds := (deferreds e)(d := None)\<rparr>"]
  by (auto simp: delete_deferred_def goodc_def calm_def res_simps)

lemma contract_deferreds [contract_intros]:
  assumes "engine_ok V"
  shows "api_contract (napi_resolve_deferred V d v)" "api_contract (napi_reject_deferred V d v)"
  unfolding napi_resolve_deferred_def napi_reject_deferred_def ConcludeDeferred_def
  by (intro contract_intros assms; simp)+

lemma contract_type_tags [contract_intros]:
  assumes "engine_ok V"
  shows "api_contract (napi_type_tag_object V v t)" "api_contract (napi_check_object_type_tag V v t r)"
proof -
  have u: "good (\<lambda>e. RETURN_STATUS_IF_FALSE_WITH_PREAMBLE b napi_invalid_arg (GET_RETURN_STATUS None)
      (e\<lparr>externals := (externals e)(i \<mapsto> w)\<rparr>))" for b i w
    by (rule good_calm [of _ "\<lambda>e. e\<lparr>externals := (externals e)(i \<mapsto> w)\<rparr>"]) (intro contract_intros, simp_all add: calm_def)
  have g: "good (\<lambda>e. bind_res (TypeTag w t) (\<lambda>(b, w1).
      RETURN_STATUS_IF_FALSE_WITH_PREAMBLE b napi_invalid_arg (GET_RETURN_STATUS None)
        (e\<lparr>externals := (externals e)(i \<mapsto> w1)\<rparr>)))" for w i
  proof (cases "TypeTag w t")
    case (Inr x)
    then show ?thesis using u [of "fst x" i "snd x"] by (simp add: case_prod_beta)
  qed (simp add: good_def)
  show "api_contract (napi_type_tag_object V v t)"
    unfolding napi_type_tag_object_def case_prod_beta
    by (intro contract_intros assms g [unfolded case_prod_beta]; simp)
  have h: "good (\<lambda>e. bind_res (CheckTypeTag w t) (\<lambda>b. check r NullDeref (GET_RETURN_STATUS (Some b) e)))" for w
  proof (cases "CheckTypeTag w t")
    case (Inr b)
    then show ?thesis using good_GET_RETURN_STATUS [of "Some b"] by (auto simp: good_def res_simps)
  qed (simp add: good_def)
  show "api_contract (napi_check_object_type_tag V v t r)"
    unfolding napi_check_object_type_tag_def case_prod_beta by (intro contract_intros assms h; simp)
qed

text \<open>A finalizer callback that leaves no exception behind.\<close>

definition user_calm :: "('v, 'h) user \<Rightarrow> bool" where
  "user_calm U \<longleftrightarrow> (\<forall>cb d h e e'. U cb d h e = Inr e' \<longrightarrow>
     try_catch e' = try_catch e \<and> last_exception e' = last_exception e \<and> is_destructing e' = is_destructing e)"

lemma EnvCallFinalizer_calm:
  assumes "user_calm U" "EnvCallFinalizer U cb d h e = Inr e'"
  shows "try_catch e' = try_catch e \<and> last_exception e' \<in> {last_exception e, None}"
proof (cases "in_gc_finalizer e")
  case True
  then show ?thesis using assms by (auto simp: EnvCallFinalizer_def user_calm_def)
next
  case False
  then obtain e1 where "U cb d h (napi_clear_last_error e) = Inr e1" "e' = e1 \<or> e' = e1\<lparr>last_exception := None\<rparr>"
    using assms(2) by (auto simp: EnvCallFinalizer_def CallIntoModule_def res_simps split: option.splits if_splits)
  moreover from this have "try_catch e1 = try_catch e \<and> last_exception e1 = last_exception e"
    using assms(1) unfolding user_calm_def by (metis last_error_fields(2,4))
  ultimately show ?thesis by auto
qed

lemma plain_sandbox:
  assumes "user_calm U" "plain create"
  shows "plain (\<lambda>e. bind_res (create e) (\<lambda>(status, out, e1).
    if status = napi_ok then
      (let out1 = map_option (\<lambda>v. (v, c)) out
       in case cb of None \<Rightarrow> Inr (status, out1, e1)
          | Some cb \<Rightarrow> bind_res (EnvCallFinalizer U cb a h e1) (\<lambda>e2. Inr (status, out1, e2)))
    else Inr (status, None, e1)))"
  unfolding plain_def
proof (intro allI impI)
  fix e st out e'
  assume r: "bind_res (create e) (\<lambda>(status, out, e1).
    if status = napi_ok then
      (let out1 = map_option (\<lambda>v. (v, c)) out
       in case cb of None \<Rightarrow> Inr (status, out1, e1)
          | Some cb \<Rightarrow> bind_res (EnvCallFinalizer U cb a h e1) (\<lambda>e2. Inr (status, out1, e2)))
    else Inr (status, None, e1)) = Inr (st, out, e')"
  then obtain st1 out1 e1 where c: "create e = Inr (st1, out1, e1)" by (auto simp: res_simps)
  have e': "st = st1" "e' = e1 \<or> (st1 = napi_ok \<and> (\<exists>x. EnvCallFinalizer U x a h e1 = Inr e'))"
    using r c by (auto simp: res_simps Let_def split: if_splits option.splits)
  show "(st \<noteq> napi_ok \<longrightarrow> error_code e' = st) \<and> st \<noteq> napi_pending_exception \<and>
     (try_catch e = None \<longrightarrow> try_catch e' = None) \<and> last_exception e' \<in> {last_exception e, None}"
    using e'(2)
  proof
    assume "st1 = napi_ok \<and> (\<exists>x. EnvCallFinalizer U x a h e1 = Inr e')"
    then obtain x where x: "st1 = napi_ok" "EnvCallFinalizer U x a h e1 = Inr e'" by blast
    show ?thesis using plainD [OF assms(2) c] e'(1) x(1) EnvCallFinalizer_calm [OF assms(1) x(2)] by auto
  qed (use plainD [OF assms(2) c] e'(1) in simp)
qed

lemma contract_external_strings [contract_intros]:
  assumes "engine_ok V" "user_calm U"
  shows "plain (node_api_create_external_string_latin1 sb U V a s n cb h r c)"
    "plain (node_api_create_external_string_utf16 sb U V a s16 n cb h r c)"
proof -
  have m: "plain (with_new (TrackedStringResource_New cb a h) (\<lambda>resource. jsv V (p resource) k))"
    if "\<And>m. plain (k m)" for p and k :: "'a option \<Rightarrow> ('a, 'b, 'a) api"
    by (intro contract_intros assms that)
  show "plain (node_api_create_external_string_latin1 sb U V a s n cb h r c)"
    unfolding node_api_create_external_string_latin1_def NewExternalString_def CHECK_NEW_STRING_ARGS_def Let_def
    by (intro contract_intros plain_sandbox [unfolded Let_def] assms m; simp)
  show "plain (node_api_create_external_string_utf16 sb U V a s16 n cb h r c)"
    unfolding node_api_create_external_string_utf16_def NewExternalString_def CHECK_NEW_STRING_ARGS_def Let_def
    by (intro contract_intros plain_sandbox [unfolded Let_def] assms m; simp)
qed

lemma contract_external_buffers [contract_intros]:
  assumes "engine_ok V" "user_calm U"
  shows "api_contract (napi_create_external_buffer U V n d cb h r)"
    "api_contract (napi_create_external_arraybuffer U V d n cb h r)"
proof -
  have b: "good (\<lambda>e. bind_res (case cb of None \<Rightarrow> Inr e | Some c \<Rightarrow> U c 0 h e) k)" if "good k"
    for k :: "('a, 'b, 'a) api"
    using assms(2) by (intro good_bind [OF _ that]) (auto simp: user_calm_def split: option.splits)
  show c: "api_contract (napi_create_external_buffer U V n d cb h r)" for r
    unfolding napi_create_external_buffer_def Let_def by (intro contract_intros b)
  show "api_contract (napi_create_external_arraybuffer U V d n cb h r)"
    unfolding napi_create_external_arraybuffer_def
    by (intro contract_STATUS_CALL c plain_map_out plain_views)
qed

section \<open>The families of functions\<close>

text \<open>Functions that a finalizer may call during garbage collection.\<close>

inductive nogc_call :: "('v, 'h) v8 \<Rightarrow> ('v, 'h) user \<Rightarrow> ('v, 'h, unit) api \<Rightarrow> bool" for V U where
  "nogc_call V U (drop_out (napi_get_last_error_info r))"
| "nogc_call V U (drop_out (napi_get_cb_info V info argc argv))"
| "nogc_call V U (drop_out (node_api_post_finalizer cb d h))"
| "nogc_call V U (drop_out (napi_set_instance_data d cb h))"
| "nogc_call V U (drop_out (napi_get_instance_data r))"
| "nogc_call V U (drop_out (napi_get_version r))"
| "nogc_call V U (drop_out (napi_adjust_external_memory V n r))"

text \<open>The other functions without a preamble. The two functions that close a handle scope are not among them:
  they do not record their error.\<close>

inductive guarded_call :: "('v, 'h) v8 \<Rightarrow> ('v, 'h) user \<Rightarrow> ('v, 'h, unit) api \<Rightarrow> bool" for V U where
  "guarded_call V U (drop_out (napi_get_new_target info r))"
| "guarded_call V U (drop_out (napi_is_exception_pending r))"
| "guarded_call V U (drop_out (napi_get_undefined V r))"
| "guarded_call V U (drop_out (napi_get_and_clear_last_exception V r))"
| "guarded_call V U (drop_out (napi_create_object V r))"
| "guarded_call V U (drop_out (napi_create_array V r))"
| "guarded_call V U (drop_out (napi_create_array_with_length V n r))"
| "guarded_call V U (drop_out (napi_create_double V d r))"
| "guarded_call V U (drop_out (napi_create_int32 V w r))"
| "guarded_call V U (drop_out (napi_create_uint32 V w r))"
| "guarded_call V U (drop_out (napi_create_int64 V x r))"
| "guarded_call V U (drop_out (napi_create_bigint_int64 V x r))"
| "guarded_call V U (drop_out (napi_create_bigint_uint64 V x r))"
| "guarded_call V U (drop_out (napi_get_boolean V b r))"
| "guarded_call V U (drop_out (napi_get_null V r))"
| "guarded_call V U (drop_out (napi_get_global V r))"
| "guarded_call V U (drop_out (napi_create_symbol V dsc r))"
| "guarded_call V U (drop_out (napi_create_string_latin1 V s n r))"
| "guarded_call V U (drop_out (napi_create_string_utf8 V s n r))"
| "guarded_call V U (drop_out (napi_create_string_utf16 V s16 n r))"
| "guarded_call V U (drop_out (node_api_create_property_key_utf16 V s16 n r))"
| "guarded_call V U (drop_out (node_api_create_external_string_latin1 sb U V a s n cb h r c))"
| "guarded_call V U (drop_out (node_api_create_external_string_utf16 sb U V a s16 n cb h r c))"
| "guarded_call V U (drop_out (node_api_symbol_for V s n r))"
| "guarded_call V U (drop_out (napi_create_error V c m r))"
| "guarded_call V U (drop_out (napi_create_type_error V c m r))"
| "guarded_call V U (drop_out (napi_create_range_error V c m r))"
| "guarded_call V U (drop_out (node_api_create_syntax_error V c m r))"
| "guarded_call V U (drop_out (napi_is_array V v r))"
| "guarded_call V U (drop_out (napi_is_error V v r))"
| "guarded_call V U (drop_out (napi_is_arraybuffer V v r))"
| "guarded_call V U (drop_out (napi_is_typedarray V v r))"
| "guarded_call V U (drop_out (napi_is_dataview V v r))"
| "guarded_call V U (drop_out (napi_is_promise V v r))"
| "guarded_call V U (drop_out (napi_is_date V v r))"
| "guarded_call V U (drop_out (napi_typeof V v r))"
| "guarded_call V U (drop_out (napi_get_value_double V v r))"
| "guarded_call V U (drop_out (napi_get_value_int32 V v r))"
| "guarded_call V U (drop_out (napi_get_value_uint32 V v r))"
| "guarded_call V U (drop_out (napi_get_value_int64 V v r))"
| "guarded_call V U (drop_out (napi_get_value_bigint_int64 V v r l))"
| "guarded_call V U (drop_out (napi_get_value_bigint_uint64 V v r l))"
| "guarded_call V U (drop_out (napi_get_value_bigint_words V v sg n ws))"
| "guarded_call V U (drop_out (napi_get_value_bool V v r))"
| "guarded_call V U (drop_out (napi_get_value_string_latin1 V v b n r))"
| "guarded_call V U (drop_out (napi_get_value_string_utf8 V v b n r))"
| "guarded_call V U (drop_out (napi_get_value_string_utf16 V v b n r))"
| "guarded_call V U (drop_out (napi_get_value_external V v r))"
| "guarded_call V U (drop_out (napi_get_arraybuffer_info V v d r))"
| "guarded_call V U (drop_out (napi_get_typedarray_info V v t d b))"
| "guarded_call V U (drop_out (napi_get_dataview_info V v d b))"
| "guarded_call V U (drop_out (napi_is_detached_arraybuffer V v r))"
| "guarded_call V U (drop_out (napi_detach_arraybuffer V v))"
| "guarded_call V U (drop_out (napi_create_reference V v n r))"
| "guarded_call V U (drop_out (napi_delete_reference i))"
| "guarded_call V U (drop_out (napi_reference_ref i r))"
| "guarded_call V U (drop_out (napi_reference_unref i r))"
| "guarded_call V U (drop_out (napi_get_reference_value i r))"
| "guarded_call V U (drop_out (napi_add_finalizer V v d cb h r))"
| "guarded_call V U (drop_out (napi_open_handle_scope r))"
| "guarded_call V U (drop_out (napi_open_escapable_handle_scope r))"
| "guarded_call V U (drop_out (napi_escape_handle i v r))"

text \<open>Functions with a preamble that do not throw on purpose.\<close>

inductive preamble_call :: "('v, 'h) v8 \<Rightarrow> ('v, 'h) user \<Rightarrow> ('v, 'h, unit) api \<Rightarrow> bool" for V U where
  "preamble_call V U (drop_out (napi_create_bigint_words V sg n ws r))"
| "preamble_call V U (drop_out (napi_get_array_length V v r))"
| "preamble_call V U (drop_out (napi_strict_equals V a b r))"
| "preamble_call V U (drop_out (napi_coerce_to_bool V v r))"
| "preamble_call V U (drop_out (napi_coerce_to_number V v r))"
| "preamble_call V U (drop_out (napi_coerce_to_object V v r))"
| "preamble_call V U (drop_out (napi_coerce_to_string V v r))"
| "preamble_call V U (drop_out (napi_create_arraybuffer V n d r))"
| "preamble_call V U (drop_out (napi_create_date V t r))"
| "preamble_call V U (drop_out (napi_get_date_value V v r))"
| "preamble_call V U (drop_out (napi_create_typedarray V t n v off r))"
| "preamble_call V U (drop_out (napi_create_function V s n cb d r))"
| "preamble_call V U (drop_out (napi_call_function V rv f n args r))"
| "preamble_call V U (drop_out (napi_new_instance V f n args r))"
| "preamble_call V U (drop_out (napi_instanceof V v c r))"
| "preamble_call V U (drop_out (napi_get_all_property_names V v md f c r))"
| "preamble_call V U (drop_out (napi_get_property_names V v r))"
| "preamble_call V U (drop_out (napi_set_property V v k x))"
| "preamble_call V U (drop_out (napi_has_property V v k r))"
| "preamble_call V U (drop_out (napi_get_property V v k r))"
| "preamble_call V U (drop_out (napi_delete_property V v k r))"
| "preamble_call V U (drop_out (napi_has_own_property V v k r))"
| "preamble_call V U (drop_out (napi_set_named_property V v s x))"
| "preamble_call V U (drop_out (napi_has_named_property V v s r))"
| "preamble_call V U (drop_out (napi_get_named_property V v s r))"
| "preamble_call V U (drop_out (napi_set_element V v i x))"
| "preamble_call V U (drop_out (napi_has_element V v i r))"
| "preamble_call V U (drop_out (napi_get_element V v i r))"
| "preamble_call V U (drop_out (napi_delete_element V v i r))"
| "preamble_call V U (drop_out (napi_define_properties V v n ps))"
| "preamble_call V U (drop_out (napi_define_class V s n c d k ps r))"
| "preamble_call V U (drop_out (napi_object_freeze V v))"
| "preamble_call V U (drop_out (napi_object_seal V v))"
| "preamble_call V U (drop_out (napi_get_prototype V v r))"
| "preamble_call V U (drop_out (napi_wrap V v d cb h r))"
| "preamble_call V U (drop_out (napi_unwrap V v r))"
| "preamble_call V U (drop_out (napi_remove_wrap V v r))"
| "preamble_call V U (drop_out (napi_create_external V d cb h r))"
| "preamble_call V U (drop_out (napi_type_tag_object V v t))"
| "preamble_call V U (drop_out (napi_check_object_type_tag V v t r))"
| "preamble_call V U (drop_out (napi_create_promise V d r))"
| "preamble_call V U (drop_out (napi_resolve_deferred V d v))"
| "preamble_call V U (drop_out (napi_reject_deferred V d v))"
| "preamble_call V U (drop_out (napi_run_script V v r))"
| "preamble_call V U (drop_out (runScript V v u r))"
| "preamble_call V U (drop_out (napi_create_external_buffer U V n d cb h r))"
| "preamble_call V U (drop_out (napi_create_external_arraybuffer U V d n cb h r))"

text \<open>Functions that throw.\<close>

inductive throw_call :: "('v, 'h) v8 \<Rightarrow> ('v, 'h) user \<Rightarrow> ('v, 'h, unit) api \<Rightarrow> bool" for V U where
  "throw_call V U (drop_out (napi_throw x))"
| "throw_call V U (drop_out (napi_throw_error V c m))"
| "throw_call V U (drop_out (napi_throw_type_error V c m))"
| "throw_call V U (drop_out (napi_throw_range_error V c m))"
| "throw_call V U (drop_out (node_api_throw_syntax_error V c m))"

lemma families_contract:
  assumes "engine_ok V" "user_calm U"
  shows "nogc_call V U f \<Longrightarrow> api_contract f" "guarded_call V U f \<Longrightarrow> api_contract f" "preamble_call V U f \<Longrightarrow> api_contract f"
proof -
  show "nogc_call V U f \<Longrightarrow> api_contract f"
    unfolding drop_out_def by (induction rule: nogc_call.induct) (simp_all only: drop_out_def,
      (intro contract_map_out contract_simple_last_error contract_env_functions plain_contract [OF plain_references(7)]
        plain_contract [OF plain_instance_data(1)] plain_contract [OF plain_instance_data(2)]
        plain_contract [OF plain_misc(1)] plain_contract [OF plain_misc(2)])+)
  show "guarded_call V U f \<Longrightarrow> api_contract f"
    by (induction rule: guarded_call.induct)
      (simp_all only: drop_out_def, (intro contract_map_out contract_env_functions contract_get_and_clear
        plain_contract; (intro plain_creations plain_strings plain_symbol_for plain_create_errors plain_tests plain_reads
          plain_bigint_words plain_get_strings plain_views plain_external_value plain_references plain_scopes
          contract_external_strings assms)?)+)
  show "preamble_call V U f \<Longrightarrow> api_contract f"
    by (induction rule: preamble_call.induct)
      (simp_all only: drop_out_def, (intro contract_map_out contract_value_functions contract_create_typedarray
        good_function_bodies contract_instanceof contract_properties contract_define_properties contract_define_class
        contract_Wrap contract_Unwrap contract_create_external contract_type_tags contract_promises
        contract_deferreds contract_external_buffers assms)+)
qed

section \<open>The contract of the Node-API\<close>

text \<open>An engine for concrete instances: every conversion and operation gives the value 7, or throws 9.\<close>

definition plain_engine :: "(nat, nat) v8" where
  "plain_engine = \<lparr>Is = (\<lambda>t v. True), vop = (\<lambda>p e. Inr (Some 7, None, e)), bop = (\<lambda>p e. Inr (Some True, None, e)),
     new = (\<lambda>p h. (h, h + 1)), eff = (\<lambda>p h. h), rd = (\<lambda>p h. 0), rdi = (\<lambda>p h. 0), tst = (\<lambda>p h. False),
     string_write = (\<lambda>enc v n h. []), bigint_words = (\<lambda>v h. (False, [])), adjust_memory = (\<lambda>n h. (n, h)),
     v_undefined = 0, v_null = 1, v_bool = (\<lambda>b. if b then 3 else 2)\<rparr>"

definition throwing_engine :: "(nat, nat) v8" where
  "throwing_engine = plain_engine\<lparr>vop := (\<lambda>p e. case p of oGet v k \<Rightarrow> Inr (None, Some 9, e) | _ \<Rightarrow> Inr (Some 7, None, e))\<rparr>"

lemma engines_ok: "engine_ok plain_engine" "engine_ok throwing_engine"
  by (auto simp: engine_ok_def plain_engine_def throwing_engine_def split: v8_vop.splits)

lemma silent_calm: "user_calm silent"
  by (simp add: user_calm_def silent_def)

text \<open>
  C4: Every exported function of the three families keeps the contract of the Node-API. A status other than ok is
  recorded as the last error; the \<open>TryCatch\<close> scopes are balanced; a function that returns ok leaves no new pending exception;
  the status \<open>napi_pending_exception\<close> means that an exception is pending or the environment is going away.
\<close>

theorem api_contract_holds:
  assumes "engine_ok V" "user_calm U"
    and "nogc_call V U f \<or> guarded_call V U f \<or> preamble_call V U f"
    and "f e = Inr (st, out, e')"
  shows "(st \<noteq> napi_ok \<longrightarrow> error_code e' = st) \<and>
    (try_catch e = None \<longrightarrow> try_catch e' = None) \<and>
    (st = napi_ok \<longrightarrow> last_exception e = None \<longrightarrow> last_exception e' = None) \<and>
    (st = napi_pending_exception \<longrightarrow> last_exception e' \<noteq> None \<or> is_destructing e)"
proof -
  have "api_contract f" using assms(3) families_contract [OF assms(1,2)] by blast
  then show ?thesis using assms(4) unfolding api_contract_def by blast
qed

lemma throwing_get:
  "drop_out (napi_get_property throwing_engine (Some 1) (Some 2) True) (napi_env_new 0 8) =
    Inr (napi_pending_exception, None,
      (napi_env_new 0 8)\<lparr>error_code := napi_pending_exception, last_exception := Some 9\<rparr>)"
  by (simp add: drop_out_def map_out_def napi_get_property_def NAPI_PREAMBLE_def CHECK_ENV_NOT_IN_GC_def check_def
      CheckGCAccess_def napi_env_new_def can_call_into_js_def with_TryCatch_def CHECK_OUT_def CHECK_TO_OBJECT_def
      jsv_def js_end_def throwing_engine_def plain_engine_def ThrowException_def fail_def HasCaught_def
      napi_clear_last_error_def napi_set_last_error_def TryCatch_end_def NAPI_VERSION_EXPERIMENTAL_def)

theorem api_contract_holds_witness:
  "\<exists>e'. drop_out (napi_get_property throwing_engine (Some 1) (Some 2) True) (napi_env_new 0 8) =
      Inr (napi_pending_exception, None, e') \<and> error_code e' = napi_pending_exception \<and> last_exception e' \<noteq> None"
proof -
  let ?f = "drop_out (napi_get_property throwing_engine (Some 1) (Some 2) True)"
  have "preamble_call throwing_engine silent ?f" by (rule preamble_call.intros)
  from api_contract_holds [where f = ?f, OF engines_ok(2) silent_calm disjI2 [OF disjI2 [OF this]] throwing_get]
  show ?thesis using throwing_get by (simp add: napi_env_new_def)
qed

definition blocks :: "('v, 'h, 'a) api \<Rightarrow> bool" where
  "blocks f \<longleftrightarrow> (\<forall>e. last_exception e \<noteq> None \<longrightarrow> CheckGCAccess e \<longrightarrow>
     f e = Inr (napi_pending_exception, None, napi_set_last_error napi_pending_exception e))"

definition gc_checked :: "('v, 'h, 'a) api \<Rightarrow> bool" where
  "gc_checked f \<longleftrightarrow> (\<forall>e. \<not> CheckGCAccess e \<longrightarrow> f e = Inl CheckAbort)"

lemma blocks_rules:
  "blocks (NAPI_PREAMBLE body)" "blocks f \<Longrightarrow> blocks (drop_out f)" "blocks f \<Longrightarrow> blocks (STATUS_CALL f k)"
  by (auto simp: blocks_def NAPI_PREAMBLE_def CHECK_ENV_NOT_IN_GC_def check_def fail_def drop_out_def map_out_def
      STATUS_CALL_def)

lemma gc_rules:
  "gc_checked (CHECK_ENV_NOT_IN_GC k)" "gc_checked (NAPI_PREAMBLE body)" "gc_checked f \<Longrightarrow> gc_checked (drop_out f)"
  "gc_checked f \<Longrightarrow> gc_checked (STATUS_CALL f k1)"
  by (auto simp: gc_checked_def NAPI_PREAMBLE_def CHECK_ENV_NOT_IN_GC_def check_def drop_out_def map_out_def
      STATUS_CALL_def)

lemmas preamble_defs = napi_create_bigint_words_def napi_get_array_length_def napi_strict_equals_def
  napi_coerce_to_bool_def napi_coerce_to_number_def napi_coerce_to_object_def napi_coerce_to_string_def
  napi_create_arraybuffer_def napi_create_date_def napi_get_date_value_def napi_create_typedarray_def
  napi_create_function_def napi_call_function_def napi_new_instance_def napi_instanceof_def
  napi_get_property_names_def napi_get_all_property_names_def napi_set_property_def napi_has_property_def
  napi_get_property_def napi_delete_property_def napi_has_own_property_def napi_set_named_property_def
  napi_has_named_property_def napi_get_named_property_def napi_set_element_def napi_has_element_def
  napi_get_element_def napi_delete_element_def napi_define_properties_def napi_define_class_def
  napi_object_freeze_def napi_object_seal_def set_integrity_def napi_get_prototype_def napi_wrap_def Wrap_def
  napi_unwrap_def napi_remove_wrap_def Unwrap_def napi_create_external_def napi_type_tag_object_def
  napi_check_object_type_tag_def napi_create_promise_def napi_resolve_deferred_def napi_reject_deferred_def
  ConcludeDeferred_def napi_run_script_def runScript_def napi_create_external_buffer_def
  napi_create_external_arraybuffer_def napi_throw_def napi_throw_error_def napi_throw_type_error_def
  napi_throw_range_error_def node_api_throw_syntax_error_def throw_error_of_def

lemma preamble_blocks: "preamble_call V U f \<Longrightarrow> blocks f" "throw_call V U f \<Longrightarrow> blocks f"
  by (induction rule: preamble_call.induct; unfold preamble_defs; intro blocks_rules)
    (induction rule: throw_call.induct; unfold preamble_defs; intro blocks_rules)

lemma preamble_gc: "preamble_call V U f \<Longrightarrow> gc_checked f" "throw_call V U f \<Longrightarrow> gc_checked f"
  by (induction rule: preamble_call.induct; unfold preamble_defs; intro gc_rules)
    (induction rule: throw_call.induct; unfold preamble_defs; intro gc_rules)

text \<open>
  While an exception is pending, a function with a preamble does nothing: it returns
  \<open>napi_pending_exception\<close>, stores nothing and only records that status, so no JavaScript runs.
\<close>

theorem pending_exception_blocks:
  assumes "preamble_call V U f \<or> throw_call V U f" "last_exception e = Some x" "CheckGCAccess e"
  shows "f e = Inr (napi_pending_exception, None, napi_set_last_error napi_pending_exception e)"
  using assms preamble_blocks unfolding blocks_def by blast

theorem pending_exception_blocks_witness:
  "drop_out (napi_call_function plain_engine (Some 1) (Some 2) 0 None True) ((napi_env_new 0 8)\<lparr>last_exception := Some 5\<rparr>) =
    Inr (napi_pending_exception, None,
      napi_set_last_error napi_pending_exception ((napi_env_new 0 8)\<lparr>last_exception := Some 5\<rparr>))"
proof (rule pending_exception_blocks [where x = 5])
  show "preamble_call plain_engine silent (drop_out (napi_call_function plain_engine (Some 1) (Some 2) 0 None True)) \<or>
      throw_call plain_engine silent (drop_out (napi_call_function plain_engine (Some 1) (Some 2) 0 None True))"
    by (rule disjI1) (rule preamble_call.intros)
qed (simp_all add: CheckGCAccess_def napi_env_new_def)

lemmas guarded_defs = napi_get_new_target_def napi_is_exception_pending_def napi_get_undefined_def
  napi_get_and_clear_last_exception_def napi_create_object_def napi_create_array_def
  napi_create_array_with_length_def napi_create_double_def napi_create_int32_def napi_create_uint32_def
  napi_create_int64_def napi_create_bigint_int64_def napi_create_bigint_uint64_def napi_get_boolean_def
  napi_get_null_def napi_get_global_def napi_create_symbol_def napi_create_string_latin1_def
  napi_create_string_utf8_def napi_create_string_utf16_def node_api_create_property_key_utf16_def
  node_api_create_external_string_latin1_def node_api_create_external_string_utf16_def NewString_def
  NewExternalString_def CHECK_NEW_STRING_ARGS_def node_api_symbol_for_def napi_create_error_def
  napi_create_type_error_def napi_create_range_error_def node_api_create_syntax_error_def create_error_of_def
  napi_is_array_def napi_is_error_def napi_is_arraybuffer_def napi_is_typedarray_def napi_is_dataview_def
  napi_is_promise_def napi_is_date_def is_kind_def napi_typeof_def napi_get_value_double_def
  napi_get_value_int32_def napi_get_value_uint32_def napi_get_value_int64_def napi_get_value_bigint_int64_def
  napi_get_value_bigint_uint64_def napi_get_value_bigint_words_def napi_get_value_bool_def
  napi_get_value_string_latin1_def napi_get_value_string_utf8_def napi_get_value_string_utf16_def
  get_value_string_of_def napi_get_value_external_def napi_get_arraybuffer_info_def napi_get_typedarray_info_def
  napi_get_dataview_info_def napi_is_detached_arraybuffer_def napi_detach_arraybuffer_def
  napi_create_reference_def napi_delete_reference_def napi_reference_ref_def napi_reference_unref_def
  napi_get_reference_value_def napi_add_finalizer_def napi_open_handle_scope_def
  napi_open_escapable_handle_scope_def napi_escape_handle_def

lemma guarded_gc: "guarded_call V U f \<Longrightarrow> gc_checked f"
  by (induction rule: guarded_call.induct; unfold guarded_defs; intro gc_rules)

lemma nogc_free:
  assumes "nogc_call V U f"
  shows "f e \<noteq> Inl CheckAbort"
  using assms
proof (induction rule: nogc_call.induct)
  case (1 r)
  have "status_index st < length error_messages" "st \<le> napi_cannot_run_js" for st
    by (cases st; simp add: error_messages_def less_eq_napi_status_def)+
  then show ?case
    by (simp add: drop_out_def map_out_def napi_get_last_error_info_def CHECK_OUT_def RETURN_STATUS_IF_FALSE_def
        fail_def check_def read_at_def Let_def res_simps)
qed (auto simp: drop_out_def map_out_def napi_get_cb_info_def node_api_post_finalizer_def napi_set_instance_data_def
    napi_get_instance_data_def napi_get_version_def napi_adjust_external_memory_def CHECK_OUT_def CHECK_ARG_def
    RETURN_STATUS_IF_FALSE_def fail_def succeed_def delete_tracker_def deref_def Let_def res_simps
    split: option.splits prod.splits if_splits)

text \<open>
  In a module of the experimental version, a finalizer that runs during garbage collection aborts the
  process when it calls any function other than the few that are safe there, and those never abort.
\<close>

theorem gc_guard:
  assumes "module_api_version e = NAPI_VERSION_EXPERIMENTAL" "in_gc_finalizer e"
  shows "(guarded_call V U f \<or> preamble_call V U f \<or> throw_call V U f \<longrightarrow> f e = Inl CheckAbort) \<and>
    (nogc_call V U f \<longrightarrow> f e \<noteq> Inl CheckAbort)"
proof -
  have "\<not> CheckGCAccess e" using assms by (simp add: CheckGCAccess_def)
  then show ?thesis using guarded_gc preamble_gc nogc_free unfolding gc_checked_def by blast
qed

definition gc_env :: "(nat, nat) napi_env" where
  "gc_env = (napi_env_new 0 NAPI_VERSION_EXPERIMENTAL)\<lparr>in_gc_finalizer := True\<rparr>"

theorem gc_guard_witness:
  "drop_out (napi_create_object plain_engine True) gc_env = Inl CheckAbort \<and>
   drop_out (node_api_post_finalizer (Some 4) 1 2) gc_env \<noteq> Inl CheckAbort"
proof -
  have e: "module_api_version gc_env = NAPI_VERSION_EXPERIMENTAL" "in_gc_finalizer gc_env"
    by (simp_all add: gc_env_def napi_env_new_def)
  have "guarded_call plain_engine silent (drop_out (napi_create_object plain_engine True))"
    by (rule guarded_call.intros)
  moreover have "nogc_call plain_engine silent (drop_out (node_api_post_finalizer (Some 4) 1 2))"
    by (rule nogc_call.intros)
  ultimately show ?thesis using gc_guard [OF e] by blast
qed

text \<open>
  A function that throws and returns ok has started without a pending exception and leaves the thrown
  one pending; when it fails, its status is recorded, and the \<open>TryCatch\<close> scopes are balanced.
\<close>

theorem throw_functions:
  assumes "engine_ok V" "throw_call V U f" "f e = Inr (st, out, e')"
  shows "(st = napi_ok \<longrightarrow> last_exception e = None \<and> last_exception e' \<noteq> None) \<and>
    (st \<noteq> napi_ok \<longrightarrow> error_code e' = st) \<and> (try_catch e = None \<longrightarrow> try_catch e' = None)"
proof -
  have d: "throw_contract g \<Longrightarrow> throw_contract (drop_out g)" for g :: "('a, 'b, unit) api"
    unfolding throw_contract_def drop_out_def map_out_def by (simp add: res_simps) blast
  have "throw_contract f"
    using assms(2) by (induction rule: throw_call.induct) (rule d, rule throw_contracts [OF assms(1)])+
  then show ?thesis using assms(3) unfolding throw_contract_def by blast
qed

theorem throw_functions_witness:
  "\<exists>e'. drop_out (napi_throw (Some (5 :: nat))) (napi_env_new (0 :: nat) 8) = Inr (napi_ok, None, e') \<and> last_exception e' \<noteq> None"
proof -
  let ?e = "(napi_env_new 0 8)\<lparr>last_exception := Some 5\<rparr> :: (nat, nat) napi_env"
  have r: "drop_out (napi_throw (Some 5)) (napi_env_new 0 8) = Inr (napi_ok, None, ?e)"
    by (simp add: drop_out_def map_out_def napi_throw_def NAPI_PREAMBLE_def CHECK_ENV_NOT_IN_GC_def check_def
        CheckGCAccess_def napi_env_new_def can_call_into_js_def with_TryCatch_def ThrowException_def succeed_def
        napi_clear_last_error_def TryCatch_end_def NAPI_VERSION_EXPERIMENTAL_def)
  have "throw_call plain_engine silent (drop_out (napi_throw (Some 5)))" by (rule throw_call.intros)
  from throw_functions [OF engines_ok(1) this r] show ?thesis using r by auto
qed

end
