(* ===== verification/Napi_Data.thy ===== *)
theory Napi_Data
  imports Napi_Api
begin

text \<open>
  What the Node-API functions do with data: copies of strings into buffers, the bounds of typed arrays,
  and the round trips of type tags and wrapped pointers. V8's documented behaviour enters as named
  hypotheses on the engine.
\<close>

section \<open>Running a function with a preamble\<close>

definition ready :: "('v, 'h) napi_env \<Rightarrow> bool" where
  "ready e \<longleftrightarrow> CheckGCAccess e \<and> last_exception e = None \<and> \<not> is_destructing e"

lemma preamble_run: "ready e \<Longrightarrow> NAPI_PREAMBLE body e = with_TryCatch body (napi_clear_last_error e)"
  by (simp add: ready_def NAPI_PREAMBLE_def CHECK_ENV_NOT_IN_GC_def check_def can_call_into_js_def)

text \<open>The state in which the body of a function starts, and the one it leaves.\<close>

definition entered :: "('v, 'h) napi_env \<Rightarrow> ('v, 'h) napi_env" where
  "entered e = (napi_clear_last_error e)\<lparr>try_catch := Some None\<rparr>"

lemma entered_fields [simp]:
  "try_catch (entered e) = Some None" "isolate (entered e) = isolate e" "externals (entered e) = externals e"
  "trackers (entered e) = trackers e" "next_tracker (entered e) = next_tracker e"
  "last_exception (entered e) = last_exception e" "\<not> HasCaught (entered e)"
  "module_api_version (entered e) = module_api_version e" "in_gc_finalizer (entered e) = in_gc_finalizer e"
  "is_destructing (entered e) = is_destructing e" "error_code (entered e) = napi_ok"
  by (simp_all add: entered_def napi_clear_last_error_def HasCaught_def)

lemma preamble_entered:
  "ready e \<Longrightarrow> NAPI_PREAMBLE body e =
    bind_res (body (entered e)) (\<lambda>(st, out, e1). Inr (st, out, TryCatch_end (try_catch e) e1))"
  by (simp add: preamble_run with_TryCatch_def entered_def napi_clear_last_error_def)

lemma TryCatch_end_quiet:
  "try_catch e1 = Some None \<Longrightarrow> TryCatch_end outer e1 = e1\<lparr>try_catch := outer\<rparr>"
  by (simp add: TryCatch_end_def)

lemma GET_RETURN_STATUS_quiet: "\<not> HasCaught e \<Longrightarrow> GET_RETURN_STATUS out e = Inr (napi_ok, out, e)"
  by (simp add: GET_RETURN_STATUS_def)

text \<open>An environment for concrete instances.\<close>

definition env0 :: "(nat, nat) napi_env" where
  "env0 = napi_env_new 0 8"

lemma env0_ready: "ready env0" "CheckGCAccess env0" "isolate env0 = 0"
  by (simp_all add: ready_def CheckGCAccess_def env0_def napi_env_new_def NAPI_VERSION_EXPERIMENTAL_def)

section \<open>Copies of strings\<close>

text \<open>\<open>String::Write*\<close> stores at most as many units as the length allows, and an \<^verbatim>\<open>int\<close> of them.\<close>

definition string_write_ok :: "('v, 'h) v8 \<Rightarrow> bool" where
  "string_write_ok V \<longleftrightarrow>
     (\<forall>enc v n h. (0 \<le> n \<longrightarrow> int (length (string_write V enc v n h)) \<le> n) \<and>
        length (string_write V enc v n h) < 2 ^ 31)"

lemma to_int_small: "n < 2 ^ 31 \<Longrightarrow> to_int n = int n"
  unfolding to_int_def by (simp add: signed_of_nat signed_take_bit_int_eq_self)

text \<open>
  C20: The functions that copy a string never store past the end of the buffer: for every buffer that is not
  empty they store what V8 writes for the buffer size less one, followed by the terminator, report the
  number of units without it, and stay inside the buffer even where the size does not fit an \<^verbatim>\<open>int\<close>.
\<close>

theorem string_copy_safe:
  assumes "string_write_ok V" "(f, enc) \<in> {(napi_get_value_string_latin1, Latin1),
      (napi_get_value_string_utf8, Utf8), (napi_get_value_string_utf16, Utf16)}"
    and "CheckGCAccess e" "Is V tString val" "0 < bufsize"
  shows "\<exists>ws. f V (Some val) True bufsize True e =
      Inr (napi_ok, Some (ws @ [0], Some (length ws)), napi_clear_last_error e) \<and>
    length (ws @ [0]) \<le> bufsize \<and> ws = string_write V enc val (to_int (bufsize - 1)) (isolate e) \<and>
    (bufsize \<le> 2 ^ 31 \<longrightarrow> ws = string_write V enc val (int bufsize - 1) (isolate e))"
proof -
  let ?ws = "string_write V enc val (to_int (bufsize - 1)) (isolate e)"
  have l: "length ?ws < bufsize"
  proof (cases "bufsize - 1 < 2 ^ 31")
    case True
    then have "to_int (bufsize - 1) = int (bufsize - 1)" by (rule to_int_small)
    moreover have "int (length (string_write V enc val (int (bufsize - 1)) (isolate e))) \<le> int (bufsize - 1)"
      using assms(1) unfolding string_write_ok_def by (meson of_nat_0_le_iff)
    ultimately have "int (length ?ws) \<le> int (bufsize - 1)" by metis
    then show ?thesis using assms(5) by linarith
  next
    case False
    moreover have "length ?ws < 2 ^ 31" using assms(1) by (simp add: string_write_ok_def)
    ultimately show ?thesis by linarith
  qed
  have s: "bufsize \<le> 2 ^ 31 \<Longrightarrow> to_int (bufsize - 1) = int bufsize - 1"
    using to_int_small [of "bufsize - 1"] assms(5) by (simp add: of_nat_diff)
  have "f V (Some val) True bufsize True e =
      Inr (napi_ok, Some (?ws @ [0], Some (length ?ws)), napi_clear_last_error e)"
    using assms(2-5) l
    by (auto simp: napi_get_value_string_latin1_def napi_get_value_string_utf8_def napi_get_value_string_utf16_def
        get_value_string_of_def CHECK_ENV_NOT_IN_GC_def check_def store_terminated_def succeed_def)
  then show ?thesis using l s by auto
qed

definition text_engine :: "(nat, nat) v8" where
  "text_engine = plain_engine\<lparr>string_write := (\<lambda>enc v n h. take (nat n) [104, 101, 108, 108, 111])\<rparr>"

theorem string_copy_safe_witness:
  "napi_get_value_string_utf8 text_engine (Some 1) True 4 True env0 =
    Inr (napi_ok, Some ([104, 101, 108, 0], Some 3), napi_clear_last_error env0)"
proof -
  have o: "string_write_ok text_engine" by (auto simp: string_write_ok_def text_engine_def)
  have "\<exists>ws. napi_get_value_string_utf8 text_engine (Some 1) True 4 True env0 =
      Inr (napi_ok, Some (ws @ [0], Some (length ws)), napi_clear_last_error env0) \<and>
      length (ws @ [0]) \<le> 4 \<and> ws = string_write text_engine Utf8 1 (to_int (4 - 1)) (isolate env0) \<and>
      (4 \<le> (2 :: nat) ^ 31 \<longrightarrow> ws = string_write text_engine Utf8 1 (int 4 - 1) (isolate env0))"
    by (rule string_copy_safe [where f = napi_get_value_string_utf8 and enc = Utf8 and val = 1 and bufsize = 4, OF o])
      (simp_all add: env0_ready text_engine_def plain_engine_def)
  moreover have "string_write text_engine Utf8 1 (int 4 - 1) (isolate env0) = [104, 101, 108]"
    by (simp add: text_engine_def numeral_eq_Suc)
  ultimately show ?thesis by fastforce
qed

section \<open>Typed arrays\<close>

lemma size_of_element_cases: "size_of_element t \<in> {1, 2, 4, 8}"
  by (cases t) simp_all

lemma create_typedarray_run:
  assumes "ready e" "Is V tArrayBuffer buf"
    and "size_of_element t > 1 \<longrightarrow> off mod size_of_element t = 0"
    and "n * size_of_element t + off \<le> word_of_nat (rd V (rByteLength buf) (isolate e))"
  shows "\<exists>e'. napi_create_typedarray V (Some t) n (Some buf) off True e =
    Inr (napi_ok, Some (fst (new V (nTypedArray t buf (unat off) (unat n)) (isolate e))), e')"
  using assms
  by (simp add: napi_create_typedarray_def preamble_entered CHECK_OUT_def CREATE_TYPED_ARRAY_def Let_def
      THROW_RANGE_ERROR_IF_FALSE_def alloc_def GET_RETURN_STATUS_def HasCaught_def case_prod_beta)

lemma THROW_RANGE_ERROR_ok:
  "THROW_RANGE_ERROR_IF_FALSE V c err msg k e = Inr (napi_ok, out, e') \<Longrightarrow> c \<and> k e = Inr (napi_ok, out, e')"
  by (auto simp: THROW_RANGE_ERROR_IF_FALSE_def ignoring_def fail_def res_simps split: if_splits)

lemma create_typedarray_ok:
  assumes "napi_create_typedarray V (Some t) n (Some buf) off True e = Inr (napi_ok, out, e')"
  shows "(size_of_element t > 1 \<longrightarrow> off mod size_of_element t = 0) \<and>
    n * size_of_element t + off \<le> word_of_nat (rd V (rByteLength buf) (isolate e)) \<and>
    out = Some (fst (new V (nTypedArray t buf (unat off) (unat n)) (isolate e)))"
  using assms unfolding napi_create_typedarray_def
proof (cases rule: preamble_cases)
  case 1
  then obtain e1 where b: "CREATE_TYPED_ARRAY V t buf off n (\<lambda>x. GET_RETURN_STATUS (Some x))
      ((napi_clear_last_error e)\<lparr>try_catch := Some None\<rparr>) = Inr (napi_ok, out, e1)"
    by (auto simp: with_TryCatch_def CHECK_OUT_def RETURN_STATUS_IF_FALSE_def fail_def res_simps split: if_splits)
  have i: "isolate ((napi_clear_last_error e)\<lparr>try_catch := Some None\<rparr>) = isolate e"
    by (simp add: napi_clear_last_error_def)
  let ?e = "(napi_clear_last_error e)\<lparr>try_catch := Some None\<rparr>"
  define k where "k = (\<lambda>e. THROW_RANGE_ERROR_IF_FALSE V
      (n * size_of_element t + off \<le> word_of_nat (rd V (rByteLength buf) (isolate e)))
      ''ERR_NAPI_INVALID_TYPEDARRAY_LENGTH'' ''Invalid typed array length''
      (alloc V (nTypedArray t buf (unat off) (unat n)) (\<lambda>x. GET_RETURN_STATUS (Some x))) e)"
  have "(size_of_element t > 1 \<longrightarrow> off mod size_of_element t = 0) \<and> k ?e = Inr (napi_ok, out, e1)"
  proof (cases "size_of_element t > 1")
    case True
    then have "THROW_RANGE_ERROR_IF_FALSE V (off mod size_of_element t = 0)
        ''ERR_NAPI_INVALID_TYPEDARRAY_ALIGNMENT'' (alignment_message t) k ?e = Inr (napi_ok, out, e1)"
      using b by (simp add: CREATE_TYPED_ARRAY_def Let_def k_def)
    from THROW_RANGE_ERROR_ok [OF this] show ?thesis by blast
  next
    case False
    then show ?thesis using b by (simp add: CREATE_TYPED_ARRAY_def Let_def k_def)
  qed
  moreover from this have "n * size_of_element t + off \<le> word_of_nat (rd V (rByteLength buf) (isolate ?e)) \<and>
      alloc V (nTypedArray t buf (unat off) (unat n)) (\<lambda>x. GET_RETURN_STATUS (Some x)) ?e = Inr (napi_ok, out, e1)"
    using THROW_RANGE_ERROR_ok unfolding k_def by blast
  ultimately show ?thesis
    using i by (simp add: alloc_def GET_RETURN_STATUS_def case_prod_beta split: if_splits)
next
  case 2
  then show ?thesis by simp
qed

text \<open>
  A typed array that is created starts at a multiple of its element size, and unless its size computation
  wraps around 64 bits it lies inside its buffer.
\<close>

theorem typedarray_in_bounds:
  assumes "napi_create_typedarray V (Some t) n (Some buf) off True e = Inr (napi_ok, Some v, e')"
    and "unat n * unat (size_of_element t) + unat off < 2 ^ 64" "rd V (rByteLength buf) (isolate e) < 2 ^ 64"
  shows "unat off mod unat (size_of_element t) = 0 \<and>
    unat n * unat (size_of_element t) + unat off \<le> rd V (rByteLength buf) (isolate e) \<and>
    v = fst (new V (nTypedArray t buf (unat off) (unat n)) (isolate e))"
proof -
  let ?s = "size_of_element t"
  note r = create_typedarray_ok [OF assms(1)]
  have "off mod ?s = 0" using r size_of_element_cases [of t] by (cases "?s = 1") auto
  then have "unat off mod unat ?s = 0" by (metis unat_0 unat_mod)
  moreover have "unat (n * ?s) = unat n * unat ?s" using assms(2) by (simp add: unat_word_ariths)
  then have "unat (n * ?s + off) = unat n * unat ?s + unat off" using assms(2) by (simp add: unat_word_ariths)
  then have "unat n * unat ?s + unat off \<le> rd V (rByteLength buf) (isolate e)"
    using r assms(3) by (simp add: word_le_nat_alt unat_of_nat)
  ultimately show ?thesis using r by simp
qed

definition buffer_engine :: "(nat, nat) v8" where
  "buffer_engine = plain_engine\<lparr>rd := (\<lambda>p h. 16)\<rparr>"

lemma rd_buffer: "rd buffer_engine p h = 16" "Is buffer_engine t v"
  by (simp_all add: buffer_engine_def plain_engine_def)

theorem typedarray_in_bounds_witness:
  "\<exists>v e'. napi_create_typedarray buffer_engine (Some napi_int32_array) 3 (Some 1) 4 True env0 =
      Inr (napi_ok, Some v, e') \<and>
    unat (3 :: u64) * unat (size_of_element napi_int32_array) + unat (4 :: u64) \<le> 16"
proof -
  obtain e' where e': "napi_create_typedarray buffer_engine (Some napi_int32_array) 3 (Some 1) 4 True env0 =
      Inr (napi_ok, Some (fst (new buffer_engine (nTypedArray napi_int32_array 1 (unat (4 :: u64)) (unat (3 :: u64)))
        (isolate env0))), e')"
    using create_typedarray_run [of env0 buffer_engine 1 napi_int32_array 4 3]
    by (auto simp: rd_buffer env0_ready)
  from typedarray_in_bounds [OF this] e' show ?thesis by (auto simp: rd_buffer)
qed

text \<open>
  C32: The size computation does wrap: for \<open>2 ^ 61\<close> elements of eight bytes the check passes for every buffer,
  even an empty one, and the engine is asked for a typed array outside it.
\<close>

theorem typedarray_size_wraps:
  assumes "ready e" "Is V tArrayBuffer buf"
  shows "\<exists>e'. napi_create_typedarray V (Some napi_float64_array) (2 ^ 61) (Some buf) 0 True e =
    Inr (napi_ok, Some (fst (new V (nTypedArray napi_float64_array buf 0 (2 ^ 61)) (isolate e))), e')"
proof -
  have z: "2 ^ 61 * size_of_element napi_float64_array + 0 = 0" by simp
  have u: "unat (2 ^ 61 :: u64) = 2 ^ 61" by simp
  have "2 ^ 61 * size_of_element napi_float64_array + 0 \<le> word_of_nat (rd V (rByteLength buf) (isolate e))"
    unfolding z by simp
  from create_typedarray_run [OF assms _ this] show ?thesis unfolding u by simp
qed

theorem typedarray_size_wraps_witness:
  "\<exists>e'. napi_create_typedarray plain_engine (Some napi_float64_array) (2 ^ 61) (Some 1) 0 True env0 =
    Inr (napi_ok, Some 0, e') \<and> rd plain_engine (rByteLength 1) 0 = 0"
  using typedarray_size_wraps [of env0 plain_engine 1]
  by (simp add: env0_ready plain_engine_def)

section \<open>Private slots of objects\<close>

text \<open>
  What the round trips rely on: private properties behave as a store (\<open>priv\<close> reads it, \<open>setp\<close> writes it)
  that is not observable by scripts, and conversion to an object is the identity on objects.
\<close>

definition slots_ok :: "('v, 'h) v8 \<Rightarrow> ('h \<Rightarrow> 'v \<Rightarrow> string \<Rightarrow> 'v option) \<Rightarrow> ('h \<Rightarrow> 'v \<Rightarrow> string \<Rightarrow> 'v \<Rightarrow> 'h) \<Rightarrow> bool" where
  "slots_ok V priv setp \<longleftrightarrow>
     (\<forall>o1 k e. bop V (oHasPrivate o1 k) e = Inr (Some (priv (isolate e) o1 k \<noteq> None), None, e)) \<and>
     (\<forall>o1 k e. vop V (oGetPrivate o1 k) e =
        Inr (Some (case priv (isolate e) o1 k of None \<Rightarrow> v_undefined V | Some x \<Rightarrow> x), None, e)) \<and>
     (\<forall>o1 k x e. bop V (oSetPrivate o1 k x) e = Inr (Some True, None, e\<lparr>isolate := setp (isolate e) o1 k x\<rparr>)) \<and>
     (\<forall>h o1 k x o2 k2. priv (setp h o1 k x) o2 k2 = (if o2 = o1 \<and> k2 = k then Some x else priv h o2 k2)) \<and>
     (\<forall>o1 e. Is V tObject o1 \<longrightarrow> vop V (oToObject o1) e = Inr (Some o1, None, e))"

lemma slots_okD:
  assumes "slots_ok V priv setp"
  shows "bop V (oHasPrivate o1 k) e = Inr (Some (priv (isolate e) o1 k \<noteq> None), None, e)"
    and "vop V (oGetPrivate o1 k) e =
      Inr (Some (case priv (isolate e) o1 k of None \<Rightarrow> v_undefined V | Some x \<Rightarrow> x), None, e)"
    and "bop V (oSetPrivate o1 k x) e = Inr (Some True, None, e\<lparr>isolate := setp (isolate e) o1 k x\<rparr>)"
    and "priv (setp h o1 k x) o2 k2 = (if o2 = o1 \<and> k2 = k then Some x else priv h o2 k2)"
    and "Is V tObject o1 \<Longrightarrow> vop V (oToObject o1) e = Inr (Some o1, None, e)"
  using assms unfolding slots_ok_def by blast+

text \<open>The canonical words of a big integer have no leading zero word, and a value keeps its words.\<close>

fun trim :: "u64 list \<Rightarrow> u64 list" where
  "trim ws = rev (dropWhile (\<lambda>w. w = 0) (rev ws))"

definition bigints_ok :: "('v, 'h) v8 \<Rightarrow> ('h \<Rightarrow> 'v \<Rightarrow> string \<Rightarrow> 'v option) \<Rightarrow> ('h \<Rightarrow> 'v \<Rightarrow> string \<Rightarrow> 'v \<Rightarrow> 'h) \<Rightarrow> bool" where
  "bigints_ok V priv setp \<longleftrightarrow>
     (\<forall>ws e. \<exists>b h. vop V (oNewBigIntWords 0 ws) e = Inr (Some b, None, e\<lparr>isolate := h\<rparr>) \<and> Is V tBigInt b \<and>
        priv h = priv (isolate e) \<and> (\<forall>o1 k. bigint_words V b (setp h o1 k b) = (False, trim ws)))"

lemma tag_matches_trim: "tag_matches (False, trim [l, u]) t = (t = (l, u))"
proof -
  consider "u \<noteq> 0" | "u = 0" "l \<noteq> 0" | "u = 0" "l = 0" by blast
  then show ?thesis by cases (auto simp: tag_matches_def ToWordsArray_def prod_eq_iff)
qed

text \<open>An engine with private slots, for concrete instances: a heap is the store of slots.\<close>

datatype jsval = JUndefined | JNull | JBool bool | JObject nat | JExternal nat | JBigInt "u64 list"

type_synonym slots = "jsval \<Rightarrow> string \<Rightarrow> jsval option"

definition slot_engine :: "(jsval, slots) v8" where
  "slot_engine = \<lparr>
     Is = (\<lambda>t v. case v of JObject n \<Rightarrow> t = tObject | JExternal n \<Rightarrow> t = tExternal | JBigInt ws \<Rightarrow> t = tBigInt | _ \<Rightarrow> False),
     vop = (\<lambda>p e. case p of
        oToObject v \<Rightarrow> Inr (Some v, None, e)
      | oGetPrivate v k \<Rightarrow> Inr (Some (case isolate e v k of None \<Rightarrow> JUndefined | Some x \<Rightarrow> x), None, e)
      | oNewBigIntWords s ws \<Rightarrow> Inr (Some (JBigInt (trim ws)), None, e)
      | _ \<Rightarrow> Inr (None, Some JUndefined, e)),
     bop = (\<lambda>p e. case p of
        oHasPrivate v k \<Rightarrow> Inr (Some (isolate e v k \<noteq> None), None, e)
      | oSetPrivate v k x \<Rightarrow>
          Inr (Some True, None, e\<lparr>isolate := (isolate e)(v := (isolate e v)(k \<mapsto> x))\<rparr>)
      | _ \<Rightarrow> Inr (None, Some JUndefined, e)),
     new = (\<lambda>p h. case p of nExternal i \<Rightarrow> (JExternal i, h) | _ \<Rightarrow> (JUndefined, h)),
     eff = (\<lambda>p h. h), rd = (\<lambda>p h. case p of rExternalValue (JExternal i) \<Rightarrow> i | _ \<Rightarrow> 0),
     rdi = (\<lambda>p h. 0), tst = (\<lambda>p h. False), string_write = (\<lambda>enc v n h. []),
     bigint_words = (\<lambda>v h. case v of JBigInt ws \<Rightarrow> (False, ws) | _ \<Rightarrow> (False, [])),
     adjust_memory = (\<lambda>n h. (n, h)), v_undefined = JUndefined, v_null = JNull, v_bool = JBool\<rparr>"

definition set_slot :: "slots \<Rightarrow> jsval \<Rightarrow> string \<Rightarrow> jsval \<Rightarrow> slots" where
  "set_slot h v k x = h(v := (h v)(k \<mapsto> x))"

lemma slot_engine_ok: "slots_ok slot_engine (\<lambda>h. h) set_slot" "bigints_ok slot_engine (\<lambda>h. h) set_slot"
proof -
  show "slots_ok slot_engine (\<lambda>h. h) set_slot" by (simp add: slots_ok_def slot_engine_def set_slot_def split: option.split)
  have "vop slot_engine (oNewBigIntWords 0 ws) e = Inr (Some (JBigInt (trim ws)), None, e\<lparr>isolate := isolate e\<rparr>) \<and>
      Is slot_engine tBigInt (JBigInt (trim ws)) \<and> bigint_words slot_engine (JBigInt (trim ws)) h = (False, trim ws)" for ws e h
    by (simp add: slot_engine_def)
  then show "bigints_ok slot_engine (\<lambda>h. h) set_slot" unfolding bigints_ok_def by blast
qed

definition slot_env :: "(jsval, slots) napi_env" where
  "slot_env = napi_env_new (\<lambda>v k. None) 8"

lemma slot_env_ready: "ready slot_env" "isolate slot_env = (\<lambda>v k. None)"
  by (simp_all add: ready_def CheckGCAccess_def slot_env_def napi_env_new_def NAPI_VERSION_EXPERIMENTAL_def)

text \<open>
  C21: An object that has no tag can be tagged; afterwards a check succeeds exactly for the tag it was given,
  whatever words of the tag are zero, and tagging it again is refused.
\<close>

theorem type_tag_roundtrip:
  assumes "slots_ok V priv setp" "bigints_ok V priv setp" "ready e"
    and "Is V tObject obj" "\<not> Is V tExternal obj" "priv (isolate e) obj type_tag_key = None"
  shows "\<exists>e1. napi_type_tag_object V (Some obj) (Some tag) e = Inr (napi_ok, None, e1) \<and>
    (\<exists>e2. napi_check_object_type_tag V (Some obj) (Some tag') True e1 = Inr (napi_ok, Some (tag' = tag), e2)) \<and>
    (\<exists>e2. napi_type_tag_object V (Some obj) (Some tag') e1 = Inr (napi_invalid_arg, None, e2))"
proof -
  note s = slots_okD [OF assms(1)]
  obtain l u where tag: "tag = (l, u)" by (cases tag)
  obtain b h where b: "vop V (oNewBigIntWords 0 [l, u]) (entered e) = Inr (Some b, None, (entered e)\<lparr>isolate := h\<rparr>)"
    "Is V tBigInt b" "\<And>o1 k. bigint_words V b (setp h o1 k b) = (False, trim [l, u])"
    using assms(2) unfolding bigints_ok_def by meson
  define e1 where "e1 = (entered e)\<lparr>isolate := setp h obj type_tag_key b, try_catch := try_catch e\<rparr>"
  have t: "napi_type_tag_object V (Some obj) (Some tag) e = Inr (napi_ok, None, e1)"
    using assms(3-6) s b
    by (simp add: napi_type_tag_object_def preamble_entered tag CHECK_TO_OBJECT_WITH_PREAMBLE_def CHECK_ARG_WITH_PREAMBLE_def
        jsv_def jsb_def js_end_def GET_RETURN_STATUS_def HasCaught_def TryCatch_end_def e1_def)
  have r: "ready e1" using assms(3) by (simp add: ready_def e1_def CheckGCAccess_def)
  have p: "priv (isolate e1) obj type_tag_key = Some b" by (simp add: e1_def s)
  have w: "bigint_words V b (isolate e1) = (False, trim [l, u])" by (simp add: e1_def b)
  have "\<exists>e2. napi_check_object_type_tag V (Some obj) (Some tag') True e1 = Inr (napi_ok, Some (tag' = tag), e2)"
    using assms(4,5) s p b(2) w tag_matches_trim [of l u tag'] tag
    by (simp add: napi_check_object_type_tag_def preamble_entered [OF r] CHECK_TO_OBJECT_WITH_PREAMBLE_def CHECK_ARG_WITH_PREAMBLE_def
        jsv_def js_end_def GET_RETURN_STATUS_def)
  moreover have "\<exists>e2. napi_type_tag_object V (Some obj) (Some tag') e1 = Inr (napi_invalid_arg, None, e2)"
    using assms(4,5) s p
    by (cases tag') (simp add: napi_type_tag_object_def preamble_entered [OF r] CHECK_TO_OBJECT_WITH_PREAMBLE_def
        CHECK_ARG_WITH_PREAMBLE_def jsv_def jsb_def js_end_def fail_def)
  ultimately show ?thesis using t by blast
qed

theorem type_tag_roundtrip_witness:
  "\<exists>e1. napi_type_tag_object slot_engine (Some (JObject 3)) (Some (5, 0)) slot_env = Inr (napi_ok, None, e1) \<and>
    (\<exists>e2. napi_check_object_type_tag slot_engine (Some (JObject 3)) (Some (5, 0)) True e1 = Inr (napi_ok, Some True, e2))"
  using type_tag_roundtrip [OF slot_engine_ok slot_env_ready(1), of "JObject 3" "(5, 0)" "(5, 0)"]
  by (auto simp: slot_env_ready slot_engine_def)

text \<open>An external keeps the pointer it was made with.\<close>

definition externals_ok :: "('v, 'h) v8 \<Rightarrow> ('h \<Rightarrow> 'v \<Rightarrow> string \<Rightarrow> 'v \<Rightarrow> 'h) \<Rightarrow> bool" where
  "externals_ok V setp \<longleftrightarrow>
     (\<forall>p h. Is V tExternal (fst (new V (nExternal p) h)) \<and>
        (\<forall>o1 k. rd V (rExternalValue (fst (new V (nExternal p) h))) (setp (snd (new V (nExternal p) h)) o1 k (fst (new V (nExternal p) h))) = p))"

lemma wrap_reference:
  assumes "ReferenceWithFinalizer_New V v 0 own cb d h e = (i, e1) \<or> ReferenceWithData_New V v 0 own d e = (i, e1)"
  shows "\<exists>r. trackers e1 i = Some (TReference r) \<and> Reference_Data r = d \<and> isolate e1 = isolate e \<and>
    try_catch e1 = try_catch e \<and> last_exception e1 = last_exception e \<and> is_destructing e1 = is_destructing e \<and>
    module_api_version e1 = module_api_version e \<and> in_gc_finalizer e1 = in_gc_finalizer e"
  using assms
  by (auto simp: ReferenceWithFinalizer_New_def ReferenceWithData_New_def new_tracker_def LinkFinalizing_def LinkRef_def
      Reference_init_def SetWeak_def Reference_Data_def Let_def split: if_splits)

text \<open>
  A pointer wrapped in an object is the pointer that unwrapping it yields, and an object that is wrapped
  cannot be wrapped again. A reference is only handed out together with a finalizer.
\<close>

theorem wrap_roundtrip:
  assumes "slots_ok V priv setp" "externals_ok V setp" "ready e"
    and "Is V tObject obj" "priv (isolate e) obj wrapper_key = None" "result \<longrightarrow> finalize_cb \<noteq> None"
  shows "\<exists>out e1. napi_wrap V (Some obj) data finalize_cb hint result e = Inr (napi_ok, out, e1) \<and>
    (\<exists>e2. napi_unwrap V (Some obj) True e1 = Inr (napi_ok, Some data, e2)) \<and>
    (\<exists>e2. napi_wrap V (Some obj) data' finalize_cb' hint' result' e1 = Inr (napi_invalid_arg, None, e2))"
proof -
  note s = slots_okD [OF assms(1)]
  define mk where "mk = (if result then ReferenceWithFinalizer_New V obj 0 kUserland finalize_cb data hint
    else if finalize_cb \<noteq> None then ReferenceWithFinalizer_New V obj 0 kRuntime finalize_cb data hint
    else ReferenceWithData_New V obj 0 kRuntime data)"
  obtain i e0 where m: "mk (entered e) = (i, e0)" by fastforce
  obtain r where r: "trackers e0 i = Some (TReference r)" "Reference_Data r = data" "isolate e0 = isolate e"
    "try_catch e0 = Some None" "last_exception e0 = last_exception e" "is_destructing e0 = is_destructing e"
    "module_api_version e0 = module_api_version e" "in_gc_finalizer e0 = in_gc_finalizer e"
    using wrap_reference [of V obj _ finalize_cb data hint "entered e" i e0] m
    by (auto simp: mk_def split: if_splits)
  define x where "x = fst (new V (nExternal i) (isolate e))"
  define h where "h = setp (snd (new V (nExternal i) (isolate e))) obj wrapper_key x"
  define e1 where "e1 = e0\<lparr>isolate := h, try_catch := try_catch e\<rparr>"
  have w: "napi_wrap V (Some obj) data finalize_cb hint result e = Inr (napi_ok, if result then Some i else None, e1)"
    using assms(3-6) s m r
    by (cases finalize_cb; cases result) (simp_all add: napi_wrap_def Wrap_def preamble_entered jsb_def js_end_def
        from_just_def with_new_def alloc_def case_prod_beta CHECK_def check_def GET_RETURN_STATUS_def HasCaught_def
        TryCatch_end_def mk_def e1_def h_def x_def)
  have rd1: "ready e1" using assms(3) r by (simp add: ready_def e1_def CheckGCAccess_def)
  have p: "priv (isolate e1) obj wrapper_key = Some x" by (simp add: e1_def h_def s)
  have ex: "Is V tExternal x" "rd V (rExternalValue x) (isolate e1) = i"
    using assms(2) by (simp_all add: externals_ok_def e1_def h_def x_def)
  have tr: "trackers e1 i = Some (TReference r)" using r by (simp add: e1_def)
  have "\<exists>e2. napi_unwrap V (Some obj) True e1 = Inr (napi_ok, Some data, e2)"
    using assms(4) s p ex tr r(2)
    by (simp add: napi_unwrap_def Unwrap_def preamble_entered [OF rd1] CHECK_OUT_def jsv_def js_end_def from_just_def
        Let_def with_reference_def GET_RETURN_STATUS_def)
  moreover have "\<exists>e2. napi_wrap V (Some obj) data' finalize_cb' hint' result' e1 = Inr (napi_invalid_arg, None, e2)"
    using assms(4) s p
    by (simp add: napi_wrap_def Wrap_def preamble_entered [OF rd1] jsb_def js_end_def from_just_def fail_def)
  ultimately show ?thesis using w by blast
qed

theorem wrap_roundtrip_witness:
  "\<exists>out e1. napi_wrap slot_engine (Some (JObject 3)) 77 None 0 False slot_env = Inr (napi_ok, out, e1) \<and>
    (\<exists>e2. napi_unwrap slot_engine (Some (JObject 3)) True e1 = Inr (napi_ok, Some 77, e2))"
proof -
  have x: "externals_ok slot_engine set_slot" by (simp add: externals_ok_def slot_engine_def)
  show ?thesis
    using wrap_roundtrip [OF slot_engine_ok(1) x slot_env_ready(1), of "JObject 3" False None 77 0 0 None 0 False]
    by (auto simp: slot_env_ready slot_engine_def)
qed

end
