(* ===== verification/Napi_Lifecycle.thy ===== *)
theory Napi_Lifecycle
  imports Napi_Refs Napi_Data
begin

text \<open>
  The life of references, finalizers and handle scopes in an environment: every finalizer runs at most once
  whatever the order of calls, collections and drains; when the environment goes away all of them have
  run; reference counts follow the calls; handle scopes are balanced.
\<close>

section \<open>At most once\<close>

text \<open>
  C5: In every state that an environment reaches by calls of the API, garbage collections, string resources,
  drains of the queue and its deletion, with finalizer callbacks that themselves call the API, no
  finalizer has run twice, no tracker is linked twice, and every linked or queued tracker is alive.
\<close>

theorem finalizer_at_most_once:
  assumes "user_ok V U" "ref_reach V U pick e"
  shows "distinct (map fst (finalized e)) \<and> distinct (reflist e @ finalizing_reflist e) \<and>
    (\<forall>i \<in> set (reflist e) \<union> set (finalizing_reflist e) \<union> set (pending_finalizers e). trackers e i \<noteq> None)"
  using ref_reach_inv [OF assms(2,1)] by (auto simp: ref_inv_def linked_def)

lemma silent_ok: "user_ok V silent"
  by (auto simp: user_ok_def silent_def intro: exI [of _ "[]"])

text \<open>A finalizer is added to an object, the object is collected and the queue is drained.\<close>

definition collectable :: "nat Reference" where
  "collectable = \<lparr>persistent = Some 3, is_weak = True, refcount = 0, ownership = kRuntime, can_be_weak = True,
     cls = WithFinalizer \<lparr>fin_env = True, finalize_callback = Some 22, finalize_data = 11, finalize_hint = 33\<rparr>\<rparr>"

definition added :: "(nat, nat) napi_env" where
  "added = env0\<lparr>trackers := (trackers env0)(1 \<mapsto> TReference collectable), next_tracker := 2, finalizing_reflist := [1]\<rparr>"

lemma added_op: "run_ref_op plain_engine (OpAddFinalizer (Some 3) 11 (Some 22) 33 False) env0 = Inr added"
  by (simp add: env_of_def napi_add_finalizer_def guard_defs check_def CheckGCAccess_def plain_engine_def collectable_def
      ReferenceWithFinalizer_New_def new_tracker_def LinkFinalizing_def Reference_init_def SetWeak_def CanBeHeldWeakly_def
      added_def env0_def napi_env_new_def napi_clear_last_error_def Let_def)

lemma added_reach: "ref_reach plain_engine silent hd added"
  using ref_api [OF ref_new added_op [unfolded env0_def]] .

lemma added_run:
  "\<exists>e. ref_reach plain_engine silent hd e \<and> finalized e = [(1, 22, 11, 33)]"
proof -
  obtain e1 where w: "WeakCallback silent 1 added = Inr e1"
    and p: "\<exists>e2. DrainFinalizerQueue silent hd 1 e1 = Some (Inr e2) \<and> finalized e2 = [(1, 22, 11, 33)]"
    by (simp add: WeakCallback_def deref_def added_def collectable_def env0_def napi_env_new_def set_tracker_def
        EnvInvokeFinalizerFromGC_def NAPI_VERSION_EXPERIMENTAL_def EnqueueFinalizer_def DrainFinalizerQueue.simps
        DequeueFinalizer_def Finalize_def Reference_Finalize_def UnlinkTracker_def CallFinalizer_def get_finalizer_def
        set_finalizer_def ResetFinalizer_def EnvCallFinalizer_def CallIntoModule_def silent_def check_def
        napi_clear_last_error_def delete_tracker_def Let_def)
  have "ref_reach plain_engine silent hd e1"
    by (rule ref_gc [where r = collectable, OF added_reach _ _ _ w]) (simp_all add: added_def collectable_def)
  then show ?thesis using p ref_drain by blast
qed

theorem finalizer_at_most_once_witness:
  "\<exists>e. ref_reach plain_engine silent hd e \<and> finalized e = [(1, 22, 11, 33)] \<and> distinct (map fst (finalized e))"
  using added_run finalizer_at_most_once [OF silent_ok, of plain_engine hd] by blast

section \<open>Teardown\<close>

text \<open>The finalizer calls that a set of trackers owes.\<close>

definition owed :: "('v, 'h) napi_env \<Rightarrow> nat set \<Rightarrow> (nat \<times> ptr \<times> ptr \<times> ptr) set" where
  "owed e S = {(i, x) | i x. i \<in> S \<and> (\<exists>t. trackers e i = Some t \<and> armed t = Some x)}"

definition finalizes :: "nat set \<Rightarrow> ('v, 'h) napi_env \<Rightarrow> ('v, 'h) napi_env \<Rightarrow> bool" where
  "finalizes S e e' \<longleftrightarrow> dying e' \<and>
     reflist e' = filter (\<lambda>i. i \<notin> S) (reflist e) \<and>
     finalizing_reflist e' = filter (\<lambda>i. i \<notin> S) (finalizing_reflist e) \<and>
     pending_finalizers e' = filter (\<lambda>i. i \<notin> S) (pending_finalizers e) \<and>
     (\<forall>j. j \<notin> S \<longrightarrow> trackers e' j = trackers e j) \<and>
     set (finalized e') = set (finalized e) \<union> owed e S"

lemma finalizes_empty: "dying e \<Longrightarrow> finalizes {} e e"
  by (simp add: finalizes_def owed_def)

lemma finalizes_trans:
  assumes "finalizes S e e1" "finalizes T e1 e2" "S \<inter> T = {}"
  shows "finalizes (S \<union> T) e e2"
proof -
  have "owed e1 T = owed e T" using assms(1,3) by (auto simp: owed_def finalizes_def disjoint_iff)
  moreover have "owed e (S \<union> T) = owed e S \<union> owed e T" by (auto simp: owed_def)
  ultimately show ?thesis using assms by (auto simp: finalizes_def conj_commute)
qed

lemma delete_tracker_run:
  assumes "trackers e i = Some t"
  shows "\<exists>e'. delete_tracker i e = Inr e' \<and> is_destructing e' = is_destructing e \<and>
    reflist e' = remove1 i (reflist e) \<and> finalizing_reflist e' = remove1 i (finalizing_reflist e) \<and>
    (i \<notin> set (pending_finalizers e) \<longrightarrow> pending_finalizers e' = pending_finalizers e) \<and>
    trackers e' = (trackers e)(i := None) \<and> finalized e' = finalized e"
  using assms
  by (cases "get_finalizer t") (auto simp: delete_tracker_def deref_def UnlinkTracker_def DequeueFinalizer_def Let_def)

lemma filter_remove1: "distinct xs \<Longrightarrow> remove1 i xs = filter (\<lambda>j. j \<noteq> i) xs"
  by (simp add: distinct_remove1_removeAll removeAll_filter_not_eq) (metis (mono_tags, lifting) filter_cong)

lemma filter_twice: "filter (\<lambda>j. j \<noteq> i) (filter (\<lambda>j. j \<noteq> i) xs) = filter (\<lambda>j. j \<noteq> i) xs"
  by simp

lemma owed_single: "trackers e i = Some t \<Longrightarrow> owed e {i} = set (call_entry i t)"
  by (auto simp: owed_def call_entry_def split: option.splits)

lemma pending_filter: "i \<notin> set xs \<Longrightarrow> filter (\<lambda>j. j \<noteq> i) xs = xs"
  by (induction xs) auto

text \<open>The effect of finalizing one tracker that is not queued.\<close>

lemma Finalize_reference_silent:
  assumes "dying e" "ref_inv e" "trackers e i = Some (TReference r)" "i \<notin> set (pending_finalizers e)"
  shows "\<exists>e'. Reference_Finalize silent i r e = Inr e' \<and> finalizes {i} e e'"
proof -
  have d: "distinct (reflist e)" "distinct (finalizing_reflist e)" using assms(2) by (auto simp: ref_inv_def linked_def)
  let ?r = "r\<lparr>persistent := None\<rparr>"
  let ?e2 = "UnlinkTracker i (set_tracker i (TReference ?r) e)"
  have e2: "trackers ?e2 i = Some (TReference ?r)" "dying ?e2" "reflist ?e2 = remove1 i (reflist e)"
    "finalizing_reflist ?e2 = remove1 i (finalizing_reflist e)" "pending_finalizers ?e2 = pending_finalizers e"
    "trackers ?e2 = (trackers e)(i \<mapsto> TReference ?r)" "finalized ?e2 = finalized e"
    using assms(1) by (simp_all add: UnlinkTracker_def set_tracker_def dying_def)
  have a: "call_entry i (TReference ?r) = call_entry i (TReference r)"
    by (simp add: call_entry_def armed_def get_finalizer_def split: ref_class.splits)
  obtain e3 t3 where e3: "(case cls r of WithFinalizer f \<Rightarrow> CallFinalizer silent i ?e2 | _ \<Rightarrow> Inr ?e2) = Inr e3"
    "dying e3" "reflist e3 = remove1 i (reflist e)" "finalizing_reflist e3 = remove1 i (finalizing_reflist e)"
    "pending_finalizers e3 = pending_finalizers e" "trackers e3 = (trackers e)(i \<mapsto> t3)"
    "finalized e3 = finalized e @ call_entry i (TReference r)"
  proof (cases "cls r")
    case (WithFinalizer f)
    have "get_finalizer (TReference ?r) = Some f" by (simp add: get_finalizer_def WithFinalizer)
    from CallFinalizer_silent [OF e2(2,1) this] obtain e' t' where "CallFinalizer silent i ?e2 = Inr e'" "dying e'"
      "reflist e' = reflist ?e2" "finalizing_reflist e' = finalizing_reflist ?e2"
      "pending_finalizers e' = pending_finalizers ?e2" "trackers e' = (trackers ?e2)(i \<mapsto> t')"
      "finalized e' = finalized ?e2 @ call_entry i (TReference ?r)" by blast
    then show thesis using that [of e' t'] e2 a by (simp add: WithFinalizer)
  qed (use that [of ?e2 "TReference ?r"] e2 in \<open>simp_all add: call_entry_def armed_def get_finalizer_def\<close>)
  have fin: "finalizes {i} e e''" if "dying e''" "reflist e'' = remove1 i (reflist e)"
    "finalizing_reflist e'' = remove1 i (finalizing_reflist e)" "pending_finalizers e'' = pending_finalizers e"
    "\<And>j. j \<noteq> i \<Longrightarrow> trackers e'' j = trackers e j" "finalized e'' = finalized e @ call_entry i (TReference r)" for e''
    using that d assms(4) owed_single [OF assms(3)]
    by (auto simp: finalizes_def filter_remove1 pending_filter)
  show ?thesis
  proof (cases "ownership r = kRuntime")
    case True
    have t3: "trackers e3 i = Some t3" using e3 by simp
    from delete_tracker_run [OF t3] obtain e4 where e4: "delete_tracker i e3 = Inr e4"
      "is_destructing e4 = is_destructing e3" "reflist e4 = remove1 i (reflist e3)"
      "finalizing_reflist e4 = remove1 i (finalizing_reflist e3)"
      "i \<notin> set (pending_finalizers e3) \<longrightarrow> pending_finalizers e4 = pending_finalizers e3"
      "trackers e4 = (trackers e3)(i := None)" "finalized e4 = finalized e3" by blast
    have "remove1 i (remove1 i xs) = remove1 i xs" if "distinct xs" for xs :: "nat list"
      using that by (simp add: filter_remove1)
    then have "finalizes {i} e e4" using e3 e4 d assms(4) by (intro fin) (auto simp: dying_def)
    then show ?thesis using True e3(1) e4(1) by (simp add: Reference_Finalize_def Let_def)
  next
    case False
    have "finalizes {i} e e3" using e3 by (intro fin) auto
    then show ?thesis using False e3(1) by (simp add: Reference_Finalize_def Let_def)
  qed
qed

lemma Finalize_silent:
  assumes "dying e" "ref_inv e" "trackers e i \<noteq> None" "i \<notin> set (pending_finalizers e)"
  shows "\<exists>e'. Finalize silent i e = Inr e' \<and> finalizes {i} e e'"
proof -
  have d: "distinct (reflist e)" "distinct (finalizing_reflist e)" using assms(2) by (auto simp: ref_inv_def linked_def)
  obtain t where t: "trackers e i = Some t" using assms(3) by blast
  show ?thesis
  proof (cases t)
    case (TReference r)
    then show ?thesis using Finalize_reference_silent [OF assms(1,2) _ assms(4)] t by (simp add: Finalize_def deref_def)
  next
    case (TTracked f)
    let ?e1 = "UnlinkTracker i e"
    have e1: "trackers ?e1 i = Some t" "dying ?e1" using t assms(1) by (simp_all add: UnlinkTracker_def dying_def)
    from CallFinalizer_silent [OF e1(2,1)] obtain e2 t' where e2: "CallFinalizer silent i ?e1 = Inr e2" "dying e2"
      "reflist e2 = reflist ?e1" "finalizing_reflist e2 = finalizing_reflist ?e1"
      "pending_finalizers e2 = pending_finalizers ?e1" "trackers e2 = (trackers ?e1)(i \<mapsto> t')"
      "finalized e2 = finalized ?e1 @ call_entry i t" by (auto simp: TTracked get_finalizer_def)
    have t2: "trackers e2 i = Some t'" using e2 by simp
    from delete_tracker_run [OF t2] obtain e3 where e3: "delete_tracker i e2 = Inr e3"
      "is_destructing e3 = is_destructing e2" "reflist e3 = remove1 i (reflist e2)"
      "finalizing_reflist e3 = remove1 i (finalizing_reflist e2)"
      "i \<notin> set (pending_finalizers e2) \<longrightarrow> pending_finalizers e3 = pending_finalizers e2"
      "trackers e3 = (trackers e2)(i := None)" "finalized e3 = finalized e2" by blast
    have "finalizes {i} e e3"
      using e2 e3 d assms(4) owed_single [OF t]
      by (auto simp: finalizes_def dying_def UnlinkTracker_def filter_remove1 pending_filter)
    then show ?thesis using e2(1) e3(1) t TTracked by (simp add: Finalize_def deref_def TrackedFinalizer_Finalize_def)
  next
    case (TString f)
    have "finalizes {i} e (set_tracker i (TString (ResetEnv f)) (UnlinkTracker i e))"
      using assms(1,4) d owed_single [OF t]
      by (auto simp: finalizes_def dying_def set_tracker_def UnlinkTracker_def filter_remove1 pending_filter TString
          call_entry_def armed_def)
    then show ?thesis using t TString by (simp add: Finalize_def deref_def TrackedStringResource_Finalize_def)
  qed
qed

text \<open>The loops: each round removes one tracker, so as many rounds as there are trackers suffice.\<close>

definition picks :: "(nat list \<Rightarrow> nat) \<Rightarrow> bool" where
  "picks pick \<longleftrightarrow> (\<forall>xs. xs \<noteq> [] \<longrightarrow> pick xs \<in> set xs)"

lemma drain_step:
  assumes "dying e" "ref_inv e" "i \<in> set (pending_finalizers e)"
  shows "\<exists>e'. Finalize silent i (DequeueFinalizer i e) = Inr e' \<and> finalizes {i} e e'"
proof -
  let ?e1 = "DequeueFinalizer i e"
  have "trackers e i \<noteq> None" using assms(2,3) by (auto simp: ref_inv_def)
  then have "\<exists>e'. Finalize silent i ?e1 = Inr e' \<and> finalizes {i} ?e1 e'"
    using assms(1) DequeueFinalizer_inv [OF assms(2)]
    by (intro Finalize_silent) (simp_all add: DequeueFinalizer_def dying_def)
  moreover have "finalizes {i} ?e1 e' \<Longrightarrow> finalizes {i} e e'" for e'
    by (auto simp: finalizes_def DequeueFinalizer_def owed_def removeAll_filter_not_eq intro!: filter_cong)
  ultimately show ?thesis by blast
qed

lemma drain_silent:
  assumes "picks pick" "dying e" "ref_inv e" "length (pending_finalizers e) \<le> n"
  shows "\<exists>e'. DrainFinalizerQueue silent pick n e = Some (Inr e') \<and> finalizes (set (pending_finalizers e)) e e' \<and> ref_inv e'"
  using assms(2-)
proof (induction n arbitrary: e)
  case 0
  then show ?case by (auto simp: DrainFinalizerQueue.simps finalizes_empty)
next
  case (Suc n)
  show ?case
  proof (cases "pending_finalizers e = []")
    case True
    then show ?thesis using Suc.prems by (auto simp: DrainFinalizerQueue.simps finalizes_empty)
  next
    case False
    let ?i = "pick (pending_finalizers e)"
    have i: "?i \<in> set (pending_finalizers e)" using assms(1) False by (simp add: picks_def)
    from drain_step [OF Suc.prems(1,2) i] obtain e1 where
      e1: "Finalize silent ?i (DequeueFinalizer ?i e) = Inr e1" "finalizes {?i} e e1" by blast
    have p: "pending_finalizers e1 = filter (\<lambda>j. j \<noteq> ?i) (pending_finalizers e)" using e1(2) by (simp add: finalizes_def)
    have "length (pending_finalizers e1) < length (pending_finalizers e)"
      unfolding p using i by (metis (mono_tags, lifting) length_filter_less)
    then have "\<exists>e'. DrainFinalizerQueue silent pick n e1 = Some (Inr e') \<and>
        finalizes (set (pending_finalizers e1)) e1 e' \<and> ref_inv e'"
      using e1 Suc.prems Finalize_inv [OF silent_ok DequeueFinalizer_inv [OF Suc.prems(2)] e1(1)]
      by (intro Suc.IH) (auto simp: finalizes_def)
    then obtain e' where e': "DrainFinalizerQueue silent pick n e1 = Some (Inr e')"
      "finalizes (set (pending_finalizers e1)) e1 e'" "ref_inv e'" by blast
    have "finalizes ({?i} \<union> set (pending_finalizers e1)) e e'"
      using finalizes_trans [OF e1(2) e'(2)] by (simp add: p)
    moreover have "{?i} \<union> set (pending_finalizers e1) = set (pending_finalizers e)" using i by (auto simp: p)
    moreover have "DrainFinalizerQueue silent pick (Suc n) e = Some (Inr e')"
      using False e1(1) e'(1) by (subst DrainFinalizerQueue.simps) (simp add: Let_def)
    ultimately show ?thesis using e'(3) by metis
  qed
qed

lemma FinalizeAll_silent:
  assumes lst: "\<And>S e e'. finalizes S e e' \<Longrightarrow> lst e' = filter (\<lambda>i. i \<notin> S) (lst e)"
      "\<And>e. set (lst e) \<subseteq> set (reflist e) \<union> set (finalizing_reflist e)"
    and "dying e" "ref_inv e" "pending_finalizers e = []" "length (lst e) \<le> n"
  shows "\<exists>e'. FinalizeAll lst silent n e = Some (Inr e') \<and> finalizes (set (lst e)) e e' \<and> ref_inv e'"
  using assms(3-)
proof (induction n arbitrary: e)
  case 0
  then show ?case by (auto simp: FinalizeAll.simps finalizes_empty)
next
  case (Suc n)
  show ?case
  proof (cases "lst e")
    case Nil
    then show ?thesis using Suc.prems by (auto simp: FinalizeAll.simps finalizes_empty)
  next
    case (Cons i xs)
    have "trackers e i \<noteq> None" using lst(2) [of e] Cons Suc.prems(2) by (auto simp: ref_inv_def linked_def)
    then obtain e1 where e1: "Finalize silent i e = Inr e1" "finalizes {i} e e1"
      using Finalize_silent [OF Suc.prems(1,2)] Suc.prems(3) by auto
    have p: "lst e1 = filter (\<lambda>j. j \<noteq> i) xs" using lst(1) [OF e1(2)] Cons by simp
    have "length (lst e1) \<le> n" unfolding p using Suc.prems(4) Cons length_filter_le [of _ xs] by (metis Suc_le_mono le_trans length_Cons)
    then have "\<exists>e'. FinalizeAll lst silent n e1 = Some (Inr e') \<and> finalizes (set (lst e1)) e1 e' \<and> ref_inv e'"
      using e1 Suc.prems Finalize_inv [OF silent_ok Suc.prems(2) e1(1)]
      by (intro Suc.IH) (auto simp: finalizes_def)
    then obtain e' where e': "FinalizeAll lst silent n e1 = Some (Inr e')" "finalizes (set (lst e1)) e1 e'" "ref_inv e'"
      by blast
    have "finalizes ({i} \<union> set (lst e1)) e e'" using finalizes_trans [OF e1(2) e'(2)] by (simp add: p)
    moreover have "{i} \<union> set (lst e1) = set (lst e)" by (auto simp: p Cons)
    moreover have "FinalizeAll lst silent (Suc n) e = Some (Inr e')"
      using Cons e1(1) e'(1) by (subst FinalizeAll.simps) simp
    ultimately show ?thesis using e'(3) by metis
  qed
qed

lemma DeleteMe_silent:
  assumes "picks pick" "ref_inv e"
    and "length (pending_finalizers e) \<le> n" "length (finalizing_reflist e) \<le> n" "length (reflist e) \<le> n"
  shows "\<exists>e'. DeleteMe silent pick n e = Some (Inr e') \<and> env_deleted e' \<and> ref_inv e' \<and>
    finalizes (set (pending_finalizers e) \<union> set (finalizing_reflist e) \<union> set (reflist e)) e e'"
proof -
  let ?e0 = "e\<lparr>is_destructing := True\<rparr>"
  have "dying ?e0" "ref_inv ?e0" using assms(2) by (simp_all add: dying_def)
  from drain_silent [OF assms(1) this, of n] assms(3) obtain e1 where
    e1: "DrainFinalizerQueue silent pick n ?e0 = Some (Inr e1)" "finalizes (set (pending_finalizers e)) ?e0 e1" "ref_inv e1"
    by auto
  have f1: "finalizing_reflist e1 = filter (\<lambda>i. i \<notin> set (pending_finalizers e)) (finalizing_reflist e)"
    "reflist e1 = filter (\<lambda>i. i \<notin> set (pending_finalizers e)) (reflist e)" "dying e1" "pending_finalizers e1 = []"
    using e1(2) by (auto simp: finalizes_def)
  have "length (finalizing_reflist e1) \<le> n" using assms(4) unfolding f1 by (meson le_trans length_filter_le)
  from FinalizeAll_silent [of finalizing_reflist, OF _ _ f1(3) e1(3) f1(4) this] obtain e2 where
    e2: "FinalizeAll finalizing_reflist silent n e1 = Some (Inr e2)" "finalizes (set (finalizing_reflist e1)) e1 e2" "ref_inv e2"
    by (auto simp: finalizes_def)
  have f2: "reflist e2 = filter (\<lambda>i. i \<notin> set (finalizing_reflist e1)) (reflist e1)" "dying e2" "pending_finalizers e2 = []"
    using e2(2) f1(4) by (auto simp: finalizes_def)
  have "length (reflist e2) \<le> n" using assms(5) unfolding f1 f2 by (meson le_trans length_filter_le)
  from FinalizeAll_silent [of reflist, OF _ _ f2(2) e2(3) f2(3) this] obtain e3 where
    e3: "FinalizeAll reflist silent n e2 = Some (Inr e3)" "finalizes (set (reflist e2)) e2 e3" "ref_inv e3"
    by (auto simp: finalizes_def)
  have a: "finalizes (set (pending_finalizers e) \<union> set (finalizing_reflist e1)) ?e0 e2"
    using finalizes_trans [OF e1(2) e2(2)] by (auto simp: f1)
  have b: "finalizes (set (pending_finalizers e) \<union> set (finalizing_reflist e1) \<union> set (reflist e2)) ?e0 e3"
    using finalizes_trans [OF a e3(2)] by (auto simp: f2 f1)
  have s: "set (pending_finalizers e) \<union> set (finalizing_reflist e1) \<union> set (reflist e2) =
      set (pending_finalizers e) \<union> set (finalizing_reflist e) \<union> set (reflist e)"
    by (auto simp: f1 f2)
  have "finalizes (set (pending_finalizers e) \<union> set (finalizing_reflist e) \<union> set (reflist e)) e (e3\<lparr>env_deleted := True\<rparr>)"
    using b unfolding s by (auto simp: finalizes_def owed_def dying_def)
  then show ?thesis using e1(1) e2(1) e3(1,3) by (simp add: DeleteMe_def then_run_def)
qed





section \<open>Reference counts\<close>

text \<open>A live reference that can be weak is weak exactly when its count is zero.\<close>

definition counted :: "'v Reference \<Rightarrow> bool" where
  "counted r \<longleftrightarrow> persistent r \<noteq> None \<and> can_be_weak r \<and> (is_weak r \<longleftrightarrow> refcount r = 0)"

fun ref_calls :: "nat \<Rightarrow> bool list \<Rightarrow> ('v, 'h) napi_env \<Rightarrow> ('v, 'h) napi_env res" where
  "ref_calls i [] e = Inr e"
| "ref_calls i (b # bs) e =
     bind_res (env_of (if b then napi_reference_ref (Some i) True e else napi_reference_unref (Some i) True e)) (ref_calls i bs)"

definition count_step :: "bool \<Rightarrow> nat \<Rightarrow> nat" where
  "count_step b n = (if b then n + 1 else n - 1)"

lemma Ref_counted:
  assumes "counted r" "unat (refcount r) + 1 < 2 ^ 32"
  shows "counted (snd (Ref r)) \<and> unat (refcount (snd (Ref r))) = unat (refcount r) + 1 \<and> persistent (snd (Ref r)) = persistent r"
proof -
  have n: "unat (refcount r + 1) = unat (refcount r) + 1" using assms(2) by (simp add: unat_word_ariths)
  then have "refcount r + 1 \<noteq> 0" by (metis add_is_0 one_neq_zero unat_0)
  moreover have "refcount r + 1 = 1 \<longleftrightarrow> refcount r = 0" by simp
  ultimately show ?thesis using assms(1) n by (auto simp: counted_def Ref_def Let_def)
qed

lemma Unref_counted:
  assumes "counted r" "refcount r \<noteq> 0"
  shows "counted (snd (Unref r)) \<and> unat (refcount (snd (Unref r))) = unat (refcount r) - 1 \<and> persistent (snd (Unref r)) = persistent r"
proof -
  have "unat (refcount r - 1) = unat (refcount r) - 1" using assms(2) by (simp add: unat_minus_one)
  then show ?thesis using assms by (auto simp: counted_def Unref_def SetWeak_def Let_def)
qed

lemma ref_call_run:
  assumes "CheckGCAccess e" "trackers e i = Some (TReference r)" "counted r" "unat (refcount r) + 1 < 2 ^ 32"
  shows "\<exists>e' r'. env_of (if b then napi_reference_ref (Some i) True e else napi_reference_unref (Some i) True e) = Inr e' \<and>
    CheckGCAccess e' \<and> trackers e' i = Some (TReference r') \<and> counted r' \<and>
    unat (refcount r') = count_step b (unat (refcount r)) \<and> persistent r' = persistent r"
proof (cases "\<not> b \<and> refcount r = 0")
  case True
  then show ?thesis
    using assms by (auto simp: env_of_def napi_reference_unref_def guard_defs check_def count_step_def
        napi_set_last_error_def CheckGCAccess_def)
next
  case False
  define r' where "r' = snd (if b then Ref r else Unref r)"
  have "counted r' \<and> unat (refcount r') = count_step b (unat (refcount r)) \<and> persistent r' = persistent r"
    using Ref_counted [OF assms(3,4)] Unref_counted [OF assms(3)] False by (auto simp: r'_def count_step_def)
  moreover have "env_of (if b then napi_reference_ref (Some i) True e else napi_reference_unref (Some i) True e) =
      Inr (napi_clear_last_error (set_tracker i (TReference r') e))"
    using assms(1,2) False
    by (auto simp: env_of_def napi_reference_ref_def napi_reference_unref_def guard_defs check_def r'_def case_prod_beta)
  ultimately show ?thesis
    using assms(1) by (auto simp: set_tracker_def napi_clear_last_error_def CheckGCAccess_def)
qed

text \<open>
  C7: Reference counting refines counting in the natural numbers: along any sequence of calls of
  \<open>napi_reference_ref\<close> (true) and \<open>napi_reference_unref\<close> (false) that cannot reach \<open>2 ^ 32\<close>, the count is
  the abstract one (a call at zero is refused), the value is kept, and the reference is weak exactly when
  the count is zero.
\<close>

theorem reference_counting:
  assumes "CheckGCAccess e" "trackers e i = Some (TReference r)" "counted r"
    and "unat (refcount r) + length bs < 2 ^ 32"
  shows "\<exists>e' r'. ref_calls i bs e = Inr e' \<and> trackers e' i = Some (TReference r') \<and>
    unat (refcount r') = fold count_step bs (unat (refcount r)) \<and> persistent r' = persistent r \<and>
    (is_weak r' \<longleftrightarrow> fold count_step bs (unat (refcount r)) = 0)"
  using assms
proof (induction bs arbitrary: e r)
  case Nil
  then show ?case by (auto simp: counted_def unat_eq_0)
next
  case (Cons b bs)
  have "unat (refcount r) + 1 < 2 ^ 32" using Cons.prems(4) by simp
  from ref_call_run [OF Cons.prems(1-3) this, of b] obtain e1 r1 where
    e1: "env_of (if b then napi_reference_ref (Some i) True e else napi_reference_unref (Some i) True e) = Inr e1"
    "CheckGCAccess e1" "trackers e1 i = Some (TReference r1)" "counted r1"
    "unat (refcount r1) = count_step b (unat (refcount r))" "persistent r1 = persistent r" by blast
  have "unat (refcount r1) + length bs < 2 ^ 32" using Cons.prems(4) e1(5) by (auto simp: count_step_def split: if_splits)
  from Cons.IH [OF e1(2,3,4) this] show ?case using e1 by simp
qed

theorem reference_counting_witness:
  "\<exists>e' r'. ref_calls 1 [True, True, False, False, False] added = Inr e' \<and>
    trackers e' 1 = Some (TReference r') \<and> unat (refcount r') = 0 \<and> is_weak r'"
proof -
  have "trackers added 1 = Some (TReference collectable)" "counted collectable" "CheckGCAccess added"
    by (simp_all add: added_def collectable_def counted_def CheckGCAccess_def env0_def napi_env_new_def)
  then show ?thesis
    using reference_counting [of added 1 collectable "[True, True, False, False, False]"]
    by (simp add: count_step_def collectable_def del: ref_calls.simps) blast
qed

section \<open>Handle scopes\<close>

definition scope_inv :: "('v, 'h) napi_env \<Rightarrow> bool" where
  "scope_inv e \<longleftrightarrow> finite (dom (scopes e)) \<and> (\<forall>i \<in> dom (scopes e). i < next_scope e) \<and>
     open_handle_scopes e = int (card (dom (scopes e)))"

datatype scope_op = Open bool | Close nat | Escape nat

fun scope_call :: "scope_op \<Rightarrow> 'v \<Rightarrow> ('v, 'h) napi_env \<Rightarrow> (napi_status \<times> ('v, 'h) napi_env) res" where
  "scope_call (Open b) v e =
     bind_res (if b then napi_open_handle_scope True e else napi_open_escapable_handle_scope True e) (\<lambda>(st, _, e1). Inr (st, e1))"
| "scope_call (Close i) v e = bind_res (napi_close_handle_scope (Some i) e) (\<lambda>(st, _, e1). Inr (st, e1))"
| "scope_call (Escape i) v e = bind_res (napi_escape_handle (Some i) (Some v) True e) (\<lambda>(st, _, e1). Inr (st, e1))"

lemma scope_call_inv:
  assumes "scope_inv e" "scope_call p v e = Inr (st, e')"
  shows "scope_inv e'"
proof (cases p)
  case (Open b)
  have "next_scope e \<notin> dom (scopes e)" using assms(1) by (auto simp: scope_inv_def)
  then show ?thesis
    using assms Open by (auto simp: scope_inv_def napi_open_handle_scope_def napi_open_escapable_handle_scope_def
        open_scope_def guard_defs res_simps napi_clear_last_error_def less_Suc_eq card_insert_if domIff split: if_splits)
next
  case (Close i)
  show ?thesis
  proof (cases "open_handle_scopes e = 0")
    case True
    then show ?thesis using assms Close by (auto simp: napi_close_handle_scope_def close_scope_def guard_defs res_simps)
  next
    case False
    then have d: "i \<in> dom (scopes e)" and e': "e' = napi_clear_last_error (e\<lparr>scopes := (scopes e)(i := None),
        open_handle_scopes := open_handle_scopes e - 1\<rparr>)"
      using assms Close by (auto simp: napi_close_handle_scope_def close_scope_def guard_defs res_simps deref_def split: option.splits)
    have "card (dom (scopes e)) \<ge> 1" using d assms(1) by (metis card_0_eq empty_iff less_one not_le scope_inv_def)
    then show ?thesis
      using assms(1) d unfolding e' by (auto simp: scope_inv_def napi_clear_last_error_def card_Diff_singleton of_nat_diff)
  qed
next
  case (Escape i)
  have "dom ((scopes e)(i \<mapsto> True)) = dom (scopes e)" if "scopes e i \<noteq> None" using that by auto
  then show ?thesis
    using assms Escape by (auto simp: scope_inv_def napi_escape_handle_def guard_defs res_simps napi_clear_last_error_def
        napi_set_last_error_def insert_absorb dest: bspec [OF _ domI] split: option.splits if_splits)
qed

fun scope_calls :: "scope_op list \<Rightarrow> 'v \<Rightarrow> ('v, 'h) napi_env \<Rightarrow> ('v, 'h) napi_env res" where
  "scope_calls [] v e = Inr e"
| "scope_calls (p # ps) v e = bind_res (scope_call p v e) (\<lambda>(st, e1). scope_calls ps v e1)"

lemma scope_calls_inv: "scope_inv e \<Longrightarrow> scope_calls ps v e = Inr e' \<Longrightarrow> scope_inv e'"
  by (induction ps v e rule: scope_calls.induct) (auto simp: res_simps dest: scope_call_inv)

text \<open>
  After any sequence of calls that open, close and escape handle scopes, the counter that
  \<open>CallIntoModule\<close> compares is the number of open scopes. Closing a scope when none is open returns
  \<open>napi_handle_scope_mismatch\<close> and changes nothing, so that the error is not recorded as the last error.
\<close>

theorem handle_scopes_balanced:
  assumes "scope_calls ps v (napi_env_new h version) = Inr e"
  shows "open_handle_scopes e = int (card (dom (scopes e))) \<and>
    (dom (scopes e) = {} \<longrightarrow> CheckGCAccess e \<longrightarrow>
      napi_close_handle_scope (Some i) e = Inr (napi_handle_scope_mismatch, None, e))"
proof -
  have "scope_inv (napi_env_new h version)" by (simp add: scope_inv_def napi_env_new_def)
  from scope_calls_inv [OF this assms] show ?thesis
    by (auto simp: scope_inv_def napi_close_handle_scope_def close_scope_def guard_defs check_def)
qed

theorem handle_scopes_balanced_witness:
  "\<exists>e. scope_calls [Open True, Escape 1, Escape 1, Close 1] 5 env0 = Inr e \<and> open_handle_scopes e = 0 \<and>
    napi_close_handle_scope (Some 1) e = Inr (napi_handle_scope_mismatch, None, e)"
proof -
  obtain e where e: "scope_calls [Open True, Escape 1, Escape 1, Close 1] 5 env0 = Inr e" "scopes e = Map.empty" "CheckGCAccess e"
    by (simp add: env0_def napi_env_new_def napi_open_handle_scope_def open_scope_def guard_defs check_def CheckGCAccess_def
        napi_escape_handle_def napi_close_handle_scope_def close_scope_def deref_def napi_clear_last_error_def
        napi_set_last_error_def)
  then show ?thesis using handle_scopes_balanced [OF e(1) [unfolded env0_def], of 1] by auto
qed

end
