(* ===== verification/Napi_Runtime.thy ===== *)
theory Napi_Runtime
  imports Napi_Lifecycle
begin

text \<open>
  The runtime behind the Node-API (\<^verbatim>\<open>src/src/node-api/v8_api.cpp\<close>): its configuration, the scopes by which
  threads enter an environment, and the environments of a runtime with their deletion.
\<close>

section \<open>Configuration\<close>

record ConfigWrapper =
  m_enableInspector :: bool
  m_enableMultithreading :: bool
  m_enableGCApi :: bool
  m_inspectorRuntimeName :: string
  m_inspectorPort :: u16
  m_inspectorBreakOnStart :: bool
  m_taskRunner :: "ptr option"
  m_scriptCache :: "ptr option"

definition ConfigWrapper_new :: ConfigWrapper where
  "ConfigWrapper_new = \<lparr>m_enableInspector = False, m_enableMultithreading = False, m_enableGCApi = False,
     m_inspectorRuntimeName = '''', m_inspectorPort = 0, m_inspectorBreakOnStart = False,
     m_taskRunner = None, m_scriptCache = None\<rparr>"

definition enableInspector :: "bool \<Rightarrow> ConfigWrapper \<Rightarrow> ConfigWrapper" where
  "enableInspector v c = c\<lparr>m_enableInspector := v\<rparr>"

definition enableGCApi :: "bool \<Rightarrow> ConfigWrapper \<Rightarrow> ConfigWrapper" where
  "enableGCApi v c = c\<lparr>m_enableGCApi := v\<rparr>"

definition enableMultithreading :: "bool \<Rightarrow> ConfigWrapper \<Rightarrow> ConfigWrapper" where
  "enableMultithreading v c = c\<lparr>m_enableMultithreading := v\<rparr>"

definition setInspectorRuntimeName :: "string \<Rightarrow> ConfigWrapper \<Rightarrow> ConfigWrapper" where
  "setInspectorRuntimeName name c = c\<lparr>m_inspectorRuntimeName := name\<rparr>"

definition setInspectorPort :: "u16 \<Rightarrow> ConfigWrapper \<Rightarrow> ConfigWrapper" where
  "setInspectorPort port c = c\<lparr>m_inspectorPort := port\<rparr>"

definition setInspectorBreakOnStart :: "bool \<Rightarrow> ConfigWrapper \<Rightarrow> ConfigWrapper" where
  "setInspectorBreakOnStart v c = c\<lparr>m_inspectorBreakOnStart := v\<rparr>"

definition setTaskRunner :: "ptr \<Rightarrow> ConfigWrapper \<Rightarrow> ConfigWrapper" where
  "setTaskRunner t c = c\<lparr>m_taskRunner := Some t\<rparr>"

definition setScriptCache :: "ptr \<Rightarrow> ConfigWrapper \<Rightarrow> ConfigWrapper" where
  "setScriptCache s c = c\<lparr>m_scriptCache := Some s\<rparr>"

text \<open>\<open>CHECKED_CONFIG\<close>: a null configuration is refused.\<close>

definition CHECKED_CONFIG :: "(ConfigWrapper \<Rightarrow> ConfigWrapper) \<Rightarrow> ConfigWrapper option \<Rightarrow> napi_status \<times> ConfigWrapper option" where
  "CHECKED_CONFIG f config =
     (case config of None \<Rightarrow> (napi_generic_failure, None) | Some c \<Rightarrow> (napi_ok, Some (f c)))"

record V8RuntimeArgs =
  trackGCObjectStats :: bool
  enableJitTracing :: bool
  enableMessageTracing :: bool
  enableGCTracing :: bool
  arg_enableInspector :: bool
  waitForDebugger :: bool
  arg_enableGCApi :: bool
  ignoreUnhandledPromises :: bool
  enableSystemInstrumentation :: bool
  sparkplug :: bool
  predictable :: bool
  optimize_for_size :: bool
  always_compact :: bool
  jitless :: bool
  lite_mode :: bool
  thread_pool_size :: nat
  enableMultiThread :: bool
  arg_inspectorPort :: u16
  debuggerRuntimeName :: string
  foreground_task_runner :: "ptr option"
  preparedScriptStore :: "ptr option"

definition getV8RuntimeArgs :: "ConfigWrapper \<Rightarrow> V8RuntimeArgs" where
  "getV8RuntimeArgs c = \<lparr>trackGCObjectStats = False, enableJitTracing = False, enableMessageTracing = False,
     enableGCTracing = False, arg_enableInspector = m_enableInspector c, waitForDebugger = m_inspectorBreakOnStart c,
     arg_enableGCApi = m_enableGCApi c, ignoreUnhandledPromises = False, enableSystemInstrumentation = False,
     sparkplug = False, predictable = False, optimize_for_size = False, always_compact = False, jitless = False,
     lite_mode = False, thread_pool_size = 0, enableMultiThread = m_enableMultithreading c,
     arg_inspectorPort = m_inspectorPort c, debuggerRuntimeName = m_inspectorRuntimeName c,
     foreground_task_runner = m_taskRunner c, preparedScriptStore = m_scriptCache c\<rparr>"

section \<open>Environment scopes\<close>

text \<open>The lockers of a thread: \<open>tls_current\<close> is the innermost one.\<close>

record NodeApiIsolateLocker =
  lk_runtime :: nat
  lk_refCount :: int
  lk_previous :: "nat option"

record tls =
  tls_current :: "nat option"
  lockers :: "nat \<Rightarrow> NodeApiIsolateLocker option"
  next_locker :: nat

definition HasCurrentRuntime :: "nat \<Rightarrow> tls \<Rightarrow> bool res" where
  "HasCurrentRuntime runtime s =
     (case tls_current s of
        None \<Rightarrow> Inr False
      | Some i \<Rightarrow> bind_res (deref (lockers s i)) (\<lambda>l. Inr (lk_runtime l = runtime)))"

definition AddRef :: "nat \<Rightarrow> tls \<Rightarrow> tls res" where
  "AddRef i s =
     bind_res (deref (lockers s i)) (\<lambda>l. Inr (s\<lparr>lockers := (lockers s)(i \<mapsto> l\<lparr>lk_refCount := lk_refCount l + 1\<rparr>)\<rparr>))"

text \<open>\<open>Release\<close>, with the destructor when the last reference goes.\<close>

definition Release :: "nat \<Rightarrow> tls \<Rightarrow> tls res" where
  "Release i s =
     bind_res (deref (lockers s i)) (\<lambda>l.
       if lk_refCount l - 1 = 0
       then Inr (s\<lparr>tls_current := lk_previous l, lockers := (lockers s)(i := None)\<rparr>)
       else Inr (s\<lparr>lockers := (lockers s)(i \<mapsto> l\<lparr>lk_refCount := lk_refCount l - 1\<rparr>)\<rparr>))"

definition new_locker :: "nat \<Rightarrow> tls \<Rightarrow> tls" where
  "new_locker runtime s =
     s\<lparr>tls_current := Some (next_locker s), next_locker := next_locker s + 1,
       lockers := (lockers s)(next_locker s \<mapsto>
         \<lparr>lk_runtime = runtime, lk_refCount = 1, lk_previous = tls_current s\<rparr>)\<rparr>"

definition openEnvScope :: "nat \<Rightarrow> bool \<Rightarrow> tls \<Rightarrow> ('v, 'h) napi_env \<Rightarrow>
    (napi_status \<times> nat option \<times> tls \<times> ('v, 'h) napi_env) res" where
  "openEnvScope runtime scope s e =
     (if \<not> scope then Inr (napi_invalid_arg, None, s, napi_set_last_error napi_invalid_arg e)
      else bind_res (HasCurrentRuntime runtime s) (\<lambda>b.
        bind_res (if b then bind_res (deref (tls_current s)) (\<lambda>i. AddRef i s) else Inr (new_locker runtime s)) (\<lambda>s1.
          Inr (napi_ok, tls_current s1, s1, e))))"

definition closeEnvScope :: "nat option \<Rightarrow> tls \<Rightarrow> ('v, 'h) napi_env \<Rightarrow> (napi_status \<times> tls \<times> ('v, 'h) napi_env) res" where
  "closeEnvScope scope s e =
     (case scope of
        None \<Rightarrow> Inr (napi_invalid_arg, s, napi_set_last_error napi_invalid_arg e)
      | Some locker \<Rightarrow>
          if Some locker \<noteq> tls_current s then Inr (napi_generic_failure, s, e)
          else bind_res (Release locker s) (\<lambda>s1. Inr (napi_ok, s1, e)))"

text \<open>The specification: a stack of runtimes with the number of nested scopes of each entry.\<close>

fun spec_open :: "nat \<Rightarrow> (nat \<times> nat) list \<Rightarrow> (nat \<times> nat) list" where
  "spec_open rt ((r, n) # st) = (if r = rt then (r, n + 1) # st else (rt, 1) # (r, n) # st)"
| "spec_open rt [] = [(rt, 1)]"

fun spec_close :: "(nat \<times> nat) list \<Rightarrow> (nat \<times> nat) list" where
  "spec_close ((r, n) # st) = (if n = 1 then st else (r, n - 1) # st)"
| "spec_close [] = []"

fun chain :: "(nat \<Rightarrow> NodeApiIsolateLocker option) \<Rightarrow> nat option \<Rightarrow> nat list \<Rightarrow> (nat \<times> nat) list \<Rightarrow> bool" where
  "chain m p [] [] \<longleftrightarrow> p = None"
| "chain m p (i # is) ((r, n) # st) \<longleftrightarrow> p = Some i \<and> 1 \<le> n \<and>
     (\<exists>prev. m i = Some \<lparr>lk_runtime = r, lk_refCount = int n, lk_previous = prev\<rparr> \<and> chain m prev is st)"
| "chain m p _ _ \<longleftrightarrow> False"

definition represents :: "tls \<Rightarrow> nat list \<Rightarrow> (nat \<times> nat) list \<Rightarrow> bool" where
  "represents s is st \<longleftrightarrow> chain (lockers s) (tls_current s) is st \<and> distinct is \<and> (\<forall>i \<in> set is. i < next_locker s)"

lemma chain_upd: "i \<notin> set is \<Longrightarrow> chain (m(i := x)) p is st = chain m p is st"
  by (induction m p "is" st rule: chain.induct) auto

lemma represents_Cons:
  assumes "represents s (j # js) st"
  obtains r n st' prev where "st = (r, n) # st'"
    "lockers s j = Some \<lparr>lk_runtime = r, lk_refCount = int n, lk_previous = prev\<rparr>" "tls_current s = Some j"
    "1 \<le> n" "chain (lockers s) prev js st'" "distinct (j # js)" "\<forall>i \<in> set (j # js). i < next_locker s"
  using assms by (cases st) (auto simp: represents_def)

lemma open_empty:
  assumes "represents s [] st"
  shows "\<exists>s' is'. openEnvScope rt True s e = Inr (napi_ok, Some (hd is'), s', e) \<and> represents s' is' (spec_open rt st)"
proof -
  have st: "st = []" "tls_current s = None" using assms by (cases st; auto simp: represents_def)+
  have "represents (new_locker rt s) [next_locker s] [(rt, 1)]" using st by (simp add: represents_def new_locker_def)
  moreover have "openEnvScope rt True s e = Inr (napi_ok, Some (next_locker s), new_locker rt s, e)"
    using st by (simp add: openEnvScope_def HasCurrentRuntime_def new_locker_def)
  ultimately show ?thesis
    using st by (intro exI [of _ "new_locker rt s"] exI [of _ "[next_locker s]"]) simp
qed

lemma open_on_top:
  assumes "represents s (j # js) st"
  shows "\<exists>s' is'. openEnvScope rt True s e = Inr (napi_ok, Some (hd is'), s', e) \<and> represents s' is' (spec_open rt st)"
  using assms
proof (rule represents_Cons)
  fix r n st' prev
  assume l: "st = (r, n) # st'" "lockers s j = Some \<lparr>lk_runtime = r, lk_refCount = int n, lk_previous = prev\<rparr>"
    "tls_current s = Some j" "1 \<le> n" "chain (lockers s) prev js st'" "distinct (j # js)" "\<forall>i \<in> set (j # js). i < next_locker s"
  show ?thesis
  proof (cases "r = rt")
    case True
    let ?s = "s\<lparr>lockers := (lockers s)(j \<mapsto> \<lparr>lk_runtime = r, lk_refCount = int n + 1, lk_previous = prev\<rparr>)\<rparr>"
    have "openEnvScope rt True s e = Inr (napi_ok, Some j, ?s, e)"
      using l True by (simp add: openEnvScope_def HasCurrentRuntime_def AddRef_def deref_def)
    moreover have "represents ?s (j # js) (spec_open rt st)" using l True by (simp add: represents_def chain_upd)
    ultimately show ?thesis by (intro exI [of _ ?s] exI [of _ "j # js"]) simp
  next
    case False
    let ?k = "next_locker s"
    have "openEnvScope rt True s e = Inr (napi_ok, Some ?k, new_locker rt s, e)"
      using l False by (simp add: openEnvScope_def HasCurrentRuntime_def new_locker_def deref_def)
    moreover have "represents (new_locker rt s) (?k # j # js) (spec_open rt st)"
      using l False by (auto simp: represents_def new_locker_def chain_upd)
    ultimately show ?thesis by (intro exI [of _ "new_locker rt s"] exI [of _ "?k # j # js"]) simp
  qed
qed

lemma close_top:
  assumes "represents s (j # js) st"
  shows "\<exists>s' is'. closeEnvScope (Some j) s e = Inr (napi_ok, s', e) \<and> represents s' is' (spec_close st)"
  using assms
proof (rule represents_Cons)
  fix r n st' prev
  assume l: "st = (r, n) # st'" "lockers s j = Some \<lparr>lk_runtime = r, lk_refCount = int n, lk_previous = prev\<rparr>"
    "tls_current s = Some j" "1 \<le> n" "chain (lockers s) prev js st'" "distinct (j # js)" "\<forall>i \<in> set (j # js). i < next_locker s"
  show ?thesis
  proof (cases "n = 1")
    case True
    let ?s = "s\<lparr>tls_current := prev, lockers := (lockers s)(j := None)\<rparr>"
    have "closeEnvScope (Some j) s e = Inr (napi_ok, ?s, e)" using l True by (simp add: closeEnvScope_def Release_def deref_def)
    moreover have "represents ?s js (spec_close st)" using l True by (simp add: represents_def chain_upd)
    ultimately show ?thesis by blast
  next
    case False
    let ?s = "s\<lparr>lockers := (lockers s)(j \<mapsto> \<lparr>lk_runtime = r, lk_refCount = int n - 1, lk_previous = prev\<rparr>)\<rparr>"
    have "closeEnvScope (Some j) s e = Inr (napi_ok, ?s, e)" using l False by (simp add: closeEnvScope_def Release_def deref_def)
    moreover have "represents ?s (j # js) (spec_close st)"
      using l False by (auto simp: represents_def chain_upd of_nat_diff)
    ultimately show ?thesis by blast
  qed
qed


definition no_scopes :: tls where
  "no_scopes = \<lparr>tls_current = None, lockers = Map.empty, next_locker = 0\<rparr>"


end
