(* ===== verification/Jsi_BigInt.thy ===== *)
theory Jsi_BigInt
  imports Prelude
begin

text \<open>
  Printing of big integers: \<open>bigintToString\<close> of \<^verbatim>\<open>src/src/node-api-jsi/NodeApiJsiRuntime.cpp\<close> divides the
  words of the number in place by the radix and collects the remainders. The words are read and written as
  half words of 32 bits (little endian); every store is checked against the size of the array.
\<close>

section \<open>Half words\<close>

definition Hi_32 :: "u64 \<Rightarrow> u32" where
  "Hi_32 v = ucast (drop_bit 32 v)"

definition Lo_32 :: "u64 \<Rightarrow> u32" where
  "Lo_32 v = ucast v"

definition Make_64 :: "u32 \<Rightarrow> u32 \<Rightarrow> u64" where
  "Make_64 high low = push_bit 32 (ucast high) OR ucast low"

definition maxCharsPerDigitInRadix :: "int \<Rightarrow> nat" where
  "maxCharsPerDigitInRadix radix =
     (let minNumBitsPerChar = (if radix < 4 then 1 else if radix < 8 then 2 else if radix < 16 then 3
                               else if radix < 32 then 4 else 5)
      in 8 div 2 ^ minNumBitsPerChar)"

text \<open>The array of words seen as half words.\<close>

definition halves_of :: "u64 list \<Rightarrow> u32 list" where
  "halves_of ws = concat (map (\<lambda>w. [Lo_32 w, Hi_32 w]) ws)"

section \<open>The conversion\<close>

record bigint_state =
  halfWords :: "u32 list"
  half_count :: nat
  remainder :: u32
  word0 :: u64

definition store_half :: "nat \<Rightarrow> u32 \<Rightarrow> bigint_state \<Rightarrow> bigint_state res" where
  "store_half i v s = check (i < length (halfWords s)) OutOfBounds (Inr (s\<lparr>halfWords := (halfWords s)[i := v]\<rparr>))"

text \<open>The count of significant half words shrinks; \<open>word0\<close> is read when two are left.\<close>

definition shrink :: "nat \<Rightarrow> bigint_state \<Rightarrow> bigint_state" where
  "shrink i s =
     (if i = half_count s then
        let s1 = s\<lparr>half_count := half_count s - 1\<rparr>
        in if half_count s1 = 2 then s1\<lparr>word0 := Make_64 (halfWords s1 ! 1) (halfWords s1 ! 0)\<rparr> else s1
      else s)"

text \<open>One pass of the inner loop, from \<open>i\<close> down to one.\<close>

fun divide_pass :: "u32 \<Rightarrow> nat \<Rightarrow> bigint_state \<Rightarrow> bigint_state res" where
  "divide_pass divisor 0 s = Inr s"
| "divide_pass divisor (Suc k) s =
     bind_res (read_at (halfWords s) k) (\<lambda>low.
       let i = Suc k; partialDividend = Make_64 (remainder s) low
       in bind_res
            (if partialDividend = 0 then
               bind_res (store_half i 0 s) (\<lambda>s1. Inr (shrink i (s1\<lparr>remainder := 0\<rparr>)))
             else if partialDividend < ucast divisor then
               bind_res (store_half i 0 s) (\<lambda>s1. Inr (shrink i (s1\<lparr>remainder := Lo_32 partialDividend\<rparr>)))
             else if partialDividend = ucast divisor then
               bind_res (store_half i 1 s) (\<lambda>s1. Inr (s1\<lparr>remainder := 0\<rparr>))
             else
               bind_res (store_half i (Lo_32 (partialDividend div ucast divisor)) s) (\<lambda>s1.
                 Inr (s1\<lparr>remainder := Lo_32 (partialDividend mod ucast divisor)\<rparr>)))
            (divide_pass divisor k))"

definition divide_step :: "u32 \<Rightarrow> bigint_state \<Rightarrow> bigint_state res" where
  "divide_step divisor s =
     (if half_count s \<le> 2 then
        Inr (s\<lparr>remainder := ucast (word0 s mod ucast divisor), word0 := word0 s div ucast divisor\<rparr>)
      else divide_pass divisor (half_count s) s)"

definition digit_char :: "u32 \<Rightarrow> char" where
  "digit_char r = (if r < 10 then char_of (48 + unat r) else char_of (97 + unat r - 10))"

text \<open>The loop that pushes the digits, least significant first; running out of fuel is \<open>None\<close>.\<close>

fun digit_loop :: "nat \<Rightarrow> u32 \<Rightarrow> bigint_state \<Rightarrow> string \<Rightarrow> string res option" where
  "digit_loop 0 divisor s digits = None"
| "digit_loop (Suc n) divisor s digits =
     (case divide_step divisor s of
        Inl f \<Rightarrow> Some (Inl f)
      | Inr s1 \<Rightarrow>
          let digits1 = digits @ [digit_char (remainder s1)]
          in if half_count s1 > 2 \<or> word0 s1 \<noteq> 0 then digit_loop n divisor s1 digits1
             else Some (Inr digits1))"

fun trim_count :: "u32 list \<Rightarrow> nat \<Rightarrow> nat" where
  "trim_count h 0 = 0"
| "trim_count h (Suc n) = (if h ! n = 0 then trim_count h n else Suc n)"

text \<open>Up to eight words are kept in an array of eight on the stack, more in one of their number on the heap.\<close>

definition bigint_array :: "u64 list \<Rightarrow> u64 list" where
  "bigint_array ws = (if length ws > 8 then ws else ws @ replicate (8 - length ws) 0)"

definition bigint_start :: "u64 list \<Rightarrow> bigint_state" where
  "bigint_start ws =
     (let h = halves_of (bigint_array ws)
      in \<lparr>halfWords = h, half_count = trim_count h (2 * length ws), remainder = 0, word0 = bigint_array ws ! 0\<rparr>)"

definition bigint_digits :: "nat \<Rightarrow> bool \<Rightarrow> u64 list \<Rightarrow> int \<Rightarrow> string res option" where
  "bigint_digits fuel signBit ws radix =
     (if ws = [] then Some (Inr ''0'')
      else (case digit_loop fuel (word_of_int radix) (bigint_start ws) [] of
              None \<Rightarrow> None
            | Some r \<Rightarrow> Some (bind_res r (\<lambda>digits. Inr (rev (if signBit then digits @ ''-'' else digits))))))"

section \<open>Digits of a number\<close>

text \<open>The reference: the digits of a number in a radix, least significant first.\<close>

fun radix_rev :: "nat \<Rightarrow> nat \<Rightarrow> nat list" where
  "radix_rev r n = (if n < r \<or> r < 2 then [n] else n mod r # radix_rev r (n div r))"

declare radix_rev.simps [simp del]

lemma radix_rev_value: "horner_sum id r (radix_rev r n) = n"
  by (induction r n rule: radix_rev.induct) (simp add: radix_rev.simps)

lemma radix_rev_digits: "2 \<le> r \<Longrightarrow> d \<in> set (radix_rev r n) \<Longrightarrow> d < r"
  by (induction r n rule: radix_rev.induct) (subst (asm) (2) radix_rev.simps, auto split: if_splits)

lemma radix_rev_last:
  "2 \<le> r \<Longrightarrow> \<exists>ds d. radix_rev r n = ds @ [d] \<and> (d = 0 \<longrightarrow> ds = [])"
proof (induction r n rule: radix_rev.induct)
  case (1 r n)
  show ?case
  proof (cases "n < r")
    case False
    with 1 obtain ds d where ds: "radix_rev r (n div r) = ds @ [d]" "d = 0 \<longrightarrow> ds = []" by auto
    have "d \<noteq> 0"
    proof
      assume "d = 0"
      with ds have "n div r = 0" using radix_rev_value [of r "n div r"] by simp
      with False 1(2) show False by (simp add: div_eq_0_iff)
    qed
    then show ?thesis using ds(1) False 1(2) by (subst radix_rev.simps) auto
  qed (simp add: radix_rev.simps)
qed

definition digit_set :: string where
  "digit_set = ''0123456789abcdefghijklmnopqrstuvwxyz''"

lemma digit_char_nth:
  assumes "d < 36"
  shows "digit_char (of_nat d) = digit_set ! d"
proof -
  have "\<forall>d \<in> {..<36}. digit_char (of_nat d) = digit_set ! d" by code_simp
  with assms show ?thesis by simp
qed

section \<open>Numbers of one word\<close>

lemma divide_step_small:
  assumes "2 \<le> r" "r \<le> 36" "half_count s \<le> 2"
  shows "\<exists>s1. divide_step (of_nat r) s = Inr s1 \<and> half_count s1 = half_count s \<and>
    unat (word0 s1) = unat (word0 s) div r \<and> digit_char (remainder s1) = digit_set ! (unat (word0 s) mod r)"
proof -
  have u: "ucast (of_nat r :: u32) = (of_nat r :: u64)"
    using assms(2) by (simp add: word_unat_eq_iff unat_ucast_mod unat_of_nat take_bit_eq_mod)
  have ur: "unat (of_nat r :: u64) = r" using assms(2) by (simp add: unat_of_nat take_bit_eq_mod)
  have lt: "unat (word0 s) mod r < 36" using assms by (intro less_le_trans [OF mod_less_divisor]) auto
  have "ucast (word0 s mod of_nat r) = (of_nat (unat (word0 s) mod r) :: u32)"
    by (metis ur unat_mod_distrib of_nat_unat)
  then show ?thesis using assms(3) digit_char_nth [OF lt] by (simp add: divide_step_def u ur unat_div_distrib)
qed

lemma digit_loop_small:
  assumes "2 \<le> r" "r \<le> 36" "half_count s \<le> 2" "unat (word0 s) < r ^ Suc n"
  shows "digit_loop (Suc n) (of_nat r) s ds = Some (Inr (ds @ map ((!) digit_set) (radix_rev r (unat (word0 s)))))"
  using assms
proof (induction n arbitrary: s ds)
  case 0
  then show ?case using divide_step_small [of r s] by (auto simp: radix_rev.simps word_unat_eq_iff)
next
  case (Suc n)
  obtain s1 where s1: "divide_step (of_nat r) s = Inr s1" "half_count s1 = half_count s"
    "unat (word0 s1) = unat (word0 s) div r" "digit_char (remainder s1) = digit_set ! (unat (word0 s) mod r)"
    using divide_step_small [OF Suc.prems(1-3)] by blast
  have "unat (word0 s) div r < r ^ Suc n"
    using Suc.prems(1,4) by (simp add: div_less_iff_less_mult mult.commute)
  then have "digit_loop (Suc n) (of_nat r) s1 ds' =
      Some (Inr (ds' @ map ((!) digit_set) (radix_rev r (unat (word0 s) div r))))" for ds'
    using Suc.IH [of s1] Suc.prems s1 by simp
  then show ?case using s1 Suc.prems(1,3)
    by (subst digit_loop.simps) (auto simp: radix_rev.simps [of r "unat (word0 s)"] word_unat_eq_iff Let_def div_greater_zero_iff
        simp del: digit_loop.simps)
qed

lemma bigint_start_one: "half_count (bigint_start [w]) \<le> 2 \<and> word0 (bigint_start [w]) = w"
  by (simp add: bigint_start_def bigint_array_def Let_def numeral_2_eq_2)

text \<open>
  C25: A number of one word is printed correctly in every radix from 2 to 36, and within 64 rounds: the text is
  the sign followed by digits of the radix that are worth the number, without leading zeros.
\<close>

theorem bigint_string_64:
  assumes "2 \<le> radix" "radix \<le> 36" "64 \<le> fuel"
  shows "\<exists>ds. bigint_digits fuel sign [w] radix =
      Some (Inr ((if sign then ''-'' else []) @ map ((!) digit_set) ds)) \<and>
    (\<forall>d \<in> set ds. d < nat radix) \<and> horner_sum id (nat radix) (rev ds) = unat w \<and>
    (\<exists>d rest. ds = d # rest \<and> (d = 0 \<longrightarrow> rest = []))"
proof -
  let ?r = "nat radix" and ?ds = "radix_rev (nat radix) (unat w)"
  have r: "2 \<le> ?r" "?r \<le> 36" "word_of_int radix = (of_nat ?r :: u32)" using assms by (simp_all add: nat_le_iff)
  obtain n where n: "fuel = Suc n" using assms(3) by (cases fuel) auto
  have "unat w < 2 ^ 64" using unsigned_less [of w] by simp
  also have "(2::nat) ^ 64 \<le> ?r ^ 64" using r(1) by (rule power_mono) simp
  also have "\<dots> \<le> ?r ^ Suc n" using assms(3) n r(1) by (intro power_increasing) auto
  finally have "digit_loop fuel (of_nat ?r) (bigint_start [w]) [] = Some (Inr (map ((!) digit_set) ?ds))"
    unfolding n using digit_loop_small [OF r(1,2), of "bigint_start [w]" n "[]"] bigint_start_one [of w] by simp
  then have "bigint_digits fuel sign [w] radix = Some (Inr ((if sign then ''-'' else []) @ map ((!) digit_set) (rev ?ds)))"
    unfolding bigint_digits_def r(3) by (simp add: rev_map)
  moreover obtain ds d where "?ds = ds @ [d]" "d = 0 \<longrightarrow> ds = []" using radix_rev_last [OF r(1)] by blast
  moreover have "\<forall>d \<in> set (rev ?ds). d < ?r" using radix_rev_digits [OF r(1)] by auto
  moreover have "horner_sum id ?r (rev (rev ?ds)) = unat w" using radix_rev_value [of ?r "unat w"] by simp
  ultimately show ?thesis by (intro exI [of _ "rev ?ds"]) auto
qed

theorem bigint_string_64_witness:
  "\<exists>ds. bigint_digits 64 True [255] 16 = Some (Inr (''-'' @ map ((!) digit_set) ds)) \<and> horner_sum id 16 (rev ds) = 255"
  using bigint_string_64 [of 16 64 True 255] by auto

section \<open>Wider numbers\<close>

lemma digit_loop_diverges:
  assumes "divide_step d s = Inr s1" "2 < half_count s1" "\<And>n ds. digit_loop n d s1 ds = None"
  shows "digit_loop n d s ds = None"
  using assms by (cases n) (simp_all add: Let_def)

lemma digit_loop_fixed:
  assumes "divide_step d s = Inr s" "2 < half_count s"
  shows "digit_loop n d s ds = None"
  by (induction n arbitrary: ds) (simp_all add: assms Let_def)

lemma length_halves_of [simp]: "length (halves_of ws) = 2 * length ws"
  by (induction ws) (simp_all add: halves_of_def)

lemma halves_of_snoc: "halves_of (ws @ [w]) = halves_of ws @ [Lo_32 w, Hi_32 w]"
  by (simp add: halves_of_def)

lemma divide_pass_outside:
  "length (halfWords s) = Suc k \<Longrightarrow> divide_pass d (Suc k) s = Inl OutOfBounds"
  by (simp add: Let_def store_half_def)

lemma Hi_32_nonzero: "2 ^ 32 \<le> v \<Longrightarrow> Hi_32 v \<noteq> 0"
proof -
  assume "2 ^ 32 \<le> v"
  then have "2 ^ 32 \<le> unat v" by (simp add: word_le_nat_alt)
  then have "1 \<le> unat v div 2 ^ 32" using div_le_mono [of "2 ^ 32" "unat v" "2 ^ 32"] by simp
  moreover have "unat v div 2 ^ 32 < 2 ^ 32" using unsigned_less [of v, where ?'a = nat] by (simp add: less_mult_imp_div_less)
  ultimately have "unat (Hi_32 v) \<noteq> 0" by (simp add: Hi_32_def unat_ucast_mod unat_drop_bit_div)
  then show ?thesis by (simp add: unat_eq_0)
qed

lemma bigint_start_wide:
  assumes "8 \<le> length ws" "2 ^ 32 \<le> last ws"
  shows "half_count (bigint_start ws) = 2 * length ws \<and> length (halfWords (bigint_start ws)) = 2 * length ws"
proof -
  obtain vs v where v: "ws = vs @ [v]" using assms(1) by (cases ws rule: rev_cases) auto
  with assms(2) have "Hi_32 v \<noteq> 0" using Hi_32_nonzero by simp
  then show ?thesis using assms(1) v by (simp add: bigint_start_def Let_def bigint_array_def halves_of_snoc nth_append)
qed

lemma bigint_outside:
  assumes "8 \<le> length ws" "2 ^ 32 \<le> last ws"
  shows "bigint_digits (Suc n) sign ws radix = Some (Inl OutOfBounds)"
proof -
  obtain k where "2 * length ws = Suc k" "2 < Suc k" using assms(1) by (cases "length ws") auto
  with bigint_start_wide [OF assms] have "divide_step d (bigint_start ws) = Inl OutOfBounds" for d
    using divide_pass_outside [of "bigint_start ws" k d] by (simp add: divide_step_def)
  then show ?thesis using assms(1) by (auto simp: bigint_digits_def)
qed

lemma bigint_diverges: "bigint_digits n False [1, 3] 2 = None"
proof -
  let ?s = "\<lambda>a b r. \<lparr>halfWords = [1, 0, a, b] @ replicate 12 0, half_count = 3, remainder = r, word0 = 1\<rparr>"
  have start: "bigint_start [1, 3] = ?s 3 0 0" by code_simp
  have 1: "divide_step 2 (?s 3 0 0) = Inr (?s 0x80000000 1 1)" by code_simp
  have 2: "divide_step 2 (?s 0x80000000 1 1) = Inr (?s 0 0xC0000000 1)" by code_simp
  have 3: "divide_step 2 (?s 0 0xC0000000 1) = Inr (?s 0 0x80000000 1)" by code_simp
  have 4: "divide_step 2 (?s 0 0x80000000 1) = Inr (?s 0 0x80000000 1)" by code_simp
  have "digit_loop n 2 (?s 3 0 0) ds = None" for n ds
    by (rule digit_loop_diverges [OF 1], simp, rule digit_loop_diverges [OF 2], simp,
        rule digit_loop_diverges [OF 3], simp, rule digit_loop_fixed [OF 4], simp)
  then show ?thesis unfolding bigint_digits_def start by simp
qed

text \<open>
  C38: Wider numbers are not printed correctly, because the quotients are stored one half word too high and the
  remainder is carried from one digit to the next: \<open>2 ^ 64\<close> becomes 6 in decimal, \<open>3 * 2 ^ 64 + 1\<close> in binary
  never returns, and every number that fills eight words or more is stored past the end of the array.
\<close>

theorem bigint_string_wide:
  "bigint_digits 8 False [0, 1] 10 = Some (Inr ''6'') \<and> bigint_digits n False [1, 3] 2 = None \<and>
    (8 \<le> length ws \<longrightarrow> 2 ^ 32 \<le> last ws \<longrightarrow> bigint_digits (Suc n) sign ws radix = Some (Inl OutOfBounds))"
proof -
  have "bigint_digits 8 False [0, 1] 10 = Some (Inr ''6'')" by code_simp
  then show ?thesis using bigint_diverges bigint_outside by blast
qed

theorem bigint_string_wide_witness:
  "bigint_digits 1 False (replicate 7 0 @ [2 ^ 63]) 10 = Some (Inl OutOfBounds)"
  using bigint_string_wide [of 0 "replicate 7 0 @ [2 ^ 63]" False 10] by simp

end
