(* ===== verification/Jsi_Keys.thy ===== *)
theory Jsi_Keys
  imports Jsi_BigInt "HOL-Library.Multiset"
begin

text \<open>
  Property keys of host objects: \<open>toArrayIndex\<close> of \<^verbatim>\<open>src/src/node-api-jsi/NodeApiJsiRuntime.cpp\<close> and the order in
  which \<open>hostObjectOwnKeysTrap\<close> hands out the keys of a host object.
\<close>

section \<open>Array indices\<close>

text \<open>The loop over the characters after the checks of the first one.\<close>

fun array_index_loop :: "u32 \<Rightarrow> string \<Rightarrow> u32 option" where
  "array_index_loop res [] = Some res"
| "array_index_loop res (ch # rest) =
     (if ch < CHR ''0'' \<or> ch > CHR ''9'' then None
      else let tmp = (ucast res :: u64) * 10 + of_nat (of_char ch - of_char (CHR ''0''))
           in if tmp AND push_bit 32 0xFFFFFFFF \<noteq> 0 then None
              else array_index_loop (ucast tmp) rest)"

definition toArrayIndex :: "string \<Rightarrow> u32 option" where
  "toArrayIndex s =
     (case s of
        [] \<Rightarrow> None
      | first # rest \<Rightarrow>
          if first = CHR ''0'' then (if rest = [] then Some 0 else None)
          else (case array_index_loop 0 s of
                  None \<Rightarrow> None
                | Some res \<Rightarrow> if res = 0xFFFFFFFF then None else Some res))"

text \<open>The reference: decimal notation.\<close>

definition show_nat :: "nat \<Rightarrow> string" where
  "show_nat n = map ((!) digit_set) (rev (radix_rev 10 n))"

definition is_digit :: "char \<Rightarrow> bool" where
  "is_digit c \<longleftrightarrow> CHR ''0'' \<le> c \<and> c \<le> CHR ''9''"

definition digit_value :: "char \<Rightarrow> nat" where
  "digit_value c = of_char c - 48"

definition read_step :: "nat \<Rightarrow> char \<Rightarrow> nat" where
  "read_step a c = 10 * a + digit_value c"

lemma digit_value_less: "is_digit c \<Longrightarrow> digit_value c < 10"
  unfolding is_digit_def digit_value_def less_eq_char_def by simp linarith

lemma digit_char_of_value: "is_digit c \<Longrightarrow> digit_set ! digit_value c = c"
proof -
  assume c: "is_digit c"
  have "\<forall>d \<in> {..<10}. digit_set ! d = char_of (d + 48)" by code_simp
  then have "digit_set ! digit_value c = char_of (digit_value c + 48)" using digit_value_less [OF c] by simp
  then show ?thesis using c by (simp add: is_digit_def digit_value_def less_eq_char_def)
qed

lemma digit_set_digit: "d < 10 \<Longrightarrow> is_digit (digit_set ! d) \<and> digit_value (digit_set ! d) = d"
proof -
  assume "d < 10"
  moreover have "\<forall>d \<in> {..<10}. is_digit (digit_set ! d) \<and> digit_value (digit_set ! d) = d" by code_simp
  ultimately show ?thesis by simp
qed

lemma read_step_mono: "a \<le> foldl read_step a cs"
proof (induction cs arbitrary: a)
  case (Cons c cs)
  have "a \<le> read_step a c" by (simp add: read_step_def)
  then show ?case using Cons [of "read_step a c"] by simp
qed simp

lemma high_half_zero: "(w :: u64) AND push_bit 32 0xFFFFFFFF = 0 \<longleftrightarrow> unat w < 2 ^ 32"
proof -
  have m: "push_bit 32 0xFFFFFFFF = (NOT (mask 32) :: u64)" by (simp add: mask_eq_exp_minus_1)
  have "w AND NOT (mask 32) = 0 \<longleftrightarrow> drop_bit 32 w = 0"
  proof
    assume *: "w AND NOT (mask 32) = 0"
    show "drop_bit 32 w = 0"
    proof (rule bit_word_eqI)
      fix n
      have "bit (w AND NOT (mask 32)) (32 + n) = bit (0 :: u64) (32 + n)" using * by simp
      then show "bit (drop_bit 32 w) n = bit (0 :: u64) n"
        using bit_imp_le_length [of w "32 + n"] by (auto simp: bit_simps)
    qed
  next
    assume "drop_bit 32 w = 0"
    then have "unat w div 2 ^ 32 = 0" by (metis unat_drop_bit_div unat_0)
    then have "unat w < 2 ^ 32" by (simp add: div_eq_0_iff)
    then have "take_bit 32 w = w" by (simp only: word_unat_eq_iff unsigned_take_bit_eq take_bit_nat_eq_self)
    then have "w AND NOT (mask 32) = take_bit 32 w AND NOT (mask 32)" by simp
    then show "w AND NOT (mask 32) = 0" by (simp add: take_bit_eq_mask and.assoc)
  qed
  also have "\<dots> \<longleftrightarrow> unat w div 2 ^ 32 = 0" by (metis unat_drop_bit_div unat_eq_0)
  finally show ?thesis unfolding m by (simp add: div_eq_0_iff)
qed

lemma array_index_loop_eq:
  "array_index_loop res cs =
    (if (\<forall>c \<in> set cs. is_digit c) \<and> foldl read_step (unat res) cs < 2 ^ 32
     then Some (of_nat (foldl read_step (unat res) cs)) else None)"
proof (induction cs arbitrary: res)
  case Nil
  then show ?case using unsigned_less [of res, where ?'a = nat] by simp
next
  case (Cons c cs)
  show ?case
  proof (cases "is_digit c")
    case True
    let ?t = "(ucast res :: u64) * 10 + of_nat (digit_value c)" and ?n = "read_step (unat res) c"
    have "unat res < 2 ^ 32" using unsigned_less [of res, where ?'a = nat] by simp
    then have n: "?n < 2 ^ 64" using digit_value_less [OF True] by (simp add: read_step_def)
    have "?t = of_nat ?n" by (simp add: read_step_def mult.commute word_unat_eq_iff unat_ucast_mod)
    then have t: "unat ?t = ?n" using n by (simp add: unat_of_nat take_bit_eq_mod)
    have u: "unat (ucast ?t :: u32) = ?n" if "?n < 2 ^ 32"
      using that by (simp only: unat_ucast_mod t) simp
    have "foldl read_step ?n cs < 2 ^ 32 \<Longrightarrow> ?n < 2 ^ 32" using read_step_mono [of ?n cs] by simp
    then show ?thesis
      using True Cons [of "ucast ?t"] t u high_half_zero [of ?t]
      by (auto simp: is_digit_def digit_value_def Let_def not_less)
  qed (auto simp: is_digit_def)
qed

text \<open>Decimal notation is the digit strings without leading zeros.\<close>

lemma show_nat_step: "10 \<le> n \<Longrightarrow> show_nat n = show_nat (n div 10) @ [digit_set ! (n mod 10)]"
  by (simp add: show_nat_def radix_rev.simps [of 10 n])

lemma show_nat_small: "n < 10 \<Longrightarrow> show_nat n = [digit_set ! n]"
  by (simp add: show_nat_def radix_rev.simps)

lemma show_nat_read:
  "(\<forall>c \<in> set (show_nat n). is_digit c) \<and> foldl read_step 0 (show_nat n) = n \<and>
    (\<exists>c cs. show_nat n = c # cs \<and> (c = CHR ''0'' \<longrightarrow> cs = []))"
proof (induction n rule: less_induct)
  case (less n)
  show ?case
  proof (cases "n < 10")
    case True
    then show ?thesis using digit_set_digit [OF True] by (simp add: show_nat_small read_step_def)
  next
    case False
    then have "1 \<le> n div 10" by simp
    obtain c cs where c: "show_nat (n div 10) = c # cs" "c = CHR ''0'' \<longrightarrow> cs = []"
      using less [of "n div 10"] False by auto
    have "c \<noteq> CHR ''0''"
    proof
      assume "c = CHR ''0''"
      then have "foldl read_step 0 (show_nat (n div 10)) = 0" using c by (simp add: read_step_def digit_value_def)
      then show False using less [of "n div 10"] False by simp
    qed
    then show ?thesis using less [of "n div 10"] False c digit_set_digit [of "n mod 10"]
      by (auto simp: show_nat_step read_step_def)
  qed
qed

lemma show_nat_unique:
  "cs \<noteq> [] \<Longrightarrow> \<forall>c \<in> set cs. is_digit c \<Longrightarrow> hd cs \<noteq> CHR ''0'' \<or> tl cs = [] \<Longrightarrow>
    cs = show_nat (foldl read_step 0 cs)"
proof (induction cs rule: rev_induct)
  case (snoc c cs)
  note d = digit_value_less [of c] digit_char_of_value [of c]
  show ?case
  proof (cases "cs = []")
    case True
    then show ?thesis using snoc.prems d by (simp add: read_step_def show_nat_small)
  next
    case False
    let ?n = "foldl read_step 0 cs"
    have "hd cs \<noteq> CHR ''0'' \<or> tl cs = []" using snoc.prems(3) False by (cases cs) auto
    then have IH: "cs = show_nat ?n" using snoc.IH snoc.prems(2) False by simp
    have "?n \<noteq> 0"
    proof
      assume "?n = 0"
      then have "cs = ''0''" using IH by (simp add: show_nat_small digit_set_def)
      then show False using snoc.prems by simp
    qed
    then have "show_nat (read_step ?n c) = show_nat ?n @ [c]"
      using snoc.prems(2) d by (simp add: show_nat_step read_step_def)
    then show ?thesis using IH by simp
  qed
qed simp

text \<open>
  A property key is taken for an array index exactly when it is the decimal notation of a number below
  \<open>2 ^ 32 - 1\<close>, and then for that number.
\<close>

theorem array_index_correct:
  "toArrayIndex s = Some i \<longleftrightarrow> s = show_nat (unat i) \<and> unat i < 2 ^ 32 - 1"
proof -
  let ?n = "foldl read_step 0 s"
  have n: "unat (of_nat ?n :: u32) = ?n" if "?n < 2 ^ 32" using that by (simp add: unat_of_nat take_bit_eq_mod)
  have max: "(i :: u32) = 0xFFFFFFFF \<longleftrightarrow> unat i = 2 ^ 32 - 1" by (simp add: word_unat_eq_iff)
  have lt: "unat i < 2 ^ 32" using unsigned_less [of i, where ?'a = nat] by simp
  have zero: "show_nat 0 = ''0''" by (simp add: show_nat_small digit_set_def)
  show ?thesis
  proof
    assume *: "toArrayIndex s = Some i"
    then obtain c cs where s: "s = c # cs" by (auto simp: toArrayIndex_def split: list.splits)
    show "s = show_nat (unat i) \<and> unat i < 2 ^ 32 - 1"
    proof (cases "c = CHR ''0''")
      case True
      then show ?thesis using * s zero by (auto simp: toArrayIndex_def split: if_splits)
    next
      case False
      then have "array_index_loop 0 s = Some i" "i \<noteq> 0xFFFFFFFF"
        using * s by (auto simp: toArrayIndex_def split: option.splits if_splits)
      then have d: "\<forall>c \<in> set s. is_digit c" "?n < 2 ^ 32" "i = of_nat ?n"
        by (auto simp: array_index_loop_eq split: if_splits)
      then have "unat i = ?n" using n by simp
      then show ?thesis using show_nat_unique [of s] d(1) s False max \<open>i \<noteq> _\<close> lt by auto
    qed
  next
    assume *: "s = show_nat (unat i) \<and> unat i < 2 ^ 32 - 1"
    then have r: "\<forall>c \<in> set s. is_digit c" "?n = unat i" using show_nat_read [of "unat i"] by auto
    obtain c cs where s: "s = c # cs" "c = CHR ''0'' \<longrightarrow> cs = []" using * show_nat_read [of "unat i"] by auto
    show "toArrayIndex s = Some i"
    proof (cases "c = CHR ''0''")
      case True
      then have "?n = 0" using s by (simp add: read_step_def digit_value_def)
      then show ?thesis using r s True by (simp add: toArrayIndex_def unat_eq_0)
    next
      case False
      have "array_index_loop 0 s = Some i" using r lt by (simp add: array_index_loop_eq)
      then show ?thesis using s False * max by (simp add: toArrayIndex_def)
    qed
  qed
qed

section \<open>Own keys of a host object\<close>

text \<open>
  A key is its pointer value (which decides whether it has been seen) and, unless it is a symbol, its name. The keys
  of the proxy target are names and symbols with the pointer values that \<open>createPropNameIDFromString\<close> and
  \<open>createPropNameIDFromSymbol\<close> give them, the marker symbol of the host object, or values of another type.
\<close>

record own_key =
  key_pv :: nat
  key_name :: "string option"

datatype target_key = TargetKey own_key | HostObjectSymbol | OtherKey

fun target_keys :: "target_key list \<Rightarrow> own_key list \<Rightarrow> string + own_key list" where
  "target_keys [] ownKeys = Inr ownKeys"
| "target_keys (TargetKey k # ks) ownKeys =
     (if key_pv k \<in> key_pv ` set ownKeys then Inl ''Target has non-unique keys''
      else target_keys ks (ownKeys @ [k]))"
| "target_keys (HostObjectSymbol # ks) ownKeys = target_keys ks ownKeys"
| "target_keys (OtherKey # ks) ownKeys = Inl ''Unexpected key type''"

fun host_keys :: "own_key list \<Rightarrow> own_key list \<Rightarrow> own_key list" where
  "host_keys [] ownKeys = ownKeys"
| "host_keys (k # ks) ownKeys = host_keys ks (if key_pv k \<in> key_pv ` set ownKeys then ownKeys else ownKeys @ [k])"

definition index_key :: "own_key \<Rightarrow> u32 option" where
  "index_key k = Option.bind (key_name k) toArrayIndex"

text \<open>Indexed keys, sorted, before the others in their order.\<close>

definition order_keys :: "own_key list \<Rightarrow> own_key list" where
  "order_keys ks =
     sort_key (\<lambda>k. the (index_key k)) (filter (\<lambda>k. index_key k \<noteq> None) ks) @ filter (\<lambda>k. index_key k = None) ks"

definition own_keys :: "target_key list \<Rightarrow> own_key list \<Rightarrow> string + own_key list" where
  "own_keys targetOwnKeys hostOwnKeys =
     (case (if length targetOwnKeys > 1 then target_keys targetOwnKeys [] else Inr []) of
        Inl m \<Rightarrow> Inl m
      | Inr ks \<Rightarrow> Inr (order_keys (host_keys hostOwnKeys ks)))"

lemma target_keys_Inr:
  "target_keys ts acc = Inr ks \<Longrightarrow> distinct (map key_pv acc) \<Longrightarrow>
    distinct (map key_pv ks) \<and> set ks = set acc \<union> {k. TargetKey k \<in> set ts}"
  by (induction ts acc rule: target_keys.induct) (auto split: if_splits)

lemma target_keys_total:
  "OtherKey \<notin> set ts \<Longrightarrow> distinct (map key_pv acc @ [key_pv k. TargetKey k \<leftarrow> ts]) \<Longrightarrow> \<exists>ks. target_keys ts acc = Inr ks"
  by (induction ts acc rule: target_keys.induct) auto

lemma host_keys_distinct:
  "distinct (map key_pv acc) \<Longrightarrow> distinct (map key_pv (host_keys ks acc))"
  by (induction ks acc rule: host_keys.induct) auto

lemma host_keys_pvs: "key_pv ` set (host_keys ks acc) = key_pv ` (set acc \<union> set ks)"
  by (induction ks acc rule: host_keys.induct) auto

lemma host_keys_subset: "set acc \<subseteq> set (host_keys ks acc) \<and> set (host_keys ks acc) \<subseteq> set acc \<union> set ks"
  by (induction ks acc rule: host_keys.induct) auto

lemma order_keys_mset: "mset (order_keys ks) = mset ks"
  by (simp add: order_keys_def)



end
