(* ===== verification/Jsi_Pointers.thy ===== *)
theory Jsi_Pointers
  imports Napi_Lifecycle
begin

text \<open>
  Pointer values of the JSI runtime on top of the Node-API (\<^verbatim>\<open>src/src/node-api-jsi/NodeApiJsiRuntime.cpp\<close>): counted
  pointers with a handle on the stack, a reference, or both; the stack of pointer scopes; and the queue by which
  pointers released on any thread are deleted on the JavaScript thread. Pointers live in a store of cells, and
  an access to a cell that has been deleted is the fault \<open>NullDeref\<close>. \<open>CHECK_ELSE_CRASH\<close> is the fault \<open>CheckAbort\<close>.
\<close>

section \<open>State\<close>

datatype NodeApiPointerValueKind = KObject | KWeakObject | KString | KStringPropNameID | KSymbol | KBigInt

record 'v NodeApiRefCountedPointerValue =
  pv_value :: "'v option"
  pv_ref :: "nat option"
  refCount :: int
  pointerKind :: NodeApiPointerValueKind
  canBeDeletedFromStack :: bool

text \<open>\<open>pool\<close> holds the two vectors of \<open>NodeApiPendingDeletions\<close>; the back of a vector is the end of its list.\<close>

record ('v, 'h) jsi =
  jsi_env :: "('v, 'h) napi_env"
  stackScopes :: "nat list"
  stackValues :: "nat list"
  pointer_values :: "nat \<Rightarrow> 'v NodeApiRefCountedPointerValue option"
  next_pv :: nat
  pool :: "nat \<Rightarrow> nat list"
  poolSelector :: nat

definition set_pv :: "nat \<Rightarrow> 'v NodeApiRefCountedPointerValue \<Rightarrow> ('v, 'h, 'x) jsi_scheme \<Rightarrow> ('v, 'h, 'x) jsi_scheme" where
  "set_pv p pv j = j\<lparr>pointer_values := (pointer_values j)(p \<mapsto> pv)\<rparr>"

definition delete_pv :: "nat \<Rightarrow> ('v, 'h, 'x) jsi_scheme \<Rightarrow> ('v, 'h, 'x) jsi_scheme" where
  "delete_pv p j = j\<lparr>pointer_values := (pointer_values j)(p := None)\<rparr>"

text \<open>\<open>CHECK_NAPI_ELSE_CRASH\<close>\<close>

definition CHECK_NAPI_ELSE_CRASH :: "('v, 'h, 'a) api \<Rightarrow> ('v, 'h, 'x) jsi_scheme \<Rightarrow> ('a option \<times> ('v, 'h, 'x) jsi_scheme) res" where
  "CHECK_NAPI_ELSE_CRASH f j =
     bind_res (f (jsi_env j)) (\<lambda>(st, out, e).
       check (st = napi_ok) CheckAbort (Inr (out, j\<lparr>jsi_env := e\<rparr>)))"

section \<open>Counting\<close>

definition INT32_MAX :: int where
  "INT32_MAX = 2 ^ 31 - 1"

definition incRefCount :: "int \<Rightarrow> int res" where
  "incRefCount n = check (n + 1 > 1) CheckAbort (check (n + 1 < INT32_MAX) CheckAbort (Inr (n + 1)))"

text \<open>The new count, and whether it is zero.\<close>

definition decRefCount :: "int \<Rightarrow> (bool \<times> int) res" where
  "decRefCount n = check (n - 1 \<ge> 0) CheckAbort (Inr (n - 1 = 0, n - 1))"

definition addPointerValueToDelete :: "nat \<Rightarrow> ('v, 'h, 'x) jsi_scheme \<Rightarrow> ('v, 'h, 'x) jsi_scheme" where
  "addPointerValueToDelete p j = j\<lparr>pool := (pool j)(poolSelector j := pool j (poolSelector j) @ [p])\<rparr>"

definition clone :: "nat \<Rightarrow> ('v, 'h, 'x) jsi_scheme \<Rightarrow> ('v, 'h, 'x) jsi_scheme res" where
  "clone p j =
     bind_res (deref (pointer_values j p)) (\<lambda>pv.
     bind_res (incRefCount (refCount pv)) (\<lambda>n. Inr (set_pv p (pv\<lparr>refCount := n\<rparr>) j)))"

definition invalidate :: "nat \<Rightarrow> ('v, 'h, 'x) jsi_scheme \<Rightarrow> ('v, 'h, 'x) jsi_scheme res" where
  "invalidate p j =
     bind_res (deref (pointer_values j p)) (\<lambda>pv.
     bind_res (decRefCount (refCount pv)) (\<lambda>(zero, n).
       let j1 = set_pv p (pv\<lparr>refCount := n\<rparr>) j
       in Inr (if zero then addPointerValueToDelete p j1 else j1)))"

section \<open>Creation and access\<close>

definition addStackValue :: "nat \<Rightarrow> ('v, 'h, 'x) jsi_scheme \<Rightarrow> ('v, 'h, 'x) jsi_scheme" where
  "addStackValue p j = j\<lparr>stackValues := stackValues j @ [p]\<rparr>"

definition make :: "'v \<Rightarrow> NodeApiPointerValueKind \<Rightarrow> int \<Rightarrow> ('v, 'h, 'x) jsi_scheme \<Rightarrow> nat \<times> ('v, 'h, 'x) jsi_scheme" where
  "make value kind initialRefCount j =
     (let p = next_pv j;
          pv = \<lparr>pv_value = Some value, pv_ref = None, refCount = initialRefCount, pointerKind = kind,
                canBeDeletedFromStack = False\<rparr>
      in (p, addStackValue p (set_pv p pv (j\<lparr>next_pv := p + 1\<rparr>))))"

definition kPrimitivePropertyName :: "u8 list" where
  "kPrimitivePropertyName = bytes_of_string ''X'' @ [0]"

definition createNodeApiRef :: "('v, 'h) v8 \<Rightarrow> nat \<Rightarrow> ('v, 'h, 'x) jsi_scheme \<Rightarrow> ('v, 'h, 'x) jsi_scheme res" where
  "createNodeApiRef V p j =
     bind_res (deref (pointer_values j p)) (\<lambda>pv.
       check (pv_value pv \<noteq> None) CheckAbort (check (pv_ref pv = None) CheckAbort
         (bind_res
            (if pointerKind pv = KObject then
               CHECK_NAPI_ELSE_CRASH (napi_create_reference V (pv_value pv) 1 True) j
             else if pointerKind pv \<noteq> KWeakObject then
               bind_res (CHECK_NAPI_ELSE_CRASH (napi_create_object V True) j) (\<lambda>(obj, j1).
               bind_res (CHECK_NAPI_ELSE_CRASH (napi_set_named_property V obj (Some kPrimitivePropertyName) (pv_value pv)) j1) (\<lambda>(_, j2).
                 CHECK_NAPI_ELSE_CRASH (napi_create_reference V obj 1 True) j2))
             else CHECK_NAPI_ELSE_CRASH (napi_create_reference V (pv_value pv) 0 True) j)
            (\<lambda>(ref, j1). Inr (set_pv p (pv\<lparr>pv_ref := ref\<rparr>) j1)))))"

definition makeNodeApiRef :: "('v, 'h) v8 \<Rightarrow> 'v \<Rightarrow> NodeApiPointerValueKind \<Rightarrow> int \<Rightarrow> ('v, 'h, 'x) jsi_scheme \<Rightarrow>
    (nat \<times> ('v, 'h, 'x) jsi_scheme) res" where
  "makeNodeApiRef V value kind n j =
     (case make value kind n j of (p, j1) \<Rightarrow> bind_res (createNodeApiRef V p j1) (\<lambda>j2. Inr (p, j2)))"

definition getValue :: "('v, 'h) v8 \<Rightarrow> nat \<Rightarrow> ('v, 'h, 'x) jsi_scheme \<Rightarrow> ('v option \<times> ('v, 'h, 'x) jsi_scheme) res" where
  "getValue V p j =
     bind_res (deref (pointer_values j p)) (\<lambda>pv.
       if pv_value pv \<noteq> None then Inr (pv_value pv, j)
       else if pv_ref pv = None then Inr (None, j)
       else bind_res
         (if pointerKind pv = KObject \<or> pointerKind pv = KWeakObject then
            bind_res (CHECK_NAPI_ELSE_CRASH (napi_get_reference_value (pv_ref pv) True) j) (\<lambda>(v, j1). Inr (Option.bind v id, j1))
          else
            bind_res (CHECK_NAPI_ELSE_CRASH (napi_get_reference_value (pv_ref pv) True) j) (\<lambda>(obj, j1).
              CHECK_NAPI_ELSE_CRASH (napi_get_named_property V (Option.bind obj id) (Some kPrimitivePropertyName) True) j1))
         (\<lambda>(v, j1).
            let j2 = set_pv p (pv\<lparr>pv_value := v\<rparr>) j1
            in Inr (v, if v \<noteq> None then addStackValue p j2 else j2)))"

section \<open>Deletion\<close>

text \<open>
  \<open>deleteStackValue\<close> goes on to use the pointer after \<^verbatim>\<open>delete this\<close>.
\<close>

definition deleteStackValue :: "('v, 'h) v8 \<Rightarrow> nat \<Rightarrow> ('v, 'h, 'x) jsi_scheme \<Rightarrow> ('v, 'h, 'x) jsi_scheme res" where
  "deleteStackValue V p j =
     bind_res (deref (pointer_values j p)) (\<lambda>pv.
       check (pv_value pv \<noteq> None) CheckAbort
         (let j1 = (if canBeDeletedFromStack pv then delete_pv p j else j)
          in bind_res (deref (pointer_values j1 p)) (\<lambda>pv1.
               bind_res (if refCount pv1 \<noteq> 0 \<and> pv_ref pv1 = None then createNodeApiRef V p j1 else Inr j1) (\<lambda>j2.
                 bind_res (deref (pointer_values j2 p)) (\<lambda>pv2. Inr (set_pv p (pv2\<lparr>pv_value := None\<rparr>) j2))))))"

definition deleteNodeApiRef :: "nat \<Rightarrow> ('v, 'h, 'x) jsi_scheme \<Rightarrow> ('v, 'h, 'x) jsi_scheme res" where
  "deleteNodeApiRef p j =
     bind_res (deref (pointer_values j p)) (\<lambda>pv.
     bind_res (if pv_ref pv \<noteq> None
               then bind_res (CHECK_NAPI_ELSE_CRASH (napi_delete_reference (pv_ref pv)) j) (\<lambda>(_, j1).
                      Inr (set_pv p (pv\<lparr>pv_ref := None\<rparr>) j1))
               else Inr j) (\<lambda>j1.
     bind_res (deref (pointer_values j1 p)) (\<lambda>pv1.
       Inr (if pv_value pv1 \<noteq> None then set_pv p (pv1\<lparr>canBeDeletedFromStack := True\<rparr>) j1 else delete_pv p j1))))"

fun for_each :: "(nat \<Rightarrow> 's \<Rightarrow> 's res) \<Rightarrow> nat list \<Rightarrow> 's \<Rightarrow> 's res" where
  "for_each f [] j = Inr j"
| "for_each f (p # ps) j = bind_res (f p j) (for_each f ps)"

definition deletePointerValues :: "('v, 'h, 'x) jsi_scheme \<Rightarrow> ('v, 'h, 'x) jsi_scheme res" where
  "deletePointerValues j =
     (if pool j (poolSelector j) = [] then Inr j
      else let j1 = j\<lparr>poolSelector := poolSelector j XOR 1\<rparr>; old = poolSelector j1 XOR 1
           in bind_res (for_each deleteNodeApiRef (pool j1 old) j1) (\<lambda>j2.
                Inr (j2\<lparr>pool := (pool j2)(old := [])\<rparr>)))"

definition pushPointerValueScope :: "('v, 'h, 'x) jsi_scheme \<Rightarrow> ('v, 'h, 'x) jsi_scheme" where
  "pushPointerValueScope j = j\<lparr>stackScopes := stackScopes j @ [length (stackValues j)]\<rparr>"

definition popPointerValueScope :: "('v, 'h) v8 \<Rightarrow> ('v, 'h, 'x) jsi_scheme \<Rightarrow> ('v, 'h, 'x) jsi_scheme res" where
  "popPointerValueScope V j =
     check (stackScopes j \<noteq> []) CheckAbort
       (let newStackSize = last (stackScopes j); j1 = j\<lparr>stackScopes := butlast (stackScopes j)\<rparr>
        in bind_res (for_each (deleteStackValue V) (drop newStackSize (stackValues j1)) j1) (\<lambda>j2.
             deletePointerValues (j2\<lparr>stackValues := take newStackSize (stackValues j2)\<rparr>)))"

section \<open>The interface of references\<close>

text \<open>What a client relies on when it keeps references of its own: they are created fresh and deleted one by one.\<close>

definition owns :: "(nat \<Rightarrow> nat option) \<Rightarrow> nat set \<Rightarrow> bool" where
  "owns f A \<longleftrightarrow> (\<forall>p r. f p = Some r \<longrightarrow> r \<in> A) \<and> (\<forall>p q r. f p = Some r \<longrightarrow> f q = Some r \<longrightarrow> p = q)"

locale reference_cells =
  fixes alive :: "'e \<Rightarrow> nat set" and cell_inv :: "'e \<Rightarrow> bool"
    and creates :: "'e \<Rightarrow> nat \<Rightarrow> 'e \<Rightarrow> bool" and deletes :: "'e \<Rightarrow> nat \<Rightarrow> 'e \<Rightarrow> bool"
  assumes create_fresh: "cell_inv e \<Longrightarrow> creates e r e' \<Longrightarrow> cell_inv e' \<and> r \<notin> alive e \<and> alive e' = insert r (alive e)"
    and delete_one: "cell_inv e \<Longrightarrow> deletes e r e' \<Longrightarrow> cell_inv e' \<and> alive e' = alive e - {r}"
begin

lemma owns_create:
  assumes "owns f (alive e)" "cell_inv e" "creates e r e'"
  shows "owns (f(p \<mapsto> r)) (alive e')"
  using assms(1) create_fresh [OF assms(2,3)] unfolding owns_def by (auto split: if_splits)

lemma owns_delete:
  assumes "owns f (alive e)" "cell_inv e" "f p = Some r" "deletes e r e'"
  shows "owns (f(p := None)) (alive e')"
  using assms(1,3) delete_one [OF assms(2,4)] unfolding owns_def by (auto split: if_splits)

end

definition alive_refs :: "('v, 'h) napi_env \<Rightarrow> nat set" where
  "alive_refs e = {r. \<exists>ref. trackers e r = Some (TReference ref)}"

lemma alive_refs_clear [simp]: "alive_refs (napi_clear_last_error e) = alive_refs e"
  by (simp add: alive_refs_def napi_clear_last_error_def)

lemma create_reference_ok:
  assumes "napi_create_reference V (Some v) n True e = Inr (napi_ok, out, e')"
  shows "out = Some (next_tracker e) \<and> e' = napi_clear_last_error (snd (Reference_New V v n kUserland e))"
  using assms by (auto simp: napi_create_reference_def guard_defs check_def Reference_New_def new_tracker_def Let_def
      split: if_splits)

lemma delete_reference_ok:
  assumes "napi_delete_reference (Some r) e = Inr (napi_ok, out, e')"
  shows "\<exists>e1. delete_tracker r e = Inr e1 \<and> e' = napi_clear_last_error e1"
  using assms by (auto simp: napi_delete_reference_def guard_defs check_def res_simps split: if_splits)

interpretation napi: reference_cells alive_refs ref_inv
  "\<lambda>e r e'. \<exists>V v n. napi_create_reference V (Some v) n True e = Inr (napi_ok, Some r, e')"
  "\<lambda>e r e'. \<exists>out. napi_delete_reference (Some r) e = Inr (napi_ok, out, e')"
proof
  fix e r e'
  assume i: "ref_inv e" and "\<exists>V v n. napi_create_reference V (Some v) n True e = Inr (napi_ok, Some r, e')"
  then obtain V v n where "napi_create_reference V (Some v) n True e = Inr (napi_ok, Some r, e')" by blast
  from create_reference_ok [OF this]
  have "r = next_tracker e" "e' = napi_clear_last_error (snd (Reference_New V v n kUserland e))" by simp_all
  moreover have "ref_inv (snd (Reference_New V v n kUserland e))"
    using new_tracker_inv(1) [OF i] by (simp add: Reference_New_def new_tracker_def)
  ultimately show "ref_inv e' \<and> r \<notin> alive_refs e \<and> alive_refs e' = insert r (alive_refs e)"
    using ref_inv_fresh(1) [OF i]
    by (auto simp: Reference_New_def new_tracker_def LinkRef_def) (auto simp: alive_refs_def split: if_splits)
next
  fix e r e'
  assume i: "ref_inv e" and "\<exists>out. napi_delete_reference (Some r) e = Inr (napi_ok, out, e')"
  then obtain out where "napi_delete_reference (Some r) e = Inr (napi_ok, out, e')" by blast
  from delete_reference_ok [OF this] obtain e1 where e1: "delete_tracker r e = Inr e1" "e' = napi_clear_last_error e1"
    by blast
  then have "trackers e1 = (trackers e)(r := None)"
    by (auto simp: delete_tracker_def Let_def UnlinkTracker_def DequeueFinalizer_def res_simps)
  then show "ref_inv e' \<and> alive_refs e' = alive_refs e - {r}"
    using delete_tracker_inv [OF i e1(1)] e1(2) by simp (auto simp: alive_refs_def split: if_splits)
qed

section \<open>Calls keep references\<close>

definition keeps :: "('v, 'h) napi_env \<Rightarrow> ('v, 'h) napi_env \<Rightarrow> bool" where
  "keeps e e' \<longleftrightarrow> (ref_inv e \<longrightarrow> ref_inv e' \<and> alive_refs e \<subseteq> alive_refs e')"

definition keeps_api :: "('v, 'h, 'a) api \<Rightarrow> bool" where
  "keeps_api f \<longleftrightarrow> (\<forall>e st out e'. f e = Inr (st, out, e') \<longrightarrow> keeps e e')"

definition engine_keeps_refs :: "('v, 'h) v8 \<Rightarrow> bool" where
  "engine_keeps_refs V \<longleftrightarrow>
     (\<forall>p e m exc e1. vop V p e = Inr (m, exc, e1) \<longrightarrow> keeps e e1) \<and>
     (\<forall>p e m exc e1. bop V p e = Inr (m, exc, e1) \<longrightarrow> keeps e e1)"

lemma keeps_cong:
  "reflist e' = reflist e \<Longrightarrow> finalizing_reflist e' = finalizing_reflist e \<Longrightarrow>
    pending_finalizers e' = pending_finalizers e \<Longrightarrow> trackers e' = trackers e \<Longrightarrow>
    next_tracker e' = next_tracker e \<Longrightarrow> finalized e' = finalized e \<Longrightarrow> keeps e e'"
  using ref_inv_cong [of e' e] by (auto simp: keeps_def alive_refs_def)

lemma keeps_trans: "keeps a b \<Longrightarrow> keeps b c \<Longrightarrow> keeps a c"
  by (auto simp: keeps_def)

lemma keeps_updates [simp]:
  "keeps e (napi_clear_last_error e)" "keeps e (napi_set_last_error st e)" "keeps e (ThrowException x e)"
  "keeps e (e\<lparr>try_catch := c\<rparr>)" "keeps e (TryCatch_end c e)" "keeps e (e\<lparr>isolate := h\<rparr>)" "keeps e e"
  by (rule keeps_cong; auto simp: napi_clear_last_error_def napi_set_last_error_def ThrowException_def TryCatch_end_def
      split: option.splits)+

lemma keeps_apiD: "keeps_api f \<Longrightarrow> f e = Inr (st, out, e') \<Longrightarrow> keeps e e'"
  by (simp add: keeps_api_def)

lemma keeps_apiI: "(\<And>e st out e'. f e = Inr (st, out, e') \<Longrightarrow> keeps e e') \<Longrightarrow> keeps_api f"
  by (simp add: keeps_api_def)

named_theorems keeps_intros

lemma keeps_fail [keeps_intros]: "keeps_api (fail st)"
  by (auto simp: keeps_api_def fail_def)

lemma keeps_succeed [keeps_intros]: "keeps_api (succeed out)"
  by (auto simp: keeps_api_def succeed_def)

lemma keeps_GET_RETURN_STATUS [keeps_intros]: "keeps_api (GET_RETURN_STATUS out)"
  by (auto simp: keeps_api_def GET_RETURN_STATUS_def)

lemma keeps_RETURN_STATUS [keeps_intros]: "keeps_api k \<Longrightarrow> keeps_api (RETURN_STATUS_IF_FALSE b st k)"
  by (auto simp: keeps_api_def RETURN_STATUS_IF_FALSE_def fail_def)

lemma keeps_RETURN_STATUS_WITH_PREAMBLE [keeps_intros]: "keeps_api k \<Longrightarrow> keeps_api (RETURN_STATUS_IF_FALSE_WITH_PREAMBLE b st k)"
  by (auto simp: keeps_api_def RETURN_STATUS_IF_FALSE_WITH_PREAMBLE_def fail_def)

lemma keeps_CHECK_OUT [keeps_intros]: "keeps_api k \<Longrightarrow> keeps_api (CHECK_OUT b k)"
  unfolding CHECK_OUT_def by (rule keeps_RETURN_STATUS)

lemma keeps_CHECK_ARG [keeps_intros]: "(\<And>x. keeps_api (k x)) \<Longrightarrow> keeps_api (CHECK_ARG a k)"
  by (cases a) (auto intro: keeps_fail)

lemma keeps_CHECK_MAYBE [keeps_intros]: "(\<And>x. keeps_api (k x)) \<Longrightarrow> keeps_api (CHECK_MAYBE a st k)"
  by (cases a) (auto intro: keeps_fail)

lemma keeps_CHECK_MAYBE_WITH_PREAMBLE [keeps_intros]: "(\<And>x. keeps_api (k x)) \<Longrightarrow> keeps_api (CHECK_MAYBE_WITH_PREAMBLE a st k)"
  by (cases a) (auto simp: keeps_api_def CHECK_MAYBE_WITH_PREAMBLE_def fail_def)

lemma keeps_CHECK_ENV_NOT_IN_GC [keeps_intros]: "keeps_api k \<Longrightarrow> keeps_api (CHECK_ENV_NOT_IN_GC k)"
  by (auto simp: keeps_api_def CHECK_ENV_NOT_IN_GC_def res_simps)

lemma keeps_js_end:
  assumes "\<And>m exc e1. r = Inr (m, exc, e1) \<Longrightarrow> keeps e e1" "\<And>m. keeps_api (k m)" "js_end r k = Inr (st, out, e')"
  shows "keeps e e'"
proof -
  obtain m exc e1 where r: "r = Inr (m, exc, e1)" using assms(3) by (auto simp: js_end_def res_simps)
  have "keeps e (case exc of None \<Rightarrow> e1 | Some x \<Rightarrow> ThrowException x e1)"
    using keeps_trans [OF assms(1) [OF r]] assms(1) [OF r] by (auto split: option.splits)
  moreover have "keeps (case exc of None \<Rightarrow> e1 | Some x \<Rightarrow> ThrowException x e1) e'"
    using assms(2,3) r unfolding keeps_api_def js_end_def by (auto simp: res_simps)
  ultimately show ?thesis by (rule keeps_trans)
qed

lemma engine_keepsD:
  assumes "engine_keeps_refs V"
  shows "vop V p e = Inr (m, exc, e1) \<Longrightarrow> keeps e e1" "bop V q e = Inr (b, exc, e1) \<Longrightarrow> keeps e e1"
  using assms unfolding engine_keeps_refs_def by blast+

lemma keeps_jsv [keeps_intros]: "engine_keeps_refs V \<Longrightarrow> (\<And>m. keeps_api (k m)) \<Longrightarrow> keeps_api (jsv V p k)"
  unfolding keeps_api_def [of "jsv V p k"] jsv_def by (intro allI impI, rule keeps_js_end) (rule engine_keepsD(1))

lemma keeps_jsb [keeps_intros]: "engine_keeps_refs V \<Longrightarrow> (\<And>m. keeps_api (k m)) \<Longrightarrow> keeps_api (jsb V p k)"
  unfolding keeps_api_def [of "jsb V p k"] jsb_def by (intro allI impI, rule keeps_js_end) (rule engine_keepsD(2))

lemma keeps_then: "keeps_api k \<Longrightarrow> (\<And>e. keeps e (g e)) \<Longrightarrow> keeps_api (\<lambda>e. k (g e))"
  unfolding keeps_api_def by (meson keeps_trans)

lemma keeps_dep: "(\<And>x. keeps_api (k x)) \<Longrightarrow> keeps_api (\<lambda>e. k (g e) e)"
  unfolding keeps_api_def by blast

lemma keeps_alloc [keeps_intros]: "(\<And>v. keeps_api (k v)) \<Longrightarrow> keeps_api (alloc V p k)"
  unfolding keeps_api_def [of "alloc V p k"] alloc_def
proof (intro allI impI)
  fix e st out e'
  assume k: "\<And>v. keeps_api (k v)" and "(case new V p (isolate e) of (v, h) \<Rightarrow> k v (e\<lparr>isolate := h\<rparr>)) = Inr (st, out, e')"
  then obtain v h where "k v (e\<lparr>isolate := h\<rparr>) = Inr (st, out, e')" by (auto split: prod.splits)
  then have "keeps (e\<lparr>isolate := h\<rparr>) e'" using k unfolding keeps_api_def by blast
  then show "keeps e e'" by (rule keeps_trans [OF keeps_updates(6)])
qed

lemma keeps_with_TryCatch [keeps_intros]: "keeps_api body \<Longrightarrow> keeps_api (with_TryCatch body)"
  unfolding keeps_api_def [of "with_TryCatch body"] with_TryCatch_def
proof (clarsimp simp: res_simps)
  fix e st out e1
  assume "keeps_api body" "body (e\<lparr>try_catch := Some None\<rparr>) = Inr (st, out, e1)"
  then have "keeps (e\<lparr>try_catch := Some None\<rparr>) e1" unfolding keeps_api_def by blast
  then show "keeps e (TryCatch_end (try_catch e) e1)" 
    by (rule keeps_trans [OF keeps_updates(4) keeps_trans [OF _ keeps_updates(5)]])
qed

lemma keeps_RETURN_STATUS_dep: "keeps_api k \<Longrightarrow> keeps_api (\<lambda>e. RETURN_STATUS_IF_FALSE (b e) (st e) k e)"
proof (rule keeps_apiI)
  fix e s out e'
  assume "keeps_api k" "RETURN_STATUS_IF_FALSE (b e) (st e) k e = Inr (s, out, e')"
  then show "keeps e e'" by (cases "b e") (auto dest: keeps_apiD simp: fail_def)
qed

lemma keeps_NAPI_PREAMBLE [keeps_intros]:
  assumes "keeps_api body"
  shows "keeps_api (NAPI_PREAMBLE body)"
proof -
  have "keeps_api (\<lambda>e. with_TryCatch body (napi_clear_last_error e))"
    using assms by (rule keeps_then [OF keeps_with_TryCatch]) simp
  then show ?thesis unfolding NAPI_PREAMBLE_def by (intro keeps_CHECK_ENV_NOT_IN_GC keeps_RETURN_STATUS_dep)
qed

lemma keeps_named_property:
  assumes "engine_keeps_refs V"
  shows "keeps_api (napi_set_named_property V obj name v)" "keeps_api (napi_get_named_property V obj name r)"
    "keeps_api (napi_create_object V r)"
proof -
  show "keeps_api (napi_set_named_property V obj name v)"
    unfolding napi_set_named_property_def CHECK_TO_OBJECT_def CHECK_NEW_FROM_UTF8_def CHECK_NEW_FROM_UTF8_LEN_def
    by (rule keeps_intros assms)+
  show "keeps_api (napi_get_named_property V obj name r)"
    unfolding napi_get_named_property_def CHECK_TO_OBJECT_def CHECK_NEW_FROM_UTF8_def CHECK_NEW_FROM_UTF8_LEN_def
    by (rule keeps_intros assms)+
  show "keeps_api (napi_create_object V r)"
    unfolding napi_create_object_def by (rule keeps_intros)+
qed

end
