(* ===== verification/Jsi_Calls.thy ===== *)
theory Jsi_Calls
  imports Jsi_Pointers Jsi_Keys Napi_Api
begin

text \<open>
  Calls of the Node-API from the JSI runtime (\<^verbatim>\<open>src/src/node-api-jsi/NodeApiJsiRuntime.cpp\<close>): the runtime
  object, C++ exceptions, the translation of JavaScript exceptions, the helpers that wrap one Node-API
  function each, the conversion between \<^verbatim>\<open>jsi::Value\<close> and \<^verbatim>\<open>napi_value\<close>, and the scopes.

  A method of the runtime is a function on its state which yields a value or a C++ exception together with the new
  state, or a fault where the process crashes. An exception that leaves a \<open>noexcept\<close> function is the fault
  \<open>CxxException\<close>.
\<close>

section \<open>State\<close>

text \<open>A \<^verbatim>\<open>jsi::Pointer\<close> holds a counted pointer value or one that lives on the C++ stack.\<close>

datatype 'v jsi_pointer = Counted nat | StackOnly 'v NodeApiPointerValueKind

datatype 'v jsi_value =
    JUndefined | JNull | JBool bool | JNumber u64
  | JSymbol "'v jsi_pointer" | JBigInt "'v jsi_pointer" | JString "'v jsi_pointer" | JObject "'v jsi_pointer"

text \<open>\<^verbatim>\<open>jsi::JSError\<close> with its value and text, any other \<^verbatim>\<open>std::exception\<close>, and the rest.\<close>

datatype 'v jsi_exception = JSError "'v jsi_value" string | StdException string | OtherException

text \<open>\<^verbatim>\<open>what()\<close> is a C string.\<close>

primrec what :: "'v jsi_exception \<Rightarrow> string" where
  "what (JSError v w) = c_string w"
| "what (StdException w) = c_string w"
| "what OtherException = []"

datatype PropertyId =
    IdError | IdObject | IdProxy | IdSymbol | IdByteLength | IdConfigurable | IdEnumerable | IdGet
  | IdGetOwnPropertyDescriptor | IdHas | IdHostFunctionSymbol | IdHostObjectSymbol | IdLength | IdMessage
  | IdOwnKeys | IdPropertyIsEnumerable | IdPrototype | IdSet | IdStack | IdToString | IdValue | IdWritable

datatype CachedValue = CachedError | CachedGlobal | CachedHostObjectProxyHandler | CachedProxyConstructor | CachedSymbolToString

record ('v, 'h) jsi_rt = "('v, 'h) jsi" +
  sourceURL :: "u8 list"
  propertyId :: "PropertyId \<Rightarrow> nat option"
  cachedValue :: "CachedValue \<Rightarrow> nat option"
  hasPendingJSError :: bool
  propNameIDs :: "u8 list \<Rightarrow> nat option"
  utf16PropNameIDs :: "u16 list \<Rightarrow> nat option"

type_synonym ('v, 'h, 'a) jsi_m = "('v, 'h) jsi_rt \<Rightarrow> (('v jsi_exception + 'a) \<times> ('v, 'h) jsi_rt) res"

text \<open>
  What the runtime is built on: the engine; \<open>reenter\<close>, the state after a call that ran JavaScript (host functions
  called from there use the same runtime object), given the state before and the environment it left; \<open>js_error\<close>,
  the constructor of \<^verbatim>\<open>jsi::JSError\<close> in the JSI library, which reads the message of a value through
  the runtime; and \<open>on_error\<close>, the function that \<open>CHECK_NAPI\<close> calls.
\<close>

record ('v, 'h) jsi_ctx =
  engine :: "('v, 'h) v8"
  reenter :: "('v, 'h) jsi_rt \<Rightarrow> ('v, 'h) napi_env \<Rightarrow> ('v, 'h) jsi_rt"
  js_error :: "'v jsi_value \<Rightarrow> ('v, 'h, string) jsi_m"
  on_error :: "napi_status \<Rightarrow> ('v, 'h) jsi_rt \<Rightarrow> ('v jsi_exception \<times> ('v, 'h) jsi_rt) res"

section \<open>Control flow\<close>

definition return :: "'a \<Rightarrow> ('v, 'h, 'a) jsi_m" where
  "return x j = Inr (Inr x, j)"

definition throw :: "'v jsi_exception \<Rightarrow> ('v, 'h, 'a) jsi_m" where
  "throw x j = Inr (Inl x, j)"

definition bindm :: "('v, 'h, 'a) jsi_m \<Rightarrow> ('a \<Rightarrow> ('v, 'h, 'b) jsi_m) \<Rightarrow> ('v, 'h, 'b) jsi_m" where
  "bindm m k j =
     bind_res (m j) (\<lambda>(r, j1). case r of Inl x \<Rightarrow> Inr (Inl x, j1) | Inr a \<Rightarrow> k a j1)"

definition handle :: "('v, 'h, 'a) jsi_m \<Rightarrow> ('v jsi_exception \<Rightarrow> ('v, 'h, 'a) jsi_m) \<Rightarrow> ('v, 'h, 'a) jsi_m" where
  "handle m h j =
     bind_res (m j) (\<lambda>(r, j1). case r of Inl x \<Rightarrow> h x j1 | Inr a \<Rightarrow> Inr (Inr a, j1))"

text \<open>A \<open>noexcept\<close> function.\<close>

definition noexcept :: "('v, 'h, 'a) jsi_m \<Rightarrow> ('v, 'h, 'a) jsi_m" where
  "noexcept m j =
     bind_res (m j) (\<lambda>(r, j1). case r of Inl x \<Rightarrow> Inl CxxException | Inr a \<Rightarrow> Inr (Inr a, j1))"

text \<open>A destructor that runs however the block is left.\<close>

definition finally_do :: "('v, 'h, 'a) jsi_m \<Rightarrow> ('v, 'h, unit) jsi_m \<Rightarrow> ('v, 'h, 'a) jsi_m" where
  "finally_do m d j =
     bind_res (m j) (\<lambda>(r, j1). bind_res (noexcept d j1) (\<lambda>(_, j2). Inr (r, j2)))"

definition gets :: "(('v, 'h) jsi_rt \<Rightarrow> 'a) \<Rightarrow> ('v, 'h, 'a) jsi_m" where
  "gets f j = Inr (Inr (f j), j)"

definition modify :: "(('v, 'h) jsi_rt \<Rightarrow> ('v, 'h) jsi_rt) \<Rightarrow> ('v, 'h, unit) jsi_m" where
  "modify f j = Inr (Inr (), f j)"

text \<open>Operations of the pointer values, which do not throw.\<close>

definition pure_op :: "(('v, 'h) jsi_rt \<Rightarrow> ('a \<times> ('v, 'h) jsi_rt) res) \<Rightarrow> ('v, 'h, 'a) jsi_m" where
  "pure_op f j = bind_res (f j) (\<lambda>(x, j1). Inr (Inr x, j1))"

definition pure_upd :: "(('v, 'h) jsi_rt \<Rightarrow> ('v, 'h) jsi_rt res) \<Rightarrow> ('v, 'h, unit) jsi_m" where
  "pure_upd f j = bind_res (f j) (\<lambda>j1. Inr (Inr (), j1))"

definition deref_m :: "'a option \<Rightarrow> ('v, 'h, 'a) jsi_m" where
  "deref_m m j = bind_res (deref m) (\<lambda>x. Inr (Inr x, j))"

section \<open>Calls of the Node-API\<close>

text \<open>A call that runs no JavaScript, and one that may.\<close>

definition call_napi :: "('v, 'h, 'a) api \<Rightarrow> ('v, 'h, napi_status \<times> 'a option) jsi_m" where
  "call_napi f j = bind_res (f (jsi_env j)) (\<lambda>(st, out, e). Inr (Inr (st, out), j\<lparr>jsi_env := e\<rparr>))"

definition call_js :: "('v, 'h) jsi_ctx \<Rightarrow> ('v, 'h, 'a) api \<Rightarrow> ('v, 'h, napi_status \<times> 'a option) jsi_m" where
  "call_js C f j = bind_res (f (jsi_env j)) (\<lambda>(st, out, e). Inr (Inr (st, out), reenter C j e))"

definition CHECK_NAPI :: "('v, 'h) jsi_ctx \<Rightarrow> ('v, 'h, napi_status \<times> 'a option) jsi_m \<Rightarrow> ('v, 'h, 'a option) jsi_m" where
  "CHECK_NAPI C call =
     bindm call (\<lambda>(st, out).
       if st \<noteq> napi_ok then (\<lambda>j. bind_res (on_error C st j) (\<lambda>(x, j1). Inr (Inl x, j1))) else return out)"

text \<open>A local that keeps its initial value unless the call stored something.\<close>

definition into :: "'a \<Rightarrow> ('v, 'h, 'a option) jsi_m \<Rightarrow> ('v, 'h, 'a) jsi_m" where
  "into initial m = bindm m (\<lambda>out. return (case out of None \<Rightarrow> initial | Some x \<Rightarrow> x))"

definition throwNativeException :: "string \<Rightarrow> ('v, 'h, 'a) jsi_m" where
  "throwNativeException msg = throw (StdException msg)"

definition CHECK_ELSE_THROW :: "bool \<Rightarrow> string \<Rightarrow> ('v, 'h, unit) jsi_m" where
  "CHECK_ELSE_THROW b msg = (if b then return () else throwNativeException msg)"

section \<open>Helpers that wrap one function\<close>

definition typeOf :: "('v, 'h) jsi_ctx \<Rightarrow> 'v option \<Rightarrow> ('v, 'h, napi_valuetype) jsi_m" where
  "typeOf C value = into napi_undefined (CHECK_NAPI C (call_napi (napi_typeof (engine C) value True)))"

definition strictEquals :: "('v, 'h) jsi_ctx \<Rightarrow> 'v option \<Rightarrow> 'v option \<Rightarrow> ('v, 'h, bool) jsi_m" where
  "strictEquals C left right = into False (CHECK_NAPI C (call_napi (napi_strict_equals (engine C) left right True)))"

definition getUndefined :: "('v, 'h) jsi_ctx \<Rightarrow> ('v, 'h, 'v option) jsi_m" where
  "getUndefined C = CHECK_NAPI C (call_napi (napi_get_undefined (engine C) True))"

definition getNull :: "('v, 'h) jsi_ctx \<Rightarrow> ('v, 'h, 'v option) jsi_m" where
  "getNull C = CHECK_NAPI C (call_napi (napi_get_null (engine C) True))"

definition getGlobal :: "('v, 'h) jsi_ctx \<Rightarrow> ('v, 'h, 'v option) jsi_m" where
  "getGlobal C = CHECK_NAPI C (call_napi (napi_get_global (engine C) True))"

definition getBoolean :: "('v, 'h) jsi_ctx \<Rightarrow> bool \<Rightarrow> ('v, 'h, 'v option) jsi_m" where
  "getBoolean C value = CHECK_NAPI C (call_napi (napi_get_boolean (engine C) value True))"

definition getValueBool :: "('v, 'h) jsi_ctx \<Rightarrow> 'v option \<Rightarrow> ('v, 'h, bool) jsi_m" where
  "getValueBool C value = into False (CHECK_NAPI C (call_napi (napi_get_value_bool (engine C) value True)))"

definition createInt32 :: "('v, 'h) jsi_ctx \<Rightarrow> 32 word \<Rightarrow> ('v, 'h, 'v option) jsi_m" where
  "createInt32 C value = CHECK_NAPI C (call_napi (napi_create_int32 (engine C) value True))"

definition createUInt32 :: "('v, 'h) jsi_ctx \<Rightarrow> 32 word \<Rightarrow> ('v, 'h, 'v option) jsi_m" where
  "createUInt32 C value = CHECK_NAPI C (call_napi (napi_create_uint32 (engine C) value True))"

definition createDouble :: "('v, 'h) jsi_ctx \<Rightarrow> u64 \<Rightarrow> ('v, 'h, 'v option) jsi_m" where
  "createDouble C value = CHECK_NAPI C (call_napi (napi_create_double (engine C) value True))"

definition getValueDouble :: "('v, 'h) jsi_ctx \<Rightarrow> 'v option \<Rightarrow> ('v, 'h, u64) jsi_m" where
  "getValueDouble C value = into 0 (CHECK_NAPI C (call_napi (napi_get_value_double (engine C) value True)))"

text \<open>A string view is its characters, or \<open>None\<close> when its data pointer is null.\<close>

definition view_size :: "'c list option \<Rightarrow> nat" where
  "view_size v = (case v of None \<Rightarrow> 0 | Some s \<Rightarrow> length s)"

definition null_string_text :: string where
  "null_string_text = ''Cannot convert a nullptr to a JS string.''"

definition createStringLatin1 :: "('v, 'h) jsi_ctx \<Rightarrow> u8 list option \<Rightarrow> ('v, 'h, 'v option) jsi_m" where
  "createStringLatin1 C value =
     bindm (CHECK_ELSE_THROW (value \<noteq> None) null_string_text) (\<lambda>_.
       CHECK_NAPI C (call_napi (napi_create_string_latin1 (engine C) value (view_size value) True)))"

definition createStringUtf8 :: "('v, 'h) jsi_ctx \<Rightarrow> u8 list option \<Rightarrow> ('v, 'h, 'v option) jsi_m" where
  "createStringUtf8 C value =
     bindm (CHECK_ELSE_THROW (value \<noteq> None) null_string_text) (\<lambda>_.
       CHECK_NAPI C (call_napi (napi_create_string_utf8 (engine C) value (view_size value) True)))"

definition createStringUtf16 :: "('v, 'h) jsi_ctx \<Rightarrow> u16 list option \<Rightarrow> ('v, 'h, 'v option) jsi_m" where
  "createStringUtf16 C value =
     bindm (CHECK_ELSE_THROW (value \<noteq> None) null_string_text) (\<lambda>_.
       CHECK_NAPI C (call_napi (napi_create_string_utf16 (engine C) value (view_size value) True)))"

text \<open>
  The two instances of \<open>stringToStdBasicString\<close>: ask for the length, fill a string of that length with zeros,
  let the function write into it (with one more unit for the terminator), compare the lengths.
\<close>

definition string_to_std :: "('v, 'h) jsi_ctx \<Rightarrow> (bool \<Rightarrow> nat \<Rightarrow> bool \<Rightarrow> ('v, 'h, u16 list \<times> nat option) api) \<Rightarrow> string \<Rightarrow>
    'v option \<Rightarrow> ('v, 'h, u16 list) jsi_m" where
  "string_to_std C get msg stringValue =
     bindm (typeOf C stringValue) (\<lambda>t.
     bindm (CHECK_ELSE_THROW (t = napi_string) msg) (\<lambda>_.
     bindm (into ([], Some 0) (CHECK_NAPI C (call_napi (get False 0 True)))) (\<lambda>(_, strLength).
       let n = (case strLength of None \<Rightarrow> 0 | Some n \<Rightarrow> n) in
     bindm (into ([], Some 0) (CHECK_NAPI C (call_napi (get True (n + 1) True)))) (\<lambda>(units, copiedLength).
       let copied = (case copiedLength of None \<Rightarrow> 0 | Some n \<Rightarrow> n) in
     bindm (CHECK_ELSE_THROW (n = copied) ''Unexpected string length'') (\<lambda>_.
       return (take n (units @ replicate n 0)))))))"

definition stringToStdBasicString_char :: "('v, 'h) jsi_ctx \<Rightarrow> 'v option \<Rightarrow> ('v, 'h, u8 list) jsi_m" where
  "stringToStdBasicString_char C stringValue =
     bindm (string_to_std C (napi_get_value_string_utf8 (engine C) stringValue)
       ''Cannot convert a non JS string Node-API Value to a std::string.'' stringValue) (\<lambda>units. return (map ucast units))"

definition stringToStdBasicString_char16 :: "('v, 'h) jsi_ctx \<Rightarrow> 'v option \<Rightarrow> ('v, 'h, u16 list) jsi_m" where
  "stringToStdBasicString_char16 C stringValue =
     string_to_std C (napi_get_value_string_utf16 (engine C) stringValue)
       ''Cannot convert a non JS string Node-API Value to a std::u16string.'' stringValue"

definition getPropertyIdFromName :: "('v, 'h) jsi_ctx \<Rightarrow> u8 list \<Rightarrow> ('v, 'h, 'v option) jsi_m" where
  "getPropertyIdFromName C value =
     CHECK_NAPI C (call_napi (napi_create_string_utf8 (engine C) (Some value) (length value) True))"

definition createSymbol :: "('v, 'h) jsi_ctx \<Rightarrow> u8 list \<Rightarrow> ('v, 'h, 'v option) jsi_m" where
  "createSymbol C symbolDescription =
     bindm (createStringUtf8 C (Some symbolDescription)) (\<lambda>description.
       CHECK_NAPI C (call_napi (napi_create_symbol (engine C) description True)))"

text \<open>An array of values; a null value among them is dereferenced by the engine.\<close>

definition callFunction :: "('v, 'h) jsi_ctx \<Rightarrow> 'v option \<Rightarrow> 'v option \<Rightarrow> 'v option list \<Rightarrow> ('v, 'h, 'v option) jsi_m" where
  "callFunction C thisArg function args =
     bindm (deref_m (those args)) (\<lambda>argv.
       CHECK_NAPI C (call_js C (napi_call_function (engine C) thisArg function (length argv) (Some argv) True)))"

definition constructObject :: "('v, 'h) jsi_ctx \<Rightarrow> 'v option \<Rightarrow> 'v option list \<Rightarrow> ('v, 'h, 'v option) jsi_m" where
  "constructObject C constructor args =
     bindm (deref_m (those args)) (\<lambda>argv.
       CHECK_NAPI C (call_js C (napi_new_instance (engine C) constructor (length argv) (Some argv) True)))"

definition instanceOf :: "('v, 'h) jsi_ctx \<Rightarrow> 'v option \<Rightarrow> 'v option \<Rightarrow> ('v, 'h, bool) jsi_m" where
  "instanceOf C object constructor =
     into False (CHECK_NAPI C (call_js C (napi_instanceof (engine C) object constructor True)))"

definition createNodeApiObject :: "('v, 'h) jsi_ctx \<Rightarrow> ('v, 'h, 'v option) jsi_m" where
  "createNodeApiObject C = CHECK_NAPI C (call_napi (napi_create_object (engine C) True))"

definition hasProperty :: "('v, 'h) jsi_ctx \<Rightarrow> 'v option \<Rightarrow> 'v option \<Rightarrow> ('v, 'h, bool) jsi_m" where
  "hasProperty C object propId =
     into False (CHECK_NAPI C (call_js C (napi_has_property (engine C) object propId True)))"

definition getProperty :: "('v, 'h) jsi_ctx \<Rightarrow> 'v option \<Rightarrow> 'v option \<Rightarrow> ('v, 'h, 'v option) jsi_m" where
  "getProperty C object propId = CHECK_NAPI C (call_js C (napi_get_property (engine C) object propId True))"

definition setProperty :: "('v, 'h) jsi_ctx \<Rightarrow> 'v option \<Rightarrow> 'v option \<Rightarrow> 'v option \<Rightarrow> ('v, 'h, unit) jsi_m" where
  "setProperty C object propId value =
     bindm (CHECK_NAPI C (call_js C (napi_set_property (engine C) object propId value))) (\<lambda>_. return ())"

definition value_descriptor :: "'v option \<Rightarrow> 'v \<Rightarrow> u32 \<Rightarrow> 'v napi_property_descriptor" where
  "value_descriptor name value attrs =
     \<lparr>utf8name = None, pd_name = name, pd_method = None, pd_getter = None, pd_setter = None,
      pd_value = value, attributes = attrs, pd_data = 0\<rparr>"

definition setProperty_attrs :: "('v, 'h) jsi_ctx \<Rightarrow> 'v option \<Rightarrow> 'v option \<Rightarrow> 'v option \<Rightarrow> u32 \<Rightarrow> ('v, 'h, unit) jsi_m" where
  "setProperty_attrs C object propId value attrs =
     bindm (deref_m value) (\<lambda>v.
     bindm (CHECK_NAPI C (call_js C (napi_define_properties (engine C) object 1 (Some [value_descriptor propId v attrs]))))
       (\<lambda>_. return ()))"

definition createNodeApiArray :: "('v, 'h) jsi_ctx \<Rightarrow> nat \<Rightarrow> ('v, 'h, 'v option) jsi_m" where
  "createNodeApiArray C len = CHECK_NAPI C (call_napi (napi_create_array_with_length (engine C) len True))"

definition isArray :: "('v, 'h) jsi_ctx \<Rightarrow> 'v option \<Rightarrow> ('v, 'h, bool) jsi_m" where
  "isArray C value = into False (CHECK_NAPI C (call_napi (napi_is_array (engine C) value True)))"

definition getArrayLength :: "('v, 'h) jsi_ctx \<Rightarrow> 'v option \<Rightarrow> ('v, 'h, nat) jsi_m" where
  "getArrayLength C value = into 0 (CHECK_NAPI C (call_napi (napi_get_array_length (engine C) value True)))"

definition getElement :: "('v, 'h) jsi_ctx \<Rightarrow> 'v option \<Rightarrow> nat \<Rightarrow> ('v, 'h, 'v option) jsi_m" where
  "getElement C arr index = CHECK_NAPI C (call_js C (napi_get_element (engine C) arr (word_of_nat index) True))"

definition setElement :: "('v, 'h) jsi_ctx \<Rightarrow> 'v option \<Rightarrow> u32 \<Rightarrow> 'v option \<Rightarrow> ('v, 'h, unit) jsi_m" where
  "setElement C array index value =
     bindm (CHECK_NAPI C (call_js C (napi_set_element (engine C) array index value))) (\<lambda>_. return ())"

definition createExternalObject :: "('v, 'h) jsi_ctx \<Rightarrow> ptr \<Rightarrow> ptr option \<Rightarrow> ('v, 'h, 'v option) jsi_m" where
  "createExternalObject C data finalizeCallback =
     CHECK_NAPI C (call_napi (napi_create_external (engine C) data finalizeCallback 0 True))"

definition getExternalData :: "('v, 'h) jsi_ctx \<Rightarrow> 'v option \<Rightarrow> ('v, 'h, ptr) jsi_m" where
  "getExternalData C object = into 0 (CHECK_NAPI C (call_napi (napi_get_value_external (engine C) object True)))"

section \<open>Pointers and values\<close>

text \<open>\<open>NodeApiStackOnlyPointerValue\<close>: a clone is a counted pointer.\<close>

definition pointer_clone :: "'v jsi_pointer \<Rightarrow> ('v, 'h) jsi_rt \<Rightarrow> ('v jsi_pointer \<times> ('v, 'h) jsi_rt) res" where
  "pointer_clone p j =
     (case p of
        Counted i \<Rightarrow> bind_res (clone i j) (\<lambda>j1. Inr (Counted i, j1))
      | StackOnly value kind \<Rightarrow> (case Jsi_Pointers.make value kind 1 j of (i, j1) \<Rightarrow> Inr (Counted i, j1)))"

definition pointer_getValue :: "('v, 'h) v8 \<Rightarrow> 'v jsi_pointer \<Rightarrow> ('v, 'h) jsi_rt \<Rightarrow> ('v option \<times> ('v, 'h) jsi_rt) res" where
  "pointer_getValue V p j =
     (case p of Counted i \<Rightarrow> getValue V i j | StackOnly value kind \<Rightarrow> Inr (Some value, j))"

definition pointer_invalidate :: "'v jsi_pointer \<Rightarrow> ('v, 'h) jsi_rt \<Rightarrow> ('v, 'h) jsi_rt res" where
  "pointer_invalidate p j = (case p of Counted i \<Rightarrow> invalidate i j | StackOnly value kind \<Rightarrow> Inr j)"

text \<open>\<open>makeJsiPointer\<close>, and \<open>makeNodeApiRef\<close> of the runtime for its own pointers.\<close>

definition makeJsiPointer :: "NodeApiPointerValueKind \<Rightarrow> 'v option \<Rightarrow> ('v, 'h, 'v jsi_pointer) jsi_m" where
  "makeJsiPointer kind value =
     bindm (deref_m value) (\<lambda>v. pure_op (\<lambda>j. case Jsi_Pointers.make v kind 1 j of (i, j1) \<Rightarrow> Inr (Counted i, j1)))"

definition runtime_makeNodeApiRef :: "'v option \<Rightarrow> NodeApiPointerValueKind \<Rightarrow> int \<Rightarrow> ('v, 'h, nat) jsi_m" where
  "runtime_makeNodeApiRef value kind initialRefCount =
     bindm (deref_m value) (\<lambda>v. pure_op (\<lambda>j. Inr (Jsi_Pointers.make v kind initialRefCount j)))"

definition getNodeApiValue_pointer :: "('v, 'h) jsi_ctx \<Rightarrow> 'v jsi_pointer \<Rightarrow> ('v, 'h, 'v option) jsi_m" where
  "getNodeApiValue_pointer C p = pure_op (pointer_getValue (engine C) p)"

definition getNodeApiValue_ref :: "('v, 'h) jsi_ctx \<Rightarrow> nat option \<Rightarrow> ('v, 'h, 'v option) jsi_m" where
  "getNodeApiValue_ref C ref = bindm (deref_m ref) (\<lambda>i. pure_op (getValue (engine C) i))"

definition property :: "('v, 'h) jsi_ctx \<Rightarrow> PropertyId \<Rightarrow> ('v, 'h, 'v option) jsi_m" where
  "property C i = bindm (gets (\<lambda>j. propertyId j i)) (getNodeApiValue_ref C)"

definition cached :: "('v, 'h) jsi_ctx \<Rightarrow> CachedValue \<Rightarrow> ('v, 'h, 'v option) jsi_m" where
  "cached C i = bindm (gets (\<lambda>j. cachedValue j i)) (getNodeApiValue_ref C)"

text \<open>The getters of a \<^verbatim>\<open>jsi::Value\<close> clone its pointer; the clone is released after the value has been read.\<close>

definition through_clone :: "('v, 'h) jsi_ctx \<Rightarrow> 'v jsi_pointer \<Rightarrow> ('v, 'h, 'v option) jsi_m" where
  "through_clone C p =
     bindm (pure_op (pointer_clone p)) (\<lambda>q.
     bindm (getNodeApiValue_pointer C q) (\<lambda>v.
     bindm (pure_upd (pointer_invalidate q)) (\<lambda>_. return v)))"

primrec getNodeApiValue :: "('v, 'h) jsi_ctx \<Rightarrow> 'v jsi_value \<Rightarrow> ('v, 'h, 'v option) jsi_m" where
  "getNodeApiValue C JUndefined = getUndefined C"
| "getNodeApiValue C JNull = getNull C"
| "getNodeApiValue C (JBool b) = getBoolean C b"
| "getNodeApiValue C (JNumber n) = createDouble C n"
| "getNodeApiValue C (JSymbol p) = through_clone C p"
| "getNodeApiValue C (JBigInt p) = through_clone C p"
| "getNodeApiValue C (JString p) = through_clone C p"
| "getNodeApiValue C (JObject p) = through_clone C p"

definition toJsiValue :: "('v, 'h) jsi_ctx \<Rightarrow> 'v option \<Rightarrow> ('v, 'h, 'v jsi_value) jsi_m" where
  "toJsiValue C value =
     bindm (typeOf C value) (\<lambda>t.
       case t of
         napi_undefined \<Rightarrow> return JUndefined
       | napi_null \<Rightarrow> return JNull
       | napi_boolean \<Rightarrow> bindm (getValueBool C value) (\<lambda>b. return (JBool b))
       | napi_number \<Rightarrow> bindm (getValueDouble C value) (\<lambda>n. return (JNumber n))
       | napi_string \<Rightarrow> bindm (makeJsiPointer KString value) (\<lambda>p. return (JString p))
       | napi_symbol \<Rightarrow> bindm (makeJsiPointer KSymbol value) (\<lambda>p. return (JSymbol p))
       | napi_object \<Rightarrow> bindm (makeJsiPointer KObject value) (\<lambda>p. return (JObject p))
       | napi_function \<Rightarrow> bindm (makeJsiPointer KObject value) (\<lambda>p. return (JObject p))
       | napi_external \<Rightarrow> bindm (makeJsiPointer KObject value) (\<lambda>p. return (JObject p))
       | napi_bigint \<Rightarrow> bindm (makeJsiPointer KBigInt value) (\<lambda>p. return (JBigInt p)))"

text \<open>\<open>JsiValueView::initValue\<close>: the same with pointers on the C++ stack.\<close>

definition stack_pointer :: "'v option \<Rightarrow> NodeApiPointerValueKind \<Rightarrow> ('v, 'h, 'v jsi_pointer) jsi_m" where
  "stack_pointer value kind = bindm (deref_m value) (\<lambda>v. return (StackOnly v kind))"

definition initValue :: "('v, 'h) jsi_ctx \<Rightarrow> 'v option \<Rightarrow> ('v, 'h, 'v jsi_value) jsi_m" where
  "initValue C value =
     bindm (typeOf C value) (\<lambda>t.
       case t of
         napi_undefined \<Rightarrow> return JUndefined
       | napi_null \<Rightarrow> return JNull
       | napi_boolean \<Rightarrow> bindm (getValueBool C value) (\<lambda>b. return (JBool b))
       | napi_number \<Rightarrow> bindm (getValueDouble C value) (\<lambda>n. return (JNumber n))
       | napi_string \<Rightarrow> bindm (stack_pointer value KString) (\<lambda>p. return (JString p))
       | napi_symbol \<Rightarrow> bindm (stack_pointer value KSymbol) (\<lambda>p. return (JSymbol p))
       | napi_object \<Rightarrow> bindm (stack_pointer value KObject) (\<lambda>p. return (JObject p))
       | napi_function \<Rightarrow> bindm (stack_pointer value KObject) (\<lambda>p. return (JObject p))
       | napi_external \<Rightarrow> bindm (stack_pointer value KObject) (\<lambda>p. return (JObject p))
       | napi_bigint \<Rightarrow> bindm (stack_pointer value KBigInt) (\<lambda>p. return (JBigInt p)))"

text \<open>\<open>NodeApiValueArgs\<close> and \<open>JsiValueViewArgs\<close> convert arrays of arguments; the constructor of the latter is
  \<open>noexcept\<close>.\<close>

fun map_m :: "('a \<Rightarrow> ('v, 'h, 'b) jsi_m) \<Rightarrow> 'a list \<Rightarrow> ('v, 'h, 'b list) jsi_m" where
  "map_m f [] = return []"
| "map_m f (x # xs) = bindm (f x) (\<lambda>y. bindm (map_m f xs) (\<lambda>ys. return (y # ys)))"

definition NodeApiValueArgs :: "('v, 'h) jsi_ctx \<Rightarrow> 'v jsi_value list \<Rightarrow> ('v, 'h, 'v option list) jsi_m" where
  "NodeApiValueArgs C args = map_m (getNodeApiValue C) args"

definition JsiValueViewArgs :: "('v, 'h) jsi_ctx \<Rightarrow> 'v option list \<Rightarrow> ('v, 'h, 'v jsi_value list) jsi_m" where
  "JsiValueViewArgs C args = noexcept (map_m (initValue C) args)"

definition PropNameIDView :: "'v \<Rightarrow> 'v jsi_pointer" where
  "PropNameIDView propId = StackOnly propId KStringPropNameID"

section \<open>Exceptions\<close>

definition hex_text :: "nat \<Rightarrow> string" where
  "hex_text n = rev (map (\<lambda>d. digit_char (word_of_nat d)) (radix_rev 16 n))"

definition status_text :: "napi_status \<Rightarrow> string" where
  "status_text st = ''A call to Node-API returned error code 0x'' @ hex_text (status_index st) @ ''.''"

definition has_part :: "'a list \<Rightarrow> 'a list \<Rightarrow> bool" where
  "has_part part s \<longleftrightarrow> (\<exists>i \<in> {0..length s}. take (length part) (drop i s) = part)"

definition clear_exception :: "('v, 'h) jsi_ctx \<Rightarrow> ('v, 'h, unit) jsi_m" where
  "clear_exception C =
     bindm (call_napi (napi_get_and_clear_last_exception (engine C) True)) (\<lambda>_. return ())"

text \<open>The two halves of \<open>rewriteErrorMessage\<close>. The second one looks at the type of \<^verbatim>\<open>message\<close>.\<close>

definition rewrite_message :: "('v, 'h) jsi_ctx \<Rightarrow> 'v option \<Rightarrow> ('v, 'h, 'v option) jsi_m" where
  "rewrite_message C jsError =
     bindm (property C IdMessage) (\<lambda>key.
     bindm (call_js C (napi_get_property (engine C) jsError key True)) (\<lambda>(st, message).
       if st \<noteq> napi_ok then bindm (clear_exception C) (\<lambda>_. return message)
       else bindm (typeOf C message) (\<lambda>t.
         if t = napi_string then
           bindm (stringToStdBasicString_char C message) (\<lambda>s.
             if s = bytes_of_string ''Out of stack space'' then
               bindm (property C IdMessage) (\<lambda>key2.
               bindm (createStringUtf8 C (Some (bytes_of_string ''RangeError : Maximum call stack size exceeded''))) (\<lambda>text.
               bindm (setProperty C jsError key2 text) (\<lambda>_. return message)))
             else return message)
         else return message)))"

definition rewrite_stack :: "('v, 'h) jsi_ctx \<Rightarrow> 'v option \<Rightarrow> 'v option \<Rightarrow> u8 list \<Rightarrow> ('v, 'h, unit) jsi_m" where
  "rewrite_stack C jsError message url =
     bindm (property C IdStack) (\<lambda>key.
     bindm (call_js C (napi_get_property (engine C) jsError key True)) (\<lambda>(st, stack).
       if st \<noteq> napi_ok then clear_exception C
       else bindm (typeOf C message) (\<lambda>t.
         if t = napi_string then
           bindm (stringToStdBasicString_char C stack) (\<lambda>stackStr.
             if \<not> has_part url stackStr then
               bindm (property C IdStack) (\<lambda>key2.
               bindm (createStringUtf8 C (Some (str_len (stackStr @ url @ [10] @ stackStr @ [0]) NAPI_AUTO_LENGTH))) (\<lambda>text.
                 setProperty C jsError key2 text))
             else return ())
         else return ())))"

definition rewriteErrorMessage :: "('v, 'h) jsi_ctx \<Rightarrow> 'v option \<Rightarrow> ('v, 'h, unit) jsi_m" where
  "rewriteErrorMessage C jsError =
     bindm (rewrite_message C jsError) (\<lambda>message.
     bindm (gets sourceURL) (\<lambda>url.
       if url \<noteq> [] then rewrite_stack C jsError message url else return ()))"

text \<open>\<open>AutoRestore\<close>: a member is replaced and restored however the block is left.\<close>

definition with_pending :: "('v, 'h, 'a) jsi_m \<Rightarrow> ('v, 'h, 'a) jsi_m" where
  "with_pending body j =
     bind_res (body (j\<lparr>hasPendingJSError := True\<rparr>)) (\<lambda>(r, j1). Inr (r, j1\<lparr>hasPendingJSError := hasPendingJSError j\<rparr>))"

definition with_sourceURL :: "u8 list \<Rightarrow> ('v, 'h, 'a) jsi_m \<Rightarrow> ('v, 'h, 'a) jsi_m" where
  "with_sourceURL url body j =
     bind_res (body (j\<lparr>sourceURL := url\<rparr>)) (\<lambda>(r, j1). Inr (r, j1\<lparr>sourceURL := sourceURL j\<rparr>))"

text \<open>\<open>throwJSException\<close> yields the exception that it throws.\<close>

definition throwJSException :: "('v, 'h) jsi_ctx \<Rightarrow> napi_status \<Rightarrow> ('v, 'h) jsi_rt \<Rightarrow> ('v jsi_exception \<times> ('v, 'h) jsi_rt) res" where
  "throwJSException C st j =
     bind_res (CHECK_NAPI_ELSE_CRASH (napi_get_and_clear_last_exception (engine C) True) j) (\<lambda>(jsError, j1).
     bind_res (CHECK_NAPI_ELSE_CRASH (napi_typeof (engine C) jsError True) j1) (\<lambda>(jsErrorType, j2).
       if \<not> hasPendingJSError j2 \<and> (st = napi_pending_exception \<or> jsErrorType \<noteq> Some napi_undefined) then
         bind_res
           (with_pending
             (bindm (if jsErrorType = Some napi_object then rewriteErrorMessage C jsError else return ()) (\<lambda>_.
              bindm (toJsiValue C jsError) (\<lambda>v.
              bindm (js_error C v) (\<lambda>text. return (JSError v text))))) j2)
           (\<lambda>(r, j3). Inr (case r of Inl x \<Rightarrow> x | Inr x \<Rightarrow> x, j3))
       else Inr (StdException (status_text st), j2)))"

text \<open>
  The runtime. \<open>throwJSException\<close> calls helpers that call it again when they fail; \<^verbatim>\<open>hasPendingJSError_\<close>
  is set then, and the inner call throws a native exception without calling any helper. Two levels are enough.
\<close>

definition runtime_ctx :: "('v, 'h) v8 \<Rightarrow> (('v, 'h) jsi_rt \<Rightarrow> ('v, 'h) napi_env \<Rightarrow> ('v, 'h) jsi_rt) \<Rightarrow>
    ('v jsi_value \<Rightarrow> ('v, 'h, string) jsi_m) \<Rightarrow> ('v, 'h) jsi_ctx" where
  "runtime_ctx V re je =
     (let level0 = \<lparr>engine = V, reenter = re, js_error = je, on_error = (\<lambda>st j. Inl CheckAbort)\<rparr>;
          level1 = level0\<lparr>on_error := throwJSException level0\<rparr>
      in level1\<lparr>on_error := throwJSException level1\<rparr>)"

end
