(* ===== verification/Jsi_Runtime.thy ===== *)
theory Jsi_Runtime
  imports Jsi_Calls
begin

text \<open>
  The methods of \<^verbatim>\<open>NodeApiJsiRuntime\<close> (\<^verbatim>\<open>src/src/node-api-jsi/NodeApiJsiRuntime.cpp\<close>): scopes, property names
  with their caches, values, objects, functions, host functions and host objects, and the callbacks by which
  JavaScript reaches them. Arguments of type \<^verbatim>\<open>jsi::Object\<close>, \<^verbatim>\<open>jsi::String\<close> and the like are pointers.
\<close>

section \<open>Scopes\<close>

definition pushScope :: "('v, 'h) jsi_ctx \<Rightarrow> ('v, 'h, nat option) jsi_m" where
  "pushScope C =
     bindm (CHECK_NAPI C (call_napi (napi_open_handle_scope True))) (\<lambda>state.
     bindm (modify pushPointerValueScope) (\<lambda>_. return state))"

definition popScope :: "('v, 'h) jsi_ctx \<Rightarrow> nat option \<Rightarrow> ('v, 'h, unit) jsi_m" where
  "popScope C state =
     bindm (pure_upd (popPointerValueScope (engine C))) (\<lambda>_.
     bindm (CHECK_NAPI C (call_napi (napi_close_handle_scope state))) (\<lambda>_. return ()))"

text \<open>The constructor of \<open>NodeApiScope\<close> pushes two pointer scopes, its destructor pops them.\<close>

definition NodeApiScope_begin :: "('v, 'h) jsi_ctx \<Rightarrow> ('v, 'h, nat option) jsi_m" where
  "NodeApiScope_begin C =
     noexcept (bindm (pushScope C) (\<lambda>state. bindm (modify pushPointerValueScope) (\<lambda>_. return state)))"

definition NodeApiScope_end :: "('v, 'h) jsi_ctx \<Rightarrow> nat option \<Rightarrow> ('v, 'h, unit) jsi_m" where
  "NodeApiScope_end C state = bindm (pure_upd (popPointerValueScope (engine C))) (\<lambda>_. popScope C state)"

definition NodeApiScope :: "('v, 'h) jsi_ctx \<Rightarrow> ('v, 'h, 'a) jsi_m \<Rightarrow> ('v, 'h, 'a) jsi_m" where
  "NodeApiScope C body = bindm (NodeApiScope_begin C) (\<lambda>state. finally_do body (NodeApiScope_end C state))"

definition NodeApiPointerValueScope :: "('v, 'h) jsi_ctx \<Rightarrow> ('v, 'h, 'a) jsi_m \<Rightarrow> ('v, 'h, 'a) jsi_m" where
  "NodeApiPointerValueScope C body =
     bindm (modify pushPointerValueScope) (\<lambda>_. finally_do body (pure_upd (popPointerValueScope (engine C))))"

section \<open>Strings and symbols\<close>

definition createStringFromAscii :: "('v, 'h) jsi_ctx \<Rightarrow> u8 list option \<Rightarrow> ('v, 'h, 'v jsi_pointer) jsi_m" where
  "createStringFromAscii C str = NodeApiScope C (bindm (createStringLatin1 C str) (makeJsiPointer KString))"

definition createStringFromUtf8 :: "('v, 'h) jsi_ctx \<Rightarrow> u8 list option \<Rightarrow> ('v, 'h, 'v jsi_pointer) jsi_m" where
  "createStringFromUtf8 C str = NodeApiScope C (bindm (createStringUtf8 C str) (makeJsiPointer KString))"

definition createStringFromUtf16 :: "('v, 'h) jsi_ctx \<Rightarrow> u16 list option \<Rightarrow> ('v, 'h, 'v jsi_pointer) jsi_m" where
  "createStringFromUtf16 C str = NodeApiScope C (bindm (createStringUtf16 C str) (makeJsiPointer KString))"

definition utf8_String :: "('v, 'h) jsi_ctx \<Rightarrow> 'v jsi_pointer \<Rightarrow> ('v, 'h, u8 list) jsi_m" where
  "utf8_String C str = NodeApiScope C (bindm (getNodeApiValue_pointer C str) (stringToStdBasicString_char C))"

definition utf16_String :: "('v, 'h) jsi_ctx \<Rightarrow> 'v jsi_pointer \<Rightarrow> ('v, 'h, u16 list) jsi_m" where
  "utf16_String C str = NodeApiScope C (bindm (getNodeApiValue_pointer C str) (stringToStdBasicString_char16 C))"

text \<open>\<open>symbolToStdBasicString\<close> calls \<^verbatim>\<open>Symbol.prototype.toString\<close>, which it caches.\<close>

definition SymbolToString :: "('v, 'h) jsi_ctx \<Rightarrow> ('v, 'h, 'v option) jsi_m" where
  "SymbolToString C =
     bindm (gets (\<lambda>j. cachedValue j CachedSymbolToString)) (\<lambda>c.
     bindm (if c = None then
         bindm (cached C CachedGlobal) (\<lambda>global.
         bindm (property C IdSymbol) (\<lambda>symbol.
         bindm (getProperty C global symbol) (\<lambda>symbolCtor.
         bindm (property C IdPrototype) (\<lambda>proto.
         bindm (getProperty C symbolCtor proto) (\<lambda>symbolPrototype.
         bindm (property C IdToString) (\<lambda>toStr.
         bindm (getProperty C symbolPrototype toStr) (\<lambda>f.
         bindm (runtime_makeNodeApiRef f KObject 1) (\<lambda>p.
           modify (\<lambda>j. j\<lparr>cachedValue := (cachedValue j)(CachedSymbolToString := Some p)\<rparr>)))))))))
       else return ()) (\<lambda>_.
       cached C CachedSymbolToString))"

definition symbolToStdBasicString :: "('v, 'h) jsi_ctx \<Rightarrow> ('v option \<Rightarrow> ('v, 'h, 's) jsi_m) \<Rightarrow> 'v option \<Rightarrow> ('v, 'h, 's) jsi_m" where
  "symbolToStdBasicString C to_std symbolValue =
     bindm (SymbolToString C) (\<lambda>f. bindm (callFunction C symbolValue f []) to_std)"

definition propertyIdToStdBasicString :: "('v, 'h) jsi_ctx \<Rightarrow> ('v option \<Rightarrow> ('v, 'h, 's) jsi_m) \<Rightarrow> 'v option \<Rightarrow> ('v, 'h, 's) jsi_m" where
  "propertyIdToStdBasicString C to_std propId =
     bindm (typeOf C propId) (\<lambda>t.
       if t = napi_symbol then symbolToStdBasicString C to_std propId else to_std propId)"

definition symbolToString :: "('v, 'h) jsi_ctx \<Rightarrow> 'v jsi_pointer \<Rightarrow> ('v, 'h, u8 list) jsi_m" where
  "symbolToString C symbol =
     NodeApiScope C (bindm (getNodeApiValue_pointer C symbol) (symbolToStdBasicString C (stringToStdBasicString_char C)))"

definition utf8_PropNameID :: "('v, 'h) jsi_ctx \<Rightarrow> 'v jsi_pointer \<Rightarrow> ('v, 'h, u8 list) jsi_m" where
  "utf8_PropNameID C i =
     NodeApiScope C (bindm (getNodeApiValue_pointer C i) (propertyIdToStdBasicString C (stringToStdBasicString_char C)))"

definition utf16_PropNameID :: "('v, 'h) jsi_ctx \<Rightarrow> 'v jsi_pointer \<Rightarrow> ('v, 'h, u16 list) jsi_m" where
  "utf16_PropNameID C i =
     NodeApiScope C (bindm (getNodeApiValue_pointer C i) (propertyIdToStdBasicString C (stringToStdBasicString_char16 C)))"

section \<open>Property names\<close>

text \<open>
  A name is made unique by using it as the only key of a new object and reading the key back. The
  pointer gets two counts, one for the cache and one for the caller; \<open>try_emplace\<close> leaves an entry alone that JavaScript
  has added in the meantime, and the count of the cache is given back.
\<close>

definition unique_name :: "('v, 'h) jsi_ctx \<Rightarrow> ('v, 'h, 'v option) jsi_m \<Rightarrow> ('v, 'h, nat) jsi_m" where
  "unique_name C create_name =
     bindm (createNodeApiObject C) (\<lambda>obj.
     bindm create_name (\<lambda>propName.
     bindm (getUndefined C) (\<lambda>undef.
     bindm (CHECK_NAPI C (call_js C (napi_set_property (engine C) obj propName undef))) (\<lambda>_.
     bindm (CHECK_NAPI C (call_js C (napi_get_all_property_names (engine C) obj (Some napi_key_own_only)
         napi_key_skip_symbols (Some napi_key_numbers_to_strings) True))) (\<lambda>props.
     bindm (getElement C props 0) (\<lambda>propNameId.
       runtime_makeNodeApiRef propNameId KStringPropNameID 2))))))"

definition try_emplace :: "u8 list \<Rightarrow> nat \<Rightarrow> ('v, 'h, unit) jsi_m" where
  "try_emplace key p =
     bindm (gets (\<lambda>j. propNameIDs j key)) (\<lambda>found.
       if found = None then modify (\<lambda>j. j\<lparr>propNameIDs := (propNameIDs j)(key \<mapsto> p)\<rparr>)
       else pure_upd (invalidate p))"

definition try_emplace16 :: "u16 list \<Rightarrow> nat \<Rightarrow> ('v, 'h, unit) jsi_m" where
  "try_emplace16 key p =
     bindm (gets (\<lambda>j. utf16PropNameIDs j key)) (\<lambda>found.
       if found = None then modify (\<lambda>j. j\<lparr>utf16PropNameIDs := (utf16PropNameIDs j)(key \<mapsto> p)\<rparr>)
       else pure_upd (invalidate p))"

definition prop_name :: "('v, 'h) jsi_ctx \<Rightarrow> u8 list \<Rightarrow> ('v, 'h, 'v option) jsi_m \<Rightarrow> ('v, 'h, 'v jsi_pointer) jsi_m" where
  "prop_name C key create_name =
     bindm (gets (\<lambda>j. propNameIDs j key)) (\<lambda>it.
       case it of
         Some p \<Rightarrow> pure_op (pointer_clone (Counted p))
       | None \<Rightarrow>
           bindm (unique_name C create_name) (\<lambda>p. bindm (try_emplace key p) (\<lambda>_. return (Counted p))))"

definition createPropNameIDFromAscii :: "('v, 'h) jsi_ctx \<Rightarrow> u8 list \<Rightarrow> ('v, 'h, 'v jsi_pointer) jsi_m" where
  "createPropNameIDFromAscii C str =
     NodeApiScope C (prop_name C str
       (CHECK_NAPI C (call_napi (napi_create_string_latin1 (engine C) (Some str) (length str) True))))"

definition createPropNameIDFromUtf8 :: "('v, 'h) jsi_ctx \<Rightarrow> u8 list \<Rightarrow> ('v, 'h, 'v jsi_pointer) jsi_m" where
  "createPropNameIDFromUtf8 C str =
     NodeApiScope C (prop_name C str
       (CHECK_NAPI C (call_napi (napi_create_string_utf8 (engine C) (Some str) (length str) True))))"

definition createPropNameIDFromUtf16 :: "('v, 'h) jsi_ctx \<Rightarrow> u16 list \<Rightarrow> ('v, 'h, 'v jsi_pointer) jsi_m" where
  "createPropNameIDFromUtf16 C str =
     NodeApiScope C (bindm (gets (\<lambda>j. utf16PropNameIDs j str)) (\<lambda>it.
       case it of
         Some p \<Rightarrow> pure_op (pointer_clone (Counted p))
       | None \<Rightarrow>
           bindm (unique_name C
             (CHECK_NAPI C (call_napi (napi_create_string_utf16 (engine C) (Some str) (length str) True)))) (\<lambda>p.
           bindm (try_emplace16 str p) (\<lambda>_. return (Counted p)))))"

definition pointer_kind :: "'v jsi_pointer \<Rightarrow> ('v, 'h, NodeApiPointerValueKind) jsi_m" where
  "pointer_kind p =
     (case p of
        Counted i \<Rightarrow> bindm (gets (\<lambda>j. pointer_values j i)) (\<lambda>pv. bindm (deref_m pv) (\<lambda>v. return (pointerKind v)))
      | StackOnly v kind \<Rightarrow> return kind)"

definition createPropNameIDFromString :: "('v, 'h) jsi_ctx \<Rightarrow> 'v jsi_pointer \<Rightarrow> ('v, 'h, 'v jsi_pointer) jsi_m" where
  "createPropNameIDFromString C str =
     NodeApiScope C (bindm (pointer_kind str) (\<lambda>kind.
       if kind = KStringPropNameID then pure_op (pointer_clone str)
       else bindm (utf8_String C str) (\<lambda>key.
         prop_name C key (getNodeApiValue_pointer C str))))"

definition createPropNameIDFromSymbol :: "'v jsi_pointer \<Rightarrow> ('v, 'h, 'v jsi_pointer) jsi_m" where
  "createPropNameIDFromSymbol symbol = pure_op (pointer_clone symbol)"

definition compare_names :: "('v, 'h) jsi_ctx \<Rightarrow> 'v jsi_pointer \<Rightarrow> 'v jsi_pointer \<Rightarrow> ('v, 'h, bool) jsi_m" where
  "compare_names C lhs rhs =
     NodeApiScope C
       (case (lhs, rhs) of
          (Counted p, Counted q) \<Rightarrow>
            if p = q then return True
            else bindm (getNodeApiValue_pointer C lhs) (\<lambda>a. bindm (getNodeApiValue_pointer C rhs) (strictEquals C a))
        | _ \<Rightarrow> bindm (getNodeApiValue_pointer C lhs) (\<lambda>a. bindm (getNodeApiValue_pointer C rhs) (strictEquals C a)))"

section \<open>Big integers\<close>

definition createBigIntFromInt64 :: "('v, 'h) jsi_ctx \<Rightarrow> 64 word \<Rightarrow> ('v, 'h, 'v jsi_pointer) jsi_m" where
  "createBigIntFromInt64 C val =
     NodeApiScope C (bindm (CHECK_NAPI C (call_napi (napi_create_bigint_int64 (engine C) val True))) (makeJsiPointer KBigInt))"

definition createBigIntFromUint64 :: "('v, 'h) jsi_ctx \<Rightarrow> 64 word \<Rightarrow> ('v, 'h, 'v jsi_pointer) jsi_m" where
  "createBigIntFromUint64 C val =
     NodeApiScope C (bindm (CHECK_NAPI C (call_napi (napi_create_bigint_uint64 (engine C) val True))) (makeJsiPointer KBigInt))"

definition bigintIsInt64 :: "('v, 'h) jsi_ctx \<Rightarrow> 'v jsi_pointer \<Rightarrow> ('v, 'h, bool) jsi_m" where
  "bigintIsInt64 C bigint =
     NodeApiScope C (bindm (getNodeApiValue_pointer C bigint) (\<lambda>value.
       bindm (into (0, False) (CHECK_NAPI C (call_napi (napi_get_value_bigint_int64 (engine C) value True True))))
         (\<lambda>(_, lossless). return lossless)))"

definition bigintIsUint64 :: "('v, 'h) jsi_ctx \<Rightarrow> 'v jsi_pointer \<Rightarrow> ('v, 'h, bool) jsi_m" where
  "bigintIsUint64 C bigint =
     NodeApiScope C (bindm (getNodeApiValue_pointer C bigint) (\<lambda>value.
       bindm (into (0, False) (CHECK_NAPI C (call_napi (napi_get_value_bigint_uint64 (engine C) value True True))))
         (\<lambda>(_, lossless). return lossless)))"

definition truncate_bigint :: "('v, 'h) jsi_ctx \<Rightarrow> 'v jsi_pointer \<Rightarrow> ('v, 'h, u64) jsi_m" where
  "truncate_bigint C bigint =
     NodeApiScope C (bindm (getNodeApiValue_pointer C bigint) (\<lambda>value.
       bindm (into (0, False) (CHECK_NAPI C (call_napi (napi_get_value_bigint_uint64 (engine C) value True True))))
         (\<lambda>(result, _). return (word_of_int result))))"

section \<open>Objects\<close>

definition global_object :: "('v, 'h, 'v jsi_pointer) jsi_m" where
  "global_object =
     bindm (gets (\<lambda>j. cachedValue j CachedGlobal)) (\<lambda>c.
     bindm (deref_m c) (\<lambda>p. pure_op (pointer_clone (Counted p))))"

definition createObject :: "('v, 'h) jsi_ctx \<Rightarrow> ('v, 'h, 'v jsi_pointer) jsi_m" where
  "createObject C = NodeApiScope C (bindm (createNodeApiObject C) (makeJsiPointer KObject))"

text \<open>Methods that pass the value of a pointer, or of two, to a helper.\<close>

definition with_pointer :: "('v, 'h) jsi_ctx \<Rightarrow> 'v jsi_pointer \<Rightarrow> ('v option \<Rightarrow> ('v, 'h, 'a) jsi_m) \<Rightarrow> ('v, 'h, 'a) jsi_m" where
  "with_pointer C p k = NodeApiScope C (bindm (getNodeApiValue_pointer C p) k)"

definition with_pointers :: "('v, 'h) jsi_ctx \<Rightarrow> 'v jsi_pointer \<Rightarrow> 'v jsi_pointer \<Rightarrow>
    ('v option \<Rightarrow> 'v option \<Rightarrow> ('v, 'h, 'a) jsi_m) \<Rightarrow> ('v, 'h, 'a) jsi_m" where
  "with_pointers C p q k =
     NodeApiScope C (bindm (getNodeApiValue_pointer C p) (\<lambda>a. bindm (getNodeApiValue_pointer C q) (k a)))"

text \<open>The two overloads of each property method, for names and for strings, have the same body.\<close>

definition Object_getProperty :: "('v, 'h) jsi_ctx \<Rightarrow> 'v jsi_pointer \<Rightarrow> 'v jsi_pointer \<Rightarrow> ('v, 'h, 'v jsi_value) jsi_m" where
  "Object_getProperty C obj name = with_pointers C obj name (\<lambda>o1 n. bindm (getProperty C o1 n) (toJsiValue C))"

definition Object_hasProperty :: "('v, 'h) jsi_ctx \<Rightarrow> 'v jsi_pointer \<Rightarrow> 'v jsi_pointer \<Rightarrow> ('v, 'h, bool) jsi_m" where
  "Object_hasProperty C obj name = with_pointers C obj name (hasProperty C)"

definition setPropertyValue :: "('v, 'h) jsi_ctx \<Rightarrow> 'v jsi_pointer \<Rightarrow> 'v jsi_pointer \<Rightarrow> 'v jsi_value \<Rightarrow> ('v, 'h, unit) jsi_m" where
  "setPropertyValue C obj name value =
     with_pointers C obj name (\<lambda>o1 n. bindm (getNodeApiValue C value) (setProperty C o1 n))"

definition getPrototypeOf :: "('v, 'h) jsi_ctx \<Rightarrow> 'v jsi_pointer \<Rightarrow> ('v, 'h, 'v jsi_value) jsi_m" where
  "getPrototypeOf C object =
     with_pointer C object (\<lambda>v. bindm (CHECK_NAPI C (call_napi (napi_get_prototype (engine C) v True))) (toJsiValue C))"

definition Object_isArray :: "('v, 'h) jsi_ctx \<Rightarrow> 'v jsi_pointer \<Rightarrow> ('v, 'h, bool) jsi_m" where
  "Object_isArray C obj = with_pointer C obj (isArray C)"

definition isArrayBuffer :: "('v, 'h) jsi_ctx \<Rightarrow> 'v jsi_pointer \<Rightarrow> ('v, 'h, bool) jsi_m" where
  "isArrayBuffer C obj =
     with_pointer C obj (\<lambda>v. into False (CHECK_NAPI C (call_napi (napi_is_arraybuffer (engine C) v True))))"

definition isFunction :: "('v, 'h) jsi_ctx \<Rightarrow> 'v jsi_pointer \<Rightarrow> ('v, 'h, bool) jsi_m" where
  "isFunction C obj = with_pointer C obj (\<lambda>v. bindm (typeOf C v) (\<lambda>t. return (t = napi_function)))"

text \<open>The data behind a marker property, or the null pointer.\<close>

definition marker_data :: "('v, 'h) jsi_ctx \<Rightarrow> PropertyId \<Rightarrow> 'v option \<Rightarrow> ('v, 'h, ptr) jsi_m" where
  "marker_data C marker v =
     bindm (property C marker) (\<lambda>key.
     bindm (getProperty C v key) (\<lambda>holder.
     bindm (typeOf C holder) (\<lambda>t. if t = napi_external then getExternalData C holder else return 0)))"

definition isHostObject :: "('v, 'h) jsi_ctx \<Rightarrow> 'v jsi_pointer \<Rightarrow> ('v, 'h, bool) jsi_m" where
  "isHostObject C obj =
     with_pointer C obj (\<lambda>v. bindm (marker_data C IdHostObjectSymbol v) (\<lambda>d. return (d \<noteq> 0)))"

definition isHostFunction :: "('v, 'h) jsi_ctx \<Rightarrow> 'v jsi_pointer \<Rightarrow> ('v, 'h, bool) jsi_m" where
  "isHostFunction C func =
     with_pointer C func (\<lambda>v. bindm (marker_data C IdHostFunctionSymbol v) (\<lambda>d. return (d \<noteq> 0)))"

text \<open>The address of the \<^verbatim>\<open>shared_ptr\<close> to the host object.\<close>

definition getJsiHostObject :: "('v, 'h) jsi_ctx \<Rightarrow> 'v option \<Rightarrow> ('v, 'h, ptr) jsi_m" where
  "getJsiHostObject C obj =
     bindm (marker_data C IdHostObjectSymbol obj) (\<lambda>d.
       if d \<noteq> 0 then return d else throw (StdException ''Cannot get HostObjects.''))"

definition getHostObject :: "('v, 'h) jsi_ctx \<Rightarrow> 'v jsi_pointer \<Rightarrow> ('v, 'h, ptr) jsi_m" where
  "getHostObject C obj = with_pointer C obj (getJsiHostObject C)"

definition getHostFunction :: "('v, 'h) jsi_ctx \<Rightarrow> 'v jsi_pointer \<Rightarrow> ('v, 'h, ptr) jsi_m" where
  "getHostFunction C func =
     with_pointer C func (\<lambda>v.
       bindm (property C IdHostFunctionSymbol) (\<lambda>key.
       bindm (getProperty C v key) (\<lambda>holder.
       bindm (typeOf C holder) (\<lambda>t.
         if t = napi_external then
           bindm (getExternalData C holder) (\<lambda>d. deref_m (if d = 0 then None else Some d))
         else throw (StdException ''getHostFunction() can only be called with HostFunction.'')))))"

definition createWeakObject :: "('v, 'h) jsi_ctx \<Rightarrow> 'v jsi_pointer \<Rightarrow> ('v, 'h, 'v jsi_pointer) jsi_m" where
  "createWeakObject C obj = with_pointer C obj (makeJsiPointer KWeakObject)"

definition lockWeakObject :: "('v, 'h) jsi_ctx \<Rightarrow> 'v jsi_pointer \<Rightarrow> ('v, 'h, 'v jsi_value) jsi_m" where
  "lockWeakObject C weakObject =
     with_pointer C weakObject (\<lambda>v. if v \<noteq> None then toJsiValue C v else return JUndefined)"

definition Array_size :: "('v, 'h) jsi_ctx \<Rightarrow> 'v jsi_pointer \<Rightarrow> ('v, 'h, nat) jsi_m" where
  "Array_size C arr = with_pointer C arr (getArrayLength C)"

definition ArrayBuffer_size :: "('v, 'h) jsi_ctx \<Rightarrow> 'v jsi_pointer \<Rightarrow> ('v, 'h, nat) jsi_m" where
  "ArrayBuffer_size C arrBuf =
     with_pointer C arrBuf (\<lambda>v.
       bindm (CHECK_NAPI C (call_napi (napi_get_arraybuffer_info (engine C) v False True))) (\<lambda>out.
         return (case out of Some (_, Some n) \<Rightarrow> n | _ \<Rightarrow> 0)))"

definition ArrayBuffer_data :: "('v, 'h) jsi_ctx \<Rightarrow> 'v jsi_pointer \<Rightarrow> ('v, 'h, ptr) jsi_m" where
  "ArrayBuffer_data C arrBuf =
     with_pointer C arrBuf (\<lambda>v.
       bindm (CHECK_NAPI C (call_napi (napi_get_arraybuffer_info (engine C) v True False))) (\<lambda>out.
         return (case out of Some (Some p, _) \<Rightarrow> p | _ \<Rightarrow> 0)))"

definition getValueAtIndex :: "('v, 'h) jsi_ctx \<Rightarrow> 'v jsi_pointer \<Rightarrow> nat \<Rightarrow> ('v, 'h, 'v jsi_value) jsi_m" where
  "getValueAtIndex C arr index = with_pointer C arr (\<lambda>v. bindm (getElement C v index) (toJsiValue C))"

definition setValueAtIndexImpl :: "('v, 'h) jsi_ctx \<Rightarrow> 'v jsi_pointer \<Rightarrow> nat \<Rightarrow> 'v jsi_value \<Rightarrow> ('v, 'h, unit) jsi_m" where
  "setValueAtIndexImpl C arr index value =
     with_pointer C arr (\<lambda>v. bindm (getNodeApiValue C value) (setElement C v (word_of_nat index)))"

definition strictEquals_pointers :: "('v, 'h) jsi_ctx \<Rightarrow> 'v jsi_pointer \<Rightarrow> 'v jsi_pointer \<Rightarrow> ('v, 'h, bool) jsi_m" where
  "strictEquals_pointers C a b = with_pointers C a b (strictEquals C)"

definition Object_instanceOf :: "('v, 'h) jsi_ctx \<Rightarrow> 'v jsi_pointer \<Rightarrow> 'v jsi_pointer \<Rightarrow> ('v, 'h, bool) jsi_m" where
  "Object_instanceOf C obj func = with_pointers C obj func (instanceOf C)"

text \<open>Native states are the addresses of \<^verbatim>\<open>shared_ptr\<close>s on the heap.\<close>

definition hasNativeState :: "('v, 'h) jsi_ctx \<Rightarrow> 'v jsi_pointer \<Rightarrow> ('v, 'h, bool) jsi_m" where
  "hasNativeState C obj =
     with_pointer C obj (\<lambda>v. bindm (call_napi (napi_unwrap (engine C) v True)) (\<lambda>(st, nativeState).
       return (st = napi_ok \<and> nativeState \<noteq> None \<and> nativeState \<noteq> Some 0)))"

definition getNativeState :: "('v, 'h) jsi_ctx \<Rightarrow> 'v jsi_pointer \<Rightarrow> ('v, 'h, ptr) jsi_m" where
  "getNativeState C obj =
     with_pointer C obj (\<lambda>v. into 0 (CHECK_NAPI C (call_napi (napi_unwrap (engine C) v True))))"

section \<open>Functions and host objects\<close>

text \<open>The callbacks that the library hands to the Node-API, by their addresses.\<close>

datatype jsi_callback =
    HostFunctionCallback | HasTrap | GetTrap | SetTrap | OwnKeysTrap | GetOwnPropertyDescriptorTrap
  | DeleteHostObject | DeleteHostFunction | DeleteNativeState

primrec address_of :: "jsi_callback \<Rightarrow> ptr" where
  "address_of HostFunctionCallback = 1"
| "address_of HasTrap = 2"
| "address_of GetTrap = 3"
| "address_of SetTrap = 4"
| "address_of OwnKeysTrap = 5"
| "address_of GetOwnPropertyDescriptorTrap = 6"
| "address_of DeleteHostObject = 7"
| "address_of DeleteHostFunction = 8"
| "address_of DeleteNativeState = 9"

text \<open>\<open>state\<close> is the address of the copy that the code allocates, \<open>None\<close> for an empty pointer.\<close>

definition setNativeState :: "('v, 'h) jsi_ctx \<Rightarrow> 'v jsi_pointer \<Rightarrow> ptr option \<Rightarrow> ('v, 'h, unit) jsi_m" where
  "setNativeState C obj state =
     NodeApiScope C (bindm (hasNativeState C obj) (\<lambda>has.
       bindm (if has then
           bindm (getNodeApiValue_pointer C obj) (\<lambda>v.
           bindm (CHECK_NAPI C (call_napi (napi_remove_wrap (engine C) v True))) (\<lambda>_. return ()))
         else return ()) (\<lambda>_.
       case state of
         None \<Rightarrow> return ()
       | Some p \<Rightarrow>
           bindm (getNodeApiValue_pointer C obj) (\<lambda>v.
           bindm (CHECK_NAPI C (call_napi (napi_wrap (engine C) v p (Some (address_of DeleteNativeState)) 0 False)))
             (\<lambda>_. return ())))))"

definition createExternalFunction :: "('v, 'h) jsi_ctx \<Rightarrow> 'v option \<Rightarrow> 32 word \<Rightarrow> jsi_callback \<Rightarrow> ptr \<Rightarrow> ('v, 'h, 'v option) jsi_m" where
  "createExternalFunction C name paramCount cb callbackData =
     bindm (stringToStdBasicString_char C name) (\<lambda>funcName.
     bindm (CHECK_NAPI C (call_js C (napi_create_function (engine C) (Some funcName) (length funcName)
         (Some (address_of cb)) callbackData True))) (\<lambda>function.
     bindm (property C IdLength) (\<lambda>key.
     bindm (createInt32 C paramCount) (\<lambda>count.
     bindm (setProperty_attrs C function key count 0) (\<lambda>_. return function)))))"

definition createFunctionFromHostFunction :: "('v, 'h) jsi_ctx \<Rightarrow> 'v jsi_pointer \<Rightarrow> 32 word \<Rightarrow> ptr \<Rightarrow> ('v, 'h, 'v jsi_pointer) jsi_m" where
  "createFunctionFromHostFunction C name paramCount wrapper =
     with_pointer C name (\<lambda>n.
       bindm (createExternalFunction C n paramCount HostFunctionCallback wrapper) (\<lambda>function.
       bindm (createExternalObject C wrapper (Some (address_of DeleteHostFunction))) (\<lambda>holder.
       bindm (property C IdHostFunctionSymbol) (\<lambda>key.
       bindm (setProperty_attrs C function key holder 0) (\<lambda>_. makeJsiPointer KObject function)))))"

definition Function_call :: "('v, 'h) jsi_ctx \<Rightarrow> 'v jsi_pointer \<Rightarrow> 'v jsi_value \<Rightarrow> 'v jsi_value list \<Rightarrow> ('v, 'h, 'v jsi_value) jsi_m" where
  "Function_call C func jsThis args =
     NodeApiScope C
       (bindm (getNodeApiValue C jsThis) (\<lambda>this.
        bindm (getNodeApiValue_pointer C func) (\<lambda>f.
        bindm (NodeApiValueArgs C args) (\<lambda>as.
        bindm (callFunction C this f as) (toJsiValue C)))))"

definition callAsConstructor :: "('v, 'h) jsi_ctx \<Rightarrow> 'v jsi_pointer \<Rightarrow> 'v jsi_value list \<Rightarrow> ('v, 'h, 'v jsi_value) jsi_m" where
  "callAsConstructor C func args =
     with_pointer C func (\<lambda>f.
       bindm (NodeApiValueArgs C args) (\<lambda>as. bindm (constructObject C f as) (toJsiValue C)))"

text \<open>The handler of the proxies behind which host objects stand; \<open>this\<close> is the address of the runtime.\<close>

definition setProxyTrap :: "('v, 'h) jsi_ctx \<Rightarrow> ptr \<Rightarrow> 'v option \<Rightarrow> PropertyId \<Rightarrow> jsi_callback \<Rightarrow> 32 word \<Rightarrow> ('v, 'h, unit) jsi_m" where
  "setProxyTrap C this handler name trap argCount =
     bindm (property C name) (\<lambda>propertyName.
     bindm (createExternalFunction C propertyName argCount trap this) (\<lambda>f. setProperty C handler propertyName f))"

definition getHostObjectProxyHandler :: "('v, 'h) jsi_ctx \<Rightarrow> ptr \<Rightarrow> ('v, 'h, 'v option) jsi_m" where
  "getHostObjectProxyHandler C this =
     bindm (gets (\<lambda>j. cachedValue j CachedHostObjectProxyHandler)) (\<lambda>c.
     bindm (if c = None then
         bindm (createNodeApiObject C) (\<lambda>handler.
         bindm (setProxyTrap C this handler IdHas HasTrap 2) (\<lambda>_.
         bindm (setProxyTrap C this handler IdGet GetTrap 3) (\<lambda>_.
         bindm (setProxyTrap C this handler IdSet SetTrap 4) (\<lambda>_.
         bindm (setProxyTrap C this handler IdOwnKeys OwnKeysTrap 1) (\<lambda>_.
         bindm (setProxyTrap C this handler IdGetOwnPropertyDescriptor GetOwnPropertyDescriptorTrap 2) (\<lambda>_.
         bindm (runtime_makeNodeApiRef handler KObject 1) (\<lambda>p.
           modify (\<lambda>j. j\<lparr>cachedValue := (cachedValue j)(CachedHostObjectProxyHandler := Some p)\<rparr>))))))))
       else return ()) (\<lambda>_. cached C CachedHostObjectProxyHandler))"

definition createHostObject :: "('v, 'h) jsi_ctx \<Rightarrow> ptr \<Rightarrow> ptr \<Rightarrow> ('v, 'h, 'v jsi_pointer) jsi_m" where
  "createHostObject C this hostObject =
     NodeApiScope C
       (bindm (createExternalObject C hostObject (Some (address_of DeleteHostObject))) (\<lambda>holder.
        bindm (createNodeApiObject C) (\<lambda>obj.
        bindm (property C IdHostObjectSymbol) (\<lambda>key.
        bindm (setProperty C obj key holder) (\<lambda>_.
        bindm (gets (\<lambda>j. cachedValue j CachedProxyConstructor)) (\<lambda>c.
        bindm (if c = None then
            bindm (cached C CachedGlobal) (\<lambda>global.
            bindm (property C IdProxy) (\<lambda>proxy.
            bindm (getProperty C global proxy) (\<lambda>ctor.
            bindm (runtime_makeNodeApiRef ctor KObject 1) (\<lambda>p.
              modify (\<lambda>j. j\<lparr>cachedValue := (cachedValue j)(CachedProxyConstructor := Some p)\<rparr>)))))
          else return ()) (\<lambda>_.
        bindm (getHostObjectProxyHandler C this) (\<lambda>handler.
        bindm (cached C CachedProxyConstructor) (\<lambda>ctor.
        bindm (constructObject C ctor [obj, handler]) (makeJsiPointer KObject))))))))))"

section \<open>Callbacks from JavaScript\<close>

text \<open>Host functions and host objects, by the addresses of their C++ objects.\<close>

record ('v, 'h) host =
  host_function :: "ptr \<Rightarrow> 'v jsi_value \<Rightarrow> 'v jsi_value list \<Rightarrow> ('v, 'h, 'v jsi_value) jsi_m"
  host_get :: "ptr \<Rightarrow> 'v jsi_pointer \<Rightarrow> ('v, 'h, 'v jsi_value) jsi_m"
  host_set :: "ptr \<Rightarrow> 'v jsi_pointer \<Rightarrow> 'v jsi_value \<Rightarrow> ('v, 'h, unit) jsi_m"

primrec pointer_of :: "'v jsi_value \<Rightarrow> 'v jsi_pointer option" where
  "pointer_of JUndefined = None"
| "pointer_of JNull = None"
| "pointer_of (JBool b) = None"
| "pointer_of (JNumber n) = None"
| "pointer_of (JSymbol p) = Some p"
| "pointer_of (JBigInt p) = Some p"
| "pointer_of (JString p) = Some p"
| "pointer_of (JObject p) = Some p"

text \<open>The destructor of a \<^verbatim>\<open>jsi::Value\<close>.\<close>

definition release_value :: "'v jsi_value \<Rightarrow> ('v, 'h, unit) jsi_m" where
  "release_value v = (case pointer_of v of None \<Rightarrow> return () | Some p \<Rightarrow> pure_upd (pointer_invalidate p))"

definition setException :: "('v, 'h) jsi_ctx \<Rightarrow> 'v option \<Rightarrow> ('v, 'h, bool) jsi_m" where
  "setException C error = bindm (call_napi (napi_throw error)) (\<lambda>(st, _). return (st = napi_ok))"

definition setException_text :: "('v, 'h) jsi_ctx \<Rightarrow> string \<Rightarrow> ('v, 'h, bool) jsi_m" where
  "setException_text C message =
     bindm (call_napi (napi_throw_error (engine C) (Some (bytes_of_string ''Unknown'' @ [0])) (Some (bytes_of_string message @ [0]))))
       (\<lambda>(st, _). return (st = napi_ok))"

definition runInMethodContext :: "string \<Rightarrow> ('v, 'h, 'a) jsi_m \<Rightarrow> ('v, 'h, 'a) jsi_m" where
  "runInMethodContext methodName lam =
     handle lam (\<lambda>x.
       case x of
         JSError v w \<Rightarrow> throw x
       | StdException w \<Rightarrow> throwNativeException (''Exception in '' @ methodName @ '': '' @ what x)
       | OtherException \<Rightarrow> throwNativeException (''Exception in '' @ methodName @ '': <unknown>''))"

text \<open>The exception object owns its value, which is released when the handler is left.\<close>

definition handleCallbackExceptions :: "('v, 'h) jsi_ctx \<Rightarrow> ('v, 'h, 'v option) jsi_m \<Rightarrow> ('v, 'h, 'v option) jsi_m" where
  "handleCallbackExceptions C lam =
     noexcept (bindm
       (handle
         (handle (bindm lam (\<lambda>v. return (Some v)))
           (\<lambda>x. case x of
              JSError v w \<Rightarrow>
                finally_do (bindm (getNodeApiValue C v) (\<lambda>e. bindm (setException C e) (\<lambda>_. return None))) (release_value v)
            | _ \<Rightarrow> throw x))
         (\<lambda>x. case x of
            OtherException \<Rightarrow> bindm (setException_text C ''Unexpected error'') (\<lambda>_. return None)
          | _ \<Rightarrow> bindm (setException_text C (what x)) (\<lambda>_. return None)))
       (\<lambda>r. case r of Some v \<Rightarrow> return v | None \<Rightarrow> getUndefined C))"

text \<open>\<open>jsiHostFunctionCallback\<close>: the wrapper's address is the data of the callback.\<close>

definition crash_unless :: "bool \<Rightarrow> ('v, 'h, unit) jsi_m" where
  "crash_unless b j = check b CheckAbort (Inr (Inr (), j))"

definition host_call :: "('v, 'h) jsi_ctx \<Rightarrow> ('v, 'h) host \<Rightarrow> 'v callback_info \<Rightarrow> nat \<Rightarrow> ptr \<Rightarrow> ('v, 'h, 'v option) jsi_m" where
  "host_call C H info argc wrapper =
     bindm (pure_op (CHECK_NAPI_ELSE_CRASH (napi_get_cb_info (engine C) (Some info) (Some argc) True))) (\<lambda>out.
     bindm (deref_m out) (\<lambda>(argv, argc1, thisArg, _).
     bindm (crash_unless (argc = argc1)) (\<lambda>_.
     bindm (initValue C (Some thisArg)) (\<lambda>jsiThisArg.
     bindm (JsiValueViewArgs C (map Some (case argv of None \<Rightarrow> [] | Some as \<Rightarrow> as))) (\<lambda>jsiArgs.
       runInMethodContext ''HostFunction''
         (bindm (host_function H wrapper jsiThisArg jsiArgs) (\<lambda>v.
           finally_do (getNodeApiValue C v) (release_value v))))))))"

definition jsiHostFunctionCallback :: "('v, 'h) jsi_ctx \<Rightarrow> ('v, 'h) host \<Rightarrow> 'v callback_info \<Rightarrow> ('v, 'h, 'v option) jsi_m" where
  "jsiHostFunctionCallback C H info =
     bindm (pure_op (CHECK_NAPI_ELSE_CRASH (napi_get_cb_info (engine C) (Some info) (Some 0) False))) (\<lambda>out.
     bindm (deref_m out) (\<lambda>(_, argc, _, wrapper).
     bindm (crash_unless (wrapper \<noteq> 0)) (\<lambda>_.
       NodeApiPointerValueScope C (handleCallbackExceptions C (host_call C H info argc wrapper)))))"

text \<open>The trap functions of the proxy handler.\<close>

definition proxyTrap :: "('v, 'h) jsi_ctx \<Rightarrow> nat \<Rightarrow> ('v list \<Rightarrow> ('v, 'h, 'v option) jsi_m) \<Rightarrow> 'v callback_info \<Rightarrow> ('v, 'h, 'v option) jsi_m" where
  "proxyTrap C argCount trapMethod info =
     bindm (pure_op (CHECK_NAPI_ELSE_CRASH (napi_get_cb_info (engine C) (Some info) (Some argCount) True))) (\<lambda>out.
     bindm (deref_m out) (\<lambda>(argv, actualArgCount, _, _).
     bindm (crash_unless (actualArgCount = argCount)) (\<lambda>_.
       NodeApiPointerValueScope C (handleCallbackExceptions C
         (trapMethod (case argv of None \<Rightarrow> [] | Some as \<Rightarrow> as))))))"

definition arg :: "'v list \<Rightarrow> nat \<Rightarrow> ('v, 'h, 'v) jsi_m" where
  "arg args i j = bind_res (read_at args i) (\<lambda>v. Inr (Inr v, j))"

definition hostObjectHasTrap :: "('v, 'h) jsi_ctx \<Rightarrow> 'v list \<Rightarrow> ('v, 'h, 'v option) jsi_m" where
  "hostObjectHasTrap C args =
     bindm (arg args 1) (\<lambda>propertyName.
     bindm (arg args 0) (\<lambda>target.
     bindm (getJsiHostObject C (Some target)) (\<lambda>_.
       runInMethodContext ''HostObject::has'' (getBoolean C True))))"

definition hostObjectGetTrap :: "('v, 'h) jsi_ctx \<Rightarrow> ('v, 'h) host \<Rightarrow> 'v list \<Rightarrow> ('v, 'h, 'v option) jsi_m" where
  "hostObjectGetTrap C H args =
     bindm (arg args 0) (\<lambda>target.
     bindm (arg args 1) (\<lambda>propertyName.
     bindm (into False (CHECK_NAPI C (call_js C (napi_has_own_property (engine C) (Some target) (Some propertyName) True)))) (\<lambda>own.
       if own then getProperty C (Some target) (Some propertyName)
       else bindm (getJsiHostObject C (Some target)) (\<lambda>hostObject.
         runInMethodContext ''HostObject::get''
           (bindm (host_get H hostObject (PropNameIDView propertyName)) (\<lambda>v.
             finally_do (getNodeApiValue C v) (release_value v)))))))"

definition hostObjectSetTrap :: "('v, 'h) jsi_ctx \<Rightarrow> ('v, 'h) host \<Rightarrow> 'v list \<Rightarrow> ('v, 'h, 'v option) jsi_m" where
  "hostObjectSetTrap C H args =
     bindm (arg args 0) (\<lambda>target.
     bindm (getJsiHostObject C (Some target)) (\<lambda>hostObject.
     bindm (arg args 1) (\<lambda>propertyName.
     bindm (arg args 2) (\<lambda>newValue.
     bindm (initValue C (Some newValue)) (\<lambda>value.
     bindm (runInMethodContext ''HostObject::set'' (host_set H hostObject (PropNameIDView propertyName) value)) (\<lambda>_.
       getUndefined C))))))"

definition napi_default_jsproperty :: u32 where
  "napi_default_jsproperty = napi_writable OR napi_enumerable OR napi_configurable"

definition hostObjectGetOwnPropertyDescriptorTrap :: "('v, 'h) jsi_ctx \<Rightarrow> ('v, 'h) host \<Rightarrow> 'v list \<Rightarrow> ('v, 'h, 'v option) jsi_m" where
  "hostObjectGetOwnPropertyDescriptorTrap C H args =
     bindm (arg args 0) (\<lambda>target.
     bindm (getJsiHostObject C (Some target)) (\<lambda>hostObject.
     bindm (arg args 1) (\<lambda>propertyName.
       runInMethodContext ''HostObject::getOwnPropertyDescriptor''
        (bindm (getBoolean C True) (\<lambda>trueValue.
         bindm (property C IdValue) (\<lambda>valueKey.
         bindm (bindm (host_get H hostObject (PropNameIDView propertyName)) (\<lambda>v.
             finally_do (getNodeApiValue C v) (release_value v))) (\<lambda>value.
         bindm (property C IdWritable) (\<lambda>writable.
         bindm (property C IdEnumerable) (\<lambda>enumerable.
         bindm (property C IdConfigurable) (\<lambda>configurable.
         bindm (deref_m value) (\<lambda>v.
         bindm (deref_m trueValue) (\<lambda>t.
         bindm (createNodeApiObject C) (\<lambda>descriptor.
         bindm (CHECK_NAPI C (call_js C (napi_define_properties (engine C) descriptor 4 (Some
             [value_descriptor valueKey v napi_default_jsproperty, value_descriptor writable t napi_default_jsproperty,
              value_descriptor enumerable t napi_default_jsproperty, value_descriptor configurable t napi_default_jsproperty]))))
           (\<lambda>_. return descriptor))))))))))))))"

section \<open>Construction\<close>

definition init_name :: "('v, 'h) jsi_ctx \<Rightarrow> PropertyId \<times> string \<Rightarrow> ('v, 'h, unit) jsi_m" where
  "init_name C = (\<lambda>(i, name).
     bindm (if i = IdHostFunctionSymbol \<or> i = IdHostObjectSymbol then createSymbol C (bytes_of_string name)
            else getPropertyIdFromName C (bytes_of_string name)) (\<lambda>v.
     bindm (runtime_makeNodeApiRef v (if i = IdHostFunctionSymbol \<or> i = IdHostObjectSymbol then KSymbol else KString) 1) (\<lambda>p.
       modify (\<lambda>j. j\<lparr>propertyId := (propertyId j)(i := Some p)\<rparr>))))"

definition property_names :: "(PropertyId \<times> string) list" where
  "property_names =
     [(IdError, ''Error''), (IdObject, ''Object''), (IdProxy, ''Proxy''), (IdSymbol, ''Symbol''),
      (IdByteLength, ''byteLength''), (IdConfigurable, ''configurable''), (IdEnumerable, ''enumerable''),
      (IdGet, ''get''), (IdGetOwnPropertyDescriptor, ''getOwnPropertyDescriptor''), (IdHas, ''has''),
      (IdHostFunctionSymbol, ''hostFunctionSymbol''), (IdHostObjectSymbol, ''hostObjectSymbol''),
      (IdLength, ''length''), (IdMessage, ''message''), (IdOwnKeys, ''ownKeys''),
      (IdPropertyIsEnumerable, ''propertyIsEnumerable''), (IdPrototype, ''prototype''), (IdSet, ''set''),
      (IdStack, ''stack''), (IdToString, ''toString''), (IdValue, ''value''), (IdWritable, ''writable'')]"

definition NodeApiJsiRuntime_init :: "('v, 'h) jsi_ctx \<Rightarrow> ('v, 'h, unit) jsi_m" where
  "NodeApiJsiRuntime_init C =
     noexcept (NodeApiScope C
       (bindm (map_m (init_name C) property_names) (\<lambda>_.
        bindm (getGlobal C) (\<lambda>global.
        bindm (runtime_makeNodeApiRef global KObject 1) (\<lambda>p.
        bindm (modify (\<lambda>j. j\<lparr>cachedValue := (cachedValue j)(CachedGlobal := Some p)\<rparr>)) (\<lambda>_.
        bindm (cached C CachedGlobal) (\<lambda>g.
        bindm (property C IdError) (\<lambda>name.
        bindm (getProperty C g name) (\<lambda>err.
        bindm (runtime_makeNodeApiRef err KObject 1) (\<lambda>q.
          modify (\<lambda>j. j\<lparr>cachedValue := (cachedValue j)(CachedError := Some q)\<rparr>)))))))))))"

end
