(* ===== verification/Jsi_Pointer_Safety.thy ===== *)
theory Jsi_Pointer_Safety
  imports Jsi_Pointers
begin

text \<open>
  The life of pointer values: the invariant that ties the store of pointers to the stack of handles, the queue of
  deletions and the references of the environment, its preservation by every operation, and what it
  means for memory safety.
\<close>

section \<open>The invariant\<close>

definition owned_ref :: "('v, 'h, 'x) jsi_scheme \<Rightarrow> nat \<Rightarrow> nat option" where
  "owned_ref j p = Option.bind (pointer_values j p) pv_ref"

definition pv_ok :: "nat set \<Rightarrow> nat set \<Rightarrow> nat \<Rightarrow> 'v NodeApiRefCountedPointerValue \<Rightarrow> bool" where
  "pv_ok S Q p pv \<longleftrightarrow>
     0 \<le> refCount pv \<and>
     (refCount pv = 0 \<longrightarrow> (p \<in> Q) \<noteq> canBeDeletedFromStack pv) \<and>
     (0 < refCount pv \<longrightarrow> p \<notin> Q \<and> \<not> canBeDeletedFromStack pv \<and> (pv_value pv \<noteq> None \<or> pv_ref pv \<noteq> None)) \<and>
     (canBeDeletedFromStack pv \<longrightarrow> pv_value pv \<noteq> None \<and> pv_ref pv = None) \<and>
     (pv_value pv \<noteq> None \<longleftrightarrow> p \<in> S)"

definition pointers_ok :: "nat set \<Rightarrow> nat set \<Rightarrow> ('v, 'h, 'x) jsi_scheme \<Rightarrow> bool" where
  "pointers_ok S Q j \<longleftrightarrow>
     (\<forall>p pv. pointer_values j p = Some pv \<longrightarrow> pv_ok S Q p pv \<and> p < next_pv j) \<and>
     (\<forall>p \<in> S \<union> Q. pointer_values j p \<noteq> None) \<and>
     owns (owned_ref j) (alive_refs (jsi_env j)) \<and> ref_inv (jsi_env j)"

definition jsi_inv :: "('v, 'h, 'x) jsi_scheme \<Rightarrow> bool" where
  "jsi_inv j \<longleftrightarrow>
     pointers_ok (set (stackValues j)) (set (pool j (poolSelector j))) j \<and>
     distinct (stackValues j) \<and> distinct (pool j (poolSelector j)) \<and>
     poolSelector j \<in> {0, 1} \<and> pool j (poolSelector j XOR 1) = []"

lemma owned_ref_set_pv [simp]: "owned_ref (set_pv p pv j) = (owned_ref j)(p := pv_ref pv)"
  by (auto simp: owned_ref_def set_pv_def)

lemma owned_ref_delete_pv [simp]: "owned_ref (delete_pv p j) = (owned_ref j)(p := None)"
  by (auto simp: owned_ref_def delete_pv_def)

lemma owned_ref_fields [simp]:
  "owned_ref (j\<lparr>jsi_env := e\<rparr>) = owned_ref j" "owned_ref (j\<lparr>stackValues := s\<rparr>) = owned_ref j"
  "owned_ref (j\<lparr>next_pv := n\<rparr>) = owned_ref j" "owned_ref (j\<lparr>pool := q\<rparr>) = owned_ref j"
  by (auto simp: owned_ref_def)

lemma set_pv_fields [simp]:
  "jsi_env (set_pv p pv j) = jsi_env j" "stackValues (set_pv p pv j) = stackValues j" "next_pv (set_pv p pv j) = next_pv j"
  "pool (set_pv p pv j) = pool j" "poolSelector (set_pv p pv j) = poolSelector j" "stackScopes (set_pv p pv j) = stackScopes j"
  "pointer_values (set_pv p pv j) = (pointer_values j)(p \<mapsto> pv)"
  by (simp_all add: set_pv_def)

lemma delete_pv_fields [simp]:
  "jsi_env (delete_pv p j) = jsi_env j" "stackValues (delete_pv p j) = stackValues j" "next_pv (delete_pv p j) = next_pv j"
  "pool (delete_pv p j) = pool j" "poolSelector (delete_pv p j) = poolSelector j" "stackScopes (delete_pv p j) = stackScopes j"
  "pointer_values (delete_pv p j) = (pointer_values j)(p := None)"
  by (simp_all add: delete_pv_def)

lemma delete_set_pv [simp]: "delete_pv p (set_pv p pv j) = delete_pv p j"
  by (simp add: set_pv_def delete_pv_def)

lemma owns_same: "owns f A \<Longrightarrow> f p = x \<Longrightarrow> owns (f(p := x)) A"
  by (simp add: fun_upd_idem)

lemma owns_mono: "owns f A \<Longrightarrow> A \<subseteq> B \<Longrightarrow> owns f B"
  by (auto simp: owns_def)

lemma owns_drop: "owns f A \<Longrightarrow> owns (f(p := None)) A"
  by (auto simp: owns_def split: if_splits)

text \<open>One pointer changes, with what the stack and the queue know of it.\<close>

lemma pv_ok_cong: "(p \<in> S' \<longleftrightarrow> p \<in> S) \<Longrightarrow> (p \<in> Q' \<longleftrightarrow> p \<in> Q) \<Longrightarrow> pv_ok S' Q' p pv = pv_ok S Q p pv"
  by (simp add: pv_ok_def)

lemma pointers_ok_update:
  assumes "pointers_ok S Q j" "pointer_values j p = Some pv" "pv_ok S' Q' p pv'"
    and "S' - {p} = S - {p}" "Q' - {p} = Q - {p}"
    and "owns ((owned_ref j)(p := pv_ref pv')) (alive_refs e)" "ref_inv e"
  shows "pointers_ok S' Q' (set_pv p pv' (j\<lparr>jsi_env := e\<rparr>))"
proof -
  have q: "q \<in> S' \<longleftrightarrow> q \<in> S" "q \<in> Q' \<longleftrightarrow> q \<in> Q" if "q \<noteq> p" for q using assms(4,5) that by blast+
  then have "pv_ok S' Q' q x = pv_ok S Q q x" if "q \<noteq> p" for q and x :: "'a NodeApiRefCountedPointerValue"
    using that by (intro pv_ok_cong) auto
  then show ?thesis using assms(1-3,6,7) q by (auto simp: pointers_ok_def)
qed

lemma pointers_ok_delete:
  assumes "pointers_ok S Q j" "pointer_values j p = Some pv" "p \<notin> S'" "p \<notin> Q'"
    and "S' - {p} = S - {p}" "Q' - {p} = Q - {p}"
  shows "pointers_ok S' Q' (delete_pv p j)"
proof -
  have q: "q \<in> S' \<longleftrightarrow> q \<in> S" "q \<in> Q' \<longleftrightarrow> q \<in> Q" if "q \<noteq> p" for q using assms(5,6) that by blast+
  then have "pv_ok S' Q' q x = pv_ok S Q q x" if "q \<noteq> p" for q and x :: "'a NodeApiRefCountedPointerValue"
    using that by (intro pv_ok_cong) auto
  then show ?thesis using assms(1-4) q by (auto simp: pointers_ok_def intro: owns_drop)
qed

lemma pointers_okD:
  assumes "pointers_ok S Q j" "pointer_values j p = Some pv"
  shows "pv_ok S Q p pv" "p < next_pv j"
  using assms by (auto simp: pointers_ok_def)

lemma CHECK_NAPI_ok:
  "CHECK_NAPI_ELSE_CRASH f j = Inr (out, j') \<longleftrightarrow> (\<exists>e. f (jsi_env j) = Inr (napi_ok, out, e) \<and> j' = j\<lparr>jsi_env := e\<rparr>)"
  by (auto simp: CHECK_NAPI_ELSE_CRASH_def res_simps)

lemma createNodeApiRef_ok:
  assumes "createNodeApiRef V p j = Inr j'" "engine_keeps_refs V" "pointer_values j p = Some pv"
  shows "\<exists>e0 v n r e. j' = set_pv p (pv\<lparr>pv_ref := Some r\<rparr>) (j\<lparr>jsi_env := e\<rparr>) \<and> keeps (jsi_env j) e0 \<and>
    napi_create_reference V (Some v) n True e0 = Inr (napi_ok, Some r, e) \<and> pv_value pv \<noteq> None \<and>
    (pointerKind pv = KObject \<longrightarrow> e0 = jsi_env j \<and> pv_value pv = Some v \<and> n = 1)"
proof -
  obtain w where w: "pv_value pv = Some w" using assms(1,3) by (auto simp: createNodeApiRef_def res_simps)
  consider "pointerKind pv = KObject" | "pointerKind pv = KWeakObject" | "pointerKind pv \<noteq> KObject" "pointerKind pv \<noteq> KWeakObject"
    by blast
  then show ?thesis
  proof cases
    case 1
    then obtain r e where c: "napi_create_reference V (Some w) 1 True (jsi_env j) = Inr (napi_ok, r, e)"
      "j' = set_pv p (pv\<lparr>pv_ref := r\<rparr>) (j\<lparr>jsi_env := e\<rparr>)"
      using assms(1,3) w by (auto simp: createNodeApiRef_def res_simps CHECK_NAPI_ok)
    then show ?thesis using create_reference_ok [OF c(1)] w keeps_updates(7) by blast
  next
    case 2
    then obtain r e where c: "napi_create_reference V (Some w) 0 True (jsi_env j) = Inr (napi_ok, r, e)"
      "j' = set_pv p (pv\<lparr>pv_ref := r\<rparr>) (j\<lparr>jsi_env := e\<rparr>)"
      using assms(1,3) w by (auto simp: createNodeApiRef_def res_simps CHECK_NAPI_ok)
    then show ?thesis using create_reference_ok [OF c(1)] w 2 keeps_updates(7) by fastforce
  next
    case 3
    then obtain obj e1 out e2 r e where c: "napi_create_object V True (jsi_env j) = Inr (napi_ok, obj, e1)"
      "napi_set_named_property V obj (Some kPrimitivePropertyName) (Some w) e1 = Inr (napi_ok, out, e2)"
      "napi_create_reference V obj 1 True e2 = Inr (napi_ok, r, e)"
      "j' = set_pv p (pv\<lparr>pv_ref := r\<rparr>) (j\<lparr>jsi_env := e\<rparr>)"
      using assms(1,3) w by (auto simp: createNodeApiRef_def res_simps CHECK_NAPI_ok)
    obtain v where v: "obj = Some v" using c(3) by (cases obj) (auto simp: napi_create_reference_def guard_defs check_def split: if_splits)
    have "keeps (jsi_env j) e2"
      using keeps_trans [OF keeps_apiD [OF keeps_named_property(3) [OF assms(2)] c(1)] keeps_apiD [OF keeps_named_property(1) [OF assms(2)] c(2)]] .
    then show ?thesis using create_reference_ok [OF c(3) [unfolded v]] c(3,4) v w 3 by blast
  qed
qed

text \<open>A pointer of the closed scope loses its handle; it keeps a reference if it is still held.\<close>

lemma deleteStackValue_ok:
  assumes "deleteStackValue V p j = Inr j'" "engine_keeps_refs V" "pointers_ok S Q j" "p \<in> S"
  shows "pointers_ok (S - {p}) Q j' \<and> (\<exists>pv. pointer_values j p = Some pv \<and> \<not> canBeDeletedFromStack pv)"
proof -
  obtain pv where pv: "pointer_values j p = Some pv" "pv_value pv \<noteq> None" "\<not> canBeDeletedFromStack pv"
    using assms(1) by (auto simp: deleteStackValue_def res_simps Let_def split: if_splits)
  note ok = pointers_okD [OF assms(3) pv(1)]
  have inv: "ref_inv (jsi_env j)" "owns (owned_ref j) (alive_refs (jsi_env j))" using assms(3) by (auto simp: pointers_ok_def)
  have or: "owned_ref j p = pv_ref pv" using pv(1) by (simp add: owned_ref_def)
  show ?thesis
  proof (cases "refCount pv \<noteq> 0 \<and> pv_ref pv = None")
    case True
    then obtain j1 where j1: "createNodeApiRef V p j = Inr j1"
      "\<exists>pv2. pointer_values j1 p = Some pv2 \<and> j' = set_pv p (pv2\<lparr>pv_value := None\<rparr>) j1"
      using assms(1) pv by (auto simp: deleteStackValue_def res_simps Let_def)
    from createNodeApiRef_ok [OF j1(1) assms(2) pv(1)] obtain e0 v n r e where
      c: "j1 = set_pv p (pv\<lparr>pv_ref := Some r\<rparr>) (j\<lparr>jsi_env := e\<rparr>)" "keeps (jsi_env j) e0"
      "napi_create_reference V (Some v) n True e0 = Inr (napi_ok, Some r, e)" by blast
    have e0: "ref_inv e0" "owns (owned_ref j) (alive_refs e0)" using c(2) inv owns_mono unfolding keeps_def by blast+
    have "owns ((owned_ref j)(p \<mapsto> r)) (alive_refs e)" "ref_inv e"
      using napi.owns_create [OF e0(2,1)] napi.create_fresh [OF e0(1)] c(3) by blast+
    moreover have "pv_ok (S - {p}) Q p (pv\<lparr>pv_ref := Some r, pv_value := None\<rparr>)"
      using ok(1) True pv(3) by (auto simp: pv_ok_def)
    ultimately have "pointers_ok (S - {p}) Q (set_pv p (pv\<lparr>pv_ref := Some r, pv_value := None\<rparr>) (j\<lparr>jsi_env := e\<rparr>))"
      using assms(3) pv(1) by (intro pointers_ok_update [of S Q]) auto
    then show ?thesis using j1(2) c(1) pv by (simp add: set_pv_def)
  next
    case False
    then have j': "j' = set_pv p (pv\<lparr>pv_value := None\<rparr>) j"
      using assms(1) pv by (auto simp: deleteStackValue_def res_simps Let_def)
    have "pv_ok (S - {p}) Q p (pv\<lparr>pv_value := None\<rparr>)" using ok(1) False pv(3) by (auto simp: pv_ok_def)
    then have "pointers_ok (S - {p}) Q (set_pv p (pv\<lparr>pv_value := None\<rparr>) (j\<lparr>jsi_env := jsi_env j\<rparr>))"
      using assms(3) pv(1) inv owns_same [OF inv(2) or] by (intro pointers_ok_update [of S Q]) auto
    then show ?thesis using j' pv by simp
  qed
qed

lemma deleteNodeApiRef_ok:
  assumes "deleteNodeApiRef p j = Inr j'" "pointers_ok S Q j" "p \<in> Q"
  shows "pointers_ok S (Q - {p}) j'"
proof -
  obtain pv where pv: "pointer_values j p = Some pv" using assms(1) by (auto simp: deleteNodeApiRef_def res_simps)
  note ok = pointers_okD [OF assms(2) pv]
  have z: "refCount pv = 0" "\<not> canBeDeletedFromStack pv" using ok(1) assms(3) by (auto simp: pv_ok_def)
  have inv: "ref_inv (jsi_env j)" "owns (owned_ref j) (alive_refs (jsi_env j))" using assms(2) by (auto simp: pointers_ok_def)
  obtain e where e: "owns ((owned_ref j)(p := None)) (alive_refs e)" "ref_inv e"
    "j' = (if pv_value pv \<noteq> None then set_pv p (pv\<lparr>pv_ref := None, canBeDeletedFromStack := True\<rparr>) (j\<lparr>jsi_env := e\<rparr>)
           else delete_pv p (set_pv p (pv\<lparr>pv_ref := None\<rparr>) (j\<lparr>jsi_env := e\<rparr>)))"
  proof (cases "pv_ref pv")
    case None
    then have "pv\<lparr>pv_ref := None, canBeDeletedFromStack := True\<rparr> = pv\<lparr>canBeDeletedFromStack := True\<rparr>"
      "j\<lparr>jsi_env := jsi_env j\<rparr> = j" by (cases pv, simp, cases j, simp)
    moreover have "j' = (if pv_value pv \<noteq> None then set_pv p (pv\<lparr>canBeDeletedFromStack := True\<rparr>) j else delete_pv p j)"
      using assms(1) pv None by (simp add: deleteNodeApiRef_def)
    ultimately show ?thesis using that [OF owns_drop [OF inv(2)] inv(1)] by (simp only: delete_set_pv)
  next
    case (Some r)
    then obtain out e where d: "napi_delete_reference (Some r) (jsi_env j) = Inr (napi_ok, out, e)"
      "j' = (if pv_value pv \<noteq> None then set_pv p (pv\<lparr>pv_ref := None, canBeDeletedFromStack := True\<rparr>) (j\<lparr>jsi_env := e\<rparr>)
           else delete_pv p (set_pv p (pv\<lparr>pv_ref := None\<rparr>) (j\<lparr>jsi_env := e\<rparr>)))"
      using assms(1) pv by (auto simp: deleteNodeApiRef_def res_simps CHECK_NAPI_ok set_pv_def split: if_splits)
    have "owned_ref j p = Some r" using Some pv by (simp add: owned_ref_def)
    then show ?thesis using that d napi.owns_delete [OF inv(2,1)] napi.delete_one [OF inv(1)] by blast
  qed
  show ?thesis
  proof (cases "pv_value pv")
    case None
    then have "pointers_ok S Q (set_pv p (pv\<lparr>pv_ref := None\<rparr>) (j\<lparr>jsi_env := e\<rparr>))"
      using assms(2) pv e(1,2) ok(1) z by (intro pointers_ok_update [of S Q]) (auto simp: pv_ok_def)
    moreover have "p \<notin> S" using None ok(1) by (simp add: pv_ok_def)
    ultimately have "pointers_ok S (Q - {p}) (delete_pv p (set_pv p (pv\<lparr>pv_ref := None\<rparr>) (j\<lparr>jsi_env := e\<rparr>)))"
      by (intro pointers_ok_delete [of S Q _ p "pv\<lparr>pv_ref := None\<rparr>"]) auto
    then show ?thesis using e(3) None by simp
  next
    case (Some v)
    then have "pv_ok S (Q - {p}) p (pv\<lparr>pv_ref := None, canBeDeletedFromStack := True\<rparr>)"
      using ok(1) z by (auto simp: pv_ok_def)
    then show ?thesis using e Some assms(2) pv by (auto intro!: pointers_ok_update [of S Q])
  qed
qed

text \<open>What the operations on a pointer leave alone.\<close>

definition same_lists :: "('v, 'h, 'x) jsi_scheme \<Rightarrow> ('v, 'h, 'x) jsi_scheme \<Rightarrow> bool" where
  "same_lists j j' \<longleftrightarrow> stackScopes j' = stackScopes j \<and> stackValues j' = stackValues j \<and> pool j' = pool j \<and>
     poolSelector j' = poolSelector j \<and> next_pv j' = next_pv j"

definition only_at :: "nat \<Rightarrow> ('v, 'h, 'x) jsi_scheme \<Rightarrow> ('v, 'h, 'x) jsi_scheme \<Rightarrow> bool" where
  "only_at p j j' \<longleftrightarrow> same_lists j j' \<and> (\<forall>q. q \<noteq> p \<longrightarrow> pointer_values j' q = pointer_values j q)"

lemma createNodeApiRef_only:
  assumes "createNodeApiRef V p j = Inr j'"
  shows "only_at p j j'"
  using assms by (auto simp: createNodeApiRef_def res_simps CHECK_NAPI_ok only_at_def same_lists_def split: if_splits)

lemma deleteStackValue_only:
  assumes "deleteStackValue V p j = Inr j'"
  shows "only_at p j j'"
proof -
  have "createNodeApiRef V p j = Inr j1 \<Longrightarrow> only_at p j (set_pv p pv j1)" for j1 pv
    using createNodeApiRef_only [of V p j j1] by (auto simp: only_at_def same_lists_def)
  then show ?thesis
    using assms by (auto simp: deleteStackValue_def res_simps Let_def only_at_def same_lists_def split: if_splits)
qed

lemma deleteNodeApiRef_only: "deleteNodeApiRef p j = Inr j' \<Longrightarrow> only_at p j j'"
  by (auto simp: deleteNodeApiRef_def res_simps CHECK_NAPI_ok only_at_def same_lists_def split: if_splits)

lemma for_each_stack:
  assumes "for_each (deleteStackValue V) ps j = Inr j'" "engine_keeps_refs V" "pointers_ok S Q j" "set ps \<subseteq> S" "distinct ps"
  shows "pointers_ok (S - set ps) Q j' \<and> same_lists j j' \<and>
    (\<forall>p \<in> set ps. \<exists>pv. pointer_values j p = Some pv \<and> \<not> canBeDeletedFromStack pv) \<and>
    (\<forall>q. q \<notin> set ps \<longrightarrow> pointer_values j' q = pointer_values j q)"
  using assms
proof (induction ps arbitrary: j S)
  case (Cons p ps)
  then obtain j1 where j1: "deleteStackValue V p j = Inr j1" "for_each (deleteStackValue V) ps j1 = Inr j'"
    by (auto simp: res_simps)
  note d = deleteStackValue_ok [OF j1(1) Cons.prems(2,3)] and o = deleteStackValue_only [OF j1(1)]
  have "p \<in> S" "set ps \<subseteq> S - {p}" using Cons.prems(4,5) by auto
  with Cons.IH [OF j1(2) Cons.prems(2), of "S - {p}"] d Cons.prems(5)
  have IH: "pointers_ok (S - {p} - set ps) Q j'" "same_lists j1 j'"
    "\<forall>p \<in> set ps. \<exists>pv. pointer_values j1 p = Some pv \<and> \<not> canBeDeletedFromStack pv"
    "\<forall>q. q \<notin> set ps \<longrightarrow> pointer_values j' q = pointer_values j1 q" by auto
  have "S - {p} - set ps = S - set (p # ps)" by auto
  moreover have "\<forall>q \<in> set ps. pointer_values j1 q = pointer_values j q"
    using o Cons.prems(5) unfolding only_at_def by (metis distinct.simps(2))
  ultimately show ?case using IH d \<open>p \<in> S\<close> o by (auto simp: only_at_def same_lists_def)
qed (simp add: same_lists_def)

lemma for_each_queue:
  assumes "for_each deleteNodeApiRef ps j = Inr j'" "pointers_ok S Q j" "set ps \<subseteq> Q" "distinct ps"
  shows "pointers_ok S (Q - set ps) j' \<and> same_lists j j'"
  using assms
proof (induction ps arbitrary: j Q)
  case (Cons p ps)
  then obtain j1 where j1: "deleteNodeApiRef p j = Inr j1" "for_each deleteNodeApiRef ps j1 = Inr j'"
    by (auto simp: res_simps)
  have "p \<in> Q" "set ps \<subseteq> Q - {p}" using Cons.prems(3,4) by auto
  with Cons.IH [OF j1(2), of "Q - {p}"] deleteNodeApiRef_ok [OF j1(1) Cons.prems(2)] Cons.prems(4)
  have IH: "pointers_ok S (Q - {p} - set ps) j'" "same_lists j1 j'" by auto
  have "Q - {p} - set ps = Q - set (p # ps)" by auto
  then show ?case using IH deleteNodeApiRef_only [OF j1(1)] by (auto simp: only_at_def same_lists_def)
qed (simp add: same_lists_def)

lemma xor_one_twice [simp]: "(n XOR Suc 0) XOR Suc 0 = (n :: nat)"
  by (simp add: xor.assoc)

lemma pointers_ok_cong:
  "pointer_values j' = pointer_values j \<Longrightarrow> next_pv j' = next_pv j \<Longrightarrow> jsi_env j' = jsi_env j \<Longrightarrow>
    pointers_ok S Q j' = pointers_ok S Q j"
  by (simp add: pointers_ok_def owned_ref_def [abs_def])

lemma deletePointerValues_inv:
  assumes "deletePointerValues j = Inr j'" "jsi_inv j"
  shows "jsi_inv j' \<and> pool j' (poolSelector j') = [] \<and> stackValues j' = stackValues j \<and> stackScopes j' = stackScopes j"
proof (cases "pool j (poolSelector j) = []")
  case False
  let ?j1 = "j\<lparr>poolSelector := poolSelector j XOR 1\<rparr>" and ?q = "pool j (poolSelector j)"
  have x: "poolSelector j XOR 1 XOR 1 = poolSelector j" "poolSelector j XOR 1 \<in> {0, 1}" "poolSelector j XOR 1 \<noteq> poolSelector j"
    using assms(2) by (auto simp: jsi_inv_def)
  obtain j2 where j2: "for_each deleteNodeApiRef ?q ?j1 = Inr j2" "j' = j2\<lparr>pool := (pool j2)(poolSelector j := [])\<rparr>"
    using assms(1) False x(1) by (auto simp: deletePointerValues_def Let_def res_simps)
  have "pointers_ok (set (stackValues j)) (set ?q) ?j1" using assms(2) pointers_ok_cong [of ?j1 j] by (simp add: jsi_inv_def)
  from for_each_queue [OF j2(1) this] assms(2)
  have "pointers_ok (set (stackValues j)) {} j2" "same_lists ?j1 j2" by (auto simp: jsi_inv_def)
  then show ?thesis using j2(2) x assms(2) pointers_ok_cong [of j' j2]
    by (auto simp: jsi_inv_def same_lists_def)
qed (use assms in \<open>simp add: deletePointerValues_def\<close>)

lemma set_diff_drop: "distinct xs \<Longrightarrow> set xs - set (drop n xs) = set (take n xs)"
proof -
  assume "distinct xs"
  then have "set (take n xs) \<inter> set (drop n xs) = {}" by (rule set_take_disj_set_drop_if_distinct) simp
  moreover have "set xs = set (take n xs) \<union> set (drop n xs)" by (metis append_take_drop_id set_append)
  ultimately show ?thesis by auto
qed

lemma popPointerValueScope_inv:
  assumes "popPointerValueScope V j = Inr j'" "engine_keeps_refs V" "jsi_inv j"
  shows "jsi_inv j' \<and> pool j' (poolSelector j') = [] \<and> stackScopes j' = butlast (stackScopes j) \<and>
    stackValues j' = take (last (stackScopes j)) (stackValues j) \<and>
    (\<forall>p \<in> set (drop (last (stackScopes j)) (stackValues j)). \<exists>pv. pointer_values j p = Some pv \<and> \<not> canBeDeletedFromStack pv)"
proof -
  let ?n = "last (stackScopes j)" and ?j1 = "j\<lparr>stackScopes := butlast (stackScopes j)\<rparr>"
  obtain j2 where j2: "for_each (deleteStackValue V) (drop ?n (stackValues j)) ?j1 = Inr j2"
    "deletePointerValues (j2\<lparr>stackValues := take ?n (stackValues j2)\<rparr>) = Inr j'"
    using assms(1) by (auto simp: popPointerValueScope_def Let_def res_simps)
  have d: "distinct (stackValues j)" using assms(3) by (simp add: jsi_inv_def)
  note s = set_diff_drop [OF this]
  have "pointers_ok (set (stackValues j)) (set (pool j (poolSelector j))) ?j1"
    using assms(3) pointers_ok_cong [of ?j1 j] by (simp add: jsi_inv_def)
  from for_each_stack [OF j2(1) assms(2) this set_drop_subset] d
  have f: "pointers_ok (set (take ?n (stackValues j))) (set (pool j (poolSelector j))) j2" "same_lists ?j1 j2"
    "\<forall>p \<in> set (drop ?n (stackValues j)). \<exists>pv. pointer_values j p = Some pv \<and> \<not> canBeDeletedFromStack pv"
    unfolding s by auto
  let ?j2 = "j2\<lparr>stackValues := take ?n (stackValues j2)\<rparr>"
  have "jsi_inv ?j2" using f(1,2) assms(3) d pointers_ok_cong [of ?j2 j2] by (auto simp: jsi_inv_def same_lists_def)
  from deletePointerValues_inv [OF j2(2) this] show ?thesis using f(2,3) by (simp add: same_lists_def)
qed

lemma jsi_inv_env: "jsi_inv j \<Longrightarrow> keeps (jsi_env j) e \<Longrightarrow> jsi_inv (j\<lparr>jsi_env := e\<rparr>)"
  by (auto simp: jsi_inv_def pointers_ok_def keeps_def intro: owns_mono)

lemma set_pv_inv:
  assumes "jsi_inv j" "pointer_values j p = Some pv" "pv_ref pv' = pv_ref pv"
    and "pv_ok (set (stackValues j)) (set (pool j (poolSelector j))) p pv'"
  shows "jsi_inv (set_pv p pv' j)"
proof -
  have "owned_ref j p = pv_ref pv'" using assms(2,3) by (simp add: owned_ref_def)
  then have "pointers_ok (set (stackValues j)) (set (pool j (poolSelector j))) (set_pv p pv' (j\<lparr>jsi_env := jsi_env j\<rparr>))"
    using assms(1,2,4) by (intro pointers_ok_update) (auto simp: jsi_inv_def pointers_ok_def intro: owns_same)
  then show ?thesis using assms(1) by (simp add: jsi_inv_def)
qed

lemma jsi_invD:
  assumes "jsi_inv j" "pointer_values j p = Some pv"
  shows "pv_ok (set (stackValues j)) (set (pool j (poolSelector j))) p pv" "p < next_pv j"
  using assms by (auto simp: jsi_inv_def pointers_ok_def)

lemma make_inv:
  assumes "jsi_inv j" "1 \<le> n"
  shows "jsi_inv (snd (make v k n j))"
proof -
  let ?p = "next_pv j"
  have fresh: "pointer_values j ?p = None" using assms(1) unfolding jsi_inv_def pointers_ok_def by (metis less_irrefl not_None_eq)
  then have "?p \<notin> set (stackValues j)" "?p \<notin> set (pool j (poolSelector j))"
    using assms(1) unfolding jsi_inv_def pointers_ok_def by (metis UnI1, metis UnI2)
  note n = this
  moreover have "owned_ref j ?p = None" using fresh by (simp add: owned_ref_def)
  ultimately have q: "pv_ok (insert ?p (set (stackValues j))) Q q pv = pv_ok (set (stackValues j)) Q q pv" if "q \<noteq> ?p"
    for q Q and pv :: "'a NodeApiRefCountedPointerValue" using that by (intro pv_ok_cong) auto
  have "owns ((owned_ref j)(?p := None)) (alive_refs (jsi_env j))" using assms(1) owns_drop by (auto simp: jsi_inv_def pointers_ok_def)
  moreover have "pv_ok (insert ?p (set (stackValues j))) (set (pool j (poolSelector j))) ?p
      \<lparr>pv_value = Some v, pv_ref = None, refCount = n, pointerKind = k, canBeDeletedFromStack = False\<rparr>"
    using assms(2) n by (simp add: pv_ok_def)
  ultimately have "pointers_ok (insert ?p (set (stackValues j))) (set (pool j (poolSelector j))) (snd (make v k n j))"
    using assms(1) q n fresh by (auto simp: make_def addStackValue_def pointers_ok_def Let_def less_Suc_eq jsi_inv_def)
  then show ?thesis using assms(1) n by (auto simp: make_def addStackValue_def jsi_inv_def Let_def)
qed

lemma clone_inv:
  assumes "clone p j = Inr j'" "jsi_inv j"
  shows "jsi_inv j'"
proof -
  obtain pv where pv: "pointer_values j p = Some pv" "0 < refCount pv" "j' = set_pv p (pv\<lparr>refCount := refCount pv + 1\<rparr>) j"
    using assms(1) by (auto simp: clone_def incRefCount_def res_simps)
  then show ?thesis using jsi_invD(1) [OF assms(2) pv(1)] assms(2) by (auto intro!: set_pv_inv simp: pv_ok_def)
qed

lemma invalidate_inv:
  assumes "invalidate p j = Inr j'" "jsi_inv j"
  shows "jsi_inv j'"
proof -
  let ?n = "\<lambda>pv. refCount pv - 1" and ?S = "set (stackValues j)" and ?Q = "set (pool j (poolSelector j))"
  obtain pv where pv: "pointer_values j p = Some pv" "0 < refCount pv"
    "j' = (if ?n pv = 0 then addPointerValueToDelete p (set_pv p (pv\<lparr>refCount := ?n pv\<rparr>) j) else set_pv p (pv\<lparr>refCount := ?n pv\<rparr>) j)"
    using assms(1) by (auto simp: invalidate_def decRefCount_def res_simps Let_def)
  note ok = jsi_invD(1) [OF assms(2) pv(1)]
  show ?thesis
  proof (cases "?n pv = 0")
    case False
    then show ?thesis using ok pv assms(2) by (auto intro!: set_pv_inv simp: pv_ok_def)
  next
    case True
    have n: "p \<notin> ?Q" using ok pv(2) by (simp add: pv_ok_def)
    have "owned_ref j p = pv_ref pv" using pv(1) by (simp add: owned_ref_def)
    moreover have "pv_ok ?S (insert p ?Q) p (pv\<lparr>refCount := ?n pv\<rparr>)" using ok pv(2) True by (auto simp: pv_ok_def)
    ultimately have "pointers_ok ?S (insert p ?Q) (set_pv p (pv\<lparr>refCount := ?n pv\<rparr>) (j\<lparr>jsi_env := jsi_env j\<rparr>))"
      using assms(2) pv(1) by (intro pointers_ok_update [of ?S ?Q]) (auto simp: jsi_inv_def pointers_ok_def intro: owns_same)
    then show ?thesis using pv(3) True n assms(2) pointers_ok_cong [of j' "set_pv p (pv\<lparr>refCount := ?n pv\<rparr>) j"]
      by (auto simp: jsi_inv_def addPointerValueToDelete_def)
  qed
qed

lemma keeps_get_reference_value: "keeps_api (napi_get_reference_value r b)"
  unfolding napi_get_reference_value_def
  by (rule keeps_intros)+ (auto simp: keeps_api_def with_reference_def succeed_def split: option.splits tracker.splits)

lemma getValue_ref:
  assumes "getValue V p j = Inr (v, j')" "engine_keeps_refs V" "pointer_values j p = Some pv" "pv_value pv = None" "pv_ref pv = Some r"
  shows "\<exists>e. keeps (jsi_env j) e \<and>
    j' = (if v \<noteq> None then addStackValue p else id) (set_pv p (pv\<lparr>pv_value := v\<rparr>) (j\<lparr>jsi_env := e\<rparr>))"
proof (cases "pointerKind pv = KObject \<or> pointerKind pv = KWeakObject")
  case True
  then obtain w e where "napi_get_reference_value (Some r) True (jsi_env j) = Inr (napi_ok, w, e)"
    "j' = (if v \<noteq> None then addStackValue p else id) (set_pv p (pv\<lparr>pv_value := v\<rparr>) (j\<lparr>jsi_env := e\<rparr>))"
    using assms by (auto simp: getValue_def res_simps CHECK_NAPI_ok Let_def)
  then show ?thesis using keeps_apiD [OF keeps_get_reference_value] by blast
next
  case False
  then obtain w e1 e where w: "napi_get_reference_value (Some r) True (jsi_env j) = Inr (napi_ok, w, e1)"
    "napi_get_named_property V (Option.bind w id) (Some kPrimitivePropertyName) True e1 = Inr (napi_ok, v, e)"
    "j' = (if v \<noteq> None then addStackValue p else id) (set_pv p (pv\<lparr>pv_value := v\<rparr>) (j\<lparr>jsi_env := e\<rparr>))"
    using assms by (auto simp: getValue_def res_simps CHECK_NAPI_ok Let_def)
  then show ?thesis
    using keeps_trans [OF keeps_apiD [OF keeps_get_reference_value w(1)] keeps_apiD [OF keeps_named_property(2) [OF assms(2)] w(2)]]
    by blast
qed

lemma getValue_inv:
  assumes "getValue V p j = Inr (v, j')" "engine_keeps_refs V" "jsi_inv j"
  shows "jsi_inv j'"
proof -
  let ?S = "set (stackValues j)" and ?Q = "set (pool j (poolSelector j))"
  obtain pv where pv: "pointer_values j p = Some pv" using assms(1) by (auto simp: getValue_def res_simps)
  note ok = jsi_invD(1) [OF assms(3) pv]
  show ?thesis
  proof (cases "pv_value pv \<noteq> None \<or> pv_ref pv = None")
    case True
    then show ?thesis using assms(1,3) pv by (auto simp: getValue_def split: if_splits)
  next
    case False
    then obtain e where e: "keeps (jsi_env j) e"
      "j' = (if v \<noteq> None then addStackValue p else id) (set_pv p (pv\<lparr>pv_value := v\<rparr>) (j\<lparr>jsi_env := e\<rparr>))"
      using getValue_ref [OF assms(1,2) pv] by auto
    let ?S' = "if v \<noteq> None then insert p ?S else ?S"
    have n: "p \<notin> ?S" using ok False by (auto simp: pv_ok_def)
    have "owned_ref j p = pv_ref pv" using pv by (simp add: owned_ref_def)
    moreover have "pv_ok ?S' ?Q p (pv\<lparr>pv_value := v\<rparr>)" using ok False by (auto simp: pv_ok_def)
    moreover have "owns (owned_ref j) (alive_refs e)" "ref_inv e"
      using e(1) assms(3) by (auto simp: keeps_def jsi_inv_def pointers_ok_def intro: owns_mono)
    ultimately have "pointers_ok ?S' ?Q (set_pv p (pv\<lparr>pv_value := v\<rparr>) (j\<lparr>jsi_env := e\<rparr>))"
      using assms(3) pv by (intro pointers_ok_update [of ?S ?Q]) (auto simp: jsi_inv_def intro: owns_same)
    then show ?thesis using e(2) n assms(3) pointers_ok_cong [of j' "set_pv p (pv\<lparr>pv_value := v\<rparr>) (j\<lparr>jsi_env := e\<rparr>)"]
      by (auto simp: jsi_inv_def addStackValue_def split: if_splits)
  qed
qed

lemma createNodeApiRef_inv:
  assumes "createNodeApiRef V p j = Inr j'" "engine_keeps_refs V" "jsi_inv j" "pointer_values j p = Some pv" "0 < refCount pv"
  shows "jsi_inv j'"
proof -
  let ?S = "set (stackValues j)" and ?Q = "set (pool j (poolSelector j))"
  note ok = jsi_invD(1) [OF assms(3,4)]
  have inv: "ref_inv (jsi_env j)" "owns (owned_ref j) (alive_refs (jsi_env j))" using assms(3) by (auto simp: jsi_inv_def pointers_ok_def)
  from createNodeApiRef_ok [OF assms(1,2,4)] obtain e0 v n r e where
    c: "j' = set_pv p (pv\<lparr>pv_ref := Some r\<rparr>) (j\<lparr>jsi_env := e\<rparr>)" "keeps (jsi_env j) e0"
    "napi_create_reference V (Some v) n True e0 = Inr (napi_ok, Some r, e)" by blast
  have e0: "ref_inv e0" "owns (owned_ref j) (alive_refs e0)" using c(2) inv owns_mono unfolding keeps_def by blast+
  have "owns ((owned_ref j)(p \<mapsto> r)) (alive_refs e)" "ref_inv e"
    using napi.owns_create [OF e0(2,1)] napi.create_fresh [OF e0(1)] c(3) by blast+
  moreover have "pv_ok ?S ?Q p (pv\<lparr>pv_ref := Some r\<rparr>)" using ok assms(5) by (auto simp: pv_ok_def)
  ultimately have "pointers_ok ?S ?Q j'"
    unfolding c(1) using assms(3,4) by (intro pointers_ok_update [of ?S ?Q]) (auto simp: jsi_inv_def)
  then show ?thesis using assms(3) c(1) by (simp add: jsi_inv_def)
qed

lemma makeNodeApiRef_inv:
  assumes "makeNodeApiRef V v k n j = Inr (p, j')" "engine_keeps_refs V" "jsi_inv j" "1 \<le> n"
  shows "jsi_inv j'"
proof -
  have "createNodeApiRef V (next_pv j) (snd (make v k n j)) = Inr j'"
    using assms(1) by (auto simp: makeNodeApiRef_def make_def Let_def res_simps)
  then show ?thesis using createNodeApiRef_inv [OF _ assms(2) make_inv [OF assms(3,4)]] assms(4)
    by (auto simp: make_def addStackValue_def Let_def)
qed

section \<open>Reachable states\<close>

definition jsi_new :: "('v, 'h) napi_env \<Rightarrow> ('v, 'h) jsi" where
  "jsi_new e = \<lparr>jsi_env = e, stackScopes = [], stackValues = [], pointer_values = Map.empty, next_pv = 0,
     pool = (\<lambda>_. []), poolSelector = 0\<rparr>"

text \<open>
  The operations in any order. Pointers are released on any thread, hence between any two steps of the JavaScript
  thread; \<open>js_other\<close> is other activity on the environment, a garbage collection included, that does not delete
  references.
\<close>

inductive jsi_reach :: "('v, 'h) v8 \<Rightarrow> ('v, 'h) jsi \<Rightarrow> bool" for V where
  js_new: "ref_inv e \<Longrightarrow> jsi_reach V (jsi_new e)"
| js_make: "jsi_reach V j \<Longrightarrow> 1 \<le> n \<Longrightarrow> jsi_reach V (snd (make v k n j))"
| js_makeRef: "jsi_reach V j \<Longrightarrow> 1 \<le> n \<Longrightarrow> makeNodeApiRef V v k n j = Inr (p, j') \<Longrightarrow> jsi_reach V j'"
| js_clone: "jsi_reach V j \<Longrightarrow> clone p j = Inr j' \<Longrightarrow> jsi_reach V j'"
| js_invalidate: "jsi_reach V j \<Longrightarrow> invalidate p j = Inr j' \<Longrightarrow> jsi_reach V j'"
| js_getValue: "jsi_reach V j \<Longrightarrow> getValue V p j = Inr (w, j') \<Longrightarrow> jsi_reach V j'"
| js_push: "jsi_reach V j \<Longrightarrow> jsi_reach V (pushPointerValueScope j)"
| js_pop: "jsi_reach V j \<Longrightarrow> popPointerValueScope V j = Inr j' \<Longrightarrow> jsi_reach V j'"
| js_other: "jsi_reach V j \<Longrightarrow> keeps (jsi_env j) e \<Longrightarrow> jsi_reach V (j\<lparr>jsi_env := e\<rparr>)"

lemma jsi_new_inv: "ref_inv e \<Longrightarrow> jsi_inv (jsi_new e)"
  by (simp add: jsi_inv_def jsi_new_def pointers_ok_def owns_def owned_ref_def)

lemma push_inv: "jsi_inv j \<Longrightarrow> jsi_inv (pushPointerValueScope j)"
  using pointers_ok_cong [of "pushPointerValueScope j" j] by (simp add: jsi_inv_def pushPointerValueScope_def)

lemma jsi_reach_inv:
  assumes "jsi_reach V j" "engine_keeps_refs V"
  shows "jsi_inv j"
  using assms
  by (induction rule: jsi_reach.induct)
    (blast intro: jsi_new_inv make_inv makeNodeApiRef_inv clone_inv invalidate_inv getValue_inv push_inv jsi_inv_env
      dest: popPointerValueScope_inv)+

lemma pv_okD:
  assumes "pv_ok S Q p pv"
  shows "if 0 < refCount pv then p \<notin> Q \<and> (p \<in> S \<or> pv_ref pv \<noteq> None) else p \<in> Q \<or> canBeDeletedFromStack pv \<and> p \<in> S"
  using assms unfolding pv_ok_def by (cases "0 < refCount pv") (simp_all, blast+)


lemma plain_engine_keeps: "engine_keeps_refs plain_engine"
  by (auto simp: engine_keeps_refs_def plain_engine_def)

lemma env0_inv: "ref_inv env0"
  by (simp add: env0_def napi_env_new_def ref_inv_def linked_def)


text \<open>
  C33: Closing a scope cannot succeed when one of its pointers has been released and its deletion has been postponed
  to the stack: \<open>deleteStackValue\<close> uses the pointer after deleting it.
\<close>

theorem scope_end_use_after_free:
  assumes "engine_keeps_refs V" "jsi_reach V j" "p \<in> set (drop (last (stackScopes j)) (stackValues j))"
    and "pointer_values j p = Some pv" "canBeDeletedFromStack pv"
  shows "popPointerValueScope V j \<noteq> Inr j'"
  using popPointerValueScope_inv [of V j j'] jsi_reach_inv [OF assms(2,1)] assms by fastforce

text \<open>A pointer is made in a scope and released; an inner scope opens and closes.\<close>

definition postponed :: "(nat, nat) jsi" where
  "postponed = \<lparr>jsi_env = env0, stackScopes = [0], stackValues = [0],
     pointer_values = [0 \<mapsto> \<lparr>pv_value = Some 3, pv_ref = None, refCount = 0, pointerKind = KObject, canBeDeletedFromStack = True\<rparr>],
     next_pv = 1, pool = (\<lambda>_. []), poolSelector = 1\<rparr>"

lemma postponed_reach: "jsi_reach plain_engine postponed"
proof -
  let ?j1 = "snd (make 3 KObject 1 (pushPointerValueScope (jsi_new env0)))"
  have 1: "jsi_reach plain_engine ?j1" by (intro js_make js_push js_new env0_inv) simp
  obtain j2 where 2: "invalidate 0 ?j1 = Inr j2"
    by (simp add: invalidate_def decRefCount_def make_def addStackValue_def jsi_new_def pushPointerValueScope_def Let_def)
  have "popPointerValueScope plain_engine (pushPointerValueScope j2) = Inr postponed"
    using 2 by (auto simp: invalidate_def decRefCount_def make_def addStackValue_def jsi_new_def pushPointerValueScope_def Let_def
      popPointerValueScope_def deletePointerValues_def deleteNodeApiRef_def addPointerValueToDelete_def set_pv_def postponed_def fun_eq_iff)
  then show ?thesis using js_pop [OF js_push [OF js_invalidate [OF 1 2]]] by simp
qed

theorem scope_end_use_after_free_witness:
  "jsi_reach plain_engine postponed \<and> (\<forall>j'. popPointerValueScope plain_engine postponed \<noteq> Inr j')"
  using scope_end_use_after_free [OF plain_engine_keeps postponed_reach, of 0] postponed_reach by (simp add: postponed_def)

text \<open>
  When the scope of an object that is still held ends, its handle is replaced by a reference and the
  pointer goes on yielding the same object, also when the object is only held weakly.
\<close>

theorem handle_to_reference:
  assumes "engine_keeps_refs V" "jsi_reach V j" "pointer_values j p = Some pv" "pv_value pv = Some v" "pv_ref pv = None"
    and "0 < refCount pv" "pointerKind pv = KObject \<or> pointerKind pv = KWeakObject" "Is V tObject v" "CheckGCAccess (jsi_env j)"
  shows "\<exists>j1 j2. deleteStackValue V p j = Inr j1 \<and> getValue V p j1 = Inr (Some v, j2) \<and>
    Option.bind (pointer_values j1 p) pv_value = None"
proof -
  have c: "\<not> canBeDeletedFromStack pv"
    using jsi_invD(1) [OF jsi_reach_inv [OF assms(2,1)] assms(3)] assms(6) by (simp add: pv_ok_def)
  let ?n = "if pointerKind pv = KObject then 1 else 0" and ?r = "next_tracker (jsi_env j)"
  let ?e = "napi_clear_last_error (snd (Reference_New V v ?n kUserland (jsi_env j)))"
  have cr: "napi_create_reference V (Some v) ?n True (jsi_env j) = Inr (napi_ok, Some ?r, ?e)"
    using assms(8,9) by (simp add: napi_create_reference_def guard_defs Reference_New_def new_tracker_def)
  let ?j1 = "set_pv p (pv\<lparr>pv_ref := Some ?r, pv_value := None\<rparr>) (j\<lparr>jsi_env := ?e\<rparr>)"
  have "createNodeApiRef V p j = Inr (set_pv p (pv\<lparr>pv_ref := Some ?r\<rparr>) (j\<lparr>jsi_env := ?e\<rparr>))"
    using assms(3-5,7) cr by (auto simp: createNodeApiRef_def CHECK_NAPI_ELSE_CRASH_def)
  then have d: "deleteStackValue V p j = Inr ?j1"
    using assms(3-6) c by (simp add: deleteStackValue_def Let_def set_pv_def)
  have t: "\<exists>ref. trackers ?e ?r = Some (TReference ref) \<and> persistent ref = Some v" "CheckGCAccess ?e"
    using assms(8,9) by (auto simp: Reference_New_def new_tracker_def LinkRef_def napi_clear_last_error_def Reference_init_def
      SetWeak_def CanBeHeldWeakly_def CheckGCAccess_def Let_def)
  then have "napi_get_reference_value (Some ?r) True ?e = Inr (napi_ok, Some (Some v), napi_clear_last_error ?e)"
    by (auto simp: napi_get_reference_value_def guard_defs with_reference_def)
  then show ?thesis using d assms(7) by (auto simp: getValue_def CHECK_NAPI_ELSE_CRASH_def Let_def)
qed

theorem handle_to_reference_witness:
  "\<exists>j1 j2. deleteStackValue plain_engine 0 (snd (make 3 KObject 1 (jsi_new env0))) = Inr j1 \<and> getValue plain_engine 0 j1 = Inr (Some 3, j2)"
proof -
  let ?j = "snd (make 3 KObject 1 (jsi_new env0))"
  let ?pv = "\<lparr>pv_value = Some 3, pv_ref = None, refCount = 1, pointerKind = KObject, canBeDeletedFromStack = False\<rparr>"
  have "pointer_values ?j 0 = Some ?pv" "CheckGCAccess (jsi_env ?j)"
    by (simp_all add: make_def addStackValue_def jsi_new_def Let_def env0_ready)
  then show ?thesis
    using handle_to_reference [OF plain_engine_keeps js_make [OF js_new [OF env0_inv], where n = 1 and v = 3 and k = KObject], of 0 ?pv 3]
    by (auto simp: plain_engine_def)
qed

end
