(* ===== verification/Jsi_Contract.thy ===== *)
theory Jsi_Contract
  imports Jsi_Runtime Jsi_Pointer_Safety
begin

text \<open>
  The contract of the methods of the JSI runtime, and the rules by which it is proved. A method is \<open>tidy\<close> when it
  starts without a pending exception in the environment and leaves none behind, normally or by a C++ exception, and
  when it restores the pointer scopes, the flag \<^verbatim>\<open>hasPendingJSError_\<close> and \<^verbatim>\<open>sourceURL_\<close>; handles may be
  added to the stack of the current scope. It is \<open>neat\<close> when it adds none.
\<close>

section \<open>Contracts\<close>

definition framed :: "('v, 'h) jsi_rt \<Rightarrow> ('v, 'h) jsi_rt \<Rightarrow> bool" where
  "framed j j' \<longleftrightarrow> last_exception (jsi_env j') = None \<and> stackScopes j' = stackScopes j \<and>
     (\<exists>l. stackValues j' = stackValues j @ l) \<and>
     hasPendingJSError j' = hasPendingJSError j \<and> sourceURL j' = sourceURL j"

definition settled :: "('v, 'h) jsi_rt \<Rightarrow> bool" where
  "settled j \<longleftrightarrow> last_exception (jsi_env j) = None"

definition tidy :: "('v, 'h, 'a) jsi_m \<Rightarrow> bool" where
  "tidy m \<longleftrightarrow> (\<forall>j r j'. settled j \<longrightarrow> m j = Inr (r, j') \<longrightarrow> framed j j')"

definition neat :: "('v, 'h, 'a) jsi_m \<Rightarrow> bool" where
  "neat m \<longleftrightarrow> (\<forall>j r j'. settled j \<longrightarrow> m j = Inr (r, j') \<longrightarrow> framed j j' \<and> stackValues j' = stackValues j)"

text \<open>What is asked of an API function: an ok leaves no new exception.\<close>

definition calm_ok :: "('v, 'h, 'a) api \<Rightarrow> bool" where
  "calm_ok f \<longleftrightarrow> (\<forall>e out e'. last_exception e = None \<longrightarrow> f e = Inr (napi_ok, out, e') \<longrightarrow> last_exception e' = None)"

text \<open>What is asked of the surroundings: the engine keeps its contract, host code that JavaScript calls balances the
  scopes and the flags (as the callbacks of the library do), and the constructor of \<^verbatim>\<open>jsi::JSError\<close> is tidy.\<close>

definition host_ok :: "(('v, 'h) jsi_rt \<Rightarrow> ('v, 'h) napi_env \<Rightarrow> ('v, 'h) jsi_rt) \<Rightarrow> bool" where
  "host_ok re \<longleftrightarrow> (\<forall>j e. jsi_env (re j e) = e \<and> stackScopes (re j e) = stackScopes j \<and> stackValues (re j e) = stackValues j \<and>
     hasPendingJSError (re j e) = hasPendingJSError j \<and> sourceURL (re j e) = sourceURL j)"

definition library_ok :: "('v jsi_value \<Rightarrow> ('v, 'h, string) jsi_m) \<Rightarrow> bool" where
  "library_ok je \<longleftrightarrow> (\<forall>v. tidy (je v))"

text \<open>A thrower starts in any state of the environment.\<close>

definition settles :: "(napi_status \<Rightarrow> ('v, 'h) jsi_rt \<Rightarrow> ('v jsi_exception \<times> ('v, 'h) jsi_rt) res) \<Rightarrow> bool" where
  "settles t \<longleftrightarrow> (\<forall>st j x j'. t st j = Inr (x, j') \<longrightarrow> framed j j')"

definition ctx_ok :: "('v, 'h) jsi_ctx \<Rightarrow> bool" where
  "ctx_ok C \<longleftrightarrow> engine_ok (engine C) \<and> host_ok (reenter C) \<and> library_ok (js_error C) \<and> settles (on_error C)"

named_theorems tidy_intros \<open>rules for the contract of JSI methods\<close>

lemma framed_refl: "settled j \<Longrightarrow> framed j j"
  by (simp add: framed_def settled_def)

lemma framed_settled: "framed j j' \<Longrightarrow> settled j'"
  by (simp add: framed_def settled_def)

lemma framed_trans: "framed a b \<Longrightarrow> framed b c \<Longrightarrow> framed a c"
  by (auto simp: framed_def)

lemma tidyI: "(\<And>j r j'. settled j \<Longrightarrow> m j = Inr (r, j') \<Longrightarrow> framed j j') \<Longrightarrow> tidy m"
  by (simp add: tidy_def)

lemma tidyD: "tidy m \<Longrightarrow> settled j \<Longrightarrow> m j = Inr (r, j') \<Longrightarrow> framed j j'"
  by (simp add: tidy_def)

lemma neat_tidy: "neat m \<Longrightarrow> tidy m"
  by (auto simp: neat_def tidy_def)

section \<open>Rules for control flow\<close>

lemma tidy_return [tidy_intros]: "tidy (return x)"
  by (auto intro!: tidyI framed_refl simp: return_def)

lemma tidy_throw [tidy_intros]: "tidy (throw x)" "tidy (throwNativeException msg)"
  by (auto intro!: tidyI framed_refl simp: throw_def throwNativeException_def)

lemma tidy_gets [tidy_intros]: "tidy (gets f)"
  by (auto intro!: tidyI framed_refl simp: gets_def)

lemma tidy_deref [tidy_intros]: "tidy (deref_m x)" "tidy (arg args i)" "tidy (crash_unless b)"
  by (auto intro!: tidyI framed_refl simp: deref_m_def arg_def crash_unless_def res_simps)

lemma tidy_bindm [tidy_intros]:
  assumes "tidy m" "\<And>x. tidy (k x)"
  shows "tidy (bindm m k)"
proof (rule tidyI)
  fix j r j'
  assume j: "settled j" and "bindm m k j = Inr (r, j')"
  then obtain r1 j1 where 1: "m j = Inr (r1, j1)"
    and 2: "(case r1 of Inl x \<Rightarrow> Inr (Inl x, j1) | Inr a \<Rightarrow> k a j1) = Inr (r, j')"
    by (auto simp: bindm_def res_simps)
  have f: "framed j j1" by (rule tidyD [OF assms(1) j 1])
  show "framed j j'"
    using 2 f framed_trans [OF f] tidyD [OF assms(2) framed_settled [OF f]] by (auto split: sum.splits)
qed

lemma tidy_handle [tidy_intros]:
  assumes "tidy m" "\<And>x. tidy (h x)"
  shows "tidy (handle m h)"
proof (rule tidyI)
  fix j r j'
  assume j: "settled j" and "handle m h j = Inr (r, j')"
  then obtain r1 j1 where 1: "m j = Inr (r1, j1)"
    and 2: "(case r1 of Inl x \<Rightarrow> h x j1 | Inr a \<Rightarrow> Inr (Inr a, j1)) = Inr (r, j')"
    by (auto simp: handle_def res_simps)
  have f: "framed j j1" by (rule tidyD [OF assms(1) j 1])
  show "framed j j'"
    using 2 f framed_trans [OF f] tidyD [OF assms(2) framed_settled [OF f]] by (auto split: sum.splits)
qed

lemma tidy_noexcept [tidy_intros]: "tidy m \<Longrightarrow> tidy (noexcept m)"
proof (rule tidyI)
  fix j r j'
  assume m: "tidy m" "settled j" and "noexcept m j = Inr (r, j')"
  then obtain r1 j1 where 1: "m j = Inr (r1, j1)"
    and "(case r1 of Inl x \<Rightarrow> Inl CxxException | Inr a \<Rightarrow> Inr (Inr a, j1)) = Inr (r, j')"
    by (auto simp: noexcept_def res_simps)
  then show "framed j j'" using tidyD [OF m 1] by (cases r1) auto
qed

lemma tidy_finally [tidy_intros]:
  assumes "tidy m" "tidy d"
  shows "tidy (finally_do m d)"
proof (rule tidyI)
  fix j r j'
  assume j: "settled j" and "finally_do m d j = Inr (r, j')"
  then obtain j1 x where 1: "m j = Inr (r, j1)" and 2: "noexcept d j1 = Inr (x, j')"
    by (auto simp: finally_do_def res_simps)
  have f: "framed j j1" by (rule tidyD [OF assms(1) j 1])
  show "framed j j'" using framed_trans [OF f tidyD [OF tidy_noexcept [OF assms(2)] framed_settled [OF f] 2]] .
qed

lemma tidy_map_m [tidy_intros]: "(\<And>x. tidy (f x)) \<Longrightarrow> tidy (map_m f xs)"
  by (induction xs) (simp_all add: tidy_intros)

lemma tidy_into [tidy_intros]: "tidy m \<Longrightarrow> tidy (into d m)"
  unfolding into_def by (rule tidy_intros | assumption)+

lemma tidy_if [tidy_intros]: "(b \<Longrightarrow> tidy f) \<Longrightarrow> (\<not> b \<Longrightarrow> tidy g) \<Longrightarrow> tidy (if b then f else g)"
  by simp

lemma tidy_case_option [tidy_intros]:
  "(m = None \<Longrightarrow> tidy f) \<Longrightarrow> (\<And>x. m = Some x \<Longrightarrow> tidy (g x)) \<Longrightarrow> tidy (case m of None \<Rightarrow> f | Some x \<Rightarrow> g x)"
  by (cases m) auto

lemma tidy_case_prod [tidy_intros]: "(\<And>x y. p = (x, y) \<Longrightarrow> tidy (f x y)) \<Longrightarrow> tidy (case p of (x, y) \<Rightarrow> f x y)"
  by (cases p) auto

lemma tidy_case_exception [tidy_intros]:
  "(\<And>v w. tidy (f v w)) \<Longrightarrow> (\<And>w. tidy (g w)) \<Longrightarrow> tidy h \<Longrightarrow>
    tidy (case x of JSError v w \<Rightarrow> f v w | StdException w \<Rightarrow> g w | OtherException \<Rightarrow> h)"
  by (cases x) auto

lemma tidy_check [tidy_intros]: "tidy (CHECK_ELSE_THROW b msg)"
  unfolding CHECK_ELSE_THROW_def by (rule tidy_intros)+

lemma tidy_modify:
  "(\<And>j. jsi_env (f j) = jsi_env j \<and> stackScopes (f j) = stackScopes j \<and> stackValues (f j) = stackValues j \<and>
     hasPendingJSError (f j) = hasPendingJSError j \<and> sourceURL (f j) = sourceURL j) \<Longrightarrow> tidy (modify f)"
  by (auto intro!: tidyI simp: modify_def framed_def settled_def)

lemma tidy_modify_caches [tidy_intros]:
  "tidy (modify (\<lambda>j. j\<lparr>cachedValue := F j\<rparr>))" "tidy (modify (\<lambda>j. j\<lparr>propNameIDs := G j\<rparr>))"
  "tidy (modify (\<lambda>j. j\<lparr>utf16PropNameIDs := H j\<rparr>))" "tidy (modify (\<lambda>j. j\<lparr>propertyId := K j\<rparr>))"
  by (rule tidy_modify, simp)+

lemma tidy_with_pending [tidy_intros]: "tidy m \<Longrightarrow> tidy (with_pending m)"
proof (rule tidyI)
  fix j r j'
  assume m: "tidy m" "settled j" and "with_pending m j = Inr (r, j')"
  then obtain j1 where "m (j\<lparr>hasPendingJSError := True\<rparr>) = Inr (r, j1)" "j' = j1\<lparr>hasPendingJSError := hasPendingJSError j\<rparr>"
    by (auto simp: with_pending_def res_simps)
  then show "framed j j'"
    using m tidyD [OF m(1), of "j\<lparr>hasPendingJSError := True\<rparr>" r j1] by (simp add: framed_def settled_def)
qed

lemma tidy_with_sourceURL [tidy_intros]: "tidy m \<Longrightarrow> tidy (with_sourceURL url m)"
proof (rule tidyI)
  fix j r j'
  assume m: "tidy m" "settled j" and "with_sourceURL url m j = Inr (r, j')"
  then obtain j1 where "m (j\<lparr>sourceURL := url\<rparr>) = Inr (r, j1)" "j' = j1\<lparr>sourceURL := sourceURL j\<rparr>"
    by (auto simp: with_sourceURL_def res_simps)
  then show "framed j j'"
    using m tidyD [OF m(1), of "j\<lparr>sourceURL := url\<rparr>" r j1] by (simp add: framed_def settled_def)
qed

section \<open>Rules for calls\<close>

lemma calm_okD: "calm_ok f \<Longrightarrow> last_exception e = None \<Longrightarrow> f e = Inr (napi_ok, out, e') \<Longrightarrow> last_exception e' = None"
  unfolding calm_ok_def by blast

lemma contract_calm_ok: "api_contract f \<Longrightarrow> calm_ok f"
  unfolding calm_ok_def api_contract_def by blast

lemma CHECK_NAPI_run:
  "f (jsi_env j) = Inr (st, out, e) \<Longrightarrow>
    CHECK_NAPI C (\<lambda>j. bind_res (f (jsi_env j)) (\<lambda>(st, out, e). Inr (Inr (st, out), g j e))) j =
      (if st = napi_ok then Inr (Inr out, g j e) else bind_res (on_error C st (g j e)) (\<lambda>(x, j1). Inr (Inl x, j1)))"
  "f (jsi_env j) = Inl x \<Longrightarrow>
    CHECK_NAPI C (\<lambda>j. bind_res (f (jsi_env j)) (\<lambda>(st, out, e). Inr (Inr (st, out), g j e))) j = Inl x"
  by (simp_all add: CHECK_NAPI_def bindm_def return_def)

lemma tidy_CHECK_NAPI:
  assumes "settles (on_error C)" "calm_ok f"
    and g: "\<And>j e. jsi_env (g j e) = e \<and> stackScopes (g j e) = stackScopes j \<and> stackValues (g j e) = stackValues j \<and>
     hasPendingJSError (g j e) = hasPendingJSError j \<and> sourceURL (g j e) = sourceURL j"
  shows "tidy (CHECK_NAPI C (\<lambda>j. bind_res (f (jsi_env j)) (\<lambda>(st, out, e). Inr (Inr (st, out), g j e))))"
proof (rule tidyI)
  fix j r j'
  assume j: "settled j"
    and r: "CHECK_NAPI C (\<lambda>j. bind_res (f (jsi_env j)) (\<lambda>(st, out, e). Inr (Inr (st, out), g j e))) j = Inr (r, j')"
  show "framed j j'"
  proof (cases "f (jsi_env j)")
    case (Inl x)
    then show ?thesis using r CHECK_NAPI_run(2) [of f j x C g, OF Inl] by simp
  next
    case (Inr y)
    obtain st out e where y: "y = (st, out, e)" by (cases y)
    note run = CHECK_NAPI_run(1) [of f j st out e C g, OF Inr [unfolded y]]
    show ?thesis
    proof (cases "st = napi_ok")
      case True
      then have "j' = g j e" using r run by simp
      moreover have "last_exception e = None"
        using Inr y True j by - (rule calm_okD [OF assms(2), of "jsi_env j" out e]; simp add: settled_def)
      ultimately show ?thesis using g [of j e] by (simp add: framed_def)
    next
      case False
      then have "bind_res (on_error C st (g j e)) (\<lambda>(x, j1). Inr (Inl x, j1)) = Inr (r, j')"
        using r run by simp
      then obtain x where "on_error C st (g j e) = Inr (x, j')"
        by (cases "on_error C st (g j e)") auto
      then have "framed (g j e) j'" using assms(1) unfolding settles_def by blast
      then show ?thesis using g [of j e] by (simp add: framed_def)
    qed
  qed
qed

lemma tidy_call_napi:
  assumes "ctx_ok C" "calm_ok f"
  shows "tidy (CHECK_NAPI C (call_napi f))"
  using tidy_CHECK_NAPI [OF _ assms(2), of C "\<lambda>j e. j\<lparr>jsi_env := e\<rparr>"] assms(1)
  unfolding ctx_ok_def call_napi_def by simp

lemma tidy_call_js:
  assumes "ctx_ok C" "calm_ok f"
  shows "tidy (CHECK_NAPI C (call_js C f))"
  using tidy_CHECK_NAPI [OF _ assms(2), of C "reenter C"] assms(1)
  unfolding ctx_ok_def call_js_def host_ok_def by simp

lemma ctx_engine: "ctx_ok C \<Longrightarrow> engine_ok (engine C)"
  by (simp add: ctx_ok_def)

text \<open>Calls that crash when they fail.\<close>

lemma CRASH_framed:
  assumes "calm_ok f" "settled j" "CHECK_NAPI_ELSE_CRASH f j = Inr (out, j')"
  shows "framed j j'" "stackValues j' = stackValues j"
proof -
  obtain e where e: "f (jsi_env j) = Inr (napi_ok, out, e)" "j' = j\<lparr>jsi_env := e\<rparr>"
    using assms(3) CHECK_NAPI_ok [of f j out j'] by auto
  then show "framed j j'" "stackValues j' = stackValues j"
    using calm_okD [OF assms(1) _ e(1)] assms(2) by (auto simp: framed_def settled_def)
qed

section \<open>Rules for pointers\<close>

text \<open>Steps that leave the stack of handles alone.\<close>

definition still :: "('v, 'h) jsi_rt \<Rightarrow> ('v, 'h) jsi_rt \<Rightarrow> bool" where
  "still j j' \<longleftrightarrow> framed j j' \<and> stackValues j' = stackValues j"

lemma still_trans: "still a b \<Longrightarrow> still b c \<Longrightarrow> still a c"
  using framed_trans by (auto simp: still_def)

lemma still_refl: "settled j \<Longrightarrow> still j j"
  by (simp add: still_def framed_refl)

lemma still_settled: "still j j' \<Longrightarrow> settled j'"
  by (auto simp: still_def framed_settled)

lemma still_updates:
  "still j (set_pv p pv j) = settled j" "still j (delete_pv p j) = settled j" "still j (addPointerValueToDelete p j) = settled j"
  by (auto simp: still_def framed_def settled_def set_pv_def delete_pv_def addPointerValueToDelete_def)

lemma still_CRASH:
  assumes "calm_ok f" "settled j" "CHECK_NAPI_ELSE_CRASH f j = Inr (out, j')"
  shows "still j j'"
  using CRASH_framed [OF assms] by (simp add: still_def)

lemmas calm_ok_references = plain_references [THEN plain_contract, THEN contract_calm_ok]

lemma createNodeApiRef_still:
  assumes "engine_ok V" "settled j" "createNodeApiRef V p j = Inr j'"
  shows "still j j'"
proof -
  have s: "calm_ok (napi_set_named_property V v s x)" "calm_ok (napi_create_object V r)" for v s x r
    by (rule contract_calm_ok [OF contract_properties(8) [OF assms(1)]],
        rule contract_calm_ok [OF plain_contract [OF plain_creations(1)]])
  let ?prim = "\<lambda>pv. bind_res (CHECK_NAPI_ELSE_CRASH (napi_create_object V True) j) (\<lambda>(obj, j1).
    bind_res (CHECK_NAPI_ELSE_CRASH (napi_set_named_property V obj (Some kPrimitivePropertyName) (pv_value pv)) j1)
      (\<lambda>(_, j2). CHECK_NAPI_ELSE_CRASH (napi_create_reference V obj 1 True) j2))"
  have prim: "still j j1" if "?prim pv = Inr (out, j1)" for pv out j1
  proof -
    obtain obj a b where 1: "CHECK_NAPI_ELSE_CRASH (napi_create_object V True) j = Inr (obj, a)"
      and 2: "CHECK_NAPI_ELSE_CRASH (napi_set_named_property V obj (Some kPrimitivePropertyName) (pv_value pv)) a = Inr b"
      and 3: "CHECK_NAPI_ELSE_CRASH (napi_create_reference V obj 1 True) (snd b) = Inr (out, j1)"
      using \<open>?prim pv = Inr (out, j1)\<close> by (auto simp: bind_res_Inr_iff)
    have a: "still j a" by (rule still_CRASH [OF s(2) assms(2) 1])
    have b: "still a (snd b)" using 2 still_CRASH [OF s(1) still_settled [OF a]] by (cases b) auto
    show ?thesis by (rule still_trans [OF still_trans [OF a b] still_CRASH [OF calm_ok_references(1) still_settled [OF b] 3]])
  qed
  obtain pv out j1 where "j' = set_pv p (pv\<lparr>pv_ref := out\<rparr>) j1"
    and "(if pointerKind pv = KObject then CHECK_NAPI_ELSE_CRASH (napi_create_reference V (pv_value pv) 1 True) j
          else if pointerKind pv \<noteq> KWeakObject then ?prim pv
          else CHECK_NAPI_ELSE_CRASH (napi_create_reference V (pv_value pv) 0 True) j) = Inr (out, j1)"
    using assms(3) unfolding createNodeApiRef_def by (auto simp only: res_simps split_paired_Ex prod.case sum.inject)
  moreover from this(2) have "still j j1"
    using still_CRASH [OF calm_ok_references(1) assms(2)] prim by (auto split: if_splits)
  ultimately show ?thesis using still_trans [of j j1] still_settled still_updates(1) by blast
qed

lemma deleteStackValue_still:
  assumes "engine_ok V" "settled j" "deleteStackValue V p j = Inr j'"
  shows "still j j'"
proof -
  obtain pv where pv: "pointer_values j p = Some pv"
    using assms(3) by (cases "pointer_values j p") (auto simp: deleteStackValue_def deref_def)
  define j1 where "j1 = (if canBeDeletedFromStack pv then delete_pv p j else j)"
  have r: "bind_res (deref (pointer_values j1 p)) (\<lambda>pv1.
      bind_res (if refCount pv1 \<noteq> 0 \<and> pv_ref pv1 = None then createNodeApiRef V p j1 else Inr j1) (\<lambda>j2.
        bind_res (deref (pointer_values j2 p)) (\<lambda>pv2. Inr (set_pv p (pv2\<lparr>pv_value := None\<rparr>) j2)))) = Inr j'"
    using assms(3) unfolding deleteStackValue_def Let_def pv deref_Some bind_res.simps check_Inr_iff j1_def by (rule conjunct2)
  obtain pv1 where pv1: "pointer_values j1 p = Some pv1" using r by (cases "pointer_values j1 p") (auto simp: deref_def)
  obtain j2 where j2: "(if refCount pv1 \<noteq> 0 \<and> pv_ref pv1 = None then createNodeApiRef V p j1 else Inr j1) = Inr j2"
    and r2: "bind_res (deref (pointer_values j2 p)) (\<lambda>pv2. Inr (set_pv p (pv2\<lparr>pv_value := None\<rparr>) j2)) = Inr j'"
    using r unfolding pv1 deref_Some bind_res.simps bind_res_Inr_iff by blast
  obtain pv2 where j': "j' = set_pv p (pv2\<lparr>pv_value := None\<rparr>) j2" using r2 by (cases "pointer_values j2 p") (auto simp: deref_def)
  have j1: "j1 = j \<or> j1 = delete_pv p j" by (simp add: j1_def)
  have s1: "still j j1" using j1 assms(2) still_refl still_updates(2) by auto
  then have "still j1 j2"
    using j2 createNodeApiRef_still [OF assms(1) still_settled [OF s1]] still_refl [OF still_settled [OF s1]]
    by (auto split: if_splits)
  then show ?thesis using still_trans [OF s1] still_trans [of j j2] still_settled still_updates(1) j' by blast
qed

lemma deleteNodeApiRef_still:
  assumes "settled j" "deleteNodeApiRef p j = Inr j'"
  shows "still j j'"
proof -
  obtain pv j1 where j1: "(if pv_ref pv \<noteq> None
        then bind_res (CHECK_NAPI_ELSE_CRASH (napi_delete_reference (pv_ref pv)) j) (\<lambda>(_, j1). Inr (set_pv p (pv\<lparr>pv_ref := None\<rparr>) j1))
        else Inr j) = Inr j1"
    and 2: "bind_res (deref (pointer_values j1 p)) (\<lambda>pv1.
       Inr (if pv_value pv1 \<noteq> None then set_pv p (pv1\<lparr>canBeDeletedFromStack := True\<rparr>) j1 else delete_pv p j1)) = Inr j'"
    using assms(2) unfolding deleteNodeApiRef_def by (auto simp only: bind_res_Inr_iff)
  have j': "\<exists>pv1. j' = set_pv p pv1 j1 \<or> j' = delete_pv p j1"
    using 2 by (auto simp: bind_res_Inr_iff)
  have "still j j1"
  proof (cases "pv_ref pv")
    case (Some r)
    then obtain out j2 where 2: "CHECK_NAPI_ELSE_CRASH (napi_delete_reference (Some r)) j = Inr (out, j2)"
      and "j1 = set_pv p (pv\<lparr>pv_ref := None\<rparr>) j2" using j1 by (auto simp: bind_res_Inr_iff)
    moreover note still_CRASH [OF calm_ok_references(2) assms(1) 2]
    ultimately show ?thesis using still_trans [of j j2] still_settled still_updates(1) by blast
  qed (use j1 assms(1) still_refl in auto)
  then show ?thesis using j' still_trans [of j j1] still_settled still_updates(1,2) by blast
qed

lemma for_each_still:
  assumes "settled j" "for_each f ps j = Inr j'" "\<And>p a b. settled a \<Longrightarrow> f p a = Inr b \<Longrightarrow> still a b"
  shows "still j j'"
  using assms(1,2)
proof (induction ps arbitrary: j)
  case (Cons p ps)
  then obtain j1 where j1: "f p j = Inr j1" "for_each f ps j1 = Inr j'" by (auto simp: bind_res_Inr_iff)
  have "still j j1" using assms(3) Cons.prems(1) j1(1) .
  then show ?case using still_trans Cons.IH [OF still_settled j1(2)] by blast
qed (simp add: still_refl)

lemma deletePointerValues_still:
  assumes "settled j" "deletePointerValues j = Inr j'"
  shows "still j j'"
proof (cases "pool j (poolSelector j) = []")
  case False
  define j1 where "j1 = j\<lparr>poolSelector := poolSelector j XOR 1\<rparr>"
  obtain j2 old where j2: "for_each deleteNodeApiRef (pool j1 old) j1 = Inr j2" "j' = j2\<lparr>pool := (pool j2)(old := [])\<rparr>"
    using assms(2) False by (auto simp: deletePointerValues_def Let_def j1_def bind_res_Inr_iff)
  have "settled j1" using assms(1) by (simp add: j1_def settled_def)
  from for_each_still [OF this j2(1) deleteNodeApiRef_still] show ?thesis
    using j2(2) by (simp add: still_def framed_def j1_def)
qed (use assms in \<open>auto simp: deletePointerValues_def still_refl\<close>)

text \<open>The end of a scope.\<close>

lemma pop_scope:
  assumes "engine_ok V" "settled j" "popPointerValueScope V j = Inr j'" "stackScopes j = S @ [n]"
  shows "framed (j\<lparr>stackScopes := S, stackValues := take n (stackValues j)\<rparr>) j' \<and> stackValues j' = take n (stackValues j)"
proof -
  define j1 where "j1 = j\<lparr>stackScopes := butlast (stackScopes j)\<rparr>"
  obtain j2 where j2: "for_each (deleteStackValue V) (drop n (stackValues j1)) j1 = Inr j2"
    and d: "deletePointerValues (j2\<lparr>stackValues := take n (stackValues j2)\<rparr>) = Inr j'"
    using assms(3,4) by (auto simp: popPointerValueScope_def Let_def j1_def bind_res_Inr_iff res_simps)
  have "settled j1" using assms(2) by (simp add: j1_def settled_def)
  from for_each_still [OF this j2 deleteStackValue_still [OF assms(1)]] have s: "still j1 j2" .
  then have "settled (j2\<lparr>stackValues := take n (stackValues j2)\<rparr>)" by (simp add: still_def framed_def settled_def)
  from deletePointerValues_still [OF this d] s show ?thesis
    by (simp add: still_def framed_def j1_def assms(4))
qed

lemma neat_NodeApiPointerValueScope:
  assumes "engine_ok (engine C)" "tidy body"
  shows "neat (NodeApiPointerValueScope C body)"
  unfolding neat_def
proof (intro allI impI)
  fix j r j'
  assume j: "settled j" and run: "NodeApiPointerValueScope C body j = Inr (r, j')"
  define j0 where "j0 = pushPointerValueScope j"
  obtain j1 where b: "body j0 = Inr (r, j1)" and p: "popPointerValueScope (engine C) j1 = Inr j'"
    using run by (auto simp: NodeApiPointerValueScope_def bindm_def modify_def finally_do_def noexcept_def pure_upd_def
        j0_def bind_res_Inr_iff)
  have "settled j0" using j by (simp add: j0_def settled_def pushPointerValueScope_def)
  from tidyD [OF assms(2) this b] have f: "framed j0 j1" .
  then have "stackScopes j1 = stackScopes j @ [length (stackValues j)]"
    by (simp add: framed_def j0_def pushPointerValueScope_def)
  from pop_scope [OF assms(1) framed_settled [OF f] p this] f
  show "framed j j' \<and> stackValues j' = stackValues j"
    by (auto simp: framed_def j0_def pushPointerValueScope_def)
qed

lemma close_scope_calm: "calm_ok (napi_close_handle_scope sc)"
  by (auto simp: calm_ok_def napi_close_handle_scope_def close_scope_def guard_defs res_simps split: option.splits if_splits)

lemma open_scope_calm: "calm_ok (napi_open_handle_scope r)"
  by (rule contract_calm_ok [OF plain_contract [OF plain_scopes(1)]])

text \<open>Calls inside a \<open>noexcept\<close> function: they succeed or the process ends.\<close>

lemma noexcept_CHECK_NAPI:
  assumes "noexcept (bindm (CHECK_NAPI C (call_napi f)) k) j = Inr (r, j')"
  shows "\<exists>out e. f (jsi_env j) = Inr (napi_ok, out, e) \<and> noexcept (k out) (j\<lparr>jsi_env := e\<rparr>) = Inr (r, j')"
proof (cases "f (jsi_env j)")
  case (Inl x)
  have "CHECK_NAPI C (call_napi f) j = Inl x"
    unfolding call_napi_def by (rule CHECK_NAPI_run(2) [of f j, OF Inl])
  then show ?thesis using assms by (simp add: noexcept_def bindm_def)
next
  case (Inr y)
  obtain st out e where y: "y = (st, out, e)" by (cases y)
  have run: "CHECK_NAPI C (call_napi f) j =
      (if st = napi_ok then Inr (Inr out, j\<lparr>jsi_env := e\<rparr>)
       else bind_res (on_error C st (j\<lparr>jsi_env := e\<rparr>)) (\<lambda>(x, j1). Inr (Inl x, j1)))"
    unfolding call_napi_def by (rule CHECK_NAPI_run(1) [of f j, OF Inr [unfolded y]])
  have "st = napi_ok"
    using assms run by (cases "on_error C st (j\<lparr>jsi_env := e\<rparr>)"; cases "st = napi_ok") (auto simp: noexcept_def bindm_def)
  then show ?thesis using assms run Inr y by (auto simp: noexcept_def bindm_def)
qed

lemma noexcept_modify: "noexcept (bindm (modify f) k) j = noexcept (k ()) (f j)"
  by (simp add: noexcept_def bindm_def modify_def)

lemma noexcept_pure_upd:
  "noexcept (bindm (pure_upd f) k) j = Inr (r, j') \<longleftrightarrow> (\<exists>j1. f j = Inr j1 \<and> noexcept (k ()) j1 = Inr (r, j'))"
  by (cases "f j") (auto simp: noexcept_def bindm_def pure_upd_def)

lemma noexcept_return: "noexcept (return x) j = Inr (r, j') \<longleftrightarrow> r = Inr x \<and> j' = j"
  by (auto simp: noexcept_def return_def)

lemma bindm_assoc: "bindm (bindm m k) l = bindm m (\<lambda>x. bindm (k x) l)"
  by (auto simp: bindm_def fun_eq_iff bind_res_assoc intro!: arg_cong [where f = "bind_res _"] split: sum.splits)

lemma scope_begin:
  assumes "settled j" "NodeApiScope_begin C j = Inr (r, j0)"
  shows "\<exists>state. r = Inr state \<and> settled j0 \<and> stackScopes j0 = stackScopes j @ [length (stackValues j), length (stackValues j)] \<and>
    stackValues j0 = stackValues j \<and> hasPendingJSError j0 = hasPendingJSError j \<and> sourceURL j0 = sourceURL j"
proof -
  have "noexcept (bindm (CHECK_NAPI C (call_napi (napi_open_handle_scope True))) (\<lambda>state.
      bindm (modify pushPointerValueScope) (\<lambda>_. bindm (return state) (\<lambda>state.
        bindm (modify pushPointerValueScope) (\<lambda>_. return state))))) j = Inr (r, j0)"
    using assms(2) by (simp add: NodeApiScope_begin_def pushScope_def bindm_assoc)
  from noexcept_CHECK_NAPI [OF this] obtain state e where o: "napi_open_handle_scope True (jsi_env j) = Inr (napi_ok, state, e)"
    and "noexcept (bindm (modify pushPointerValueScope) (\<lambda>_. bindm (return state) (\<lambda>state.
        bindm (modify pushPointerValueScope) (\<lambda>_. return state)))) (j\<lparr>jsi_env := e\<rparr>) = Inr (r, j0)" by blast
  then have "r = Inr state" "j0 = pushPointerValueScope (pushPointerValueScope (j\<lparr>jsi_env := e\<rparr>))"
    by (simp_all add: noexcept_modify) (auto simp: noexcept_def bindm_def return_def modify_def)
  moreover have "last_exception e = None" using calm_okD [OF open_scope_calm _ o] assms(1) by (simp add: settled_def)
  ultimately show ?thesis by (simp add: settled_def pushPointerValueScope_def)
qed

lemma scope_end:
  assumes "engine_ok (engine C)" "settled j" "noexcept (NodeApiScope_end C state) j = Inr (r, j')"
    and "stackScopes j = S @ [n, n]"
  shows "framed (j\<lparr>stackScopes := S, stackValues := take n (stackValues j)\<rparr>) j' \<and> stackValues j' = take n (stackValues j)"
proof -
  obtain j1 j2 where p1: "popPointerValueScope (engine C) j = Inr j1" and p2: "popPointerValueScope (engine C) j1 = Inr j2"
    and c: "noexcept (bindm (CHECK_NAPI C (call_napi (napi_close_handle_scope state))) (\<lambda>_. return ())) j2 = Inr (r, j')"
    using assms(3) by (auto simp: NodeApiScope_end_def popScope_def noexcept_pure_upd)
  have f1: "framed (j\<lparr>stackScopes := S @ [n], stackValues := take n (stackValues j)\<rparr>) j1" "stackValues j1 = take n (stackValues j)"
    using pop_scope [OF assms(1,2) p1, of "S @ [n]" n] assms(4) by auto
  then have "settled j1" "stackScopes j1 = S @ [n]" by (auto simp: framed_def settled_def)
  from pop_scope [OF assms(1) this(1) p2 this(2)]
  have f2: "framed (j1\<lparr>stackScopes := S, stackValues := take n (stackValues j1)\<rparr>) j2" "stackValues j2 = take n (stackValues j1)"
    by auto
  from noexcept_CHECK_NAPI [OF c] obtain out e where e: "napi_close_handle_scope state (jsi_env j2) = Inr (napi_ok, out, e)"
    and "j' = j2\<lparr>jsi_env := e\<rparr>" by (auto simp: noexcept_return)
  moreover have "last_exception e = None"
    using calm_okD [OF close_scope_calm _ e] f2 by (simp add: framed_def)
  ultimately show ?thesis using f1 f2 by (simp add: framed_def)
qed

lemma neat_NodeApiScope:
  assumes "engine_ok (engine C)" "tidy body"
  shows "neat (NodeApiScope C body)"
  unfolding neat_def
proof (intro allI impI)
  fix j r j'
  assume j: "settled j" and run: "NodeApiScope C body j = Inr (r, j')"
  obtain r0 j0 where b: "NodeApiScope_begin C j = Inr (r0, j0)"
    using run by (auto simp: NodeApiScope_def bindm_def bind_res_Inr_iff)
  from scope_begin [OF j b] obtain state where r0: "r0 = Inr state" and j0: "settled j0"
      "stackScopes j0 = stackScopes j @ [length (stackValues j), length (stackValues j)]"
      "stackValues j0 = stackValues j" "hasPendingJSError j0 = hasPendingJSError j" "sourceURL j0 = sourceURL j" by blast
  have "finally_do body (NodeApiScope_end C state) j0 = Inr (r, j')"
    using run b r0 by (simp add: NodeApiScope_def bindm_def)
  then obtain j1 x where m: "body j0 = Inr (r, j1)" and e: "noexcept (NodeApiScope_end C state) j1 = Inr (x, j')"
    by (auto simp: finally_do_def bind_res_Inr_iff)
  from tidyD [OF assms(2) j0(1) m] have f: "framed j0 j1" .
  then have "stackScopes j1 = stackScopes j @ [length (stackValues j), length (stackValues j)]" using j0 by (simp add: framed_def)
  from scope_end [OF assms(1) framed_settled [OF f] e this] f j0
  show "framed j j' \<and> stackValues j' = stackValues j" by (auto simp: framed_def)
qed

lemma tidy_scopes [tidy_intros]:
  "ctx_ok C \<Longrightarrow> tidy body \<Longrightarrow> tidy (NodeApiScope C body)"
  "ctx_ok C \<Longrightarrow> tidy body \<Longrightarrow> tidy (NodeApiPointerValueScope C body)"
  using neat_tidy [OF neat_NodeApiScope] neat_tidy [OF neat_NodeApiPointerValueScope] ctx_engine by blast+

section \<open>Rules for values\<close>

lemma tidy_pure_op: "(\<And>j x j'. settled j \<Longrightarrow> f j = Inr (x, j') \<Longrightarrow> framed j j') \<Longrightarrow> tidy (pure_op f)"
  by (rule tidyI) (auto simp: pure_op_def bind_res_Inr_iff)

lemma tidy_pure_upd: "(\<And>j j'. settled j \<Longrightarrow> f j = Inr j' \<Longrightarrow> framed j j') \<Longrightarrow> tidy (pure_upd f)"
  by (rule tidyI) (auto simp: pure_upd_def bind_res_Inr_iff)

lemma make_framed: "settled j \<Longrightarrow> Jsi_Pointers.make v k n j = (p, j') \<Longrightarrow> framed j j'"
  by (auto simp: Jsi_Pointers.make_def Let_def framed_def settled_def addStackValue_def set_pv_def)

lemma tidy_make [tidy_intros]:
  "tidy (makeJsiPointer kind v)" "tidy (runtime_makeNodeApiRef v kind n)" "tidy (stack_pointer v kind)"
  unfolding makeJsiPointer_def runtime_makeNodeApiRef_def stack_pointer_def
  by (intro tidy_intros tidy_pure_op; auto split: prod.splits dest: make_framed)+

lemma tidy_CRASH [tidy_intros]: "calm_ok f \<Longrightarrow> tidy (pure_op (CHECK_NAPI_ELSE_CRASH f))"
  by (rule tidy_pure_op) (rule CRASH_framed(1))

lemma framed_upd: "framed j j1 \<Longrightarrow> framed j (set_pv p pv j1)" "framed j j1 \<Longrightarrow> framed j (addStackValue p j1)"
  by (auto simp: framed_def set_pv_def addStackValue_def)

lemma getValue_framed:
  assumes "engine_ok V" "settled j" "getValue V p j = Inr (v, j')"
  shows "framed j j'"
proof -
  have g: "calm_ok (napi_get_named_property V a s r)" for a s r
    by (rule contract_calm_ok [OF contract_properties(10) [OF assms(1)]])
  obtain pv where pv: "pointer_values j p = Some pv"
    using assms(3) by (cases "pointer_values j p") (auto simp: getValue_def deref_def)
  have ref: "framed j j1" if "CHECK_NAPI_ELSE_CRASH (napi_get_reference_value (pv_ref pv) True) j = Inr (w, j1)" for w j1
    using CRASH_framed(1) [OF calm_ok_references(5) assms(2) that] .
  have prim: "framed j j2" if "CHECK_NAPI_ELSE_CRASH (napi_get_reference_value (pv_ref pv) True) j = Inr (w, j1)"
    "CHECK_NAPI_ELSE_CRASH (napi_get_named_property V w2 s True) j1 = Inr (x, j2)" for w j1 w2 s x j2
    using framed_trans [OF ref [OF that(1)] CRASH_framed(1) [OF g framed_settled [OF ref [OF that(1)]] that(2)]] .
  show ?thesis
  proof (cases "pv_value pv \<noteq> None \<or> pv_ref pv = None")
    case True
    then show ?thesis using assms(2,3) pv framed_refl by (auto simp: getValue_def split: if_splits)
  next
    case False
    define X where "X = (if pointerKind pv = KObject \<or> pointerKind pv = KWeakObject then
        bind_res (CHECK_NAPI_ELSE_CRASH (napi_get_reference_value (pv_ref pv) True) j) (\<lambda>(v, j1). Inr (Option.bind v id, j1))
      else
        bind_res (CHECK_NAPI_ELSE_CRASH (napi_get_reference_value (pv_ref pv) True) j) (\<lambda>(obj, j1).
          CHECK_NAPI_ELSE_CRASH (napi_get_named_property V (Option.bind obj id) (Some kPrimitivePropertyName) True) j1))"
    have "bind_res X (\<lambda>(v, j1). let j2 = set_pv p (pv\<lparr>pv_value := v\<rparr>) j1
        in Inr (v, if v \<noteq> None then addStackValue p j2 else j2)) = Inr (v, j')"
      using assms(3) False unfolding getValue_def X_def pv deref_Some bind_res.simps by (simp only: de_Morgan_disj not_not if_False simp_thms)
    then obtain w j1 where x: "X = Inr (w, j1)"
      and j': "j' = addStackValue p (set_pv p (pv\<lparr>pv_value := w\<rparr>) j1) \<or> j' = set_pv p (pv\<lparr>pv_value := w\<rparr>) j1"
      by (cases X) (auto simp: Let_def split: if_splits)
    have "framed j j1" using x ref prim unfolding X_def by (auto simp: bind_res_Inr_iff split: if_splits)
    then show ?thesis using j' framed_upd by blast
  qed
qed

lemma clone_still: "settled j \<Longrightarrow> clone p j = Inr j' \<Longrightarrow> still j j'"
  by (auto simp: clone_def bind_res_Inr_iff still_updates)

lemma invalidate_still:
  assumes "settled j" "invalidate p j = Inr j'"
  shows "still j j'"
proof -
  obtain pv where "j' = set_pv p pv j \<or> j' = addPointerValueToDelete p (set_pv p pv j)"
    using assms(2) by (auto simp: invalidate_def bind_res_Inr_iff Let_def split: if_splits)
  then show ?thesis using assms(1) still_updates(1,3) still_trans [of j "set_pv p pv j"] still_settled by blast
qed

lemma tidy_pointers [tidy_intros]:
  "tidy (pure_op (pointer_clone p))" "tidy (pure_upd (pointer_invalidate p))" "tidy (pure_upd (invalidate i))"
  "engine_ok V \<Longrightarrow> tidy (pure_op (pointer_getValue V p))" "engine_ok V \<Longrightarrow> tidy (pure_op (getValue V i))"
  by (intro tidy_pure_op tidy_pure_upd;
      auto simp: pointer_clone_def pointer_invalidate_def pointer_getValue_def bind_res_Inr_iff
        intro: framed_refl getValue_framed dest: clone_still invalidate_still make_framed
        simp: still_def split: jsi_pointer.splits prod.splits)+

lemmas calm_oks =
  plain_creations [THEN plain_contract, THEN contract_calm_ok]
  plain_strings [THEN plain_contract, THEN contract_calm_ok]
  plain_tests [THEN plain_contract, THEN contract_calm_ok]
  plain_reads [THEN plain_contract, THEN contract_calm_ok]
  plain_get_strings [THEN plain_contract, THEN contract_calm_ok]
  plain_external_value [THEN plain_contract, THEN contract_calm_ok]
  contract_value_functions [THEN contract_calm_ok]
  contract_properties [THEN contract_calm_ok]
  contract_define_properties [THEN contract_calm_ok]
  contract_instanceof [THEN contract_calm_ok]
  contract_create_external [THEN contract_calm_ok]
  contract_Wrap [THEN contract_calm_ok]
  contract_Unwrap [THEN contract_calm_ok]
  good_function_bodies [THEN contract_calm_ok]
  contract_env_functions [THEN contract_calm_ok]

section \<open>Helpers and conversions\<close>

lemmas call_intros = tidy_call_napi tidy_call_js calm_oks ctx_engine

lemma tidy_helpers [tidy_intros]:
  assumes "ctx_ok C"
  shows "tidy (typeOf C v)" "tidy (strictEquals C v w)" "tidy (getUndefined C)" "tidy (getNull C)" "tidy (getGlobal C)"
    "tidy (getBoolean C b)" "tidy (getValueBool C v)" "tidy (createInt32 C i)" "tidy (createUInt32 C i)"
    "tidy (createDouble C d)" "tidy (getValueDouble C v)" "tidy (createStringLatin1 C s)" "tidy (createStringUtf8 C s)"
    "tidy (createStringUtf16 C s16)" "tidy (getPropertyIdFromName C name)" "tidy (callFunction C v w args)"
    "tidy (constructObject C v args)" "tidy (instanceOf C v w)" "tidy (createNodeApiObject C)" "tidy (hasProperty C v w)"
    "tidy (getProperty C v w)" "tidy (setProperty C v w x)" "tidy (setProperty_attrs C v w x a)"
    "tidy (createNodeApiArray C n)" "tidy (isArray C v)" "tidy (getArrayLength C v)" "tidy (getElement C v n)"
    "tidy (setElement C v i w)" "tidy (createExternalObject C p cb)" "tidy (getExternalData C v)"
  unfolding typeOf_def strictEquals_def getUndefined_def getNull_def getGlobal_def getBoolean_def getValueBool_def
    createInt32_def createUInt32_def createDouble_def getValueDouble_def createStringLatin1_def createStringUtf8_def
    createStringUtf16_def getPropertyIdFromName_def callFunction_def constructObject_def instanceOf_def
    createNodeApiObject_def hasProperty_def getProperty_def setProperty_def setProperty_attrs_def createNodeApiArray_def
    isArray_def getArrayLength_def getElement_def setElement_def createExternalObject_def getExternalData_def
  by (intro tidy_intros call_intros assms)+

lemma tidy_strings [tidy_intros]:
  assumes "ctx_ok C"
  shows "tidy (stringToStdBasicString_char C v)" "tidy (stringToStdBasicString_char16 C v)" "tidy (createSymbol C s)"
  unfolding stringToStdBasicString_char_def stringToStdBasicString_char16_def string_to_std_def createSymbol_def Let_def
  by (intro tidy_intros call_intros assms)+

lemma tidy_values [tidy_intros]:
  assumes "ctx_ok C"
  shows "tidy (getNodeApiValue_pointer C p)" "tidy (getNodeApiValue_ref C r)" "tidy (property C i)" "tidy (cached C c)"
    "tidy (through_clone C p)"
  unfolding getNodeApiValue_pointer_def getNodeApiValue_ref_def property_def cached_def through_clone_def
  by (intro tidy_intros call_intros assms)+

lemma tidy_case_valuetype [tidy_intros]:
  "tidy a \<Longrightarrow> tidy b \<Longrightarrow> tidy c \<Longrightarrow> tidy d \<Longrightarrow> tidy e \<Longrightarrow> tidy f \<Longrightarrow> tidy g \<Longrightarrow> tidy h \<Longrightarrow> tidy i \<Longrightarrow> tidy k \<Longrightarrow>
    tidy (case t of napi_undefined \<Rightarrow> a | napi_null \<Rightarrow> b | napi_boolean \<Rightarrow> c | napi_number \<Rightarrow> d | napi_string \<Rightarrow> e |
      napi_symbol \<Rightarrow> f | napi_object \<Rightarrow> g | napi_function \<Rightarrow> h | napi_external \<Rightarrow> i | napi_bigint \<Rightarrow> k)"
  by (cases t) auto

lemma tidy_conversions [tidy_intros]:
  assumes "ctx_ok C"
  shows "tidy (getNodeApiValue C x)" "tidy (toJsiValue C v)" "tidy (initValue C v)" "tidy (NodeApiValueArgs C xs)"
    "tidy (JsiValueViewArgs C vs)"
proof -
  show v: "tidy (getNodeApiValue C x)" for x
    by (cases x) (simp_all, (intro tidy_intros assms)+)
  show "tidy (toJsiValue C v)"
    unfolding toJsiValue_def by (intro tidy_intros call_intros assms)
  show i: "tidy (initValue C v)" for v
    unfolding initValue_def by (intro tidy_intros call_intros assms)
  show "tidy (NodeApiValueArgs C xs)" "tidy (JsiValueViewArgs C vs)"
    unfolding NodeApiValueArgs_def JsiValueViewArgs_def by (intro tidy_intros v i)+
qed

section \<open>Exceptions\<close>

text \<open>A call whose status is looked at by the caller, followed by a clearing of the exception.\<close>

lemma get_and_clear:
  assumes "CHECK_NAPI_ELSE_CRASH (napi_get_and_clear_last_exception V r) j = Inr (out, j')"
  shows "framed j j'"
proof -
  obtain e where e: "napi_get_and_clear_last_exception V r (jsi_env j) = Inr (napi_ok, out, e)" "j' = j\<lparr>jsi_env := e\<rparr>"
    using assms CHECK_NAPI_ok by blast
  have "last_exception e = None"
    using e(1) by (auto simp: napi_get_and_clear_last_exception_def napi_get_undefined_def guard_defs res_simps
        split: option.splits if_splits)
  then show ?thesis using e(2) by (simp add: framed_def)
qed

definition settling :: "('v, 'h, 'a) jsi_m \<Rightarrow> bool" where
  "settling m \<longleftrightarrow> (\<forall>j r j'. m j = Inr (r, j') \<longrightarrow> framed j j')"

lemma settling_clear: "settling (clear_exception C)"
  unfolding settling_def
proof (intro allI impI)
  fix j r j'
  assume "clear_exception C j = Inr (r, j')"
  then obtain st out e where "napi_get_and_clear_last_exception (engine C) True (jsi_env j) = Inr (st, out, e)" "j' = j\<lparr>jsi_env := e\<rparr>"
    by (auto simp: clear_exception_def bindm_def call_napi_def return_def bind_res_Inr_iff)
  moreover from this(1) have "last_exception e = None"
    by (auto simp: napi_get_and_clear_last_exception_def napi_get_undefined_def guard_defs res_simps
        split: option.splits if_splits)
  ultimately show "framed j j'" by (simp add: framed_def)
qed

lemma settling_bindm: "settling m \<Longrightarrow> (\<And>x. tidy (k x)) \<Longrightarrow> settling (bindm m k)"
proof -
  assume m: "settling m" and k: "\<And>x. tidy (k x)"
  show "settling (bindm m k)"
    unfolding settling_def
  proof (intro allI impI)
    fix j r j'
    assume "bindm m k j = Inr (r, j')"
    then obtain r1 j1 where 1: "m j = Inr (r1, j1)"
      and 2: "(case r1 of Inl x \<Rightarrow> Inr (Inl x, j1) | Inr a \<Rightarrow> k a j1) = Inr (r, j')"
      by (auto simp: bindm_def bind_res_Inr_iff)
    have f: "framed j j1" using m 1 unfolding settling_def by blast
    show "framed j j'"
      using 2 f framed_trans [OF f] tidyD [OF k framed_settled [OF f]] by (auto split: sum.splits)
  qed
qed

lemma tidy_status:
  assumes "ctx_ok C" "calm_ok f" "\<And>out. tidy (ok out)" "\<And>out. settling (err out)"
  shows "tidy (bindm (call_js C f) (\<lambda>(st, out). if st \<noteq> napi_ok then err out else ok out))"
proof (rule tidyI)
  fix j r j'
  assume j: "settled j" and "bindm (call_js C f) (\<lambda>(st, out). if st \<noteq> napi_ok then err out else ok out) j = Inr (r, j')"
  then obtain st out e where f: "f (jsi_env j) = Inr (st, out, e)"
    and k: "(if st \<noteq> napi_ok then err out else ok out) (reenter C j e) = Inr (r, j')"
    by (auto simp: bindm_def call_js_def bind_res_Inr_iff)
  note h = assms(1) [unfolded ctx_ok_def host_ok_def]
  show "framed j j'"
  proof (cases "st = napi_ok")
    case True
    then have "last_exception e = None" using calm_okD [OF assms(2), of "jsi_env j" out e] f j by (simp add: settled_def)
    then have "framed j (reenter C j e)" using h by (simp add: framed_def)
    moreover from this have "framed (reenter C j e) j'"
      using k True tidyD [OF assms(3) framed_settled] by auto
    ultimately show ?thesis by (rule framed_trans)
  next
    case False
    then have "framed (reenter C j e) j'" using k assms(4) unfolding settling_def by auto
    then show ?thesis using h by (simp add: framed_def)
  qed
qed

lemma tidy_rewrite [tidy_intros]:
  assumes "ctx_ok C"
  shows "tidy (rewriteErrorMessage C v)"
  unfolding rewriteErrorMessage_def rewrite_message_def rewrite_stack_def
  by (intro tidy_intros assms tidy_status settling_bindm settling_clear call_intros)

text \<open>Whatever state the environment is in, throwing settles it.\<close>

lemma settles_throw:
  assumes "ctx_ok C"
  shows "settles (throwJSException C)"
  unfolding settles_def
proof (intro allI impI)
  fix st j x j'
  assume run: "throwJSException C st j = Inr (x, j')"
  obtain jsError j1 t j2 where 1: "CHECK_NAPI_ELSE_CRASH (napi_get_and_clear_last_exception (engine C) True) j = Inr (jsError, j1)"
    and 2: "CHECK_NAPI_ELSE_CRASH (napi_typeof (engine C) jsError True) j1 = Inr (t, j2)"
    using run by (auto simp: throwJSException_def bind_res_Inr_iff)
  have f1: "framed j j1" by (rule get_and_clear [OF 1])
  have f2: "framed j j2"
    by (rule framed_trans [OF f1 CRASH_framed(1) [OF plain_tests(8) [THEN plain_contract, THEN contract_calm_ok] framed_settled [OF f1] 2]])
  have "tidy (with_pending (bindm (if t = Some napi_object then rewriteErrorMessage C jsError else return ()) (\<lambda>_.
      bindm (toJsiValue C jsError) (\<lambda>v. bindm (js_error C v) (\<lambda>text. return (JSError v text))))))" (is "tidy ?body")
    using assms by (intro tidy_intros assms) (auto simp: ctx_ok_def library_ok_def)
  note f3 = tidyD [OF this framed_settled [OF f2]]
  show "framed j j'"
    using run f2 framed_trans [OF f2 f3] unfolding throwJSException_def 1 bind_res.simps prod.case 2
    by (auto simp: bind_res_Inr_iff split: if_splits)
qed

theorem runtime_ctx_ok:
  assumes "engine_ok V" "host_ok re" "library_ok je"
  shows "ctx_ok (runtime_ctx V re je)"
proof -
  define l0 :: "('a, 'b) jsi_ctx" where "l0 = \<lparr>engine = V, reenter = re, js_error = je, on_error = (\<lambda>st j. Inl CheckAbort)\<rparr>"
  have 0: "ctx_ok l0" using assms by (simp add: l0_def ctx_ok_def settles_def)
  then have 1: "ctx_ok (l0\<lparr>on_error := throwJSException l0\<rparr>)"
    using settles_throw by (auto simp: ctx_ok_def)
  then have "ctx_ok (l0\<lparr>on_error := throwJSException (l0\<lparr>on_error := throwJSException l0\<rparr>)\<rparr>)"
    using settles_throw [OF 1] 0 by (simp add: ctx_ok_def)
  then show ?thesis by (simp add: runtime_ctx_def l0_def Let_def)
qed

section \<open>Methods\<close>

lemma tidy_symbols [tidy_intros]:
  assumes "ctx_ok C"
  shows "tidy (SymbolToString C)"
    "(\<And>x. tidy (to_std x)) \<Longrightarrow> tidy (symbolToStdBasicString C to_std v)"
    "(\<And>x. tidy (to_std x)) \<Longrightarrow> tidy (propertyIdToStdBasicString C to_std v)"
proof -
  show s: "tidy (SymbolToString C)" unfolding SymbolToString_def by (intro tidy_intros assms)
  show "(\<And>x. tidy (to_std x)) \<Longrightarrow> tidy (symbolToStdBasicString C to_std v)"
    "(\<And>x. tidy (to_std x)) \<Longrightarrow> tidy (propertyIdToStdBasicString C to_std v)"
    unfolding symbolToStdBasicString_def propertyIdToStdBasicString_def by (intro tidy_intros assms s; assumption)+
qed

lemma tidy_emplace [tidy_intros]: "tidy (try_emplace key p)" "tidy (try_emplace16 key16 p)"
  unfolding try_emplace_def try_emplace16_def by (intro tidy_intros)+

lemma tidy_pointer_kind [tidy_intros]: "tidy (pointer_kind q)"
  unfolding pointer_kind_def by (cases q) (simp_all, (intro tidy_intros)+)

lemma tidy_names [tidy_intros]:
  assumes "ctx_ok C" "tidy create"
  shows "tidy (unique_name C create)" "tidy (prop_name C key create)"
proof -
  show u: "tidy (unique_name C create)"
    unfolding unique_name_def by (intro tidy_intros call_intros assms)
  show "tidy (prop_name C key create)"
    unfolding prop_name_def by (intro tidy_intros u)
qed

lemma tidy_external_function [tidy_intros]:
  assumes "ctx_ok C"
  shows "tidy (createExternalFunction C v n cb d)" "tidy (marker_data C i v)" "tidy (getJsiHostObject C v)"
proof -
  show "tidy (createExternalFunction C v n cb d)"
    unfolding createExternalFunction_def by (intro tidy_intros call_intros assms)
  show m: "tidy (marker_data C i v)" for i
    unfolding marker_data_def by (intro tidy_intros assms)
  show "tidy (getJsiHostObject C v)"
    unfolding getJsiHostObject_def by (intro tidy_intros m assms)
qed

lemma tidy_proxy_handler [tidy_intros]:
  assumes "ctx_ok C"
  shows "tidy (setProxyTrap C this h i cb n)" "tidy (getHostObjectProxyHandler C this)"
proof -
  show s: "tidy (setProxyTrap C this h i cb n)" for h i cb n
    unfolding setProxyTrap_def by (intro tidy_intros assms)
  show "tidy (getHostObjectProxyHandler C this)"
    unfolding getHostObjectProxyHandler_def by (intro tidy_intros assms s)
qed

text \<open>Unwrapping leaves no exception behind even when it fails.\<close>

lemma unwrap_quiet:
  assumes "engine_ok V" "last_exception e = None" "napi_unwrap V v r e = Inr (st, out, e')"
  shows "last_exception e' = None"
proof -
  define body where "body = (\<lambda>obj. jsv V (oGetPrivate obj wrapper_key) (\<lambda>maybe_val. from_just maybe_val (\<lambda>val.
      RETURN_STATUS_IF_FALSE (Is V tExternal val) napi_invalid_arg (\<lambda>e.
        with_reference (rd V (rExternalValue val) (isolate e)) (\<lambda>reference.
          GET_RETURN_STATUS (if r then Some (Reference_Data reference) else None)) e))))"
  have b: "try_catch e1 = Some None \<and> last_exception e1 = None"
    if run: "body obj e0 = Inr (st1, out1, e1)" and e0: "try_catch e0 = Some None" "last_exception e0 = None" for obj e0 st1 out1 e1
  proof -
    obtain m exc e2 where o: "vop V (oGetPrivate obj wrapper_key) e0 = Inr (m, exc, e2)"
      and k: "from_just m (\<lambda>val. RETURN_STATUS_IF_FALSE (Is V tExternal val) napi_invalid_arg (\<lambda>e.
        with_reference (rd V (rExternalValue val) (isolate e)) (\<lambda>reference.
          GET_RETURN_STATUS (if r then Some (Reference_Data reference) else None)) e))
        (case exc of None \<Rightarrow> e2 | Some x \<Rightarrow> ThrowException x e2) = Inr (st1, out1, e1)"
      using run by (auto simp: body_def jsv_def js_end_def bind_res_Inr_iff)
    note eo = engine_okD(1) [OF assms(1) o]
    have exc: "exc = None" using k eo by (cases exc) (auto simp: from_just_def)
    show ?thesis
      using k eo e0 unfolding exc
      by (cases m) (auto simp: from_just_def RETURN_STATUS_IF_FALSE_def fail_def with_reference_def GET_RETURN_STATUS_def HasCaught_def
          split: if_splits option.splits tracker.splits)
  qed
  have u: "napi_unwrap V v r = NAPI_PREAMBLE (CHECK_ARG v (\<lambda>obj. CHECK_OUT r
      (RETURN_STATUS_IF_FALSE (Is V tObject obj) napi_invalid_arg (body obj))))"
    by (simp add: napi_unwrap_def Unwrap_def body_def Let_def)
  from assms(3) [unfolded u] show ?thesis
  proof (cases rule: preamble_cases)
    case 1
    then obtain e1 where "CHECK_ARG v (\<lambda>obj. CHECK_OUT r (RETURN_STATUS_IF_FALSE (Is V tObject obj) napi_invalid_arg (body obj)))
        ((napi_clear_last_error e)\<lparr>try_catch := Some None\<rparr>) = Inr (st, out, e1)" "e' = TryCatch_end (try_catch e) e1"
      by (auto simp: with_TryCatch_def bind_res_Inr_iff)
    moreover from this(1) have "try_catch e1 = Some None \<and> last_exception e1 = None"
      using b [of _ "(napi_clear_last_error e)\<lparr>try_catch := Some None\<rparr>" st out e1] assms(2)
      by (cases v) (auto simp: CHECK_OUT_def RETURN_STATUS_IF_FALSE_def fail_def split: if_splits)
    ultimately show ?thesis by (simp add: HasCaught_def)
  qed (simp add: assms(2))
qed

text \<open>
  The methods that open a \<open>NodeApiScope\<close>, with their results dropped. The methods that only clone a pointer open none;
  the callbacks are treated below.
\<close>

definition drop_result :: "('v, 'h, 'a) jsi_m \<Rightarrow> ('v, 'h, unit) jsi_m" where
  "drop_result m = bindm m (\<lambda>_. return ())"

inductive jsi_method :: "('v, 'h) jsi_ctx \<Rightarrow> ('v, 'h, unit) jsi_m \<Rightarrow> bool" for C where
  "jsi_method C (drop_result (createStringFromAscii C s))"
| "jsi_method C (drop_result (createStringFromUtf8 C s))"
| "jsi_method C (drop_result (createStringFromUtf16 C s16))"
| "jsi_method C (drop_result (utf8_String C p))"
| "jsi_method C (drop_result (utf16_String C p))"
| "jsi_method C (drop_result (symbolToString C p))"
| "jsi_method C (drop_result (utf8_PropNameID C p))"
| "jsi_method C (drop_result (utf16_PropNameID C p))"
| "jsi_method C (drop_result (createPropNameIDFromAscii C name))"
| "jsi_method C (drop_result (createPropNameIDFromUtf8 C name))"
| "jsi_method C (drop_result (createPropNameIDFromUtf16 C name16))"
| "jsi_method C (drop_result (createPropNameIDFromString C p))"
| "jsi_method C (drop_result (compare_names C p q))"
| "jsi_method C (drop_result (createBigIntFromInt64 C w))"
| "jsi_method C (drop_result (createBigIntFromUint64 C w))"
| "jsi_method C (drop_result (bigintIsInt64 C p))"
| "jsi_method C (drop_result (bigintIsUint64 C p))"
| "jsi_method C (drop_result (truncate_bigint C p))"
| "jsi_method C (drop_result (createObject C))"
| "jsi_method C (drop_result (Object_getProperty C p q))"
| "jsi_method C (drop_result (Object_hasProperty C p q))"
| "jsi_method C (drop_result (setPropertyValue C p q v))"
| "jsi_method C (drop_result (getPrototypeOf C p))"
| "jsi_method C (drop_result (Object_isArray C p))"
| "jsi_method C (drop_result (isArrayBuffer C p))"
| "jsi_method C (drop_result (isFunction C p))"
| "jsi_method C (drop_result (isHostObject C p))"
| "jsi_method C (drop_result (isHostFunction C p))"
| "jsi_method C (drop_result (getHostObject C p))"
| "jsi_method C (drop_result (getHostFunction C p))"
| "jsi_method C (drop_result (createWeakObject C p))"
| "jsi_method C (drop_result (lockWeakObject C p))"
| "jsi_method C (drop_result (Array_size C p))"
| "jsi_method C (drop_result (ArrayBuffer_size C p))"
| "jsi_method C (drop_result (ArrayBuffer_data C p))"
| "jsi_method C (drop_result (getValueAtIndex C p n))"
| "jsi_method C (drop_result (setValueAtIndexImpl C p n v))"
| "jsi_method C (drop_result (strictEquals_pointers C p q))"
| "jsi_method C (drop_result (Object_instanceOf C p q))"
| "jsi_method C (drop_result (hasNativeState C p))"
| "jsi_method C (drop_result (getNativeState C p))"
| "jsi_method C (drop_result (setNativeState C p st))"
| "jsi_method C (drop_result (createFunctionFromHostFunction C p i wrapper))"
| "jsi_method C (drop_result (Function_call C p v vs))"
| "jsi_method C (drop_result (callAsConstructor C p vs))"
| "jsi_method C (drop_result (createHostObject C this host))"
| "jsi_method C (drop_result (NodeApiJsiRuntime_init C))"

lemma neatD: "neat m \<Longrightarrow> settled j \<Longrightarrow> m j = Inr (r, j') \<Longrightarrow> framed j j' \<and> stackValues j' = stackValues j"
  by (simp add: neat_def)

lemma neat_drop: "neat m \<Longrightarrow> neat (drop_result m)"
proof -
  assume m: "neat m"
  have "framed j j' \<and> stackValues j' = stackValues j" if j: "settled j" and run: "drop_result m j = Inr (r, j')" for j r j'
  proof -
    obtain r1 j1 where 1: "m j = Inr (r1, j1)"
      and "(case r1 of Inl x \<Rightarrow> Inr (Inl x, j1) | Inr a \<Rightarrow> Inr (Inr (), j1)) = (Inr (r, j') :: (_ \<times> _) res)"
      using run by (cases "m j") (auto simp: drop_result_def bindm_def return_def [abs_def])
    then show ?thesis using neatD [OF m j 1] by (cases r1) auto
  qed
  then show "neat (drop_result m)" unfolding neat_def by blast
qed

lemma neat_with_pointer:
  assumes "ctx_ok C" "\<And>v. tidy (k v)"
  shows "neat (with_pointer C p k)"
  unfolding with_pointer_def by (intro neat_NodeApiScope ctx_engine tidy_intros assms)

lemma neat_with_pointers:
  assumes "ctx_ok C" "\<And>v w. tidy (k v w)"
  shows "neat (with_pointers C p q k)"
  unfolding with_pointers_def by (intro neat_NodeApiScope ctx_engine tidy_intros assms)

lemma neat_noexcept:
  assumes "neat m"
  shows "neat (noexcept m)"
  unfolding neat_def
proof (intro allI impI)
  fix j r j'
  assume j: "settled j" and "noexcept m j = Inr (r, j')"
  then obtain r1 j1 where 1: "m j = Inr (r1, j1)"
    and "(case r1 of Inl x \<Rightarrow> Inl CxxException | Inr a \<Rightarrow> Inr (Inr a, j1)) = Inr (r, j')"
    by (auto simp: noexcept_def bind_res_Inr_iff)
  then show "framed j j' \<and> stackValues j' = stackValues j" using neatD [OF assms j 1] by (cases r1) auto
qed

lemmas neat_rules = neat_drop neat_with_pointer neat_with_pointers neat_NodeApiScope neat_noexcept

lemma tidy_unwrap:
  assumes "ctx_ok C"
  shows "tidy (call_napi (napi_unwrap (engine C) v r))"
proof (rule tidyI)
  fix j x j'
  assume "settled j" "call_napi (napi_unwrap (engine C) v r) j = Inr (x, j')"
  then show "framed j j'"
    using unwrap_quiet [OF ctx_engine [OF assms]] by (auto simp: call_napi_def bind_res_Inr_iff framed_def settled_def)
qed

lemma neat_hasNativeState: "ctx_ok C \<Longrightarrow> neat (hasNativeState C p)"
  unfolding hasNativeState_def by (intro neat_rules tidy_intros tidy_unwrap)

lemma neat_utf8_String: "ctx_ok C \<Longrightarrow> neat (utf8_String C p)"
  unfolding utf8_String_def by (intro neat_rules tidy_intros ctx_engine)

lemma tidy_init_name:
  assumes "ctx_ok C"
  shows "tidy (init_name C x)"
  unfolding init_name_def by (intro tidy_intros assms)

lemmas method_defs = createStringFromAscii_def createStringFromUtf8_def createStringFromUtf16_def utf16_String_def
  symbolToString_def utf8_PropNameID_def utf16_PropNameID_def createPropNameIDFromAscii_def createPropNameIDFromUtf8_def
  createPropNameIDFromUtf16_def createPropNameIDFromString_def createBigIntFromInt64_def createBigIntFromUint64_def
  bigintIsInt64_def bigintIsUint64_def truncate_bigint_def createObject_def Object_getProperty_def Object_hasProperty_def
  setPropertyValue_def getPrototypeOf_def Object_isArray_def isArrayBuffer_def isFunction_def isHostObject_def
  isHostFunction_def getHostObject_def getHostFunction_def createWeakObject_def lockWeakObject_def Array_size_def
  ArrayBuffer_size_def ArrayBuffer_data_def getValueAtIndex_def setValueAtIndexImpl_def strictEquals_pointers_def
  Object_instanceOf_def getNativeState_def setNativeState_def createFunctionFromHostFunction_def Function_call_def
  callAsConstructor_def createHostObject_def NodeApiJsiRuntime_init_def

lemma neat_compare_names: "ctx_ok C \<Longrightarrow> neat (compare_names C p q)"
  unfolding compare_names_def by (cases p; cases q) (auto intro!: neat_rules tidy_intros ctx_engine)

lemma methods_neat:
  assumes "ctx_ok C" "jsi_method C m"
  shows "neat m"
  using assms(2)
  by (cases; simp only: method_defs)
    (intro neat_rules neat_hasNativeState neat_utf8_String neat_compare_names neat_utf8_String [THEN neat_tidy]
      neat_hasNativeState [THEN neat_tidy] tidy_init_name tidy_intros call_intros assms(1))+

end
