(* ===== verification/Jsi_Host.thy ===== *)
theory Jsi_Host
  imports Jsi_Contract
begin

text \<open>
  What the JSI runtime promises to its clients: methods leave no exception behind and balance their scopes, the
  conversion between JavaScript and JSI values, and the callbacks by which JavaScript calls host functions, which
  balance the scopes as well but can crash when a host function throws.
\<close>

section \<open>Methods\<close>

text \<open>A runtime for concrete instances: an object and a name that are alive, no host code, no messages.\<close>

definition sample_pv :: "nat \<Rightarrow> nat NodeApiRefCountedPointerValue" where
  "sample_pv v = \<lparr>pv_value = Some v, pv_ref = None, refCount = 1, pointerKind = KObject, canBeDeletedFromStack = False\<rparr>"

definition sample_rt :: "(nat, nat) jsi_rt" where
  "sample_rt = \<lparr>jsi_env = env0, stackScopes = [], stackValues = [], pointer_values = [0 \<mapsto> sample_pv 5, 1 \<mapsto> sample_pv 6],
     next_pv = 2, pool = (\<lambda>_. []), poolSelector = 0, sourceURL = [], propertyId = (\<lambda>_. Some 1), cachedValue = (\<lambda>_. Some 0),
     hasPendingJSError = False, propNameIDs = (\<lambda>_. None), utf16PropNameIDs = (\<lambda>_. None)\<rparr>"

definition no_host :: "('v, 'h) jsi_rt \<Rightarrow> ('v, 'h) napi_env \<Rightarrow> ('v, 'h) jsi_rt" where
  "no_host j e = j\<lparr>jsi_env := e\<rparr>"

definition no_message :: "'v jsi_value \<Rightarrow> ('v, 'h, string) jsi_m" where
  "no_message v = return ''''"

lemma samples_ok: "host_ok no_host" "library_ok no_message" "settled sample_rt"
  by (auto simp: host_ok_def library_ok_def no_host_def no_message_def settled_def sample_rt_def env0_def napi_env_new_def
      intro: framed_refl tidy_return)

text \<open>
  A method of the JSI runtime that returns, normally or by a C++ exception, leaves no exception pending in the
  environment and has closed the scopes it opened: the pointer scopes, the handles on the stack, the marker of an error
  being raised and the source URL are those from before.
\<close>

theorem jsi_methods_clean:
  assumes "engine_ok V" "host_ok re" "library_ok je" "jsi_method (runtime_ctx V re je) m"
    and "last_exception (jsi_env j) = None" "m j = Inr (r, j')"
  shows "last_exception (jsi_env j') = None \<and> stackScopes j' = stackScopes j \<and> stackValues j' = stackValues j \<and>
    hasPendingJSError j' = hasPendingJSError j \<and> sourceURL j' = sourceURL j"
  using neatD [OF methods_neat [OF runtime_ctx_ok [OF assms(1-3)] assms(4)] _ assms(6)] assms(5)
  by (simp add: settled_def framed_def)

text \<open>Reading a property whose getter throws.\<close>

definition get_thrown :: "(nat, nat, nat jsi_value) jsi_m" where
  "get_thrown = Object_getProperty (runtime_ctx throwing_engine no_host no_message) (Counted 0) (Counted 1)"

definition exn_of :: "(('v jsi_exception + 'a) \<times> ('v, 'h) jsi_rt) res \<Rightarrow> 'v jsi_exception option" where
  "exn_of r = (case r of Inr (Inl x, _) \<Rightarrow> Some x | _ \<Rightarrow> None)"

lemma get_thrown_run: "exn_of (get_thrown sample_rt) = Some (JSError (JNumber 0) [])"
  by code_simp

theorem jsi_methods_clean_witness:
  "\<exists>j'. drop_result get_thrown sample_rt = Inr (Inl (JSError (JNumber 0) []), j') \<and> last_exception (jsi_env j') = None \<and>
    stackScopes j' = [] \<and> stackValues j' = [] \<and> \<not> hasPendingJSError j'"
proof -
  let ?C = "runtime_ctx throwing_engine no_host no_message"
  obtain j' where run: "drop_result get_thrown sample_rt = Inr (Inl (JSError (JNumber 0) []), j')"
    using get_thrown_run by (auto simp: exn_of_def drop_result_def bindm_def split: sum.splits)
  have "jsi_method ?C (drop_result get_thrown)" unfolding get_thrown_def by (rule jsi_method.intros)
  from jsi_methods_clean [OF engines_ok(2) samples_ok(1,2) this _ run] samples_ok(3) run show ?thesis
    by (simp add: settled_def sample_rt_def)
qed

section \<open>Values\<close>

text \<open>The type of a JSI value that a JavaScript value of a type becomes, and the kind of its pointer.\<close>

fun has_type :: "'v jsi_value \<Rightarrow> napi_valuetype \<Rightarrow> bool" where
  "has_type JUndefined t = (t = napi_undefined)"
| "has_type JNull t = (t = napi_null)"
| "has_type (JBool b) t = (t = napi_boolean)"
| "has_type (JNumber n) t = (t = napi_number)"
| "has_type (JString p) t = (t = napi_string)"
| "has_type (JSymbol p) t = (t = napi_symbol)"
| "has_type (JBigInt p) t = (t = napi_bigint)"
| "has_type (JObject p) t = (t \<in> {napi_object, napi_function, napi_external})"

fun kind_of_type :: "napi_valuetype \<Rightarrow> NodeApiPointerValueKind" where
  "kind_of_type napi_string = KString"
| "kind_of_type napi_symbol = KSymbol"
| "kind_of_type napi_bigint = KBigInt"
| "kind_of_type _ = KObject"

definition holds :: "('v, 'h) jsi_rt \<Rightarrow> 'v jsi_value \<Rightarrow> NodeApiPointerValueKind \<Rightarrow> 'v \<Rightarrow> bool" where
  "holds j v kind x \<longleftrightarrow> (\<exists>p pv. pointer_of v = Some (Counted p) \<and> pointer_values j p = Some pv \<and> pointerKind pv = kind \<and>
     pv_value pv = Some x \<and> refCount pv = 1)"

lemma typeOf_run:
  assumes "typeOf C (Some x) j = Inr (Inr t, j1)"
  shows "(napi_typeof (engine C) (Some x) True (jsi_env j) = Inr (napi_ok, Some t, jsi_env j1) \<and> j1 = j\<lparr>jsi_env := jsi_env j1\<rparr>)"
proof (cases "napi_typeof (engine C) (Some x) True (jsi_env j)")
  case (Inl f)
  have "CHECK_NAPI C (call_napi (napi_typeof (engine C) (Some x) True)) j = Inl f"
    unfolding call_napi_def by (rule CHECK_NAPI_run(2) [of "napi_typeof (engine C) (Some x) True" j, OF Inl])
  then show ?thesis using assms by (simp add: typeOf_def into_def bindm_def)
next
  case (Inr y)
  obtain st out e where y: "y = (st, out, e)" by (cases y)
  have run: "CHECK_NAPI C (call_napi (napi_typeof (engine C) (Some x) True)) j =
      (if st = napi_ok then Inr (Inr out, j\<lparr>jsi_env := e\<rparr>)
       else bind_res (on_error C st (j\<lparr>jsi_env := e\<rparr>)) (\<lambda>(x, j1). Inr (Inl x, j1)))"
    unfolding call_napi_def by (rule CHECK_NAPI_run(1) [of "napi_typeof (engine C) (Some x) True" j, OF Inr [unfolded y]])
  have ok: "st = napi_ok"
    using assms run by (cases "on_error C st (j\<lparr>jsi_env := e\<rparr>)"; cases "st = napi_ok")
      (auto simp: typeOf_def into_def bindm_def return_def)
  then have "out \<noteq> None"
    using Inr y by (auto simp: napi_typeof_def guard_defs res_simps split: if_splits)
  then show ?thesis using assms run ok Inr y by (auto simp: typeOf_def into_def bindm_def return_def)
qed

lemma typeof_boolean:
  assumes "napi_typeof V (Some x) True e = Inr (napi_ok, Some t, e1)"
  shows "CheckGCAccess e \<and> e1 = napi_clear_last_error e \<and> (t = napi_boolean \<longrightarrow> Is V tBoolean x) \<and> (t = napi_number \<longrightarrow> Is V tNumber x)"
  using assms by (auto simp: napi_typeof_def guard_defs res_simps split: if_splits)

lemma call_ok:
  assumes "f (jsi_env j) = Inr (napi_ok, out, e)"
  shows "CHECK_NAPI C (call_napi f) j = Inr (Inr out, j\<lparr>jsi_env := e\<rparr>)"
  using CHECK_NAPI_run(1) [of f j, OF assms, of C "\<lambda>j e. j\<lparr>jsi_env := e\<rparr>"] unfolding call_napi_def by simp

text \<open>A new pointer, read through a clone.\<close>

lemma new_pointer:
  assumes "\<And>p. getNodeApiValue C (con p) = through_clone C p"
  shows "\<exists>p j2. makeJsiPointer kind (Some x) j = Inr (Inr (Counted p), j2) \<and>
    pointer_values j2 p = Some \<lparr>pv_value = Some x, pv_ref = None, refCount = 1, pointerKind = kind, canBeDeletedFromStack = False\<rparr> \<and>
    (\<exists>j3. getNodeApiValue C (con (Counted p)) j2 = Inr (Inr (Some x), j3))"
  unfolding assms
  by (auto simp: makeJsiPointer_def bindm_def deref_m_def pure_op_def pure_upd_def Jsi_Pointers.make_def Let_def through_clone_def
      pointer_clone_def getNodeApiValue_pointer_def pointer_getValue_def pointer_invalidate_def clone_def getValue_def
      invalidate_def incRefCount_def decRefCount_def INT32_MAX_def addStackValue_def set_pv_def return_def check_def)

lemma primitives_read:
  assumes "typeOf C (Some x) j = Inr (Inr t, j1)"
  shows "t = napi_boolean \<Longrightarrow> \<exists>v j2. getValueBool C (Some x) j1 = Inr (Inr v, j2)"
    and "t = napi_number \<Longrightarrow> \<exists>v j2. getValueDouble C (Some x) j1 = Inr (Inr v, j2)"
proof -
  let ?V = "engine C"
  note t = typeOf_run [OF assms]
  note b = typeof_boolean [OF conjunct1 [OF t]]
  have g: "CheckGCAccess (jsi_env j1)" using b by (simp add: CheckGCAccess_def napi_clear_last_error_def)
  {
    assume "t = napi_boolean"
    then have "napi_get_value_bool ?V (Some x) True (jsi_env j1) =
        Inr (napi_ok, Some (tst ?V (sBooleanValue x) (isolate (jsi_env j1))), napi_clear_last_error (jsi_env j1))"
      using b g by (simp add: napi_get_value_bool_def guard_defs)
    from call_ok [of "napi_get_value_bool ?V (Some x) True" j1, OF this, of C]
    show "\<exists>v j2. getValueBool C (Some x) j1 = Inr (Inr v, j2)" by (simp add: getValueBool_def into_def bindm_def return_def)
  next
    assume "t = napi_number"
    then have "napi_get_value_double ?V (Some x) True (jsi_env j1) =
        Inr (napi_ok, Some (word_of_nat (rd ?V (rNumberValue x) (isolate (jsi_env j1)))), napi_clear_last_error (jsi_env j1))"
      using b g by (simp add: napi_get_value_double_def guard_defs)
    from call_ok [of "napi_get_value_double ?V (Some x) True" j1, OF this, of C]
    show "\<exists>v j2. getValueDouble C (Some x) j1 = Inr (Inr v, j2)" by (simp add: getValueDouble_def into_def bindm_def return_def)
  }
qed


text \<open>An engine whose values are all strings.\<close>

definition string_engine :: "(nat, nat) v8" where
  "string_engine = plain_engine\<lparr>Is := (\<lambda>t v. t = tString \<or> t = tName)\<rparr>"

lemma string_engine_ok: "engine_ok string_engine"
  by (auto simp: engine_ok_def plain_engine_def string_engine_def)


section \<open>Callbacks\<close>

text \<open>The end of a scope while an exception is pending.\<close>

definition primitive_kind :: "NodeApiPointerValueKind \<Rightarrow> bool" where
  "primitive_kind k \<longleftrightarrow> k \<notin> {KObject, KWeakObject}"

lemma ref_with_exception:
  assumes "createNodeApiRef V p j = Inr j'" "pointer_values j p = Some pv" "last_exception (jsi_env j) = Some x"
  shows "\<not> primitive_kind (pointerKind pv)" "last_exception (jsi_env j') = Some x"
proof -
  have ref: "last_exception e = Some x" if "napi_create_reference V (pv_value pv) n True (jsi_env j) = Inr (napi_ok, out, e)" for n out e
    using that assms(3)
    by (auto simp: napi_create_reference_def guard_defs check_def Reference_New_def new_tracker_def LinkRef_def Let_def split: option.splits if_splits)
  have obj: "last_exception e = Some x" if "napi_create_object V True (jsi_env j) = Inr (napi_ok, out, e)" for out e
    using that assms(3) by (auto simp: napi_create_object_def guard_defs check_def alloc_def split: prod.splits if_splits)
  have blocked: "napi_set_named_property V a s v e \<noteq> Inr (napi_ok, out, e2)" if "last_exception e = Some x" for a s v e out e2
    using that by (auto simp: napi_set_named_property_def NAPI_PREAMBLE_def CHECK_ENV_NOT_IN_GC_def check_def fail_def)
  show k: "\<not> primitive_kind (pointerKind pv)"
    using assms(1,2) obj blocked
    by (auto simp: createNodeApiRef_def primitive_kind_def CHECK_NAPI_ok bind_res_Inr_iff check_Inr_iff split: if_splits)
  show "last_exception (jsi_env j') = Some x"
    using assms(1,2) ref k
    by (auto simp: createNodeApiRef_def primitive_kind_def CHECK_NAPI_ok bind_res_Inr_iff check_Inr_iff set_pv_def split: if_splits)
qed

lemma delete_with_exception:
  assumes "deleteStackValue V p j = Inr j'" "last_exception (jsi_env j) = Some x"
  shows "last_exception (jsi_env j') = Some x"
    "pointer_values j p = Some pv \<Longrightarrow> primitive_kind (pointerKind pv) \<Longrightarrow> refCount pv \<noteq> 0 \<Longrightarrow> pv_ref pv = None \<Longrightarrow> False"
  using assms ref_with_exception [of V p _ _ _ x]
  by (auto simp: deleteStackValue_def bind_res_Inr_iff check_Inr_iff deref_Inr_iff Let_def delete_pv_def set_pv_def split: if_splits)

text \<open>
  C34: A scope cannot be closed while an exception is pending if it contains a string, symbol, big integer or
  property name that is still held and has no reference yet: making the reference needs \<^verbatim>\<open>napi_set_named_property\<close>, which
  refuses to work then, and the process crashes. A host function that keeps a primitive argument and throws ends like
  this, since the exception is set before the scope of the callback is closed.
\<close>

theorem throwing_callback_crashes:
  assumes "last_exception (jsi_env j) = Some x" "stackScopes j = S @ [n]" "p \<in> set (drop n (stackValues j))"
    and "pointer_values j p = Some pv" "primitive_kind (pointerKind pv)" "refCount pv \<noteq> 0" "pv_ref pv = None"
  shows "\<exists>fault. popPointerValueScope V j = Inl fault"
proof -
  have "for_each (deleteStackValue V) ps i \<noteq> Inr i'"
    if "p \<in> set ps" "last_exception (jsi_env i) = Some x" "pointer_values i p = Some pv" for ps i i'
    using that
  proof (induction ps arbitrary: i)
    case (Cons q ps)
    show ?case
    proof
      assume "for_each (deleteStackValue V) (q # ps) i = Inr i'"
      then obtain i1 where 1: "deleteStackValue V q i = Inr i1" "for_each (deleteStackValue V) ps i1 = Inr i'"
        by (auto simp: bind_res_Inr_iff)
      note d = delete_with_exception [OF 1(1) Cons.prems(2)]
      have "q \<noteq> p" using d(2) assms(5-7) Cons.prems(3) by blast
      then have "pointer_values i1 p = Some pv"
        using deleteStackValue_only [OF 1(1)] Cons.prems(3) by (auto simp: only_at_def)
      then show False using Cons.IH [OF _ d(1)] 1(2) Cons.prems(1) \<open>q \<noteq> p\<close> by auto
    qed
  qed simp
  from this [of "drop n (stackValues j)" "j\<lparr>stackScopes := butlast (stackScopes j)\<rparr>"] assms(1-4)
  have "popPointerValueScope V j \<noteq> Inr j'" for j'
    by (auto simp: popPointerValueScope_def bind_res_Inr_iff check_Inr_iff Let_def)
  then show ?thesis by (cases "popPointerValueScope V j") auto
qed

text \<open>A host function that keeps its first argument and throws, called with a string.\<close>

definition keeping_host :: "(nat, nat) host" where
  "keeping_host = \<lparr>
     host_function = (\<lambda>w this args.
       bindm (case pointer_of (args ! 0) of None \<Rightarrow> return (Counted 0) | Some p \<Rightarrow> pure_op (pointer_clone p)) (\<lambda>_.
         throw (JSError (JNumber 3) []))),
     host_get = (\<lambda>_ _. return JUndefined), host_set = (\<lambda>_ _ _. return ())\<rparr>"

definition string_call :: "nat callback_info" where
  "string_call = \<lparr>cb_args = [5], cb_this = 4, cb_data = 77, cb_new_target = None\<rparr>"

definition fault_of :: "'a res \<Rightarrow> fault option" where
  "fault_of r = (case r of Inl f \<Rightarrow> Some f | Inr _ \<Rightarrow> None)"

text \<open>The state when the callback is about to close its scope.\<close>

definition before_scope_end :: "((nat jsi_exception + nat option) \<times> (nat, nat) jsi_rt) res" where
  "before_scope_end =
     (let C = runtime_ctx string_engine no_host no_message
      in handleCallbackExceptions C (host_call C keeping_host string_call 1 77) (pushPointerValueScope sample_rt))"

definition scope_summary :: "((nat jsi_exception + nat option) \<times> (nat, nat) jsi_rt) res \<Rightarrow> bool" where
  "scope_summary r =
     (case r of
        Inr (_, j) \<Rightarrow> last_exception (jsi_env j) = Some 0 \<and> stackScopes j = [0] \<and> stackValues j = [2] \<and>
          (case pointer_values j 2 of
             Some pv \<Rightarrow> pointerKind pv = KString \<and> refCount pv = 1 \<and> pv_ref pv = None
           | None \<Rightarrow> False)
      | Inl _ \<Rightarrow> False)"

lemma keeping_host_state: "scope_summary before_scope_end"
  by code_simp

lemma callback_runs_in_scope:
  "jsiHostFunctionCallback C keeping_host string_call sample_rt =
     NodeApiPointerValueScope C (handleCallbackExceptions C (host_call C keeping_host string_call 1 77)) sample_rt"
proof -
  have "sample_rt\<lparr>jsi_env := napi_clear_last_error env0\<rparr> = sample_rt"
    by (simp add: sample_rt_def env0_def napi_env_new_def napi_clear_last_error_def)
  then show ?thesis
    by (simp add: jsiHostFunctionCallback_def bindm_def pure_op_def CHECK_NAPI_ELSE_CRASH_def napi_get_cb_info_def string_call_def
        guard_defs deref_m_def crash_unless_def check_def sample_rt_def)
qed

theorem throwing_callback_crashes_witness:
  "\<exists>j fault. before_scope_end = Inr j \<and> popPointerValueScope string_engine (snd j) = Inl fault \<and>
    jsiHostFunctionCallback (runtime_ctx string_engine no_host no_message) keeping_host string_call sample_rt = Inl fault"
proof -
  let ?C = "runtime_ctx string_engine no_host no_message"
  obtain r j pv where b: "before_scope_end = Inr (r, j)" and j: "last_exception (jsi_env j) = Some 0" "stackScopes j = [] @ [0]"
      "stackValues j = [2]" "pointer_values j 2 = Some pv" "pointerKind pv = KString" "refCount pv = 1" "pv_ref pv = None"
    using keeping_host_state by (auto simp: scope_summary_def split: sum.splits prod.splits option.splits)
  then obtain f where f: "popPointerValueScope string_engine j = Inl f"
    using throwing_callback_crashes [OF j(1,2), of 2 pv string_engine] by (auto simp: primitive_kind_def)
  moreover have "engine ?C = string_engine" by (simp add: runtime_ctx_def Let_def)
  ultimately have "jsiHostFunctionCallback ?C keeping_host string_call sample_rt = Inl f"
    using b unfolding callback_runs_in_scope before_scope_end_def
    by (simp add: Let_def NodeApiPointerValueScope_def bindm_def modify_def finally_do_def noexcept_def pure_upd_def)
  then show ?thesis using b f by auto
qed

text \<open>Balanced scopes, also while an exception is pending.\<close>

definition loose :: "('v, 'h) jsi_rt \<Rightarrow> ('v, 'h) jsi_rt \<Rightarrow> bool" where
  "loose j j' \<longleftrightarrow> stackScopes j' = stackScopes j \<and> (\<exists>l. stackValues j' = stackValues j @ l) \<and>
     hasPendingJSError j' = hasPendingJSError j \<and> sourceURL j' = sourceURL j"

definition fixed :: "('v, 'h) jsi_rt \<Rightarrow> ('v, 'h) jsi_rt \<Rightarrow> bool" where
  "fixed j j' \<longleftrightarrow> loose j j' \<and> stackValues j' = stackValues j"

lemma loose_trans: "loose a b \<Longrightarrow> loose b c \<Longrightarrow> loose a c"
  by (auto simp: loose_def)

lemma fixed_trans: "fixed a b \<Longrightarrow> fixed b c \<Longrightarrow> fixed a c"
  by (auto simp: fixed_def loose_def)

lemma framed_loose: "framed j j' \<Longrightarrow> loose j j'"
  by (auto simp: framed_def loose_def)

lemma fixed_updates [simp]:
  "fixed j (set_pv p pv i) = fixed j i" "fixed j (delete_pv p i) = fixed j i" "fixed j (i\<lparr>jsi_env := e\<rparr>) = fixed j i"
  "fixed j (addPointerValueToDelete p i) = fixed j i" "fixed j (i\<lparr>poolSelector := s\<rparr>) = fixed j i" "fixed j (i\<lparr>pool := q\<rparr>) = fixed j i"
  "fixed j j"
  by (auto simp: fixed_def loose_def set_pv_def delete_pv_def addPointerValueToDelete_def)

lemma createNodeApiRef_fixed: "createNodeApiRef V p j = Inr j' \<Longrightarrow> fixed j j'"
  by (auto simp: createNodeApiRef_def bind_res_Inr_iff check_Inr_iff CHECK_NAPI_ok split: if_splits)

lemma deleteStackValue_fixed: "deleteStackValue V p j = Inr j' \<Longrightarrow> fixed j j'"
  using createNodeApiRef_fixed [of V p j] createNodeApiRef_fixed [of V p "delete_pv p j"] fixed_trans [of j "delete_pv p j"]
  by (auto simp: deleteStackValue_def bind_res_Inr_iff check_Inr_iff Let_def split: if_splits)

lemma deleteNodeApiRef_fixed: "deleteNodeApiRef p j = Inr j' \<Longrightarrow> fixed j j'"
  by (auto simp: deleteNodeApiRef_def bind_res_Inr_iff CHECK_NAPI_ok split: if_splits)

lemma for_each_fixed:
  assumes "\<And>p a b. f p a = Inr b \<Longrightarrow> fixed a b"
  shows "for_each f ps j = Inr j' \<Longrightarrow> fixed j j'"
  by (induction ps arbitrary: j) (auto simp: bind_res_Inr_iff dest: assms intro: fixed_trans)

lemma deletePointerValues_fixed:
  fixes j :: "('v, 'h) jsi_rt"
  assumes "deletePointerValues j = Inr j'"
  shows "fixed j j'"
proof -
  have "for_each deleteNodeApiRef ps (j\<lparr>poolSelector := s\<rparr>) = Inr k \<Longrightarrow> fixed j k" for ps s k
    using for_each_fixed [OF deleteNodeApiRef_fixed, where f = deleteNodeApiRef and ps = ps and j = "j\<lparr>poolSelector := s\<rparr>" and j' = k]
    by (simp add: fixed_def loose_def)
  then show ?thesis
    using assms by (auto simp: deletePointerValues_def Let_def bind_res_Inr_iff split: if_splits)
qed

lemma pop_loose:
  fixes j :: "('v, 'h) jsi_rt"
  assumes "popPointerValueScope V j = Inr j'" "stackScopes j = S @ [n]"
  shows "stackScopes j' = S \<and> stackValues j' = take n (stackValues j) \<and> hasPendingJSError j' = hasPendingJSError j \<and>
    sourceURL j' = sourceURL j"
proof -
  let ?j1 = "j\<lparr>stackScopes := S\<rparr>"
  obtain j2 where j2: "for_each (deleteStackValue V) (drop n (stackValues j)) ?j1 = Inr j2"
    and d: "deletePointerValues (j2\<lparr>stackValues := take n (stackValues j2)\<rparr>) = Inr j'"
    using assms by (auto simp: popPointerValueScope_def Let_def bind_res_Inr_iff check_Inr_iff)
  show ?thesis
    using for_each_fixed [OF deleteStackValue_fixed j2] deletePointerValues_fixed [OF d] by (simp add: fixed_def loose_def)
qed

text \<open>A computation that balances the scopes in every state, and one that does so when no exception is pending.\<close>

definition lax :: "('v, 'h, 'a) jsi_m \<Rightarrow> bool" where
  "lax m \<longleftrightarrow> (\<forall>j r j'. m j = Inr (r, j') \<longrightarrow> loose j j')"

definition firm :: "('v, 'h, 'a) jsi_m \<Rightarrow> bool" where
  "firm m \<longleftrightarrow> (\<forall>j r j'. settled j \<longrightarrow> m j = Inr (r, j') \<longrightarrow> loose j j')"

lemma lax_firm: "lax m \<Longrightarrow> firm m"
  by (auto simp: lax_def firm_def)

lemma tidy_firm: "tidy m \<Longrightarrow> firm m"
  by (auto simp: tidy_def firm_def intro: framed_loose)

lemma lax_return: "lax (return x)" "lax (throw y)"
  by (auto simp: lax_def return_def throw_def loose_def)

lemma bindm_cases:
  assumes "bindm m k j = Inr (r, j')"
  obtains (thrown) x where "m j = Inr (Inl x, j')"
    | (ended) y j1 where "m j = Inr (Inr y, j1)" "k y j1 = Inr (r, j')"
  using assms by (cases "m j"; cases "fst (projr (m j))") (auto simp: bindm_def)

lemma handle_cases:
  assumes "handle m h j = Inr (r, j')"
  obtains (thrown) x j1 where "m j = Inr (Inl x, j1)" "h x j1 = Inr (r, j')"
    | (ended) y where "m j = Inr (Inr y, j')"
  using assms by (cases "m j"; cases "fst (projr (m j))") (auto simp: handle_def)

lemma finally_cases:
  assumes "finally_do m d j = Inr (r, j')"
  obtains j1 where "m j = Inr (r, j1)" "d j1 = Inr (Inr (), j')"
  proof (cases "m j")
  case (Inr x)
  obtain r1 j1 where x: "x = (r1, j1)" by (cases x)
  show ?thesis
    using assms that Inr x by (cases "d j1"; cases "fst (projr (d j1))") (auto simp: finally_do_def noexcept_def)
qed (use assms in \<open>simp add: finally_do_def\<close>)

lemma noexcept_cases:
  assumes "noexcept m j = Inr (r, j')"
  obtains y where "r = Inr y" "m j = Inr (Inr y, j')"
  using assms by (cases "m j"; cases "fst (projr (m j))") (auto simp: noexcept_def)

lemma laxD: "lax m \<Longrightarrow> m j = Inr (r, j') \<Longrightarrow> loose j j'"
  by (simp add: lax_def)

lemma firmD: "firm m \<Longrightarrow> settled j \<Longrightarrow> m j = Inr (r, j') \<Longrightarrow> loose j j'"
  by (simp add: firm_def)

lemma firmI: "(\<And>j r j'. settled j \<Longrightarrow> m j = Inr (r, j') \<Longrightarrow> loose j j') \<Longrightarrow> firm m"
  by (simp add: firm_def)

lemma lax_bindm:
  assumes "lax m" "\<And>x. lax (k x)"
  shows "lax (bindm m k)"
  unfolding lax_def by (auto elim!: bindm_cases intro: loose_trans laxD [OF assms(1)] laxD [OF assms(2)])

lemma firm_bindm:
  assumes "firm m" "\<And>x. lax (k x)"
  shows "firm (bindm m k)"
  by (rule firmI) (auto elim!: bindm_cases intro: loose_trans firmD [OF assms(1)] laxD [OF assms(2)])

lemma firm_handle:
  assumes "firm m" "\<And>x. lax (h x)"
  shows "firm (handle m h)"
  by (rule firmI) (auto elim!: handle_cases intro: loose_trans firmD [OF assms(1)] laxD [OF assms(2)])

lemma firm_finally:
  assumes "firm m" "lax d"
  shows "firm (finally_do m d)"
  by (rule firmI) (auto elim!: finally_cases intro: loose_trans firmD [OF assms(1)] laxD [OF assms(2)])

text \<open>After a tidy computation no exception is pending.\<close>

lemma after_tidy:
  assumes "tidy m" "settled j" "m j = Inr (r, j1)"
  shows "loose j j1" "firm n \<Longrightarrow> n j1 = Inr (r', j') \<Longrightarrow> loose j j'"
  using framed_loose [OF tidyD [OF assms]] framed_settled [OF tidyD [OF assms]] by (auto dest: firmD intro: loose_trans)

lemma firm_then:
  assumes "tidy m" "\<And>x. firm (k x)"
  shows "firm (bindm m k)"
  by (rule firmI) (auto elim!: bindm_cases intro: after_tidy [OF assms(1)] after_tidy(2) [OF assms(1) _ _ assms(2)])

lemma firm_or:
  assumes "tidy m" "\<And>x. firm (h x)"
  shows "firm (handle m h)"
  by (rule firmI) (auto elim!: handle_cases intro: after_tidy [OF assms(1)] after_tidy(2) [OF assms(1) _ _ assms(2)])

lemma lax_napi: "lax (call_napi f)"
  by (auto simp: lax_def call_napi_def bind_res_Inr_iff loose_def)

lemma lax_setException: "lax (setException C e)" "lax (setException_text C s)"
  by (auto simp: setException_def setException_text_def intro!: lax_bindm lax_napi lax_return)

lemma lax_release: "lax (release_value v)"
proof -
  have "pointer_invalidate p j = Inr j' \<Longrightarrow> loose j j'" for p and j j' :: "('v, 'h) jsi_rt"
    by (cases p) (auto simp: pointer_invalidate_def invalidate_def decRefCount_def bind_res_Inr_iff check_Inr_iff Let_def
        set_pv_def addPointerValueToDelete_def loose_def split: if_splits)
  then show ?thesis
    by (auto simp: release_value_def lax_def return_def pure_upd_def bind_res_Inr_iff loose_def split: option.splits)
qed

lemma lax_getUndefined:
  assumes "ctx_ok C"
  shows "lax (getUndefined C)"
proof -
  have "on_error C st j = Inr (x, j') \<Longrightarrow> loose j j'" for st j x j'
    using assms framed_loose unfolding ctx_ok_def settles_def by blast
  then have "lax (\<lambda>j. bind_res (on_error C st j) (\<lambda>(x, j1). Inr (Inl x, j1)))" for st
    by (auto simp: lax_def bind_res_Inr_iff)
  then show ?thesis
    by (auto simp: getUndefined_def CHECK_NAPI_def into_def intro!: lax_bindm lax_napi lax_return)
qed

lemma handleCallbackExceptions_firm:
  assumes "ctx_ok C" "tidy lam"
  shows "firm (handleCallbackExceptions C lam)"
proof -
  have firm_noexcept: "firm m \<Longrightarrow> firm (noexcept m)" for m :: "('v, 'h, 'v option) jsi_m"
    by (rule firmI) (auto elim!: noexcept_cases dest: firmD)
  have handler: "firm (finally_do (bindm (getNodeApiValue C v) (\<lambda>e. bindm (setException C e) (\<lambda>_. return None))) (release_value v))"
    for v
    by (intro firm_finally firm_then lax_firm lax_bindm lax_setException lax_return lax_release tidy_conversions assms(1))
  have "firm (handle (bindm lam (\<lambda>v. return (Some v))) (\<lambda>x. case x of
      JSError v w \<Rightarrow> finally_do (bindm (getNodeApiValue C v) (\<lambda>e. bindm (setException C e) (\<lambda>_. return None))) (release_value v)
    | _ \<Rightarrow> throw x))"
    using handler lax_firm [OF lax_return(2)] by (intro firm_or tidy_bindm tidy_return assms(2)) (auto split: jsi_exception.split)
  note outer = firm_handle [OF this]
  show ?thesis
    unfolding handleCallbackExceptions_def
    by (intro firm_noexcept firm_bindm outer)
      (auto split: jsi_exception.split option.split intro!: lax_bindm lax_setException lax_return lax_getUndefined assms(1))
qed

text \<open>The callbacks that the runtime registers with the engine.\<close>

inductive host_callback ::
  "('v, 'h) jsi_ctx \<Rightarrow> ('v, 'h) host \<Rightarrow> 'v callback_info \<Rightarrow> ('v, 'h, 'v option) jsi_m \<Rightarrow> bool"
  for C :: "('v, 'h) jsi_ctx" and H :: "('v, 'h) host" and info :: "'v callback_info" where
  "host_callback C H info (jsiHostFunctionCallback C H info)"
| "host_callback C H info (proxyTrap C 2 (hostObjectHasTrap C) info)"
| "host_callback C H info (proxyTrap C 3 (hostObjectGetTrap C H) info)"
| "host_callback C H info (proxyTrap C 4 (hostObjectSetTrap C H) info)"
| "host_callback C H info (proxyTrap C 2 (hostObjectGetOwnPropertyDescriptorTrap C H) info)"

text \<open>Host code that keeps the contract of the methods it calls.\<close>

definition host_tidy :: "('v, 'h) host \<Rightarrow> bool" where
  "host_tidy H \<longleftrightarrow> (\<forall>w this args. tidy (host_function H w this args)) \<and> (\<forall>h name. tidy (host_get H h name)) \<and>
     (\<forall>h name v. tidy (host_set H h name v))"

lemma tidy_method_context: "tidy m \<Longrightarrow> tidy (runInMethodContext name m)"
  unfolding runInMethodContext_def by (rule tidy_handle) (auto intro: tidy_intros split: jsi_exception.split)

lemma tidy_release: "tidy (release_value v)"
  unfolding release_value_def by (auto intro: tidy_intros split: option.split)

lemma tidy_get_cb_info: "tidy (pure_op (CHECK_NAPI_ELSE_CRASH (napi_get_cb_info V info argc argv)))"
  by (rule tidyI) (auto simp: pure_op_def CHECK_NAPI_ELSE_CRASH_def napi_get_cb_info_def guard_defs res_simps settled_def framed_def
      split: option.splits if_splits)

lemma tidy_split: "(\<And>a b c d. tidy (f a b c d)) \<Longrightarrow> tidy (case x of (a, b, c, d) \<Rightarrow> f a b c d)"
  by (cases x) simp

lemma tidy_host_call:
  assumes "ctx_ok C" "host_tidy H"
  shows "tidy (host_call C H info argc w)"
proof -
  have h: "tidy (host_function H w this args)" for this args using assms(2) by (simp add: host_tidy_def)
  show ?thesis
    unfolding host_call_def
    by (intro tidy_bindm tidy_split tidy_get_cb_info tidy_deref tidy_conversions tidy_method_context tidy_finally tidy_release h assms(1))
qed

lemma tidy_traps:
  assumes "ctx_ok C" "host_tidy H"
  shows "tidy (hostObjectHasTrap C args)" "tidy (hostObjectGetTrap C H args)" "tidy (hostObjectSetTrap C H args)"
    "tidy (hostObjectGetOwnPropertyDescriptorTrap C H args)"
proof -
  have h: "tidy (host_get H h name)" "tidy (host_set H h name v)" for h name v using assms(2) by (auto simp: host_tidy_def)
  note i = tidy_intros call_intros tidy_method_context tidy_release h assms(1)
  show "tidy (hostObjectHasTrap C args)" unfolding hostObjectHasTrap_def by (intro i)
  show "tidy (hostObjectGetTrap C H args)" unfolding hostObjectGetTrap_def by (intro i)
  show "tidy (hostObjectSetTrap C H args)" unfolding hostObjectSetTrap_def by (intro i)
  show "tidy (hostObjectGetOwnPropertyDescriptorTrap C H args)" unfolding hostObjectGetOwnPropertyDescriptorTrap_def by (intro i)
qed

text \<open>A callback in its pointer scope.\<close>

lemma scoped_callback:
  assumes "ctx_ok C" "tidy lam" "settled j" "NodeApiPointerValueScope C (handleCallbackExceptions C lam) j = Inr (r, j')"
  shows "(\<exists>v. r = Inr v) \<and> stackScopes j' = stackScopes j \<and> stackValues j' = stackValues j \<and>
    hasPendingJSError j' = hasPendingJSError j \<and> sourceURL j' = sourceURL j"
proof -
  let ?j0 = "pushPointerValueScope j"
  have "finally_do (handleCallbackExceptions C lam) (pure_upd (popPointerValueScope (engine C))) ?j0 = Inr (r, j')"
    using assms(4) by (simp add: NodeApiPointerValueScope_def bindm_def modify_def)
  then obtain j1 where b: "handleCallbackExceptions C lam ?j0 = Inr (r, j1)" and p: "popPointerValueScope (engine C) j1 = Inr j'"
    by (elim finally_cases) (auto simp: pure_upd_def bind_res_Inr_iff)
  have v: "\<exists>v. r = Inr v" using b unfolding handleCallbackExceptions_def by (elim noexcept_cases) simp
  have "settled ?j0" using assms(3) by (simp add: settled_def pushPointerValueScope_def)
  then have l: "loose ?j0 j1" using firmD [OF handleCallbackExceptions_firm [OF assms(1,2)]] b by blast
  then have "stackScopes j1 = stackScopes j @ [length (stackValues j)]" by (simp add: loose_def pushPointerValueScope_def)
  from pop_loose [OF p this] l v show ?thesis by (auto simp: loose_def pushPointerValueScope_def)
qed

lemma get_cb_info_step:
  assumes "bindm (pure_op (CHECK_NAPI_ELSE_CRASH (napi_get_cb_info V (Some info) a b))) (\<lambda>out. bindm (deref_m out) k) j = Inr (r, j')"
  shows "\<exists>x. k x (j\<lparr>jsi_env := napi_clear_last_error (jsi_env j)\<rparr>) = Inr (r, j')"
  using assms
  by (cases b; cases a) (auto simp: bindm_def pure_op_def CHECK_NAPI_ELSE_CRASH_def napi_get_cb_info_def guard_defs check_def deref_m_def)

lemma crash_step: "bindm (crash_unless c) k j = Inr (r, j') \<Longrightarrow> k () j = Inr (r, j')"
  by (auto simp: bindm_def crash_unless_def check_def split: if_splits)

lemma callback_in_scope:
  assumes "host_callback C H info m" "ctx_ok C" "host_tidy H" "m j = Inr (r, j')"
  shows "\<exists>lam. tidy lam \<and> NodeApiPointerValueScope C (handleCallbackExceptions C lam)
    (j\<lparr>jsi_env := napi_clear_last_error (jsi_env j)\<rparr>) = Inr (r, j')"
proof -
  have trap: ?thesis if "proxyTrap C n t info j = Inr (r, j')" "\<And>args. tidy (t args)" for n t
    using get_cb_info_step [OF that(1) [unfolded proxyTrap_def]] that(2) by (auto dest!: crash_step)
  note traps = tidy_traps [OF assms(2,3)]
  show ?thesis
    using assms(1)
  proof cases
    case 1
    then show ?thesis
      using get_cb_info_step [OF assms(4) [unfolded 1 jsiHostFunctionCallback_def]] tidy_host_call [OF assms(2,3)]
      by (auto dest!: crash_step)
  qed (use assms(4) trap traps in auto)
qed


text \<open>A host function that throws, called with a string that it does not keep.\<close>

definition throwing_host :: "(nat, nat) host" where
  "throwing_host = \<lparr>
     host_function = (\<lambda>w this args. throw (JSError (JNumber 3) [])),
     host_get = (\<lambda>_ _. return JUndefined), host_set = (\<lambda>_ _ _. return ())\<rparr>"

definition thrown_call :: "((nat jsi_exception + nat option) \<times> (nat, nat) jsi_rt) res" where
  "thrown_call = jsiHostFunctionCallback (runtime_ctx string_engine no_host no_message) throwing_host string_call sample_rt"

definition pending_after :: "(('v jsi_exception + 'a) \<times> ('v, 'h) jsi_rt) res \<Rightarrow> 'v option" where
  "pending_after r = (case r of Inr (_, j) \<Rightarrow> last_exception (jsi_env j) | Inl _ \<Rightarrow> None)"

lemma thrown_call_run: "pending_after thrown_call = Some 0"
  by code_simp


end
