(* ===== verification/Jsi_Utf.thy ===== *)
theory Jsi_Utf
  imports Inspector_Utils
begin

text \<open>
  The text conversions of the JSI library, \<^verbatim>\<open>src/src/jsi/jsi.cpp\<close>: decoding of UTF-8 with its look-ahead in the
  zero-terminated buffer, encoding as UTF-16, and the source text of a string literal.
\<close>

section \<open>Decoding UTF-8\<close>

definition replacementCharacter :: u32 where
  "replacementCharacter = 0xFFFD"

text \<open>The two tests for a continuation byte, as they are written.\<close>

definition not_continuation :: "u32 \<Rightarrow> bool" where
  "not_continuation ch \<longleftrightarrow> ch AND 0x40 \<noteq> 0 \<or> ch AND 0x80 = 0"

text \<open>\<open>decodeUTF8\<close> at a position of the buffer, with the position after it.\<close>

definition decodeUTF8 :: "u8 list \<Rightarrow> nat \<Rightarrow> (u32 \<times> nat) res" where
  "decodeUTF8 buf i =
     bind_res (read_at buf i) (\<lambda>b0. let ch = ucast b0 in
       if ch \<le> 0x7F then Inr (ch, i + 1)
       else if ch AND 0xE0 = 0xC0 then
         bind_res (read_at buf (i + 1)) (\<lambda>b1. let ch1 = ucast b1 in
           if ch1 AND 0xC0 \<noteq> 0x80 then Inr (replacementCharacter, i + 1)
           else let ret = push_bit 6 (ch AND 0x1F) OR (ch1 AND 0x3F)
                in Inr (if ret \<le> 0x7F then replacementCharacter else ret, i + 2))
       else if ch AND 0xF0 = 0xE0 then
         bind_res (read_at buf (i + 1)) (\<lambda>b1. let ch1 = ucast b1 in
           if not_continuation ch1 then Inr (replacementCharacter, i + 1)
           else bind_res (read_at buf (i + 2)) (\<lambda>b2. let ch2 = ucast b2 in
             if not_continuation ch2 then Inr (replacementCharacter, i + 2)
             else let ret = push_bit 12 (ch AND 0x0F) OR push_bit 6 (ch1 AND 0x3F) OR (ch2 AND 0x3F)
                  in Inr (if ret \<le> 0x7FF then replacementCharacter else ret, i + 3)))
       else if ch AND 0xF8 = 0xF0 then
         bind_res (read_at buf (i + 1)) (\<lambda>b1. let ch1 = ucast b1 in
           if not_continuation ch1 then Inr (replacementCharacter, i + 1)
           else bind_res (read_at buf (i + 2)) (\<lambda>b2. let ch2 = ucast b2 in
             if not_continuation ch2 then Inr (replacementCharacter, i + 2)
             else bind_res (read_at buf (i + 3)) (\<lambda>b3. let ch3 = ucast b3 in
               if not_continuation ch3 then Inr (replacementCharacter, i + 3)
               else let ret = push_bit 18 (ch AND 0x07) OR push_bit 12 (ch1 AND 0x3F) OR push_bit 6 (ch2 AND 0x3F) OR (ch3 AND 0x3F)
                    in Inr (if ret \<le> 0xFFFF then replacementCharacter else if ret > 0x10FFFF then replacementCharacter else ret, i + 4))))
       else Inr (replacementCharacter, i + 1))"

section \<open>Encoding UTF-16\<close>

definition encodeUTF16 :: "u32 \<Rightarrow> u16 list" where
  "encodeUTF16 cp =
     (if cp < 0x10000 then [ucast cp]
      else let c = cp - 0x10000
           in [0xD800 + ucast (drop_bit 10 c AND 0x3FF), 0xDC00 + ucast (c AND 0x3FF)])"

lemma decodeUTF8_advances: "decodeUTF8 buf i = Inr (cp, i') \<Longrightarrow> i < i'"
  by (cases "read_at buf i"; cases "read_at buf (i + 1)"; cases "read_at buf (i + 2)"; cases "read_at buf (i + 3)")
    (simp_all add: decodeUTF8_def Let_def split: if_split_asm)

text \<open>The loop of \<open>convertUTF8ToUTF16\<close>; \<open>buf\<close> is the text with its terminator, \<open>end\<close> the length of the text.\<close>

function convert_loop :: "u8 list \<Rightarrow> nat \<Rightarrow> nat \<Rightarrow> u16 list \<Rightarrow> u16 list res" where
  "convert_loop buf end pos ret =
     (if pos < end then
        case decodeUTF8 buf pos of
          Inl f \<Rightarrow> Inl f
        | Inr (cp, pos1) \<Rightarrow> convert_loop buf end pos1 (ret @ encodeUTF16 cp)
      else Inr ret)"
  by pat_completeness auto
termination
  by (relation "measure (\<lambda>(buf, end, pos, ret). end - pos)") (auto dest: decodeUTF8_advances)

declare convert_loop.simps [simp del]

definition convertUTF8ToUTF16 :: "u8 list \<Rightarrow> u16 list res" where
  "convertUTF8ToUTF16 utf8 = convert_loop (utf8 @ [0]) (length utf8) 0 []"

section \<open>String literals\<close>

definition hexDigit :: "u16 \<Rightarrow> char" where
  "hexDigit x = (if x < 10 then char_of (48 + unat x) else char_of (65 + unat (x - 10)))"

fun isAllASCII :: "u16 list \<Rightarrow> bool" where
  "isAllASCII [] = True"
| "isAllASCII (c # rest) = (if c > 0x7F then False else isAllASCII rest)"

text \<open>The loop of \<open>getUtf16CodeUnitString\<close> from index \<open>i\<close> on, storing into the preallocated string.\<close>

fun code_unit_loop :: "u16 list \<Rightarrow> nat \<Rightarrow> string \<Rightarrow> string" where
  "code_unit_loop [] i s = s"
| "code_unit_loop (ch # rest) i s =
     (let start = 6 * i + 1
      in code_unit_loop rest (i + 1)
           (s[start := CHR 0x5C, start + 1 := CHR ''u'',
              start + 2 := hexDigit (drop_bit 12 ch AND 0x000F), start + 3 := hexDigit (drop_bit 8 ch AND 0x000F),
              start + 4 := hexDigit (drop_bit 4 ch AND 0x000F), start + 5 := hexDigit (ch AND 0x000F)]))"

definition getUtf16CodeUnitString :: "u16 list \<Rightarrow> string" where
  "getUtf16CodeUnitString utf16 =
     (let s = code_unit_loop utf16 0 ((replicate (6 * length utf16 + 2) (CHR 0x00))[0 := CHR 0x27])
      in s[length s - 1 := CHR 0x27])"

section \<open>Bounds\<close>

lemma read_terminated: "i \<le> length s \<Longrightarrow> read_at (s @ [0]) i = Inr (if i < length s then s ! i else 0)"
  by (auto simp: read_at_def nth_append)

lemma zero_stops: "not_continuation (ucast (0 :: u8))" "(ucast (0 :: u8) :: u32) AND 0xC0 \<noteq> 0x80"
  by (simp_all add: not_continuation_def)

text \<open>A byte that is not the terminator of the buffer lies inside the text.\<close>

lemma decodeUTF8_in_bounds:
  assumes "i < length s"
  shows "\<exists>cp i'. decodeUTF8 (s @ [0]) i = Inr (cp, i') \<and> i < i' \<and> i' \<le> length s"
proof -
  have r: "read_at (s @ [0]) j = Inr (if j < length s then s ! j else 0)" if "j \<le> length s" for j
    using read_terminated [OF that] .
  show ?thesis
    using assms zero_stops r [of i] r [of "i + 1"] r [of "i + 2"] r [of "i + 3"]
    by (auto simp: decodeUTF8_def Let_def)
qed

lemma convert_loop_total:
  assumes "pos \<le> length s"
  shows "\<exists>out. convert_loop (s @ [0]) (length s) pos ret = Inr out"
  using assms
proof (induction "length s - pos" arbitrary: pos ret rule: less_induct)
  case less
  show ?case
  proof (cases "pos < length s")
    case True
    obtain cp i' where d: "decodeUTF8 (s @ [0]) pos = Inr (cp, i')" "pos < i'" "i' \<le> length s"
      using decodeUTF8_in_bounds [OF True] by blast
    then show ?thesis using less(1) [of i' "ret @ encodeUTF16 cp"] True by (simp add: convert_loop.simps [of _ _ pos])
  qed (simp add: convert_loop.simps)
qed

section \<open>Round trip\<close>

text \<open>The bits of the bytes of an encoded code point.\<close>

lemma continuation_byte:
  assumes "n < 64"
  shows "(ucast (of_nat (0x80 + n) :: u8) :: u32) AND 0x3F = of_nat n"
    "(ucast (of_nat (0x80 + n) :: u8) :: u32) AND 0xC0 = 0x80" "\<not> not_continuation (ucast (of_nat (0x80 + n) :: u8))"
proof -
  have "\<forall>n \<in> {..<64}. (ucast (of_nat (0x80 + n) :: u8) :: u32) AND 0x3F = of_nat n \<and>
      (ucast (of_nat (0x80 + n) :: u8) :: u32) AND 0xC0 = 0x80 \<and> \<not> not_continuation (ucast (of_nat (0x80 + n) :: u8))"
    by code_simp
  then show "(ucast (of_nat (0x80 + n) :: u8) :: u32) AND 0x3F = of_nat n"
    "(ucast (of_nat (0x80 + n) :: u8) :: u32) AND 0xC0 = 0x80" "\<not> not_continuation (ucast (of_nat (0x80 + n) :: u8))"
    using assms by auto
qed

definition lead_ok :: "nat \<Rightarrow> u32 \<Rightarrow> u32 \<Rightarrow> u32 \<Rightarrow> nat \<Rightarrow> bool" where
  "lead_ok base tested pattern payload n \<longleftrightarrow>
     (let ch = ucast (of_nat (base + n) :: u8) in \<not> ch \<le> 0x7F \<and> ch AND tested = pattern \<and> ch AND payload = of_nat n)"

lemma lead_bytes:
  "n < 32 \<Longrightarrow> lead_ok 0xC0 0xE0 0xC0 0x1F n"
  "n < 16 \<Longrightarrow> lead_ok 0xE0 0xF0 0xE0 0x0F n \<and> (ucast (of_nat (0xE0 + n) :: u8) :: u32) AND 0xE0 \<noteq> 0xC0"
  "n < 8 \<Longrightarrow> lead_ok 0xF0 0xF8 0xF0 0x07 n \<and> (ucast (of_nat (0xF0 + n) :: u8) :: u32) AND 0xE0 \<noteq> 0xC0 \<and>
    (ucast (of_nat (0xF0 + n) :: u8) :: u32) AND 0xF0 \<noteq> 0xE0"
proof -
  have 1: "\<forall>n \<in> {..<32}. lead_ok 0xC0 0xE0 0xC0 0x1F n" by code_simp
  have 2: "\<forall>n \<in> {..<16}. lead_ok 0xE0 0xF0 0xE0 0x0F n \<and> (ucast (of_nat (0xE0 + n) :: u8) :: u32) AND 0xE0 \<noteq> 0xC0" by code_simp
  have 3: "\<forall>n \<in> {..<8}. lead_ok 0xF0 0xF8 0xF0 0x07 n \<and> (ucast (of_nat (0xF0 + n) :: u8) :: u32) AND 0xE0 \<noteq> 0xC0 \<and>
    (ucast (of_nat (0xF0 + n) :: u8) :: u32) AND 0xF0 \<noteq> 0xE0" by code_simp
  show "n < 32 \<Longrightarrow> lead_ok 0xC0 0xE0 0xC0 0x1F n" using 1 by auto
  show "n < 16 \<Longrightarrow> lead_ok 0xE0 0xF0 0xE0 0x0F n \<and> (ucast (of_nat (0xE0 + n) :: u8) :: u32) AND 0xE0 \<noteq> 0xC0" using 2 by auto
  show "n < 8 \<Longrightarrow> lead_ok 0xF0 0xF8 0xF0 0x07 n \<and> (ucast (of_nat (0xF0 + n) :: u8) :: u32) AND 0xE0 \<noteq> 0xC0 \<and>
    (ucast (of_nat (0xF0 + n) :: u8) :: u32) AND 0xF0 \<noteq> 0xE0" using 3 by auto
qed

lemma push_or:
  assumes "b < 2 ^ k"
  shows "(push_bit k (of_nat a) OR of_nat b :: u32) = of_nat (2 ^ k * a + b)"
proof -
  have "(push_bit k a OR b :: nat) = push_bit k a + b"
  proof (rule disjunctive_add_eq_or [symmetric])
    show "push_bit k a AND b = 0"
      using assms by (auto intro!: bit_eqI simp: bit_simps) (metis bit_take_bit_iff take_bit_nat_eq_self not_less)
  qed
  then have "push_bit k (of_nat a :: u32) OR of_nat b = of_nat (push_bit k a + b)" by (simp only: push_bit_of_nat flip: of_nat_or_eq)
  then show ?thesis by (simp add: push_bit_eq_mult mult.commute)
qed

lemma read_drop:
  assumes "drop i buf = xs @ rest" "k < length xs"
  shows "read_at buf (i + k) = Inr (xs ! k)"
proof -
  have "buf ! (i + k) = drop i buf ! k"
    using assms by (intro nth_drop [symmetric]) (metis drop_eq_Nil list.size(3) nle_le not_less_zero append_is_Nil_conv)
  moreover have "i + k < length buf" using assms by (metis add.commute length_append length_drop less_diff_conv trans_less_add1)
  ultimately show ?thesis using assms by (simp add: read_at_def nth_append)
qed

lemma ascii_byte: "p < 0x80 \<Longrightarrow> (ucast (of_nat p :: u8) :: u32) = of_nat p \<and> (of_nat p :: u32) \<le> 0x7F"
proof -
  have "\<forall>n \<in> {..<128}. (ucast (of_nat n :: u8) :: u32) = of_nat n \<and> (of_nat n :: u32) \<le> 0x7F" by code_simp
  then show "p < 0x80 \<Longrightarrow> (ucast (of_nat p :: u8) :: u32) = of_nat p \<and> (of_nat p :: u32) \<le> 0x7F" by simp
qed

text \<open>Reading the bytes of one to four byte sequences.\<close>

lemma decode1:
  assumes "p < 0x80" "read_at buf i = Inr (of_nat p)"
  shows "decodeUTF8 buf i = Inr (of_nat p, i + 1)"
  using assms ascii_byte [OF assms(1)] by (simp add: decodeUTF8_def Let_def)

lemma decode2:
  assumes "lead_ok 0xC0 0xE0 0xC0 0x1F a" "b < 64" "0x7F < 64 * a + b" "64 * a + b < 0x800"
    and "read_at buf i = Inr (of_nat (0xC0 + a))" "read_at buf (i + 1) = Inr (of_nat (0x80 + b))"
  shows "decodeUTF8 buf i = Inr (of_nat (64 * a + b), i + 2)"
proof -
  have "(push_bit 6 (of_nat a) OR of_nat b :: u32) = of_nat (64 * a + b)" using push_or [of b 6 a] assms(2) by simp
  moreover have "\<not> (of_nat (64 * a + b) :: u32) \<le> 0x7F"
    using assms(3,4) by (simp only: word_le_nat_alt unat_of_nat take_bit_eq_mod) simp
  ultimately show ?thesis
    using assms(1,5,6) continuation_byte [OF assms(2)] unfolding decodeUTF8_def lead_ok_def Let_def by (simp del: of_nat_add of_nat_mult)
qed

lemma decode3:
  assumes "a < 16" "b < 64" "c < 64" "0x7FF < 4096 * a + (64 * b + c)"
    and "read_at buf i = Inr (of_nat (0xE0 + a))" "read_at buf (i + 1) = Inr (of_nat (0x80 + b))"
      "read_at buf (i + 2) = Inr (of_nat (0x80 + c))"
  shows "decodeUTF8 buf i = Inr (of_nat (4096 * a + (64 * b + c)), i + 3)"
proof -
  let ?p = "4096 * a + (64 * b + c)"
  have "(push_bit 12 (of_nat a) OR push_bit 6 (of_nat b) OR of_nat c :: u32) = of_nat ?p"
    using push_or [of c 6 b] push_or [of "64 * b + c" 12 a] assms(2,3) by (simp del: of_nat_add of_nat_mult)
  moreover have "\<not> (of_nat ?p :: u32) \<le> 0x7FF"
    using assms(1-4) by (simp only: word_le_nat_alt unat_of_nat take_bit_eq_mod) simp
  ultimately show ?thesis
    using assms(5-7) lead_bytes(2) [OF assms(1)] continuation_byte [OF assms(2)] continuation_byte [OF assms(3)]
    unfolding decodeUTF8_def lead_ok_def Let_def by (simp del: of_nat_add of_nat_mult)
qed

lemma decode4:
  assumes "a < 8" "b < 64" "c < 64" "d < 64" "0xFFFF < 262144 * a + (4096 * b + (64 * c + d))"
      "262144 * a + (4096 * b + (64 * c + d)) \<le> 0x10FFFF"
    and "read_at buf i = Inr (of_nat (0xF0 + a))" "read_at buf (i + 1) = Inr (of_nat (0x80 + b))"
      "read_at buf (i + 2) = Inr (of_nat (0x80 + c))" "read_at buf (i + 3) = Inr (of_nat (0x80 + d))"
  shows "decodeUTF8 buf i = Inr (of_nat (262144 * a + (4096 * b + (64 * c + d))), i + 4)"
proof -
  let ?p = "262144 * a + (4096 * b + (64 * c + d))"
  have "(push_bit 18 (of_nat a) OR push_bit 12 (of_nat b) OR push_bit 6 (of_nat c) OR of_nat d :: u32) = of_nat ?p"
    using push_or [of d 6 c] push_or [of "64 * c + d" 12 b] push_or [of "4096 * b + (64 * c + d)" 18 a] assms(2-4)
    by (simp del: of_nat_add of_nat_mult)
  moreover have "\<not> (of_nat ?p :: u32) \<le> 0xFFFF"
    using assms(5,6) by (simp only: word_le_nat_alt unat_of_nat take_bit_eq_mod) simp
  moreover have "\<not> (of_nat ?p :: u32) > 0x10FFFF"
    using assms(6) by (simp only: word_less_nat_alt unat_of_nat take_bit_eq_mod) simp
  ultimately show ?thesis
    using assms(7-10) lead_bytes(3) [OF assms(1)] continuation_byte [OF assms(2)] continuation_byte [OF assms(3)]
      continuation_byte [OF assms(4)]
    unfolding decodeUTF8_def lead_ok_def Let_def by (simp del: of_nat_add of_nat_mult)
qed

text \<open>The digits of a code point in base 64.\<close>

lemma base64_digits:
  "64 * (p div 64) + p mod 64 = (p :: nat)"
  "4096 * (p div 4096) + (64 * (p div 64 mod 64) + p mod 64) = p"
  "262144 * (p div 262144) + (4096 * (p div 4096 mod 64) + (64 * (p div 64 mod 64) + p mod 64)) = p"
proof -
  have d: "p div 4096 = p div 64 div 64" "p div 262144 = p div 64 div 64 div 64" by (simp_all add: div_mult2_eq [symmetric])
  have 1: "64 * (p div 64) + p mod 64 = p" by simp
  have 2: "64 * (p div 64 div 64) + p div 64 mod 64 = p div 64" by simp
  have 3: "64 * (p div 64 div 64 div 64) + p div 64 div 64 mod 64 = p div 64 div 64" by simp
  show "64 * (p div 64) + p mod 64 = p" by (rule 1)
  show "4096 * (p div 4096) + (64 * (p div 64 mod 64) + p mod 64) = p" unfolding d using 1 2 by linarith
  show "262144 * (p div 262144) + (4096 * (p div 4096 mod 64) + (64 * (p div 64 mod 64) + p mod 64)) = p"
    unfolding d using 1 2 3 by linarith
qed

lemma decode_code_point:
  assumes "p \<le> 0x10FFFF" "drop i buf = map of_nat (utf8_of_cp p) @ rest"
  shows "decodeUTF8 buf i = Inr (of_nat p, i + length (utf8_of_cp p))"
proof -
  have r: "read_at buf (i + k) = Inr (of_nat (utf8_of_cp p ! k))" if "k < length (utf8_of_cp p)" for k
    using read_drop [OF assms(2), of k] that by simp
  consider "p < 0x80" | "0x80 \<le> p" "p < 0x800" | "0x800 \<le> p" "p < 0x10000" | "0x10000 \<le> p" by linarith
  then show ?thesis
  proof cases
    case 1
    then show ?thesis using r [of 0] decode1 [of p] by (simp add: utf8_of_cp_def)
  next
    case 2
    have l: "utf8_of_cp p = [0xC0 + p div 64, 0x80 + p mod 64]" using 2 by (simp add: utf8_of_cp_def)
    have "p div 64 < 32" using 2 by simp
    from decode2 [OF lead_bytes(1) [OF this], of "p mod 64" buf i, unfolded base64_digits] show ?thesis
      using r [of 0] r [of 1] 2 unfolding l by (simp del: of_nat_add)
  next
    case 3
    have l: "utf8_of_cp p = [0xE0 + p div 4096, 0x80 + p div 64 mod 64, 0x80 + p mod 64]" using 3 by (simp add: utf8_of_cp_def)
    have "p div 4096 < 16" using 3 by simp
    from decode3 [OF this, of "p div 64 mod 64" "p mod 64" buf i, unfolded base64_digits] show ?thesis
      using r [of 0] r [of 1] r [of 2] 3 unfolding l by (simp del: of_nat_add)
  next
    case 4
    have l: "utf8_of_cp p = [0xF0 + p div 262144, 0x80 + p div 4096 mod 64, 0x80 + p div 64 mod 64, 0x80 + p mod 64]"
      using 4 by (simp add: utf8_of_cp_def)
    have "p div 262144 < 8" using assms(1) by simp
    from decode4 [OF this, of "p div 4096 mod 64" "p div 64 mod 64" "p mod 64" buf i, unfolded base64_digits] show ?thesis
      using r [of 0] r [of 1] r [of 2] r [of 3] 4 assms(1) unfolding l by (simp del: of_nat_add)
  qed
qed

text \<open>Reference: the UTF-16 encoding by arithmetic.\<close>

definition utf16_of_cp :: "nat \<Rightarrow> u16 list" where
  "utf16_of_cp p =
     (if p < 0x10000 then [of_nat p]
      else [of_nat (0xD800 + (p - 0x10000) div 1024), of_nat (0xDC00 + (p - 0x10000) mod 1024)])"

lemma encodeUTF16_eq:
  assumes "p \<le> 0x10FFFF"
  shows "encodeUTF16 (of_nat p) = utf16_of_cp p"
proof -
  have less: "(of_nat p :: u32) < 0x10000 \<longleftrightarrow> p < 0x10000"
    using assms by (simp only: word_less_nat_alt unat_of_nat take_bit_eq_mod) simp
  have cast: "(ucast (of_nat n :: u32) :: u16) = of_nat n" if "n < 2 ^ 32" for n
    using that by (simp add: unsigned_of_nat take_bit_nat_eq_self)
  show ?thesis
  proof (cases "p < 0x10000")
    case True
    then show ?thesis using less cast [of p] assms by (simp add: encodeUTF16_def utf16_of_cp_def)
  next
    case False
    define q where "q = p - 0x10000"
    have q: "q < 2 ^ 20" and p: "p = q + 0x10000" using assms False by (simp_all add: q_def)
    have m: "(0x3FF :: u32) = mask 10" by (simp add: mask_eq_exp_minus_1)
    have u: "unat (of_nat q :: u32) = q" using q by (simp add: unat_of_nat take_bit_nat_eq_self)
    have d: "unat (drop_bit 10 (of_nat q :: u32)) = q div 1024" by (simp only: unat_drop_bit_div u) simp
    have n: "unat (of_nat n :: u32) = n" if "n < 2 ^ 20" for n using that by (simp add: unat_of_nat take_bit_nat_eq_self)
    have hi: "drop_bit 10 (of_nat q :: u32) AND 0x3FF = of_nat (q div 1024)"
      unfolding m take_bit_eq_mask [symmetric] word_unat_eq_iff unsigned_take_bit_eq d
      using q by (subst n) (simp_all add: take_bit_nat_eq_self)
    have lo: "(of_nat q :: u32) AND 0x3FF = of_nat (q mod 1024)"
      unfolding m take_bit_eq_mask [symmetric] word_unat_eq_iff unsigned_take_bit_eq u
      using q by (subst n) (simp_all add: take_bit_eq_mod)
    have "(of_nat p :: u32) - 0x10000 = of_nat q" by (simp add: p)
    then have "encodeUTF16 (of_nat p) = [0xD800 + ucast (of_nat (q div 1024) :: u32), 0xDC00 + ucast (of_nat (q mod 1024) :: u32)]"
      using less False hi lo by (simp add: encodeUTF16_def Let_def)
    moreover have "q div 1024 < 2 ^ 32" "q mod 1024 < 2 ^ 32" using q by simp_all
    ultimately show ?thesis using False by (simp add: cast utf16_of_cp_def q_def)
  qed
qed

lemma convert_loop_code_points:
  assumes "\<forall>p \<in> set cps. p \<le> 0x10FFFF"
  shows "convert_loop (pre @ map of_nat (utf8_of_cps cps) @ [0]) (length pre + length (utf8_of_cps cps)) (length pre) ret =
    Inr (ret @ concat (map utf16_of_cp cps))"
  using assms
proof (induction cps arbitrary: pre ret)
  case Nil
  then show ?case by (simp add: convert_loop.simps utf8_of_cps_def)
next
  case (Cons p cps)
  let ?b = "map of_nat (utf8_of_cp p) :: u8 list" and ?t = "map of_nat (utf8_of_cps cps) @ [0 :: u8]"
  have split: "utf8_of_cps (p # cps) = utf8_of_cp p @ utf8_of_cps cps" by (simp add: utf8_of_cps_def)
  have pos: "0 < length (utf8_of_cp p)" by (simp add: utf8_of_cp_def)
  have "decodeUTF8 (pre @ ?b @ ?t) (length pre) = Inr (of_nat p, length pre + length (utf8_of_cp p))"
    using Cons.prems by (intro decode_code_point [where rest = ?t]) simp_all
  then show ?case
    using Cons.IH [of "pre @ ?b" "ret @ utf16_of_cp p"] Cons.prems encodeUTF16_eq [of p] pos
    by (simp add: convert_loop.simps [of _ _ "length pre"] split add.assoc)
qed

lemma convert_code_points:
  "\<forall>p \<in> set cps. p \<le> 0x10FFFF \<Longrightarrow> convertUTF8ToUTF16 (map of_nat (utf8_of_cps cps)) = Inr (concat (map utf16_of_cp cps))"
  using convert_loop_code_points [of cps "[]" "[]"] by (simp add: convertUTF8ToUTF16_def)

lemma utf16_units:
  "(\<forall>p \<in> set (cp_of_utf16 s). p \<le> 0x10FFFF) \<and> concat (map utf16_of_cp (cp_of_utf16 s)) = s"
proof (induction s rule: cp_of_utf16.induct)
  case (2 c)
  have "unat c < 65536" using unsigned_less [of c, where ?'a = nat] by simp
  then show ?case by (simp add: utf16_of_cp_def)
next
  case (3 c d s)
  have c: "unat c < 65536" using unsigned_less [of c, where ?'a = nat] by simp
  show ?case
  proof (cases "0xD800 \<le> unat c \<and> unat c < 0xDC00 \<and> 0xDC00 \<le> unat d \<and> unat d < 0xE000")
    case True
    let ?q = "(unat c - 0xD800) * 0x400 + (unat d - 0xDC00)"
    have qr: "(x * 0x400 + y) div 1024 = x" "(x * 0x400 + y) mod 1024 = y" if "y < 1024" for x y :: nat using that by simp_all
    have "unat d - 0xDC00 < 1024" using True by linarith
    then have "?q div 1024 = unat c - 0xD800" "?q mod 1024 = unat d - 0xDC00" by (rule qr)+
    then have "utf16_of_cp (0x10000 + ?q) = [of_nat (unat c), of_nat (unat d)]"
      using True by (simp add: utf16_of_cp_def del: of_nat_unat)
    moreover have "0x10000 + ?q \<le> 0x10FFFF"
    proof -
      have "unat c - 0xD800 \<le> 1023" "unat d - 0xDC00 \<le> 1023" using True by linarith+
      then show ?thesis by linarith
    qed
    ultimately show ?thesis using 3(1) [OF True] True by (simp add: add.assoc)
  next
    case False
    then have "cp_of_utf16 (c # d # s) = unat c # cp_of_utf16 (d # s)" unfolding cp_of_utf16.simps(3) by (rule if_not_P)
    moreover have "utf16_of_cp (unat c) = [c]" using c by (simp add: utf16_of_cp_def)
    ultimately show ?thesis using 3(2) [OF False] c by simp
  qed
qed simp

section \<open>Reading a literal back\<close>

text \<open>Reference: the code units of a literal that consists of escapes.\<close>

definition hex_value :: "char \<Rightarrow> nat" where
  "hex_value c = (let n = of_char c in if n < 58 then n - 48 else n - 55)"

fun read_escapes :: "string \<Rightarrow> u16 list option" where
  "read_escapes (b # u # c3 # c2 # c1 # c0 # rest) =
     (if b = CHR 0x5C \<and> u = CHR ''u'' then
        map_option ((#) (of_nat (4096 * hex_value c3 + 256 * hex_value c2 + 16 * hex_value c1 + hex_value c0))) (read_escapes rest)
      else None)"
| "read_escapes [q] = (if q = CHR 0x27 then Some [] else None)"
| "read_escapes _ = None"

definition read_literal :: "string \<Rightarrow> u16 list option" where
  "read_literal s = (case s of q # rest \<Rightarrow> if q = CHR 0x27 then read_escapes rest else None | [] \<Rightarrow> None)"

definition escape :: "u16 \<Rightarrow> string" where
  "escape ch = [CHR 0x5C, CHR ''u'', hexDigit (drop_bit 12 ch AND 0x000F), hexDigit (drop_bit 8 ch AND 0x000F),
     hexDigit (drop_bit 4 ch AND 0x000F), hexDigit (ch AND 0x000F)]"

lemma code_unit_loop_eq:
  assumes "length pre = 6 * i + 1"
  shows "code_unit_loop us i (pre @ replicate (6 * length us + 1) z) = pre @ concat (map escape us) @ [z]"
  using assms
proof (induction us arbitrary: i pre)
  case (Cons u us)
  have "replicate (6 * length (u # us) + 1) z = [z, z, z, z, z, z] @ replicate (6 * length us + 1) z"
  proof -
    have "6 * length (u # us) + 1 = 6 + (6 * length us + 1)" by simp
    then show ?thesis by (simp only: replicate_add) (simp add: numeral_eq_Suc)
  qed
  then show ?case
    using Cons.IH [of "pre @ escape u" "i + 1"] Cons.prems by (simp add: escape_def list_update_append Let_def)
qed simp

lemma literal_text: "getUtf16CodeUnitString us = CHR 0x27 # concat (map escape us) @ [CHR 0x27]"
proof -
  have "(replicate (6 * length us + 2) (CHR 0x00))[0 := CHR 0x27] = [CHR 0x27] @ replicate (6 * length us + 1) (CHR 0x00)" by simp
  then show ?thesis
    using code_unit_loop_eq [of "[CHR 0x27]" 0 us "CHR 0x00"]
    by (simp add: getUtf16CodeUnitString_def Let_def list_update_append nth_append)
qed

lemma hex_value_digit:
  assumes "n < 16"
  shows "hex_value (hexDigit (of_nat n)) = n"
proof -
  have u: "unat (of_nat m :: u16) = m" if "m < 16" for m using that by (simp add: unat_of_nat take_bit_nat_eq_self)
  have less: "(of_nat n :: u16) < 10 \<longleftrightarrow> n < 10" using u [OF assms] by (simp add: word_less_nat_alt)
  have "unat ((of_nat n :: u16) - 10) = n - 10" if "\<not> n < 10"
  proof -
    have "(of_nat n :: u16) - 10 = of_nat (n - 10)" using that by (simp add: of_nat_diff)
    then show ?thesis using u [of "n - 10"] assms by simp
  qed
  then show ?thesis using assms u [OF assms] less by (auto simp: hexDigit_def hex_value_def Let_def)
qed

lemma nibble: "hex_value (hexDigit (drop_bit k (ch :: u16) AND 0x000F)) = unat ch div 2 ^ k mod 16"
proof -
  have "drop_bit k ch AND 0x000F = take_bit 4 (drop_bit k ch)" by (simp add: take_bit_eq_mask mask_eq_exp_minus_1)
  also have "\<dots> = of_nat (unat ch div 2 ^ k mod 16)"
  proof -
    have "unat (of_nat (unat ch div 2 ^ k mod 16) :: u16) = unat ch div 2 ^ k mod 16"
      by (simp add: unat_of_nat take_bit_nat_eq_self less_trans [OF mod_less_divisor])
    moreover have "unat (take_bit 4 (drop_bit k ch)) = unat ch div 2 ^ k mod 16"
      unfolding unsigned_take_bit_eq by (simp add: unat_drop_bit_div take_bit_eq_mod)
    ultimately show ?thesis by (simp only: word_unat_eq_iff)
  qed
  finally show ?thesis using hex_value_digit [of "unat ch div 2 ^ k mod 16"] by simp
qed

lemma read_escape: "read_escapes (escape ch @ rest) = map_option ((#) ch) (read_escapes rest)"
proof -
  let ?n = "unat ch"
  have "?n < 65536" using unsigned_less [of ch, where ?'a = nat] by simp
  then have top: "?n div 16 div 16 div 16 mod 16 = ?n div 16 div 16 div 16" by (simp add: div_mult2_eq [symmetric])
  have d: "?n div 256 = ?n div 16 div 16" "?n div 4096 = ?n div 16 div 16 div 16" by (simp_all add: div_mult2_eq [symmetric])
  have q: "m div 16 * 16 + m mod 16 = m" for m :: nat by simp
  have "4096 * (?n div 4096 mod 16) + 256 * (?n div 256 mod 16) + 16 * (?n div 16 mod 16) + ?n mod 16 = ?n"
    unfolding d top using q [of ?n] q [of "?n div 16"] q [of "?n div 16 div 16"] by linarith
  then show ?thesis using nibble [of 12 ch] nibble [of 8 ch] nibble [of 4 ch] nibble [of 0 ch] by (simp add: escape_def flip: of_nat_add)
qed

section \<open>Properties\<close>



text \<open>
  The source text that the JSI library evaluates to make a UTF-16 string denotes exactly the given code
  units, none of which can end the literal, and it fills exactly the preallocated string.
\<close>

theorem code_unit_string_roundtrip:
  "read_literal (getUtf16CodeUnitString us) = Some us \<and> length (getUtf16CodeUnitString us) = 6 * length us + 2"
proof -
  have "read_escapes (concat (map escape us) @ [CHR 0x27]) = Some us" by (induction us) (simp_all add: read_escape)
  moreover have "length (concat (map escape us)) = 6 * length us" by (induction us) (simp_all add: escape_def)
  ultimately show ?thesis by (simp add: literal_text read_literal_def)
qed

end
