(* ===== verification/Jsi_Library.thy ===== *)
theory Jsi_Library
  imports Jsi_Host Jsi_Utf
begin

text \<open>
  The JSI library above the runtime, \<^verbatim>\<open>src/src/jsi/jsi.cpp\<close> and \<^verbatim>\<open>src/src/jsi/jsi-inl.h\<close>: copies and
  comparison of values, checked conversions, calls of global functions, and the construction of \<^verbatim>\<open>jsi::JSError\<close>, which
  reads the message of a JavaScript value through the runtime. The assertions of debug builds are left out.
\<close>

section \<open>Ownership\<close>

text \<open>A \<^verbatim>\<open>jsi::Pointer\<close> or \<^verbatim>\<open>jsi::Value\<close> that is destroyed when its block is left.\<close>

definition own_pointer :: "'v jsi_pointer \<Rightarrow> ('v, 'h, 'a) jsi_m \<Rightarrow> ('v, 'h, 'a) jsi_m" where
  "own_pointer p body = finally_do body (pure_upd (pointer_invalidate p))"

definition own_value :: "'v jsi_value \<Rightarrow> ('v, 'h, 'a) jsi_m \<Rightarrow> ('v, 'h, 'a) jsi_m" where
  "own_value v body = finally_do body (release_value v)"

text \<open>A pointer that is destroyed when its block is left by an exception, and otherwise moved on.\<close>

definition guard_pointer :: "'v jsi_pointer \<Rightarrow> ('v, 'h, 'a) jsi_m \<Rightarrow> ('v, 'h, 'a) jsi_m" where
  "guard_pointer p m = handle m (\<lambda>x. bindm (pure_upd (pointer_invalidate p)) (\<lambda>_. throw x))"

definition guard_value :: "'v jsi_value \<Rightarrow> ('v, 'h, 'a) jsi_m \<Rightarrow> ('v, 'h, 'a) jsi_m" where
  "guard_value v m = handle m (\<lambda>x. bindm (release_value v) (\<lambda>_. throw x))"

text \<open>The copy constructor of \<^verbatim>\<open>jsi::Value\<close>.\<close>

primrec copy_value :: "'v jsi_value \<Rightarrow> ('v, 'h, 'v jsi_value) jsi_m" where
  "copy_value JUndefined = return JUndefined"
| "copy_value JNull = return JNull"
| "copy_value (JBool b) = return (JBool b)"
| "copy_value (JNumber d) = return (JNumber d)"
| "copy_value (JSymbol p) = bindm (pure_op (pointer_clone p)) (\<lambda>q. return (JSymbol q))"
| "copy_value (JBigInt p) = bindm (pure_op (pointer_clone p)) (\<lambda>q. return (JBigInt q))"
| "copy_value (JString p) = bindm (pure_op (pointer_clone p)) (\<lambda>q. return (JString q))"
| "copy_value (JObject p) = bindm (pure_op (pointer_clone p)) (\<lambda>q. return (JObject q))"

text \<open>\<^verbatim>\<open>catch (const JSIException& ex)\<close>: the exception object is destroyed at the end of the handler.\<close>

definition catch_jsi :: "('v, 'h, 'a) jsi_m \<Rightarrow> (string \<Rightarrow> ('v, 'h, 'a) jsi_m) \<Rightarrow> ('v, 'h, 'a) jsi_m" where
  "catch_jsi m h =
     handle m (\<lambda>x. case x of
       JSError v w \<Rightarrow> own_value v (h (what x))
     | StdException w \<Rightarrow> h (what x)
     | OtherException \<Rightarrow> throw x)"

section \<open>Reading properties by name\<close>

definition Object_getProperty_name :: "('v, 'h) jsi_ctx \<Rightarrow> 'v jsi_pointer \<Rightarrow> string \<Rightarrow> ('v, 'h, 'v jsi_value) jsi_m" where
  "Object_getProperty_name C obj name =
     bindm (createStringFromAscii C (Some (bytes_of_string name))) (\<lambda>n. own_pointer n (Object_getProperty C obj n))"

definition global_property :: "('v, 'h) jsi_ctx \<Rightarrow> string \<Rightarrow> ('v, 'h, 'v jsi_value) jsi_m" where
  "global_property C name = bindm global_object (\<lambda>g. own_pointer g (Object_getProperty_name C g name))"

text \<open>\<open>kindToString\<close> with a runtime, and without one.\<close>

primrec kind_text :: "'v jsi_value \<Rightarrow> string" where
  "kind_text JUndefined = ''undefined''"
| "kind_text JNull = ''null''"
| "kind_text (JBool b) = (if b then ''true'' else ''false'')"
| "kind_text (JNumber d) = ''a number''"
| "kind_text (JString p) = ''a string''"
| "kind_text (JSymbol p) = ''a symbol''"
| "kind_text (JBigInt p) = ''a bigint''"
| "kind_text (JObject p) = ''an object''"

definition kindToString :: "('v, 'h) jsi_ctx \<Rightarrow> 'v jsi_value \<Rightarrow> ('v, 'h, string) jsi_m" where
  "kindToString C v =
     (case v of
        JObject p \<Rightarrow>
          bindm (pure_op (pointer_clone p)) (\<lambda>q.
          own_pointer q (bindm (isFunction C q) (\<lambda>f. return (if f then ''a function'' else ''an object''))))
      | _ \<Rightarrow> return (kind_text v))"

definition call_with :: "('v, 'h) jsi_ctx \<Rightarrow> 'v jsi_pointer \<Rightarrow> 'v jsi_value \<Rightarrow> ('v, 'h, 'v jsi_value) jsi_m" where
  "call_with C f a = bindm (copy_value a) (\<lambda>a1. own_value a1 (Function_call C f JUndefined [a1]))"

definition callGlobalFunction :: "('v, 'h) jsi_ctx \<Rightarrow> string \<Rightarrow> 'v jsi_value \<Rightarrow> ('v, 'h, 'v jsi_value) jsi_m" where
  "callGlobalFunction C name a =
     bindm (global_property C name) (\<lambda>v. own_value v
       (case v of
          JObject p \<Rightarrow>
            bindm (pure_op (pointer_clone p)) (\<lambda>q. own_pointer q
              (bindm (isFunction C q) (\<lambda>f.
                 if \<not> f then throwNativeException (''callGlobalFunction: JS global property '' @ CHR 0x27 # name @
                   CHR 0x27 # '' is a non-callable Object, expected a Function'')
                 else call_with C q a)))
        | _ \<Rightarrow>
            bindm (kindToString C v) (\<lambda>k.
              throwNativeException (''callGlobalFunction: JS global property '' @ CHR 0x27 # name @ CHR 0x27 # '' is '' @ k @
                '', expected a Function''))))"

section \<open>JSError\<close>

definition isString :: "'v jsi_value \<Rightarrow> bool" where
  "isString v = (case v of JString p \<Rightarrow> True | _ \<Rightarrow> False)"

text \<open>\<^verbatim>\<open>v.getString(rt).utf8(rt)\<close> of a string.\<close>

definition text_of :: "('v, 'h) jsi_ctx \<Rightarrow> 'v jsi_pointer \<Rightarrow> ('v, 'h, string) jsi_m" where
  "text_of C p =
     bindm (pure_op (pointer_clone p)) (\<lambda>q. own_pointer q (bindm (utf8_String C q) (\<lambda>bs. return (string_of_bytes bs))))"

text \<open>The text of a value that has been converted to a string, if the conversion worked.\<close>

definition text_or_kind :: "('v, 'h) jsi_ctx \<Rightarrow> string \<Rightarrow> 'v jsi_value \<Rightarrow> ('v, 'h, string option) jsi_m" where
  "text_or_kind C label v =
     (case v of
        JString p \<Rightarrow> bindm (text_of C p) (\<lambda>t. return (Some t))
      | JUndefined \<Rightarrow> return None
      | _ \<Rightarrow> bindm (kindToString C v) (\<lambda>k. return (Some (label @ '' is a '' @ k))))"

text \<open>The \<^verbatim>\<open>try\<close> blocks of \<open>setValue\<close> that read \<^verbatim>\<open>message\<close> and \<^verbatim>\<open>stack\<close> of an error object. The move
  assignment of the converted value destroys the old one.\<close>

definition error_text :: "('v, 'h) jsi_ctx \<Rightarrow> 'v jsi_pointer \<Rightarrow> string \<Rightarrow> ('v, 'h, string option) jsi_m" where
  "error_text C obj name =
     bindm (Object_getProperty_name C obj name) (\<lambda>v.
       if v \<noteq> JUndefined \<and> \<not> isString v then
         bindm (own_value v (callGlobalFunction C ''String'' v)) (\<lambda>v1.
           own_value v1 (text_or_kind C (''String(e.'' @ name @ '')'') v1))
       else own_value v (text_or_kind C (''String(e.'' @ name @ '')'') v))"

definition message_failure :: "string \<Rightarrow> string" where
  "message_failure w = ''[Exception while creating message string: '' @ w @ '']''"

definition stack_failure :: "string \<Rightarrow> string" where
  "stack_failure w = ''[Exception while creating stack string: '' @ w @ '']''"

definition kept :: "string \<Rightarrow> string option \<Rightarrow> string" where
  "kept old result = (case result of None \<Rightarrow> old | Some t \<Rightarrow> t)"

text \<open>The parts of \<open>setValue\<close>; the second handler stores into \<^verbatim>\<open>message_\<close> as well.\<close>

definition object_message :: "('v, 'h) jsi_ctx \<Rightarrow> 'v jsi_pointer \<Rightarrow> string \<Rightarrow> ('v, 'h, string) jsi_m" where
  "object_message C obj message =
     (if message = [] then
        catch_jsi (bindm (error_text C obj ''message'') (\<lambda>t. return (kept message t))) (\<lambda>w. return (message_failure w))
      else return message)"

definition object_stack :: "('v, 'h) jsi_ctx \<Rightarrow> 'v jsi_pointer \<Rightarrow> string \<Rightarrow> string \<Rightarrow> ('v, 'h, string \<times> string) jsi_m" where
  "object_stack C obj message stack =
     (if stack = [] then
        catch_jsi (bindm (error_text C obj ''stack'') (\<lambda>t. return (message, kept stack t))) (\<lambda>w. return (stack_failure w, stack))
      else return (message, stack))"

definition value_message :: "('v, 'h) jsi_ctx \<Rightarrow> 'v jsi_value \<Rightarrow> string \<Rightarrow> ('v, 'h, string) jsi_m" where
  "value_message C value message =
     (if message = [] then
        catch_jsi
          (case value of
             JString p \<Rightarrow> text_of C p
           | _ \<Rightarrow>
               bindm (callGlobalFunction C ''String'' value) (\<lambda>m. own_value m
                 (case m of
                    JString p \<Rightarrow> text_of C p
                  | _ \<Rightarrow> bindm (kindToString C m) (\<lambda>k. return (''String(e) is a '' @ k)))))
          (\<lambda>w. return (message_failure w))
      else return message)"

text \<open>\<open>JSError::setValue\<close>, from the fields that the constructor has set to the fields at its end.\<close>

definition setValue :: "('v, 'h) jsi_ctx \<Rightarrow> 'v jsi_value \<Rightarrow> string \<Rightarrow> string \<Rightarrow> string \<Rightarrow>
    ('v, 'h, string \<times> string \<times> string) jsi_m" where
  "setValue C value message stack wht =
     bindm (case value of
         JObject p \<Rightarrow>
           if message = [] \<or> stack = [] then
             bindm (pure_op (pointer_clone p)) (\<lambda>obj. own_pointer obj
               (bindm (object_message C obj message) (\<lambda>m. object_stack C obj m stack)))
           else return (message, stack)
       | _ \<Rightarrow> return (message, stack)) (\<lambda>(m1, s1).
     bindm (value_message C value m1) (\<lambda>m2.
     let s2 = (if s1 = [] then ''no stack'' else s1)
     in return (m2, s2, if wht = [] then m2 @ [CHR 0x0A, CHR 0x0A] @ s2 else wht)))"

text \<open>The constructors: of a value, of a message, of a message and a stack, of a text and a value.\<close>

definition JSError_value :: "('v, 'h) jsi_ctx \<Rightarrow> 'v jsi_value \<Rightarrow> ('v, 'h, string) jsi_m" where
  "JSError_value C value = bindm (setValue C value [] [] []) (\<lambda>(_, _, w). return w)"

definition set_value_from :: "('v, 'h) jsi_ctx \<Rightarrow> 'v jsi_value \<Rightarrow> string \<Rightarrow> string \<Rightarrow> string \<Rightarrow> ('v, 'h, 'v jsi_exception) jsi_m" where
  "set_value_from C value message stack wht = bindm (setValue C value message stack wht) (\<lambda>(_, _, w). return (JSError value w))"

definition new_string :: "('v, 'h) jsi_ctx \<Rightarrow> string \<Rightarrow> ('v, 'h, 'v jsi_value) jsi_m" where
  "new_string C s = bindm (createStringFromUtf8 C (Some (bytes_of_string s))) (\<lambda>p. return (JString p))"

definition JSError_message :: "('v, 'h) jsi_ctx \<Rightarrow> string \<Rightarrow> ('v, 'h, 'v jsi_exception) jsi_m" where
  "JSError_message C msg =
     catch_jsi
       (bindm (new_string C msg) (\<lambda>s.
        own_value s (bindm (callGlobalFunction C ''Error'' s) (\<lambda>e. set_value_from C e msg [] []))))
       (\<lambda>w. let msg1 = w @ '' (while raising '' @ msg @ '')''
            in bindm (new_string C msg1) (\<lambda>s. set_value_from C s msg1 [] []))"

definition set_text :: "('v, 'h) jsi_ctx \<Rightarrow> 'v jsi_pointer \<Rightarrow> string \<Rightarrow> string \<Rightarrow> ('v, 'h, unit) jsi_m" where
  "set_text C obj name text =
     bindm (new_string C text) (\<lambda>v. own_value v
       (bindm (createStringFromAscii C (Some (bytes_of_string name))) (\<lambda>n. own_pointer n
         (bindm (copy_value v) (\<lambda>v1. own_value v1 (setPropertyValue C obj n v1))))))"

definition JSError_message_stack :: "('v, 'h) jsi_ctx \<Rightarrow> string \<Rightarrow> string \<Rightarrow> ('v, 'h, 'v jsi_exception) jsi_m" where
  "JSError_message_stack C msg stack =
     catch_jsi
       (bindm (createObject C) (\<lambda>e.
        bindm (guard_pointer e (bindm (set_text C e ''message'' msg) (\<lambda>_. set_text C e ''stack'' stack))) (\<lambda>_.
          set_value_from C (JObject e) msg stack [])))
       (\<lambda>w. bindm (new_string C w) (\<lambda>s. set_value_from C s msg stack []))"

definition JSError_what_value :: "('v, 'h) jsi_ctx \<Rightarrow> string \<Rightarrow> 'v jsi_value \<Rightarrow> ('v, 'h, 'v jsi_exception) jsi_m" where
  "JSError_what_value C wht value = set_value_from C value [] [] wht"

definition throw_JSError :: "('v, 'h) jsi_ctx \<Rightarrow> string \<Rightarrow> ('v, 'h, 'a) jsi_m" where
  "throw_JSError C msg = bindm (JSError_message C msg) throw"

section \<open>Objects\<close>

definition getPropertyAsObject :: "('v, 'h) jsi_ctx \<Rightarrow> 'v jsi_pointer \<Rightarrow> string \<Rightarrow> ('v, 'h, 'v jsi_pointer) jsi_m" where
  "getPropertyAsObject C obj name =
     bindm (Object_getProperty_name C obj name) (\<lambda>v. own_value v
       (case v of
          JObject p \<Rightarrow> pure_op (pointer_clone p)
        | _ \<Rightarrow>
            bindm (kindToString C v) (\<lambda>k.
              throw_JSError C (''getPropertyAsObject: property '' @ CHR 0x27 # name @ CHR 0x27 # '' is '' @ k @ '', expected an Object''))))"

definition getPropertyAsFunction :: "('v, 'h) jsi_ctx \<Rightarrow> 'v jsi_pointer \<Rightarrow> string \<Rightarrow> ('v, 'h, 'v jsi_pointer) jsi_m" where
  "getPropertyAsFunction C obj name =
     bindm (getPropertyAsObject C obj name) (\<lambda>p. guard_pointer p
       (bindm (isFunction C p) (\<lambda>f.
          if \<not> f then
            bindm (kindToString C (JObject p)) (\<lambda>k.
              throw_JSError C (''getPropertyAsFunction: property '' @ CHR 0x27 # name @ CHR 0x27 # '' is '' @ k @ '', expected a Function''))
          else return p)))"

text \<open>\<open>asArray\<close> and \<open>asFunction\<close> of an object that is moved; the other overloads return a copy.\<close>

definition not_expected :: "('v, 'h) jsi_ctx \<Rightarrow> 'v jsi_pointer \<Rightarrow> string \<Rightarrow> ('v, 'h, 'a) jsi_m" where
  "not_expected C p expected =
     bindm (pure_op (pointer_clone p)) (\<lambda>q. own_pointer q
       (bindm (kindToString C (JObject q)) (\<lambda>k. throw_JSError C (''Object is '' @ k @ '', expected '' @ expected))))"

definition asArray_move :: "('v, 'h) jsi_ctx \<Rightarrow> 'v jsi_pointer \<Rightarrow> ('v, 'h, 'v jsi_pointer) jsi_m" where
  "asArray_move C p = bindm (Object_isArray C p) (\<lambda>b. if \<not> b then not_expected C p ''an array'' else return p)"

definition asArray :: "('v, 'h) jsi_ctx \<Rightarrow> 'v jsi_pointer \<Rightarrow> ('v, 'h, 'v jsi_pointer) jsi_m" where
  "asArray C p = bindm (Object_isArray C p) (\<lambda>b. if \<not> b then not_expected C p ''an array'' else pure_op (pointer_clone p))"

definition asFunction_move :: "('v, 'h) jsi_ctx \<Rightarrow> 'v jsi_pointer \<Rightarrow> ('v, 'h, 'v jsi_pointer) jsi_m" where
  "asFunction_move C p = bindm (isFunction C p) (\<lambda>b. if \<not> b then not_expected C p ''a function'' else return p)"

definition asFunction :: "('v, 'h) jsi_ctx \<Rightarrow> 'v jsi_pointer \<Rightarrow> ('v, 'h, 'v jsi_pointer) jsi_m" where
  "asFunction C p = bindm (isFunction C p) (\<lambda>b. if \<not> b then not_expected C p ''a function'' else pure_op (pointer_clone p))"

section \<open>Values\<close>

text \<open>Equality of doubles, by their bits: a NaN equals nothing, and the two zeros are equal.\<close>

definition is_nan :: "u64 \<Rightarrow> bool" where
  "is_nan d \<longleftrightarrow> take_bit 11 (drop_bit 52 d) = 0x7FF \<and> take_bit 52 d \<noteq> 0"

definition double_eq :: "u64 \<Rightarrow> u64 \<Rightarrow> bool" where
  "double_eq a b \<longleftrightarrow> \<not> is_nan a \<and> \<not> is_nan b \<and> (a = b \<or> take_bit 63 a = 0 \<and> take_bit 63 b = 0)"

definition Value_strictEquals :: "('v, 'h) jsi_ctx \<Rightarrow> 'v jsi_value \<Rightarrow> 'v jsi_value \<Rightarrow> ('v, 'h, bool) jsi_m" where
  "Value_strictEquals C a b =
     (case (a, b) of
        (JUndefined, JUndefined) \<Rightarrow> return True
      | (JNull, JNull) \<Rightarrow> return True
      | (JBool x, JBool y) \<Rightarrow> return (x = y)
      | (JNumber x, JNumber y) \<Rightarrow> return (double_eq x y)
      | (JSymbol p, JSymbol q) \<Rightarrow> strictEquals_pointers C p q
      | (JBigInt p, JBigInt q) \<Rightarrow> strictEquals_pointers C p q
      | (JString p, JString q) \<Rightarrow> strictEquals_pointers C p q
      | (JObject p, JObject q) \<Rightarrow> strictEquals_pointers C p q
      | _ \<Rightarrow> return False)"

definition asBool :: "'v jsi_value \<Rightarrow> ('v, 'h, bool) jsi_m" where
  "asBool v = (case v of JBool b \<Rightarrow> return b | _ \<Rightarrow> throwNativeException (''Value is '' @ kind_text v @ '', expected a boolean''))"

definition asNumber :: "'v jsi_value \<Rightarrow> ('v, 'h, u64) jsi_m" where
  "asNumber v = (case v of JNumber d \<Rightarrow> return d | _ \<Rightarrow> throwNativeException (''Value is '' @ kind_text v @ '', expected a number''))"

definition value_mismatch :: "('v, 'h) jsi_ctx \<Rightarrow> 'v jsi_value \<Rightarrow> string \<Rightarrow> ('v, 'h, 'a) jsi_m" where
  "value_mismatch C v expected = bindm (kindToString C v) (\<lambda>k. throw_JSError C (''Value is '' @ k @ '', expected '' @ expected))"

text \<open>The conversions to pointers come in two overloads, which copy the pointer and take it.\<close>

definition take_or_copy :: "bool \<Rightarrow> 'v jsi_pointer \<Rightarrow> ('v, 'h, 'v jsi_pointer) jsi_m" where
  "take_or_copy move p = (if move then return p else pure_op (pointer_clone p))"

definition asObject :: "('v, 'h) jsi_ctx \<Rightarrow> bool \<Rightarrow> 'v jsi_value \<Rightarrow> ('v, 'h, 'v jsi_pointer) jsi_m" where
  "asObject C move v = (case v of JObject p \<Rightarrow> take_or_copy move p | _ \<Rightarrow> value_mismatch C v ''an Object'')"

definition asSymbol :: "('v, 'h) jsi_ctx \<Rightarrow> bool \<Rightarrow> 'v jsi_value \<Rightarrow> ('v, 'h, 'v jsi_pointer) jsi_m" where
  "asSymbol C move v = (case v of JSymbol p \<Rightarrow> take_or_copy move p | _ \<Rightarrow> value_mismatch C v ''a Symbol'')"

definition asBigInt :: "('v, 'h) jsi_ctx \<Rightarrow> bool \<Rightarrow> 'v jsi_value \<Rightarrow> ('v, 'h, 'v jsi_pointer) jsi_m" where
  "asBigInt C move v = (case v of JBigInt p \<Rightarrow> take_or_copy move p | _ \<Rightarrow> value_mismatch C v ''a BigInt'')"

definition asString :: "('v, 'h) jsi_ctx \<Rightarrow> bool \<Rightarrow> 'v jsi_value \<Rightarrow> ('v, 'h, 'v jsi_pointer) jsi_m" where
  "asString C move v = (case v of JString p \<Rightarrow> take_or_copy move p | _ \<Rightarrow> value_mismatch C v ''a String'')"

text \<open>\<open>getString\<close> of the result is not checked: the pointer of whatever value it is.\<close>

definition Value_toString :: "('v, 'h) jsi_ctx \<Rightarrow> 'v jsi_value \<Rightarrow> ('v, 'h, 'v jsi_pointer) jsi_m" where
  "Value_toString C v =
     bindm global_object (\<lambda>g.
     bindm (own_pointer g (getPropertyAsFunction C g ''String'')) (\<lambda>f. own_pointer f
       (bindm (call_with C f v) (\<lambda>s. deref_m (pointer_of s)))))"

definition asUint64 :: "('v, 'h) jsi_ctx \<Rightarrow> 'v jsi_pointer \<Rightarrow> ('v, 'h, u64) jsi_m" where
  "asUint64 C p =
     bindm (bigintIsUint64 C p) (\<lambda>b.
       if \<not> b then throw_JSError C ''Lossy truncation in BigInt64::asUint64'' else truncate_bigint C p)"

definition asInt64 :: "('v, 'h) jsi_ctx \<Rightarrow> 'v jsi_pointer \<Rightarrow> ('v, 'h, u64) jsi_m" where
  "asInt64 C p =
     bindm (bigintIsInt64 C p) (\<lambda>b.
       if \<not> b then throw_JSError C ''Lossy truncation in BigInt64::asInt64'' else truncate_bigint C p)"

section \<open>Methods of the runtime that use the library\<close>

definition global_function :: "('v, 'h) jsi_ctx \<Rightarrow> string \<Rightarrow> string \<Rightarrow> ('v, 'h, 'v jsi_pointer) jsi_m" where
  "global_function C obj name =
     bindm global_object (\<lambda>g. own_pointer g
       (bindm (getPropertyAsObject C g obj) (\<lambda>p. own_pointer p (getPropertyAsFunction C p name))))"

definition createValueFromJsonUtf8 :: "('v, 'h) jsi_ctx \<Rightarrow> u8 list \<Rightarrow> ('v, 'h, 'v jsi_value) jsi_m" where
  "createValueFromJsonUtf8 C json =
     bindm (global_function C ''JSON'' ''parse'') (\<lambda>f. own_pointer f
       (bindm (createStringFromUtf8 C (Some json)) (\<lambda>s. own_pointer s (call_with C f (JString s)))))"

definition setPrototypeOf :: "('v, 'h) jsi_ctx \<Rightarrow> 'v jsi_pointer \<Rightarrow> 'v jsi_value \<Rightarrow> ('v, 'h, unit) jsi_m" where
  "setPrototypeOf C object prototype =
     bindm (global_function C ''Object'' ''setPrototypeOf'') (\<lambda>f. own_pointer f
       (bindm (copy_value (JObject object)) (\<lambda>a. own_value a
         (bindm (copy_value prototype) (\<lambda>b. own_value b
           (bindm (Function_call C f JUndefined [a, b]) (\<lambda>r.
              bindm (guard_value r (asObject C True r)) (\<lambda>p. pure_upd (pointer_invalidate p)))))))))"

definition createObjectWithPrototype :: "('v, 'h) jsi_ctx \<Rightarrow> 'v jsi_value \<Rightarrow> ('v, 'h, 'v jsi_pointer) jsi_m" where
  "createObjectWithPrototype C prototype =
     bindm (global_function C ''Object'' ''create'') (\<lambda>f. own_pointer f (bindm (call_with C f prototype) (\<lambda>r. guard_value r (asObject C True r))))"

definition getPropertyNames :: "('v, 'h) jsi_ctx \<Rightarrow> 'v jsi_pointer \<Rightarrow> ('v, 'h, 'v jsi_pointer) jsi_m" where
  "getPropertyNames C obj =
     with_pointer C obj (\<lambda>v.
       bindm (CHECK_NAPI C (call_js C (napi_get_all_property_names (engine C) v (Some napi_key_include_prototypes)
         (napi_key_enumerable OR napi_key_skip_symbols) (Some napi_key_numbers_to_strings) True))) (\<lambda>properties.
       bindm (makeJsiPointer KObject properties) (\<lambda>p. guard_pointer p (asArray_move C p))))"

definition createArray :: "('v, 'h) jsi_ctx \<Rightarrow> nat \<Rightarrow> ('v, 'h, 'v jsi_pointer) jsi_m" where
  "createArray C len =
     NodeApiScope C (bindm (createNodeApiArray C len) (\<lambda>a.
       bindm (makeJsiPointer KObject a) (\<lambda>p. guard_pointer p (asArray_move C p))))"

text \<open>The loop of \<open>createWithElements\<close>.\<close>

fun set_elements :: "('v, 'h) jsi_ctx \<Rightarrow> 'v jsi_pointer \<Rightarrow> nat \<Rightarrow> 'v jsi_value list \<Rightarrow> ('v, 'h, unit) jsi_m" where
  "set_elements C result index [] = return ()"
| "set_elements C result index (element # rest) =
     bindm (bindm (copy_value element) (\<lambda>v. own_value v (setValueAtIndexImpl C result index v))) (\<lambda>_.
       set_elements C result (index + 1) rest)"

definition createWithElements :: "('v, 'h) jsi_ctx \<Rightarrow> 'v jsi_value list \<Rightarrow> ('v, 'h, 'v jsi_pointer) jsi_m" where
  "createWithElements C elements =
     bindm (createArray C (length elements)) (\<lambda>result.
       guard_pointer result (bindm (set_elements C result 0 elements) (\<lambda>_. return result)))"

text \<open>The default setter of a host object.\<close>

definition HostObject_set :: "('v, 'h) jsi_ctx \<Rightarrow> 'v jsi_pointer \<Rightarrow> ('v, 'h, unit) jsi_m" where
  "HostObject_set C name =
     bindm (utf8_PropNameID C name) (\<lambda>s.
       throw_JSError C (''TypeError: Cannot assign to property '' @ CHR 0x27 # string_of_bytes s @ CHR 0x27 #
         '' on HostObject with default setter''))"

section \<open>The runtime with its library\<close>

text \<open>
  While an error is being raised, \<^verbatim>\<open>jsi::JSError\<close> calls the runtime with \<^verbatim>\<open>hasPendingJSError_\<close> set, so that a failing call
  throws a native exception at once. The runtime of these calls needs no error constructor.
\<close>

definition raising_ctx :: "('v, 'h) v8 \<Rightarrow> (('v, 'h) jsi_rt \<Rightarrow> ('v, 'h) napi_env \<Rightarrow> ('v, 'h) jsi_rt) \<Rightarrow> ('v, 'h) jsi_ctx" where
  "raising_ctx V re =
     (let level0 = \<lparr>engine = V, reenter = re, js_error = (\<lambda>_ _. Inl CheckAbort), on_error = (\<lambda>_ _. Inl CheckAbort)\<rparr>
      in level0\<lparr>on_error := throwJSException level0\<rparr>)"

definition jsi_runtime :: "('v, 'h) v8 \<Rightarrow> (('v, 'h) jsi_rt \<Rightarrow> ('v, 'h) napi_env \<Rightarrow> ('v, 'h) jsi_rt) \<Rightarrow> ('v, 'h) jsi_ctx" where
  "jsi_runtime V re = runtime_ctx V re (JSError_value (raising_ctx V re))"

end
