(* ===== verification/Jsi_Errors.thy ===== *)
theory Jsi_Errors
  imports Jsi_Library
begin

text \<open>
  The contract of the JSI library on the runtime: its functions and the constructors of \<^verbatim>\<open>jsi::JSError\<close> are \<open>tidy\<close> like
  the methods of the runtime, so that any operation a client calls leaves no exception behind and balances its scopes.
\<close>

section \<open>The contract of the library\<close>

lemma tidy_ownership [tidy_intros]:
  "tidy m \<Longrightarrow> tidy (own_pointer p m)" "tidy m \<Longrightarrow> tidy (own_value v m)" "tidy m \<Longrightarrow> tidy (guard_pointer p m)"
  "tidy m \<Longrightarrow> tidy (guard_value v m)" "tidy (take_or_copy b p)"
  unfolding own_pointer_def own_value_def guard_pointer_def guard_value_def take_or_copy_def
  by (intro tidy_intros tidy_release; assumption)+

lemma tidy_copy [tidy_intros]: "tidy (copy_value v)"
  by (cases v) (simp_all, (intro tidy_intros)+)

lemma tidy_catch [tidy_intros]: "tidy m \<Longrightarrow> (\<And>w. tidy (h w)) \<Longrightarrow> tidy (catch_jsi m h)"
  unfolding catch_jsi_def by (rule tidy_handle) (auto intro: tidy_intros split: jsi_exception.split)

lemma tidy_used_methods [tidy_intros]:
  assumes "ctx_ok C"
  shows "tidy (createStringFromAscii C s)" "tidy (createStringFromUtf8 C s)" "tidy (Object_getProperty C p q)"
    "tidy (isFunction C p)" "tidy (Function_call C p v vs)" "tidy (utf8_String C p)" "tidy (setPropertyValue C p q v)"
    "tidy (createObject C)" "tidy (Object_isArray C p)" "tidy (strictEquals_pointers C p q)" "tidy (bigintIsInt64 C p)"
    "tidy (bigintIsUint64 C p)" "tidy (truncate_bigint C p)" "tidy (setValueAtIndexImpl C p n v)" "tidy (utf8_PropNameID C p)"
  unfolding method_defs utf8_String_def
  by (intro neat_tidy [OF neat_with_pointer] neat_tidy [OF neat_with_pointers] tidy_intros call_intros assms)+

lemma tidy_global [tidy_intros]: "tidy global_object"
  unfolding global_object_def by (intro tidy_intros)

lemma tidy_value_cases [tidy_intros]:
  assumes "\<And>p. tidy (f p)" "tidy g"
  shows "tidy (case v of JObject p \<Rightarrow> f p | _ \<Rightarrow> g)" "tidy (case v of JString p \<Rightarrow> f p | _ \<Rightarrow> g)"
    "tidy (case v of JSymbol p \<Rightarrow> f p | _ \<Rightarrow> g)" "tidy (case v of JBigInt p \<Rightarrow> f p | _ \<Rightarrow> g)"
  using assms by (cases v; simp)+

lemma tidy_text_case [tidy_intros]:
  "(\<And>p. tidy (f p)) \<Longrightarrow> tidy h \<Longrightarrow> tidy g \<Longrightarrow> tidy (case v of JString p \<Rightarrow> f p | JUndefined \<Rightarrow> h | _ \<Rightarrow> g)"
  by (cases v) simp_all

lemma tidy_pairs [tidy_intros]:
  "(\<And>a b. tidy (k a b)) \<Longrightarrow> tidy (case x of (a, b) \<Rightarrow> k a b)"
  "(\<And>a b c. tidy (k3 a b c)) \<Longrightarrow> tidy (case y of (a, b, c) \<Rightarrow> k3 a b c)"
  by (cases x; simp) (cases y; simp)

lemma tidy_reading [tidy_intros]:
  assumes "ctx_ok C"
  shows "tidy (Object_getProperty_name C p name)" "tidy (global_property C name)" "tidy (kindToString C v)" "tidy (call_with C p v)"
    "tidy (callGlobalFunction C name v)" "tidy (text_of C p)" "tidy (text_or_kind C label v)" "tidy (error_text C p name)"
proof -
  show n: "tidy (Object_getProperty_name C p name)" for p
    unfolding Object_getProperty_name_def by (intro tidy_intros assms)
  show g: "tidy (global_property C name)"
    unfolding global_property_def by (intro tidy_intros n assms)
  show k: "tidy (kindToString C v)" for v
    unfolding kindToString_def by (intro tidy_intros assms)
  show w: "tidy (call_with C p v)" for p
    unfolding call_with_def by (intro tidy_intros assms)
  show c: "tidy (callGlobalFunction C name v)" for name v
    unfolding callGlobalFunction_def global_property_def call_with_def Object_getProperty_name_def by (intro tidy_intros k assms)
  show t: "tidy (text_of C p)" for p
    unfolding text_of_def by (intro tidy_intros assms)
  show x: "tidy (text_or_kind C label v)" for label v
    unfolding text_or_kind_def by (intro tidy_intros k t assms)
  show "tidy (error_text C p name)"
    unfolding error_text_def by (intro tidy_intros n c x assms)
qed

lemma tidy_setValue [tidy_intros]:
  assumes "ctx_ok C"
  shows "tidy (setValue C v m s w)"
  unfolding setValue_def object_message_def object_stack_def value_message_def Let_def by (intro tidy_intros assms)

lemma tidy_constructors [tidy_intros]:
  assumes "ctx_ok C"
  shows "tidy (JSError_value C v)" "tidy (set_value_from C v m s w)" "tidy (new_string C m)" "tidy (JSError_message C m)"
    "tidy (set_text C p name m)" "tidy (JSError_message_stack C m s)" "tidy (JSError_what_value C w v)" "tidy (throw_JSError C m)"
proof -
  show "tidy (JSError_value C v)" unfolding JSError_value_def by (intro tidy_intros assms)
  show f: "tidy (set_value_from C v m s w)" for v m s w unfolding set_value_from_def by (intro tidy_intros assms)
  show n: "tidy (new_string C m)" for m unfolding new_string_def by (intro tidy_intros assms)
  show m: "tidy (JSError_message C m)" unfolding JSError_message_def Let_def by (intro tidy_intros f n assms)
  show t: "tidy (set_text C p name m)" for p name m unfolding set_text_def by (intro tidy_intros n assms)
  show "tidy (JSError_message_stack C m s)" unfolding JSError_message_stack_def by (intro tidy_intros f n t assms)
  show "tidy (JSError_what_value C w v)" unfolding JSError_what_value_def by (rule f)
  show "tidy (throw_JSError C m)" unfolding throw_JSError_def by (intro tidy_intros m)
qed

lemma raising_ctx_ok:
  assumes "engine_ok V" "host_ok re"
  shows "ctx_ok (raising_ctx V re)"
proof -
  define l0 :: "('a, 'b) jsi_ctx" where
    "l0 = \<lparr>engine = V, reenter = re, js_error = (\<lambda>_ _. Inl CheckAbort), on_error = (\<lambda>_ _. Inl CheckAbort)\<rparr>"
  have "ctx_ok l0" using assms by (simp add: l0_def ctx_ok_def settles_def library_ok_def tidy_def)
  then have "ctx_ok (l0\<lparr>on_error := throwJSException l0\<rparr>)" using settles_throw by (auto simp: ctx_ok_def)
  then show ?thesis by (simp add: raising_ctx_def l0_def Let_def)
qed

lemma jsi_runtime_ok:
  assumes "engine_ok V" "host_ok re"
  shows "ctx_ok (jsi_runtime V re)"
  unfolding jsi_runtime_def
  by (rule runtime_ctx_ok [OF assms]) (auto simp: library_ok_def intro: tidy_constructors raising_ctx_ok assms)

lemma tidy_library [tidy_intros]:
  assumes "ctx_ok C"
  shows "tidy (getPropertyAsObject C p name)" "tidy (getPropertyAsFunction C p name)" "tidy (asArray_move C p)" "tidy (asArray C p)"
    "tidy (asFunction_move C p)" "tidy (asFunction C p)" "tidy (asObject C b v)" "tidy (asSymbol C b v)" "tidy (asBigInt C b v)"
    "tidy (asString C b v)" "tidy (Value_toString C v)" "tidy (asUint64 C p)" "tidy (asInt64 C p)" "tidy (HostObject_set C p)"
proof -
  show o: "tidy (getPropertyAsObject C p name)" for p name
    unfolding getPropertyAsObject_def by (intro tidy_intros assms)
  show f: "tidy (getPropertyAsFunction C p name)" for p name
    unfolding getPropertyAsFunction_def by (intro tidy_intros o assms)
  have n: "tidy (not_expected C p t)" "tidy (value_mismatch C v t)" for t
    unfolding not_expected_def value_mismatch_def by (intro tidy_intros assms)+
  show "tidy (asArray_move C p)" "tidy (asArray C p)" "tidy (asFunction_move C p)" "tidy (asFunction C p)"
    unfolding asArray_move_def asArray_def asFunction_move_def asFunction_def by (intro tidy_intros n assms)+
  show "tidy (asObject C b v)" "tidy (asSymbol C b v)" "tidy (asBigInt C b v)" "tidy (asString C b v)"
    unfolding asObject_def asSymbol_def asBigInt_def asString_def by (intro tidy_intros n)+
  show "tidy (Value_toString C v)" unfolding Value_toString_def by (intro tidy_intros f assms)
  show "tidy (asUint64 C p)" "tidy (asInt64 C p)" "tidy (HostObject_set C p)"
    unfolding asUint64_def asInt64_def HostObject_set_def by (intro tidy_intros assms)+
qed

lemma tidy_asBool [tidy_intros]: "tidy (asBool v)"
  unfolding asBool_def by (cases v) (simp_all add: tidy_throw tidy_return)

lemma tidy_asNumber [tidy_intros]: "tidy (asNumber v)"
  unfolding asNumber_def by (cases v) (simp_all add: tidy_throw tidy_return)

lemma tidy_strictEquals [tidy_intros]: "ctx_ok C \<Longrightarrow> tidy (Value_strictEquals C v w)"
  unfolding Value_strictEquals_def by (cases v; cases w; simp; intro tidy_intros)

lemma tidy_set_elements: "ctx_ok C \<Longrightarrow> tidy (set_elements C p i vs)"
  by (induction C p i vs rule: set_elements.induct) (simp_all, (intro tidy_intros | assumption)+)

lemma tidy_runtime_library [tidy_intros]:
  assumes "ctx_ok C"
  shows "tidy (createValueFromJsonUtf8 C json)" "tidy (setPrototypeOf C p v)" "tidy (createObjectWithPrototype C v)"
    "tidy (getPropertyNames C p)" "tidy (createArray C n)" "tidy (createWithElements C vs)"
proof -
  have f: "tidy (global_function C a b)" for a b unfolding global_function_def by (intro tidy_intros assms)
  show "tidy (createValueFromJsonUtf8 C json)" "tidy (setPrototypeOf C p v)" "tidy (createObjectWithPrototype C v)"
    unfolding createValueFromJsonUtf8_def setPrototypeOf_def createObjectWithPrototype_def by (intro tidy_intros f assms)+
  show "tidy (getPropertyNames C p)"
    unfolding getPropertyNames_def by (intro neat_tidy [OF neat_with_pointer] tidy_intros call_intros assms)
  show a: "tidy (createArray C n)" for n
    unfolding createArray_def by (intro tidy_intros assms)
  show "tidy (createWithElements C vs)"
    unfolding createWithElements_def by (intro tidy_intros a tidy_set_elements assms)
qed

text \<open>What a client calls: a method of the runtime, or a function of the library.\<close>

inductive jsi_operation :: "('v, 'h) jsi_ctx \<Rightarrow> ('v, 'h, unit) jsi_m \<Rightarrow> bool" for C where
  "jsi_method C m \<Longrightarrow> jsi_operation C m"
| "jsi_operation C (drop_result (copy_value v))"
| "jsi_operation C (drop_result (Value_strictEquals C v w))"
| "jsi_operation C (drop_result (asBool v))"
| "jsi_operation C (drop_result (asNumber v))"
| "jsi_operation C (drop_result (asObject C b v))"
| "jsi_operation C (drop_result (asSymbol C b v))"
| "jsi_operation C (drop_result (asBigInt C b v))"
| "jsi_operation C (drop_result (asString C b v))"
| "jsi_operation C (drop_result (Value_toString C v))"
| "jsi_operation C (drop_result (asUint64 C p))"
| "jsi_operation C (drop_result (asInt64 C p))"
| "jsi_operation C (drop_result (asArray C p))"
| "jsi_operation C (drop_result (asArray_move C p))"
| "jsi_operation C (drop_result (asFunction C p))"
| "jsi_operation C (drop_result (asFunction_move C p))"
| "jsi_operation C (drop_result (getPropertyAsObject C p name))"
| "jsi_operation C (drop_result (getPropertyAsFunction C p name))"
| "jsi_operation C (drop_result (createValueFromJsonUtf8 C json))"
| "jsi_operation C (drop_result (setPrototypeOf C p v))"
| "jsi_operation C (drop_result (createObjectWithPrototype C v))"
| "jsi_operation C (drop_result (getPropertyNames C p))"
| "jsi_operation C (drop_result (createArray C n))"
| "jsi_operation C (drop_result (createWithElements C vs))"
| "jsi_operation C (drop_result (HostObject_set C p))"
| "jsi_operation C (drop_result (throw_JSError C msg :: ('v, 'h, unit) jsi_m))"

lemma operations_tidy:
  assumes "ctx_ok C" "jsi_operation C m"
  shows "tidy m"
  using assms(2)
  by (cases; (simp only: drop_result_def)?)
    ((intro neat_tidy [OF methods_neat [OF assms(1)]]; assumption) | (intro tidy_intros assms(1)))+

text \<open>
  C9: Any operation of the JSI on the runtime with its library, a method of the runtime or a checked conversion, a
  comparison, an access by name or the raising of an error, that returns, normally or by a C++ exception, leaves no
  exception pending in the environment and restores the pointer scopes, the marker of an error being raised and the
  source URL; handles are only added to the stack.
\<close>

theorem jsi_operations_clean:
  assumes "engine_ok V" "host_ok re" "jsi_operation (jsi_runtime V re) m"
    and "last_exception (jsi_env j) = None" "m j = Inr (r, j')"
  shows "last_exception (jsi_env j') = None \<and> stackScopes j' = stackScopes j \<and> (\<exists>l. stackValues j' = stackValues j @ l) \<and>
    hasPendingJSError j' = hasPendingJSError j \<and> sourceURL j' = sourceURL j"
  using tidyD [OF operations_tidy [OF jsi_runtime_ok [OF assms(1,2)] assms(3)] _ assms(5)] assms(4)
  by (simp add: settled_def framed_def)

text \<open>Evaluation: lengths are compared as integers.\<close>

lemma lengths_as_int: "len = NAPI_AUTO_LENGTH \<longleftrightarrow> int len = 2 ^ 64 - 1" "len \<le> INT_MAX \<longleftrightarrow> int len \<le> 2 ^ 31 - 1"
  by (auto simp: NAPI_AUTO_LENGTH_def INT_MAX_def)

lemma str_len_code [code]: "str_len str len = (if int len = 2 ^ 64 - 1 then takeWhile (\<lambda>c. c \<noteq> 0) str else take len str)"
  unfolding str_len_def lengths_as_int ..

lemma CHECK_NEW_STRING_ARGS_code [code]:
  "CHECK_NEW_STRING_ARGS str len result k =
     CHECK_ENV_NOT_IN_GC
       (let rest = CHECK_OUT result (RETURN_STATUS_IF_FALSE (int len = 2 ^ 64 - 1 \<or> int len \<le> 2 ^ 31 - 1) napi_invalid_arg k)
        in if len > 0 then CHECK_ARG str (\<lambda>_. rest) else rest)"
  unfolding CHECK_NEW_STRING_ARGS_def lengths_as_int ..

lemma CHECK_NEW_FROM_UTF8_code [code]:
  "CHECK_NEW_FROM_UTF8 V str k =
     CHECK_ARG str (\<lambda>s. jsv V (oNewFromUtf8 (takeWhile (\<lambda>c. c \<noteq> 0) s) True) (\<lambda>m. CHECK_MAYBE m napi_generic_failure k))"
  by (simp add: CHECK_NEW_FROM_UTF8_def CHECK_NEW_FROM_UTF8_LEN_def str_len_def RETURN_STATUS_IF_FALSE_def)

text \<open>
  An engine with one error object 5: its message is the string 20, whose text is a single letter, and the getter of every
  other property throws the number 9. A string that is created is 100 plus its length, a new object is
  200, and its property 7 is what was stored last.
\<close>

definition error_engine :: "(nat, nat) v8" where
  "error_engine = plain_engine\<lparr>
     Is := (\<lambda>t v. case t of tObject \<Rightarrow> v = 5 \<or> v \<ge> 200 | tString \<Rightarrow> v = 20 \<or> 100 \<le> v \<and> v < 200 | tNumber \<Rightarrow> v = 9 | tUndefined \<Rightarrow> v = 0 | _ \<Rightarrow> False),
     vop := (\<lambda>p e. case p of
         oGet v k \<Rightarrow>
           if k = KeyV 107 then Inr (Some 20, None, e)
           else if k = KeyV 7 then Inr (Some (isolate e), None, e)
           else Inr (None, Some 9, e)
       | oNewFromOneByte bs \<Rightarrow> Inr (Some (100 + length bs), None, e)
       | oToObject v \<Rightarrow> Inr (Some v, None, e)
       | _ \<Rightarrow> Inr (Some 7, None, e)),
     bop := (\<lambda>p e. case p of oSet v k x \<Rightarrow> Inr (Some True, None, e\<lparr>isolate := x\<rparr>) | _ \<Rightarrow> Inr (Some True, None, e)),
     new := (\<lambda>p h. (200, h)), rd := (\<lambda>_ _. 1), string_write := (\<lambda>_ _ _ _. [109])\<rparr>"

lemma error_engine_ok: "engine_ok error_engine"
  by (auto simp: engine_ok_def error_engine_def plain_engine_def split: v8_vop.splits v8_bop.splits if_splits)

text \<open>Reading a property whose getter throws a number; the library then fails to convert the number to a string.\<close>

definition get_property_thrown :: "(nat, nat, nat jsi_value) jsi_m" where
  "get_property_thrown = Object_getProperty (jsi_runtime error_engine no_host) (Counted 0) (Counted 1)"

text \<open>The text of the error that the library reports.\<close>

definition number_error :: "nat jsi_exception" where
  "number_error =
     JSError (JNumber 1)
       (''[Exception while creating message string: A call to Node-API returned error code 0xa.]'' @ [CHR 0x0A, CHR 0x0A] @ ''no stack'')"

lemma get_property_thrown_run: "exn_of (get_property_thrown sample_rt) = Some number_error"
  by code_simp

theorem jsi_operations_clean_witness:
  "\<exists>j' l. drop_result get_property_thrown sample_rt = Inr (Inl number_error, j') \<and> last_exception (jsi_env j') = None \<and>
    stackScopes j' = [] \<and> stackValues j' = stackValues sample_rt @ l \<and> \<not> hasPendingJSError j'"
proof -
  obtain j' where run: "drop_result get_property_thrown sample_rt = Inr (Inl number_error, j')"
    using get_property_thrown_run by (auto simp: exn_of_def drop_result_def bindm_def split: sum.splits)
  have "jsi_method (jsi_runtime error_engine no_host) (drop_result get_property_thrown)"
    unfolding get_property_thrown_def by (rule jsi_method.intros)
  note op = jsi_operation.intros(1) [OF this]
  from jsi_operations_clean [OF error_engine_ok samples_ok(1) op _ run] samples_ok(3) run show ?thesis
    by (simp add: settled_def sample_rt_def)
qed

end
