(* ===== verification/Jsi_Raising.thy ===== *)
theory Jsi_Raising
  imports Jsi_Errors
begin

text \<open>
  Raising an error: \<^verbatim>\<open>throwJSException\<close> calls methods of the runtime and the constructor of \<^verbatim>\<open>jsi::JSError\<close>, which call it
  again when they fail. The model unfolds this recursion a fixed number of times. This theory shows that the unfolding
  is complete: while \<^verbatim>\<open>hasPendingJSError_\<close> is set a method does not depend on what \<^verbatim>\<open>throwJSException\<close> calls.
\<close>

section \<open>Contexts that agree while an error is being raised\<close>

abbreviation raising :: "('v, 'h) jsi_rt \<Rightarrow> bool" where
  "raising \<equiv> hasPendingJSError"

definition agree :: "('v, 'h, 'a) jsi_m \<Rightarrow> ('v, 'h, 'a) jsi_m \<Rightarrow> bool" where
  "agree m m' \<longleftrightarrow> (\<forall>j. raising j \<longrightarrow> m j = m' j \<and> (\<forall>r j'. m j = Inr (r, j') \<longrightarrow> raising j'))"

definition peers :: "('v, 'h) jsi_ctx \<Rightarrow> ('v, 'h) jsi_ctx \<Rightarrow> bool" where
  "peers C C' \<longleftrightarrow> engine C' = engine C \<and> reenter C' = reenter C \<and> (\<forall>j e. raising (reenter C j e) = raising j) \<and>
     (\<forall>st j. raising j \<longrightarrow> on_error C st j = on_error C' st j \<and> (\<forall>x j'. on_error C st j = Inr (x, j') \<longrightarrow> raising j'))"

named_theorems agree_intros \<open>rules for computations that agree\<close>

lemma agreeI: "(\<And>j. raising j \<Longrightarrow> m j = m' j) \<Longrightarrow> (\<And>j r j'. raising j \<Longrightarrow> m j = Inr (r, j') \<Longrightarrow> raising j') \<Longrightarrow> agree m m'"
  unfolding agree_def by blast

lemma agreeD: "agree m m' \<Longrightarrow> raising j \<Longrightarrow> m j = m' j"
  unfolding agree_def by blast

lemma agree_raising: "agree m m' \<Longrightarrow> raising j \<Longrightarrow> m j = Inr (r, j') \<Longrightarrow> raising j'"
  unfolding agree_def by blast

lemma agree_steps [agree_intros]: "agree (return x) (return x)" "agree (throw y) (throw y)" "agree (gets f) (gets f)"
    "agree (deref_m o1) (deref_m o1)" "agree (CHECK_ELSE_THROW b msg) (CHECK_ELSE_THROW b msg)"
    "agree (throwNativeException msg) (throwNativeException msg)" "agree (modify pushPointerValueScope) (modify pushPointerValueScope)"
  by (auto intro!: agreeI simp: return_def throw_def gets_def deref_m_def modify_def pushPointerValueScope_def CHECK_ELSE_THROW_def
      throwNativeException_def bind_res_Inr_iff split: if_splits)

lemma agree_bindm [agree_intros]:
  assumes "agree m m'" "\<And>x. agree (k x) (k' x)"
  shows "agree (bindm m k) (bindm m' k')"
proof (rule agreeI)
  fix j :: "('a, 'b) jsi_rt"
  assume j: "raising j"
  note m = agreeD [OF assms(1) j]
  show "bindm m k j = bindm m' k' j"
  proof (cases "m j")
    case (Inr x)
    obtain r j1 where x: "x = (r, j1)" by (cases x)
    have "raising j1" using agree_raising [OF assms(1) j] Inr x by blast
    then show ?thesis using Inr x m agreeD [OF assms(2)] by (cases r) (auto simp: bindm_def)
  qed (use m in \<open>simp add: bindm_def\<close>)
next
  fix j :: "('a, 'b) jsi_rt" and r j'
  assume "raising j" "bindm m k j = Inr (r, j')"
  then show "raising j'" by (elim bindm_cases) (auto dest: agree_raising [OF assms(1)] agree_raising [OF assms(2)])
qed

lemma agree_handle [agree_intros]:
  assumes "agree m m'" "\<And>x. agree (h x) (h' x)"
  shows "agree (handle m h) (handle m' h')"
proof (rule agreeI)
  fix j :: "('a, 'b) jsi_rt"
  assume j: "raising j"
  note m = agreeD [OF assms(1) j]
  show "handle m h j = handle m' h' j"
  proof (cases "m j")
    case (Inr x)
    obtain r j1 where x: "x = (r, j1)" by (cases x)
    have "raising j1" using agree_raising [OF assms(1) j] Inr x by blast
    then show ?thesis using Inr x m agreeD [OF assms(2)] by (cases r) (auto simp: handle_def)
  qed (use m in \<open>simp add: handle_def\<close>)
next
  fix j :: "('a, 'b) jsi_rt" and r j'
  assume "raising j" "handle m h j = Inr (r, j')"
  then show "raising j'" by (elim handle_cases) (auto dest: agree_raising [OF assms(1)] agree_raising [OF assms(2)])
qed

lemma agree_noexcept [agree_intros]: "agree m m' \<Longrightarrow> agree (noexcept m) (noexcept m')"
proof (rule agreeI)
  fix j :: "('a, 'b) jsi_rt" and r j'
  assume m: "agree m m'" "raising j"
  show "noexcept m j = noexcept m' j" using agreeD [OF m] by (simp add: noexcept_def)
  assume "noexcept m j = Inr (r, j')"
  then show "raising j'" by (elim noexcept_cases) (rule agree_raising [OF m])
qed

lemma agree_finally [agree_intros]:
  assumes "agree m m'" "agree d d'"
  shows "agree (finally_do m d) (finally_do m' d')"
proof (rule agreeI)
  fix j :: "('a, 'b) jsi_rt"
  assume j: "raising j"
  note m = agreeD [OF assms(1) j]
  show "finally_do m d j = finally_do m' d' j"
  proof (cases "m j")
    case (Inr x)
    obtain r j1 where x: "x = (r, j1)" by (cases x)
    have "raising j1" using agree_raising [OF assms(1) j] Inr x by blast
    then show ?thesis using Inr x m agreeD [OF agree_noexcept [OF assms(2)]] by (auto simp: finally_do_def)
  qed (use m in \<open>simp add: finally_do_def\<close>)
next
  fix j :: "('a, 'b) jsi_rt" and r j'
  assume "raising j" "finally_do m d j = Inr (r, j')"
  then show "raising j'" by (elim finally_cases) (auto dest: agree_raising [OF assms(1)] agree_raising [OF assms(2)])
qed

section \<open>Operations that keep the marker\<close>

lemma agree_pure_op: "(\<And>j x j'. f j = Inr (x, j') \<Longrightarrow> loose j j') \<Longrightarrow> agree (pure_op f) (pure_op f)"
  unfolding agree_def pure_op_def loose_def by (auto simp: bind_res_Inr_iff)

lemma agree_pure_upd: "(\<And>j j'. f j = Inr j' \<Longrightarrow> loose j j') \<Longrightarrow> agree (pure_upd f) (pure_upd f)"
  unfolding agree_def pure_upd_def loose_def by (auto simp: bind_res_Inr_iff)

lemma loose_updates: "loose j (set_pv p pv j)" "loose j (addStackValue p j)" "loose j (j\<lparr>jsi_env := e\<rparr>)" "loose j j"
  by (simp_all add: loose_def set_pv_def addStackValue_def)

lemma getValue_loose:
  assumes "getValue V p j = Inr (v, j')"
  shows "loose j j'"
proof -
  have c: "loose a b" if "CHECK_NAPI_ELSE_CRASH f a = Inr (x, b)" for f a x and b :: "('a, 'b) jsi_rt"
    using that by (auto simp: CHECK_NAPI_ok loose_updates)
  have s: "loose j (set_pv p pv j1)" "loose j (addStackValue p (set_pv p pv j1))" if "loose j j1" for pv j1
    using loose_trans [OF that] loose_trans [OF loose_updates(1) loose_updates(2)] loose_updates by blast+
  show ?thesis
    using assms c loose_trans [OF c c]
    by (auto simp: getValue_def bind_res_Inr_iff Let_def loose_updates intro!: s split: if_splits)
qed

lemma clone_loose: "clone p j = Inr j' \<Longrightarrow> loose j (j' :: ('v, 'h) jsi_rt)"
  by (auto simp: clone_def bind_res_Inr_iff loose_updates)

lemma make_loose: "Jsi_Pointers.make v kind n j = (i, j') \<Longrightarrow> loose j (j' :: ('v, 'h) jsi_rt)"
  by (auto simp: Jsi_Pointers.make_def Let_def loose_def set_pv_def addStackValue_def)

lemma agree_pointers [agree_intros]:
  "agree (pure_op (pointer_clone p)) (pure_op (pointer_clone p))"
  "agree (pure_upd (pointer_invalidate p)) (pure_upd (pointer_invalidate p))"
  "agree (release_value v) (release_value v)"
  "agree (pure_op (pointer_getValue V p)) (pure_op (pointer_getValue V p))"
  "agree (pure_op (getValue V i)) (pure_op (getValue V i))"
  "agree (makeJsiPointer kind value) (makeJsiPointer kind value)"
proof -
  show "agree (pure_op (pointer_clone p)) (pure_op (pointer_clone p))"
    by (rule agree_pure_op) (auto simp: pointer_clone_def bind_res_Inr_iff split: jsi_pointer.splits prod.splits dest: clone_loose make_loose)
  show i: "agree (pure_upd (pointer_invalidate p)) (pure_upd (pointer_invalidate p))" for p
    unfolding agree_def using laxD [OF lax_release [of "JObject p"]] by (auto simp: release_value_def loose_def)
  show "agree (release_value v) (release_value v)"
    unfolding agree_def using laxD [OF lax_release [of v]] by (auto simp: loose_def)
  show "agree (pure_op (pointer_getValue V p)) (pure_op (pointer_getValue V p))"
    by (rule agree_pure_op) (auto simp: pointer_getValue_def loose_updates split: jsi_pointer.splits dest: getValue_loose)
  show "agree (pure_op (getValue V i)) (pure_op (getValue V i))" by (rule agree_pure_op) (rule getValue_loose)
  show "agree (makeJsiPointer kind value) (makeJsiPointer kind value)"
    unfolding makeJsiPointer_def
    by (intro agree_intros agree_pure_op) (auto split: prod.splits dest: make_loose)
qed

lemma agree_pop [agree_intros]: "agree (pure_upd (popPointerValueScope V)) (pure_upd (popPointerValueScope V))"
proof -
  have "raising j' = raising j" if "popPointerValueScope V j = Inr j'" for j j' :: "('a, 'b) jsi_rt"
  proof -
    have "stackScopes j \<noteq> []" using that by (auto simp: popPointerValueScope_def Let_def bind_res_Inr_iff check_Inr_iff)
    then obtain S n where "stackScopes j = S @ [n]" by (cases "stackScopes j" rule: rev_cases) auto
    from pop_loose [OF that this] show ?thesis by simp
  qed
  then show ?thesis unfolding agree_def pure_upd_def by (auto simp: bind_res_Inr_iff)
qed

lemma agree_call_napi [agree_intros]: "agree (call_napi f) (call_napi f)"
  unfolding agree_def call_napi_def by (auto simp: bind_res_Inr_iff)

lemma agree_call_js [agree_intros]: "peers C C' \<Longrightarrow> agree (call_js C f) (call_js C' f)"
  unfolding agree_def call_js_def peers_def by (auto simp: bind_res_Inr_iff)

lemma agree_if [agree_intros]: "(b \<Longrightarrow> agree m m') \<Longrightarrow> (\<not> b \<Longrightarrow> agree n n') \<Longrightarrow> agree (if b then m else n) (if b then m' else n')"
  by simp

lemma agree_pairs [agree_intros]:
  "(\<And>a b. agree (k a b) (k' a b)) \<Longrightarrow> agree (case x of (a, b) \<Rightarrow> k a b) (case x of (a, b) \<Rightarrow> k' a b)"
  by (cases x) simp

lemma agree_CHECK_NAPI [agree_intros]:
  assumes "peers C C'" "agree m m'"
  shows "agree (CHECK_NAPI C m) (CHECK_NAPI C' m')"
proof -
  have "agree (\<lambda>j. bind_res (on_error C st j) (\<lambda>(x, j1). Inr (Inl x, j1))) (\<lambda>j. bind_res (on_error C' st j) (\<lambda>(x, j1). Inr (Inl x, j1)))" for st
  proof (rule agreeI)
    fix j :: "('a, 'b) jsi_rt" and r j'
    assume j: "raising j"
    have "on_error C st j = on_error C' st j" using assms(1) j unfolding peers_def by blast
    then show "bind_res (on_error C st j) (\<lambda>(x, j1). Inr (Inl x, j1)) = bind_res (on_error C' st j) (\<lambda>(x, j1). Inr (Inl x, j1))" by simp
    assume "bind_res (on_error C st j) (\<lambda>(x, j1). Inr (Inl x, j1)) = Inr (r, j')"
    then obtain x where "on_error C st j = Inr (x, j')" by (auto simp: bind_res_Inr_iff)
    then show "raising j'" using assms(1) j unfolding peers_def by blast
  qed
  note e = this
  show ?thesis
    unfolding CHECK_NAPI_def by (intro agree_bindm assms(2) agree_pairs agree_if e agree_steps)
qed

lemma agree_into [agree_intros]: "agree m m' \<Longrightarrow> agree (into d m) (into d m')"
  unfolding into_def by (intro agree_intros)

lemma agree_map_m [agree_intros]: "(\<And>x. agree (f x) (f' x)) \<Longrightarrow> agree (map_m f xs) (map_m f' xs)"
  by (induction xs) (simp_all add: agree_intros)

section \<open>Methods\<close>

lemma peers_engine: "peers C C' \<Longrightarrow> engine C' = engine C"
  by (simp add: peers_def)

lemma agree_helpers [agree_intros]:
  assumes p: "peers C C'"
  shows "agree (typeOf C v) (typeOf C' v)" "agree (getUndefined C) (getUndefined C')" "agree (getNull C) (getNull C')"
    "agree (getBoolean C b) (getBoolean C' b)" "agree (getValueBool C v) (getValueBool C' v)" "agree (createDouble C d) (createDouble C' d)"
    "agree (getValueDouble C v) (getValueDouble C' v)" "agree (createStringLatin1 C s) (createStringLatin1 C' s)"
    "agree (createStringUtf8 C s) (createStringUtf8 C' s)" "agree (callFunction C v w args) (callFunction C' v w args)"
    "agree (getProperty C v w) (getProperty C' v w)" "agree (setProperty C v w x) (setProperty C' v w x)"
    "agree (getNodeApiValue_pointer C q) (getNodeApiValue_pointer C' q)" "agree (getNodeApiValue_ref C r) (getNodeApiValue_ref C' r)"
    "agree (clear_exception C) (clear_exception C')"
  unfolding typeOf_def getUndefined_def getNull_def getBoolean_def getValueBool_def createDouble_def getValueDouble_def
    createStringLatin1_def createStringUtf8_def callFunction_def getProperty_def setProperty_def getNodeApiValue_pointer_def
    getNodeApiValue_ref_def clear_exception_def peers_engine [OF p]
  by (intro agree_intros p)+

lemma agree_values [agree_intros]:
  assumes p: "peers C C'"
  shows "agree (property C i) (property C' i)" "agree (through_clone C q) (through_clone C' q)"
    "agree (stringToStdBasicString_char C v) (stringToStdBasicString_char C' v)"
  unfolding property_def through_clone_def stringToStdBasicString_char_def string_to_std_def Let_def peers_engine [OF p]
  by (intro agree_intros p)+

lemma agree_conversions [agree_intros]:
  assumes p: "peers C C'"
  shows "agree (getNodeApiValue C x) (getNodeApiValue C' x)" "agree (toJsiValue C v) (toJsiValue C' v)"
    "agree (NodeApiValueArgs C xs) (NodeApiValueArgs C' xs)"
proof -
  show x: "agree (getNodeApiValue C x) (getNodeApiValue C' x)" for x
    by (cases x) (simp_all add: agree_intros p)
  show "agree (toJsiValue C v) (toJsiValue C' v)"
    unfolding toJsiValue_def
  proof (intro agree_bindm agree_helpers p)
    fix t
    show "agree (case t of napi_undefined \<Rightarrow> return JUndefined | napi_null \<Rightarrow> return JNull
        | napi_boolean \<Rightarrow> bindm (getValueBool C v) (\<lambda>b. return (JBool b))
        | napi_number \<Rightarrow> bindm (getValueDouble C v) (\<lambda>n. return (JNumber n))
        | napi_string \<Rightarrow> bindm (makeJsiPointer KString v) (\<lambda>p. return (JString p))
        | napi_symbol \<Rightarrow> bindm (makeJsiPointer KSymbol v) (\<lambda>p. return (JSymbol p))
        | napi_bigint \<Rightarrow> bindm (makeJsiPointer KBigInt v) (\<lambda>p. return (JBigInt p))
        | _ \<Rightarrow> bindm (makeJsiPointer KObject v) (\<lambda>p. return (JObject p)))
       (case t of napi_undefined \<Rightarrow> return JUndefined | napi_null \<Rightarrow> return JNull
        | napi_boolean \<Rightarrow> bindm (getValueBool C' v) (\<lambda>b. return (JBool b))
        | napi_number \<Rightarrow> bindm (getValueDouble C' v) (\<lambda>n. return (JNumber n))
        | napi_string \<Rightarrow> bindm (makeJsiPointer KString v) (\<lambda>p. return (JString p))
        | napi_symbol \<Rightarrow> bindm (makeJsiPointer KSymbol v) (\<lambda>p. return (JSymbol p))
        | napi_bigint \<Rightarrow> bindm (makeJsiPointer KBigInt v) (\<lambda>p. return (JBigInt p))
        | _ \<Rightarrow> bindm (makeJsiPointer KObject v) (\<lambda>p. return (JObject p)))"
      by (cases t; simp only: napi_valuetype.case; intro agree_intros p)
  qed
  show "agree (NodeApiValueArgs C xs) (NodeApiValueArgs C' xs)"
    unfolding NodeApiValueArgs_def by (intro agree_intros x)
qed

lemma agree_scope [agree_intros]:
  assumes p: "peers C C'" and "agree body body'"
  shows "agree (NodeApiScope C body) (NodeApiScope C' body')"
  unfolding NodeApiScope_def NodeApiScope_begin_def NodeApiScope_end_def pushScope_def popScope_def peers_engine [OF p]
  by (intro agree_intros p assms(2))

lemma agree_methods [agree_intros]:
  assumes p: "peers C C'"
  shows "agree (createStringFromAscii C s) (createStringFromAscii C' s)" "agree (Object_getProperty C q r) (Object_getProperty C' q r)"
    "agree (isFunction C q) (isFunction C' q)" "agree (Function_call C q v vs) (Function_call C' q v vs)"
    "agree (utf8_String C q) (utf8_String C' q)"
  unfolding createStringFromAscii_def Object_getProperty_def isFunction_def Function_call_def utf8_String_def
    with_pointer_def with_pointers_def
  by (intro agree_intros p)+

lemma agree_global [agree_intros]: "agree global_object global_object"
  unfolding global_object_def by (intro agree_intros)

lemma agree_copy [agree_intros]: "agree (copy_value x) (copy_value x)"
  by (cases x; simp only: copy_value.simps; intro agree_intros)

lemma agree_ownership [agree_intros]:
  "agree m m' \<Longrightarrow> agree (own_pointer q m) (own_pointer q m')" "agree m m' \<Longrightarrow> agree (own_value v m) (own_value v m')"
  unfolding own_pointer_def own_value_def by (intro agree_intros; assumption)+

lemma agree_catch [agree_intros]:
  assumes "agree m m'" "\<And>w. agree (h w) (h' w)"
  shows "agree (catch_jsi m h) (catch_jsi m' h')"
  unfolding catch_jsi_def
proof (rule agree_handle [OF assms(1)])
  fix x :: "'a jsi_exception"
  show "agree (case x of JSError v w \<Rightarrow> own_value v (h (what x)) | StdException w \<Rightarrow> h (what x) | OtherException \<Rightarrow> throw x)
    (case x of JSError v w \<Rightarrow> own_value v (h' (what x)) | StdException w \<Rightarrow> h' (what x) | OtherException \<Rightarrow> throw x)"
    by (cases x; simp only: jsi_exception.case; intro agree_intros assms(2))
qed

lemma agree_value_cases [agree_intros]:
  assumes "\<And>p. agree (f p) (f' p)" "agree g g'"
  shows "agree (case v of JObject p \<Rightarrow> f p | _ \<Rightarrow> g) (case v of JObject p \<Rightarrow> f' p | _ \<Rightarrow> g')"
    "agree (case v of JString p \<Rightarrow> f p | _ \<Rightarrow> g) (case v of JString p \<Rightarrow> f' p | _ \<Rightarrow> g')"
  using assms by (cases v; simp)+

lemma agree_text_case [agree_intros]:
  "(\<And>p. agree (f p) (f' p)) \<Longrightarrow> agree h h' \<Longrightarrow> agree g g' \<Longrightarrow>
    agree (case v of JString p \<Rightarrow> f p | JUndefined \<Rightarrow> h | _ \<Rightarrow> g) (case v of JString p \<Rightarrow> f' p | JUndefined \<Rightarrow> h' | _ \<Rightarrow> g')"
  by (cases v) simp_all

lemma agree_reading [agree_intros]:
  assumes p: "peers C C'"
  shows "agree (Object_getProperty_name C q name) (Object_getProperty_name C' q name)"
    "agree (global_property C name) (global_property C' name)" "agree (kindToString C v) (kindToString C' v)"
    "agree (call_with C q v) (call_with C' q v)" "agree (text_of C q) (text_of C' q)"
proof -
  show n: "agree (Object_getProperty_name C q name) (Object_getProperty_name C' q name)" for q
    unfolding Object_getProperty_name_def by (intro agree_intros p)
  show "agree (global_property C name) (global_property C' name)"
    unfolding global_property_def by (intro agree_intros n)
  show "agree (kindToString C v) (kindToString C' v)" "agree (call_with C q v) (call_with C' q v)" "agree (text_of C q) (text_of C' q)"
    unfolding kindToString_def call_with_def text_of_def by (intro agree_intros p)+
qed

lemma agree_texts [agree_intros]:
  assumes p: "peers C C'"
  shows "agree (callGlobalFunction C name v) (callGlobalFunction C' name v)"
    "agree (text_or_kind C label v) (text_or_kind C' label v)"
  unfolding callGlobalFunction_def text_or_kind_def by (intro agree_intros p)+

lemma agree_error_text [agree_intros]: "peers C C' \<Longrightarrow> agree (error_text C q name) (error_text C' q name)"
  unfolding error_text_def by (intro agree_intros)

lemma agree_JSError [agree_intros]: "peers C C' \<Longrightarrow> agree (JSError_value C v) (JSError_value C' v)"
  unfolding JSError_value_def setValue_def object_message_def object_stack_def value_message_def Let_def
  by (intro agree_intros)

lemma agree_rewrite [agree_intros]:
  assumes p: "peers C C'"
  shows "agree (rewriteErrorMessage C v) (rewriteErrorMessage C' v)"
  unfolding rewriteErrorMessage_def rewrite_message_def rewrite_stack_def peers_engine [OF p] by (intro agree_intros p)

section \<open>The unfolding is complete\<close>

lemma bind_res_cong: "(\<And>x. m = Inr x \<Longrightarrow> f x = g x) \<Longrightarrow> bind_res m f = bind_res m g"
  by (cases m) simp_all

text \<open>While an error is being raised, \<^verbatim>\<open>throwJSException\<close> throws a native exception and calls nothing.\<close>

lemma throw_while_raising:
  assumes "raising j" "engine C' = engine C"
  shows "throwJSException C st j = throwJSException C' st j"
    and "throwJSException C st j = Inr (x, j') \<Longrightarrow> raising j'"
proof -
  have keep: "raising j2" if "CHECK_NAPI_ELSE_CRASH f j1 = Inr (y, j2)" "raising j1" for f j1 y j2
    using that by (auto simp: CHECK_NAPI_ok)
  have 1: "throwJSException D st j =
      bind_res (CHECK_NAPI_ELSE_CRASH (napi_get_and_clear_last_exception (engine D) True) j) (\<lambda>(jsError, j1).
      bind_res (CHECK_NAPI_ELSE_CRASH (napi_typeof (engine D) jsError True) j1) (\<lambda>(t, j2). Inr (StdException (status_text st), j2)))" for D
    unfolding throwJSException_def using assms(1) by (auto intro!: bind_res_cong split: prod.split dest!: keep)
  show "throwJSException C st j = throwJSException C' st j" unfolding 1 assms(2) ..
  show "throwJSException C st j = Inr (x, j') \<Longrightarrow> raising j'"
    unfolding 1 using assms(1) by (auto simp: bind_res_Inr_iff dest!: keep)
qed

lemma agree_with_pending: "agree m m' \<Longrightarrow> with_pending m i = with_pending m' i"
  using agreeD [of m m' "i\<lparr>hasPendingJSError := True\<rparr>"] by (simp add: with_pending_def)

lemma peers_throw:
  assumes "engine C' = engine C" "reenter C' = reenter C" "\<And>j e. raising (reenter C j e) = raising j"
    and "on_error C = throwJSException D" "on_error C' = throwJSException D'" "engine D' = engine D"
  shows "peers C C'"
  unfolding peers_def assms(4,5) using assms(1-3) throw_while_raising [OF _ assms(6)] by blast

text \<open>
  C10: Raising a JavaScript exception does not recurse without end, and the model of it is exact. When a call of the
  Node-API fails, \<^verbatim>\<open>throwJSException\<close> rewrites and reads the error through methods of the same runtime and through
  the constructor of \<^verbatim>\<open>jsi::JSError\<close>, all of which call \<^verbatim>\<open>throwJSException\<close> again when they fail. The runtime of the model, in
  which this recursion is unfolded to a fixed depth, satisfies the recursive equation of the code.
\<close>

theorem raising_unfolds:
  assumes "host_ok re"
  shows "on_error (jsi_runtime V re) st j =
    throwJSException ((jsi_runtime V re)\<lparr>js_error := JSError_value (jsi_runtime V re)\<rparr>) st j"
proof -
  define r0 :: "('a, 'b) jsi_ctx" where
    "r0 = \<lparr>engine = V, reenter = re, js_error = (\<lambda>_ _. Inl CheckAbort), on_error = (\<lambda>_ _. Inl CheckAbort)\<rparr>"
  define R where "R = r0\<lparr>on_error := throwJSException r0\<rparr>"
  define l0 where "l0 = \<lparr>engine = V, reenter = re, js_error = JSError_value R, on_error = (\<lambda>_ _. Inl CheckAbort)\<rparr>"
  define l1 where "l1 = l0\<lparr>on_error := throwJSException l0\<rparr>"
  define C where "C = l0\<lparr>on_error := throwJSException l1\<rparr>"
  define D where "D = C\<lparr>js_error := JSError_value C\<rparr>"
  have C: "jsi_runtime V re = C"
    by (simp add: jsi_runtime_def runtime_ctx_def Let_def C_def l1_def l0_def R_def r0_def raising_ctx_def)
  have re: "raising (re j e) = raising j" for j e using assms by (simp add: host_ok_def)
  have lD: "peers l1 D" by (rule peers_throw [where D = l0 and D' = l1]) (simp_all add: C_def D_def l1_def l0_def re)
  have RC: "peers R C" by (rule peers_throw [where D = r0 and D' = l1]) (simp_all add: C_def l1_def l0_def re R_def r0_def)
  have e: "js_error D = JSError_value C" "js_error l1 = JSError_value R" by (simp_all add: D_def l1_def l0_def)
  let ?body = "\<lambda>K v t. bindm (if t = Some napi_object then rewriteErrorMessage K v else return ()) (\<lambda>_.
    bindm (toJsiValue K v) (\<lambda>w. bindm (js_error K w) (\<lambda>text. return (JSError w text))))"
  have "agree (?body l1 v t) (?body D v t)" for v t
    unfolding e by (intro agree_intros lD RC)
  from agree_with_pending [OF this] have b: "with_pending (?body l1 v t) i = with_pending (?body D v t) i" for v t i .
  have "engine D = engine l1" by (simp add: C_def D_def l1_def)
  then have "throwJSException l1 st j = throwJSException D st j"
    unfolding throwJSException_def b by simp
  then show ?thesis by (simp add: C D_def) (simp add: C_def)
qed

theorem raising_unfolds_witness:
  "host_ok (no_host :: (nat, nat) jsi_rt \<Rightarrow> _) \<and>
   on_error (jsi_runtime throwing_engine no_host) napi_pending_exception sample_rt =
     throwJSException ((jsi_runtime throwing_engine no_host)\<lparr>js_error := JSError_value (jsi_runtime throwing_engine no_host)\<rparr>)
       napi_pending_exception sample_rt"
  by (intro conjI samples_ok(1) raising_unfolds [OF samples_ok(1)])

section \<open>Texts of errors\<close>

definition two_newlines :: string where
  "two_newlines = [CHR 0x0A, CHR 0x0A]"

lemma own_pointer_run:
  "body j = Inr (r, j1) \<Longrightarrow> pointer_invalidate q j1 = Inr j2 \<Longrightarrow> own_pointer q body j = Inr (r, j2)"
  by (simp add: own_pointer_def finally_do_def noexcept_def pure_upd_def)

lemma catch_returns: "m j = Inr (Inr x, j1) \<Longrightarrow> catch_jsi m h j = Inr (Inr x, j1)"
  by (simp add: catch_jsi_def handle_def)

lemma bindm_run: "m j = Inr (Inr x, j1) \<Longrightarrow> bindm m k j = k x j1" "m j = Inr (Inl y, j1) \<Longrightarrow> bindm m k j = Inr (Inl y, j1)"
  by (simp_all add: bindm_def)

text \<open>The end of \<open>setValue\<close>, for an error object whose fields have been read.\<close>

lemma fields_of_object:
  assumes "pointer_clone p j = Inr (q, j0)" "object_message C q message j0 = Inr (Inr m, j1)" "object_stack C q m [] j1 = Inr (Inr (m1, s), j2)"
    and "pointer_invalidate q j2 = Inr j3" "m1 \<noteq> []"
  shows "setValue C (JObject p) message [] [] j =
    Inr (Inr (m1, if s = [] then ''no stack'' else s, m1 @ two_newlines @ (if s = [] then ''no stack'' else s)), j3)"
proof -
  have "bindm (object_message C q message) (\<lambda>m. object_stack C q m []) j0 = Inr (Inr (m1, s), j2)"
    using assms(2,3) by (simp add: bindm_run)
  from own_pointer_run [of "bindm (object_message C q message) (\<lambda>m. object_stack C q m [])", OF this assms(4)]
  have "bindm (pure_op (pointer_clone p)) (\<lambda>obj. own_pointer obj (bindm (object_message C obj message) (\<lambda>m. object_stack C obj m []))) j =
      Inr (Inr (m1, s), j3)"
    using assms(1) by (simp add: bindm_def pure_op_def)
  then show ?thesis
    using assms(5) by (simp add: setValue_def bindm_run value_message_def return_def two_newlines_def Let_def)
qed

text \<open>
  The text of an error that the library raises is the message, an empty line, and the stack. For an error object
  with a message and a stack these are its properties; an error that is a string is its own message, without a stack.
\<close>

theorem js_error_text:
  "(text_of C p j = Inr (Inr t, j1) \<longrightarrow>
     JSError_value C (JString p) j = Inr (Inr (t @ two_newlines @ ''no stack''), j1)) \<and>
   (pointer_clone p j = Inr (q, i0) \<and> error_text C q ''message'' i0 = Inr (Inr (Some m), i1) \<and> m \<noteq> [] \<and>
    error_text C q ''stack'' i1 = Inr (Inr (Some s), i2) \<and> s \<noteq> [] \<and> pointer_invalidate q i2 = Inr i3 \<longrightarrow>
     JSError_value C (JObject p) j = Inr (Inr (m @ two_newlines @ s), i3))"
proof (intro conjI impI)
  assume "text_of C p j = Inr (Inr t, j1)"
  from catch_returns [of "text_of C p", OF this, of "\<lambda>w. return (message_failure w)"]
  show "JSError_value C (JString p) j = Inr (Inr (t @ two_newlines @ ''no stack''), j1)"
    by (simp add: JSError_value_def setValue_def bindm_def return_def value_message_def two_newlines_def Let_def)
next
  assume *: "pointer_clone p j = Inr (q, i0) \<and> error_text C q ''message'' i0 = Inr (Inr (Some m), i1) \<and> m \<noteq> [] \<and>
    error_text C q ''stack'' i1 = Inr (Inr (Some s), i2) \<and> s \<noteq> [] \<and> pointer_invalidate q i2 = Inr i3"
  have 1: "object_message C q [] i0 = Inr (Inr m, i1)" "object_stack C q m [] i1 = Inr (Inr (m, s), i2)"
    unfolding object_message_def object_stack_def using * by (simp_all add: catch_returns bindm_run return_def kept_def)
  from fields_of_object [OF _ 1, of p j i3] * show "JSError_value C (JObject p) j = Inr (Inr (m @ two_newlines @ s), i3)"
    by (simp add: JSError_value_def bindm_run return_def)
qed

text \<open>
  C35: When the stack of an error object cannot be read, the message that the error was given is lost: the handler
  stores its text into the message instead of the stack.
\<close>

theorem stack_failure_hides_message:
  assumes "message \<noteq> []" "pointer_clone p j = Inr (q, j0)" "error_text C q ''stack'' j0 = Inr (Inl (StdException w), j1)"
    and "pointer_invalidate q j1 = Inr j2"
  shows "setValue C (JObject p) message [] [] j =
    Inr (Inr (stack_failure (c_string w), ''no stack'', stack_failure (c_string w) @ two_newlines @ ''no stack''), j2)"
proof -
  have 1: "object_message C q message j0 = Inr (Inr message, j0)" using assms(1) by (simp add: object_message_def return_def)
  have 2: "object_stack C q message [] j0 = Inr (Inr (stack_failure (c_string w), []), j1)"
    unfolding object_stack_def using assms(3) by (simp add: catch_jsi_def handle_def bindm_run return_def)
  from fields_of_object [OF assms(2) 1 2 assms(4)] show ?thesis by (simp add: stack_failure_def)
qed

definition raising_rt :: "(nat, nat) jsi_rt" where
  "raising_rt = sample_rt\<lparr>hasPendingJSError := True\<rparr>"

abbreviation error_ctx :: "(nat, nat) jsi_ctx" where
  "error_ctx \<equiv> raising_ctx error_engine no_host"

text \<open>The failure of reading the stack of the error object, and that its pointer can be released.\<close>

definition stack_error :: "(string \<times> bool) option" where
  "stack_error =
     (case pointer_clone (Counted 0) raising_rt of
        Inr (q, j0) \<Rightarrow>
          (case error_text error_ctx q ''stack'' j0 of
             Inr (Inl (StdException w), j1) \<Rightarrow> Some (w, case pointer_invalidate q j1 of Inr _ \<Rightarrow> True | Inl _ \<Rightarrow> False)
           | _ \<Rightarrow> None)
      | Inl _ \<Rightarrow> None)"

lemma stack_error_run: "stack_error = Some (''A call to Node-API returned error code 0xa.'', True)"
  by code_simp

theorem stack_failure_hides_message_witness:
  "\<exists>w j2. setValue error_ctx (JObject (Counted 0)) ''Cannot parse'' [] [] raising_rt =
    Inr (Inr (stack_failure (c_string w), ''no stack'', stack_failure (c_string w) @ two_newlines @ ''no stack''), j2) \<and>
    w = ''A call to Node-API returned error code 0xa.''"
proof -
  obtain q j0 w j1 j2 where "pointer_clone (Counted 0) raising_rt = Inr (q, j0)"
      "error_text error_ctx q ''stack'' j0 = Inr (Inl (StdException w), j1)" "pointer_invalidate q j1 = Inr j2"
      "w = ''A call to Node-API returned error code 0xa.''"
    using stack_error_run unfolding stack_error_def by (auto split: sum.splits prod.splits jsi_exception.splits)
  then show ?thesis using stack_failure_hides_message [of "''Cannot parse''" "Counted 0" raising_rt q j0 error_ctx w j1 j2] by blast
qed

definition text_run :: "string option" where
  "text_run = (case text_of error_ctx (StackOnly 20 KString) raising_rt of Inr (Inr t, _) \<Rightarrow> Some t | _ \<Rightarrow> None)"

lemma text_run_m: "text_run = Some ''m''"
  by code_simp

theorem js_error_text_witness:
  "\<exists>j1. JSError_value error_ctx (JString (StackOnly 20 KString)) raising_rt = Inr (Inr (''m'' @ two_newlines @ ''no stack''), j1)"
proof -
  obtain j1 where "text_of error_ctx (StackOnly 20 KString) raising_rt = Inr (Inr ''m'', j1)"
    using text_run_m unfolding text_run_def by (auto split: sum.splits prod.splits)
  then show ?thesis using js_error_text [of error_ctx "StackOnly 20 KString" raising_rt "''m''" j1] by blast
qed

end
