(* ===== verification/V8_Scripts.thy ===== *)
theory V8_Scripts
  imports Murmur_Hash "HOL-Library.Sublist"
begin

text \<open>
  Loading, compiling and running of scripts by \<^verbatim>\<open>src/src/V8JsiRuntime.cpp\<close>, with the cache of compiled code that
  the embedder provides, prepared scripts, and the error that is thrown when V8 reports an exception. The compiler of V8
  and the store of the embedder are parameters. A function yields a value or what it throws with the new state,
  or a fault where the process aborts or uses an empty handle.
\<close>

section \<open>Errors\<close>

text \<open>What a \<^verbatim>\<open>v8::TryCatch\<close> has caught: the text of the exception (none if its conversion fails), the text of the message
  if there is one, and the stack trace with its type, its length and its text.\<close>

record caught =
  exception_text :: "string option"
  message_text :: "string option option"
  stack_trace :: "(bool \<times> nat \<times> string option) option"

text \<open>What is thrown: an error built from a message, one whose properties and stack are set in addition, and one built
  from a message and a stack.\<close>

datatype report = PlainError string | ErrorWithStack string string string | OverflowError string string

definition ToCString :: "string option \<Rightarrow> string" where
  "ToCString value = (case value of Some s \<Rightarrow> c_string s | None \<Rightarrow> ''<string conversion failed>'')"

abbreviation newline :: char where
  "newline \<equiv> CHR 0x0A"

text \<open>\<^verbatim>\<open>std::string::find\<close> of one character, with \<^verbatim>\<open>npos\<close>, and of a text.\<close>

definition npos :: u64 where
  "npos = - 1"

definition find_newline :: "string \<Rightarrow> u64 \<Rightarrow> u64" where
  "find_newline s pos =
     (let k = unat pos + length (takeWhile (\<lambda>c. c \<noteq> newline) (drop (unat pos) s))
      in if k < length s then of_nat k else npos)"

fun contains_text :: "string \<Rightarrow> string \<Rightarrow> bool" where
  "contains_text pat [] \<longleftrightarrow> pat = []"
| "contains_text pat (c # s) \<longleftrightarrow> prefix pat (c # s) \<or> contains_text pat s"

primrec end_of_message :: "string \<Rightarrow> nat \<Rightarrow> u64 \<Rightarrow> u64" where
  "end_of_message stack 0 endOfMessage = endOfMessage"
| "end_of_message stack (Suc j) endOfMessage = end_of_message stack j (find_newline stack (endOfMessage + 1))"

definition strip_message :: "string \<Rightarrow> string \<Rightarrow> string" where
  "strip_message ex_messages stack =
     (let numNewLines = count_list ex_messages newline;
          endOfMessage = end_of_message stack numNewLines (find_newline stack 0)
      in drop (unat (endOfMessage + 1)) stack)"

definition uncaught_prefix :: string where
  "uncaught_prefix = ''Uncaught Error:''"

definition trace_text :: "caught \<Rightarrow> string" where
  "trace_text c =
     (case stack_trace c of
        Some (is_string, len, text) \<Rightarrow> if is_string \<and> len > 0 then ToCString text @ [newline] else []
      | None \<Rightarrow> [])"

definition ReportException :: "caught \<Rightarrow> report" where
  "ReportException c =
     (case message_text c of
        None \<Rightarrow> PlainError (ToCString (exception_text c))
      | Some message \<Rightarrow>
          let stack = trace_text c;
              text = ToCString message;
              ex_messages = (if prefix uncaught_prefix text then drop 16 text else text)
          in if \<not> contains_text ''Maximum call stack size exceeded'' stack
             then ErrorWithStack ex_messages stack (strip_message ex_messages stack)
             else OverflowError ex_messages stack)"

section \<open>The compiler, the store and the runtime\<close>

datatype CompileOptions = kNoCompileOptions | kConsumeCodeCache | kEagerCompile

text \<open>V8: strings from UTF-8 with a length (-1 for a C string) and from external memory, compilation of a source with a
  URL and cached data, running, the code cache of a script, the version of its format, and what has been caught.\<close>

record ('v, 's, 'h) script_engine =
  new_utf8 :: "u8 list \<Rightarrow> int \<Rightarrow> 'h \<Rightarrow> 'v option"
  new_external :: "u8 list \<Rightarrow> 'h \<Rightarrow> 'v option"
  Compile :: "'v \<Rightarrow> 'v \<Rightarrow> (u8 list \<times> int) option \<Rightarrow> CompileOptions \<Rightarrow> 'h \<Rightarrow> 's option \<times> 'h"
  Run :: "'s \<Rightarrow> 'h \<Rightarrow> 'v option \<times> 'h"
  CreateCodeCache :: "'s \<Rightarrow> 'h \<Rightarrow> u8 list"
  CachedDataVersionTag :: u32
  caught_in :: "'h \<Rightarrow> caught"
  Undefined_value :: 'v

type_synonym ScriptSignature = "string \<times> u64"
type_synonym JSRuntimeSignature = "string \<times> u64"

text \<open>\<^verbatim>\<open>PreparedScriptStore\<close> of the embedder.\<close>

record 'p script_store =
  tryGetPreparedScript :: "ScriptSignature \<Rightarrow> JSRuntimeSignature \<Rightarrow> string \<Rightarrow> 'p \<Rightarrow> u8 list option"
  persistPreparedScript :: "u8 list \<Rightarrow> ScriptSignature \<Rightarrow> JSRuntimeSignature \<Rightarrow> string \<Rightarrow> 'p \<Rightarrow> 'p"

record ('v, 's, 'h, 'p) v8_runtime =
  scripts :: "('v, 's, 'h) script_engine"
  preparedScriptStore :: "'p script_store option"

record ('h, 'p) script_state =
  heap :: 'h
  stored :: 'p

record 's V8PreparedJavaScript =
  scriptSignature :: ScriptSignature
  runtimeSignature :: JSRuntimeSignature
  prepared_buffer :: "u8 list"
  sourceBuffer :: "u8 list"
  prepared_script :: "'s option"

datatype thrown = ThrownError report | ThrownNative string

type_synonym ('h, 'p, 'a) script_m = "('h, 'p) script_state \<Rightarrow> ((thrown + 'a) \<times> ('h, 'p) script_state) res"

definition s_return :: "'a \<Rightarrow> ('h, 'p, 'a) script_m" where
  "s_return x st = Inr (Inr x, st)"

definition s_throw :: "thrown \<Rightarrow> ('h, 'p, 'a) script_m" where
  "s_throw t st = Inr (Inl t, st)"

definition s_bind :: "('h, 'p, 'a) script_m \<Rightarrow> ('a \<Rightarrow> ('h, 'p, 'b) script_m) \<Rightarrow> ('h, 'p, 'b) script_m" where
  "s_bind m k st = bind_res (m st) (\<lambda>(r, st1). case r of Inl t \<Rightarrow> Inr (Inl t, st1) | Inr x \<Rightarrow> k x st1)"

text \<open>A handle that is used, or checked with \<^verbatim>\<open>ToLocalChecked\<close>, and an operation of V8 on the heap.\<close>

definition s_check :: "fault \<Rightarrow> 'a option \<Rightarrow> ('h, 'p, 'a) script_m" where
  "s_check f v st = (case v of None \<Rightarrow> Inl f | Some x \<Rightarrow> Inr (Inr x, st))"

definition on_heap :: "('h \<Rightarrow> 'a \<times> 'h) \<Rightarrow> ('h, 'p, 'a) script_m" where
  "on_heap f st = (case f (heap st) of (x, h1) \<Rightarrow> Inr (Inr x, st\<lparr>heap := h1\<rparr>))"

definition with_heap :: "('h \<Rightarrow> ('h, 'p, 'a) script_m) \<Rightarrow> ('h, 'p, 'a) script_m" where
  "with_heap k st = k (heap st) st"

definition report_exception :: "('v, 's, 'h, 'p) v8_runtime \<Rightarrow> ('h, 'p, unit) script_m" where
  "report_exception R = with_heap (\<lambda>h. s_throw (ThrownError (ReportException (caught_in (scripts R) h))))"

section \<open>Loading and running\<close>

definition loadJavaScript :: "('v, 's, 'h, 'p) v8_runtime \<Rightarrow> u8 list \<Rightarrow> ('h, 'p, 'v \<times> u64) script_m" where
  "loadJavaScript R buffer =
     (case murmurhash buffer of (hash, ascii) \<Rightarrow>
        with_heap (\<lambda>h.
        s_bind (s_check CheckAbort
            (if ascii then new_external (scripts R) buffer h
             else new_utf8 (scripts R) buffer (to_int (length buffer)) h)) (\<lambda>source.
        s_return (source, hash))))"

definition url_string :: "('v, 's, 'h, 'p) v8_runtime \<Rightarrow> string \<Rightarrow> ('h, 'p, 'v) script_m" where
  "url_string R sourceURL = with_heap (\<lambda>h. s_check CheckAbort (new_utf8 (scripts R) (bytes_of_string (c_string sourceURL)) (- 1) h))"

definition runtime_signature :: "('v, 's, 'h, 'p) v8_runtime \<Rightarrow> JSRuntimeSignature" where
  "runtime_signature R = (''V8'', ucast (CachedDataVersionTag (scripts R)))"

definition cached_script :: "('v, 's, 'h, 'p) v8_runtime \<Rightarrow> ScriptSignature \<Rightarrow> 'p \<Rightarrow> u8 list option" where
  "cached_script R sig p =
     (case preparedScriptStore R of
        None \<Rightarrow> None
      | Some S \<Rightarrow> tryGetPreparedScript S sig (runtime_signature R) ''perf'' p)"

definition cached_data :: "u8 list option \<Rightarrow> (u8 list \<times> int) option" where
  "cached_data cache = map_option (\<lambda>b. (b, to_int (length b))) cache"

definition persist_script :: "('v, 's, 'h, 'p) v8_runtime \<Rightarrow> ScriptSignature \<Rightarrow> u8 list \<Rightarrow> ('h, 'p, unit) script_m" where
  "persist_script R sig code st =
     (case preparedScriptStore R of
        None \<Rightarrow> Inl NullDeref
      | Some S \<Rightarrow> Inr (Inr (), st\<lparr>stored := persistPreparedScript S code sig (runtime_signature R) ''perf'' (stored st)\<rparr>))"

definition run_script :: "('v, 's, 'h, 'p) v8_runtime \<Rightarrow> 's \<Rightarrow> ('v \<Rightarrow> ('h, 'p, 'v) script_m) \<Rightarrow> ('h, 'p, 'v) script_m" where
  "run_script R script k =
     s_bind (on_heap (Run (scripts R) script)) (\<lambda>result.
       case result of
         None \<Rightarrow> s_bind (report_exception R) (\<lambda>_. s_return (Undefined_value (scripts R)))
       | Some v \<Rightarrow> k v)"

definition ExecuteString :: "('v, 's, 'h, 'p) v8_runtime \<Rightarrow> 'v \<Rightarrow> string \<Rightarrow> u64 \<Rightarrow> ('h, 'p, 'v) script_m" where
  "ExecuteString R source sourceURL hash st =
     s_bind (url_string R sourceURL) (\<lambda>url.
       let sig = (sourceURL, hash);
           cache = cached_script R sig (stored st);
           options = (if cache \<noteq> None then kConsumeCodeCache else kNoCompileOptions)
       in s_bind (on_heap (Compile (scripts R) source url (cached_data cache) options)) (\<lambda>script.
            case script of
              None \<Rightarrow> s_bind (report_exception R) (\<lambda>_. s_return (Undefined_value (scripts R)))
            | Some s \<Rightarrow>
                run_script R s (\<lambda>result.
                  if preparedScriptStore R \<noteq> None \<and> options \<noteq> kConsumeCodeCache then
                    with_heap (\<lambda>h. s_bind (persist_script R sig (CreateCodeCache (scripts R) s h)) (\<lambda>_. s_return result))
                  else s_return result))) st"

definition evaluateJavaScript :: "('v, 's, 'h, 'p) v8_runtime \<Rightarrow> u8 list \<Rightarrow> string \<Rightarrow> ('h, 'p, 'v) script_m" where
  "evaluateJavaScript R buffer sourceURL =
     s_bind (loadJavaScript R buffer) (\<lambda>(source, hash). ExecuteString R source sourceURL hash)"

section \<open>Prepared scripts\<close>

definition prepareJavaScript :: "('v, 's, 'h, 'p) v8_runtime \<Rightarrow> u8 list \<Rightarrow> string \<Rightarrow>
    ('h, 'p, 's V8PreparedJavaScript option) script_m" where
  "prepareJavaScript R buffer sourceURL =
     s_bind (loadJavaScript R buffer) (\<lambda>(source, hash).
     s_bind (url_string R sourceURL) (\<lambda>url.
     s_bind (on_heap (Compile (scripts R) source url None kNoCompileOptions)) (\<lambda>script.
       case script of
         None \<Rightarrow> s_bind (report_exception R) (\<lambda>_. s_return None)
       | Some s \<Rightarrow>
           with_heap (\<lambda>h. s_return (Some \<lparr>scriptSignature = (sourceURL, hash), runtimeSignature = runtime_signature R,
             prepared_buffer = CreateCodeCache (scripts R) s h, sourceBuffer = buffer, prepared_script = None\<rparr>)))))"

definition evaluatePreparedJavaScript :: "('v, 's, 'h, 'p) v8_runtime \<Rightarrow> 's V8PreparedJavaScript \<Rightarrow> ('h, 'p, 'v) script_m" where
  "evaluatePreparedJavaScript R prepared =
     s_bind (loadJavaScript R (sourceBuffer prepared)) (\<lambda>(source, hash).
       if snd (scriptSignature prepared) \<noteq> hash then
         s_throw (ThrownNative ''Prepared JavaScript cache is invalid (Hash mismatch)'')
       else if snd (runtimeSignature prepared) \<noteq> ucast (CachedDataVersionTag (scripts R)) then
         s_throw (ThrownNative ''Prepared JavaScript cache is invalid (V8 version mismatch)'')
       else
         s_bind (url_string R (fst (scriptSignature prepared))) (\<lambda>url.
         s_bind (on_heap (Compile (scripts R) source url
             (Some (prepared_buffer prepared, to_int (length (prepared_buffer prepared)))) kConsumeCodeCache)) (\<lambda>script.
           case script of
             None \<Rightarrow> s_bind (report_exception R) (\<lambda>_. s_return (Undefined_value (scripts R)))
           | Some s \<Rightarrow> run_script R s s_return)))"

text \<open>The second attempt of \<open>prepareJavaScript2\<close>, after a compilation that failed.\<close>

definition compile_again :: "('v, 's, 'h, 'p) v8_runtime \<Rightarrow> 'v \<Rightarrow> 'v \<Rightarrow> (u8 list \<times> int) option \<Rightarrow> CompileOptions \<Rightarrow>
    ('h, 'p, ('s option \<times> CompileOptions) option) script_m" where
  "compile_again R source url data options =
     s_bind (report_exception R) (\<lambda>_.
       if options = kConsumeCodeCache then
         s_bind (on_heap (Compile (scripts R) source url data kEagerCompile)) (\<lambda>script.
           case script of
             None \<Rightarrow> s_bind (report_exception R) (\<lambda>_. s_return None)
           | Some s \<Rightarrow> s_return (Some (Some s, kEagerCompile)))
       else s_return (Some (None, options)))"

definition prepareJavaScript2 :: "('v, 's, 'h, 'p) v8_runtime \<Rightarrow> u8 list \<Rightarrow> string \<Rightarrow>
    ('h, 'p, 's V8PreparedJavaScript option) script_m" where
  "prepareJavaScript2 R buffer sourceURL st =
     s_bind (loadJavaScript R buffer) (\<lambda>(source, hash).
     s_bind (url_string R sourceURL) (\<lambda>url.
       let sig = (sourceURL, hash);
           cache = cached_script R sig (stored st);
           options = (if cache \<noteq> None then kConsumeCodeCache else kNoCompileOptions)
       in s_bind (on_heap (Compile (scripts R) source url (cached_data cache) options)) (\<lambda>script.
          s_bind (case script of
              Some s \<Rightarrow> s_return (Some (Some s, options))
            | None \<Rightarrow> compile_again R source url (cached_data cache) options) (\<lambda>compiled.
            case compiled of
              None \<Rightarrow> s_return None
            | Some (script1, options1) \<Rightarrow>
                s_bind (s_check NullDeref script1) (\<lambda>s.
                with_heap (\<lambda>h.
                  let codeCache = CreateCodeCache (scripts R) s h
                  in s_bind (if preparedScriptStore R \<noteq> None \<and> options1 = kEagerCompile
                             then persist_script R sig codeCache else s_return ()) (\<lambda>_.
                     s_return (Some \<lparr>scriptSignature = sig, runtimeSignature = runtime_signature R,
                       prepared_buffer = codeCache, sourceBuffer = buffer, prepared_script = Some s\<rparr>)))))))) st"

definition evaluatePreparedJavaScript2 :: "('v, 's, 'h, 'p) v8_runtime \<Rightarrow> 's V8PreparedJavaScript \<Rightarrow> ('h, 'p, 'v) script_m" where
  "evaluatePreparedJavaScript2 R prepared =
     s_bind (s_check NullDeref (prepared_script prepared)) (\<lambda>s. run_script R s s_return)"

section \<open>The stack of an error\<close>

lemma find_newline_at:
  assumes "s = a @ b @ newline # c" "newline \<notin> set b" "length s < 2 ^ 64"
  shows "find_newline s (of_nat (length a)) = of_nat (length a + length b)"
proof -
  have "unat (of_nat (length a) :: u64) = length a" using assms(1,3) by (intro unat_of_nat_small) simp
  moreover have "takeWhile (\<lambda>c. c \<noteq> newline) (b @ newline # c) = b" using assms(2) by (induction b) auto
  ultimately show ?thesis using assms(1) by (simp add: find_newline_def Let_def)
qed

lemma first_newline:
  assumes "count_list h newline = Suc n"
  obtains b h' where "h = b @ newline # h'" "newline \<notin> set b" "count_list h' newline = n"
proof -
  have "newline \<in> set h" using assms by (metis count_list_0_iff nat.distinct(1))
  then obtain b h' where h: "h = b @ newline # h'" "newline \<notin> set b" by (metis split_list_first)
  moreover have "count_list b newline = 0" using h(2) by (simp add: count_list_0_iff)
  ultimately show thesis using assms by (intro that) auto
qed

lemma end_of_message_at:
  assumes "s = a @ newline # h @ newline # rest" "count_list h newline = n" "length s < 2 ^ 64"
  shows "end_of_message s (Suc n) (of_nat (length a)) = of_nat (length a + 1 + length h)"
  using assms
proof (induction n arbitrary: a h)
  case 0
  then have "newline \<notin> set h" by (simp add: count_list_0_iff)
  with 0 find_newline_at [of s "a @ [newline]" h rest] show ?case by (simp add: add.commute)
next
  case (Suc n)
  from Suc.prems(2) obtain b h' where h: "h = b @ newline # h'" "newline \<notin> set b" "count_list h' newline = n" by (rule first_newline)
  have "find_newline s (of_nat (length a) + 1) = of_nat (length (a @ newline # b))"
    using find_newline_at [of s "a @ [newline]" b "h' @ newline # rest"] Suc.prems h by (simp add: add.commute)
  moreover have "end_of_message s (Suc n) (of_nat (length (a @ newline # b))) = of_nat (length (a @ newline # b) + 1 + length h')"
    using Suc.prems h by (intro Suc.IH) simp_all
  ultimately show ?case using h by (simp add: add.assoc)
qed

lemma small_lengths:
  assumes "length (h @ newline # frames) < 2 ^ 64 - 1"
  shows "length (h @ newline # frames) < 2 ^ 64" "unat (of_nat (length h) + 1 :: u64) = length h + 1"
proof -
  show "length (h @ newline # frames) < 2 ^ 64" using assms by linarith
  have "length h + 1 < 2 ^ 64" using assms by simp
  then have "unat (of_nat (length h + 1) :: u64) = length h + 1" by (intro unat_of_nat_small) simp
  then show "unat (of_nat (length h) + 1 :: u64) = length h + 1" by (simp add: add.commute)
qed

lemma end_of_header:
  assumes "length (h @ newline # frames) < 2 ^ 64"
  shows "end_of_message (h @ newline # frames) (count_list h newline) (find_newline (h @ newline # frames) 0) = of_nat (length h)"
proof (cases "count_list h newline")
  case 0
  then have "newline \<notin> set h" by (simp add: count_list_0_iff)
  from find_newline_at [of "h @ newline # frames" "[]" h frames, OF _ this assms] show ?thesis using 0 by simp
next
  case (Suc n)
  then obtain b h' where h: "h = b @ newline # h'" "newline \<notin> set b" "count_list h' newline = n" by (rule first_newline)
  have "find_newline (h @ newline # frames) 0 = of_nat (length b)"
    using find_newline_at [of "h @ newline # frames" "[]" b "h' @ newline # frames", OF _ h(2) assms] h(1) by simp
  moreover have "end_of_message (h @ newline # frames) (Suc n) (of_nat (length b)) = of_nat (length b + 1 + length h')"
    using h(1) by (intro end_of_message_at [OF _ h(3) assms]) simp
  ultimately show ?thesis unfolding Suc by (simp add: h(1))
qed

lemma strip_message_eq:
  assumes "count_list h newline = count_list m newline" "length (h @ newline # frames) < 2 ^ 64 - 1"
  shows "strip_message m (h @ newline # frames) = frames"
  unfolding strip_message_def Let_def assms(1) [symmetric] end_of_header [OF small_lengths(1) [OF assms(2)]] small_lengths(2) [OF assms(2)]
  by simp

text \<open>
  C19: The error that is thrown for a JavaScript exception carries the message of V8 without its prefix and, as its
  stack, the lines of the stack trace after the message, whatever number of lines the message has; the property
  \<^verbatim>\<open>stack\<close> is the whole trace. For an exhausted call stack no error object is made.
\<close>

theorem reported_error:
  assumes "message_text c = Some (Some m)" "stack_trace c = Some (True, len, Some (header @ newline # frames))" "0 < len"
    and "CHR 0x00 \<notin> set m" "CHR 0x00 \<notin> set (header @ newline # frames)" "length header + length frames < 2 ^ 64 - 3"
    and "msg = (if prefix ''Uncaught Error:'' m then drop 16 m else m)" "count_list header newline = count_list msg newline"
    and "trace = header @ newline # frames @ [newline]"
  shows "ReportException c =
    (if contains_text ''Maximum call stack size exceeded'' trace then OverflowError msg trace else ErrorWithStack msg trace (frames @ [newline]))"
proof -
  have cs: "ToCString (Some s) = s" if "CHR 0x00 \<notin> set s" for s using that by (auto simp: ToCString_def c_string_def takeWhile_eq_all_conv)
  have "trace_text c = trace" using assms(2,3,9) cs [OF assms(5)] by (simp add: trace_text_def)
  moreover have "strip_message msg trace = frames @ [newline]"
    using strip_message_eq [of header msg "frames @ [newline]"] assms(6,8,9) by simp
  ultimately show ?thesis
    using assms(1,7) cs [OF assms(4)] by (simp add: ReportException_def uncaught_prefix_def Let_def)
qed

definition sample_caught :: caught where
  "sample_caught = \<lparr>exception_text = Some ''Error: a'', message_text = Some (Some ''Uncaught Error: a''),
     stack_trace = Some (True, 9, Some (''Error: a'' @ newline # ''at f''))\<rparr>"

theorem reported_error_witness:
  "ReportException sample_caught = ErrorWithStack ''a'' (''Error: a'' @ newline # ''at f'' @ [newline]) (''at f'' @ [newline])"
  using reported_error [of sample_caught "''Uncaught Error: a''" 9 "''Error: a''" "''at f''" "''a''" "''Error: a'' @ newline # ''at f'' @ [newline]"]
  by (simp add: sample_caught_def)

section \<open>The cache of compiled scripts\<close>

lemmas script_defs = s_return_def s_throw_def s_bind_def s_check_def on_heap_def with_heap_def report_exception_def
  url_string_def run_script_def persist_script_def

lemma s_bind_Inr:
  "s_bind m k st = Inr (r, st') \<longleftrightarrow>
     (\<exists>t. m st = Inr (Inl t, st') \<and> r = Inl t) \<or> (\<exists>x st1. m st = Inr (Inr x, st1) \<and> k x st1 = Inr (r, st'))"
  by (cases "m st") (auto simp: s_bind_def split: sum.splits)

lemma on_heap_Inr: "on_heap f st = Inr (r, st1) \<longleftrightarrow> r = Inr (fst (f (heap st))) \<and> st1 = st\<lparr>heap := snd (f (heap st))\<rparr>"
  by (auto simp: on_heap_def split: prod.splits)

lemma s_check_Inr: "s_check f v st = Inr (r, st1) \<longleftrightarrow> (\<exists>x. v = Some x \<and> r = Inr x \<and> st1 = st)"
  by (auto simp: s_check_def split: option.splits)

text \<open>Reporting an exception always throws.\<close>

lemma after_report: "s_bind (report_exception R) k st = Inr (Inl (ThrownError (ReportException (caught_in (scripts R) (heap st)))), st)"
  by (simp add: report_exception_def with_heap_def s_throw_def s_bind_def)

lemma compile_again_throws:
  "compile_again R source url data options st = Inr (Inl (ThrownError (ReportException (caught_in (scripts R) (heap st)))), st)"
  by (simp add: compile_again_def after_report)

lemmas script_runs = s_bind_Inr on_heap_Inr s_check_Inr after_report compile_again_throws s_return_def s_throw_def with_heap_def
  url_string_def run_script_def

text \<open>A store that keeps what it is given, under its signatures and its tag.\<close>

definition store_ok :: "'p script_store \<Rightarrow> bool" where
  "store_ok S \<longleftrightarrow> (\<forall>code s r t p s' r' t'.
     tryGetPreparedScript S s' r' t' (persistPreparedScript S code s r t p) =
       (if (s', r', t') = (s, r, t) then Some code else tryGetPreparedScript S s' r' t' p))"

lemma execute_runs:
  assumes "ExecuteString R source sourceURL hash st = Inr (Inr v, st1)"
    and "cache = cached_script R (sourceURL, hash) (stored st)"
  obtains url s h1 where
    "Compile (scripts R) source url (cached_data cache) (if cache \<noteq> None then kConsumeCodeCache else kNoCompileOptions) (heap st) = (Some s, h1)"
    "Run (scripts R) s h1 = (Some v, heap st1)"
    "stored st1 = (if preparedScriptStore R \<noteq> None \<and> cache = None
       then persistPreparedScript (the (preparedScriptStore R)) (CreateCodeCache (scripts R) s (heap st1)) (sourceURL, hash)
              (runtime_signature R) ''perf'' (stored st)
       else stored st)"
proof -
  let ?o = "if cache \<noteq> None then kConsumeCodeCache else kNoCompileOptions"
  from assms(1) obtain url c h1 where C: "Compile (scripts R) source url (cached_data cache) ?o (heap st) = (c, h1)"
    and k: "(case c of
        None \<Rightarrow> s_bind (report_exception R) (\<lambda>_. s_return (Undefined_value (scripts R)))
      | Some s \<Rightarrow> run_script R s (\<lambda>result.
          if preparedScriptStore R \<noteq> None \<and> ?o \<noteq> kConsumeCodeCache then
            with_heap (\<lambda>h. s_bind (persist_script R (sourceURL, hash) (CreateCodeCache (scripts R) s h)) (\<lambda>_. s_return result))
          else s_return result)) (st\<lparr>heap := h1\<rparr>) = Inr (Inr v, st1)"
    unfolding ExecuteString_def assms(2) [symmetric] Let_def
    by (auto simp: s_bind_Inr on_heap_Inr url_string_def with_heap_def s_check_Inr prod_eq_iff simp del: not_None_eq)
  from k obtain s where s: "c = Some s" by (cases c) (auto simp: after_report)
  obtain w h2 where W: "Run (scripts R) s h1 = (w, h2)" by fastforce
  with k s have w: "w = Some v" "heap st1 = h2" "stored st1 = (if preparedScriptStore R \<noteq> None \<and> cache = None
       then persistPreparedScript (the (preparedScriptStore R)) (CreateCodeCache (scripts R) s h2) (sourceURL, hash)
              (runtime_signature R) ''perf'' (stored st)
       else stored st)"
    by (cases w; auto simp: script_runs persist_script_def split: option.splits if_splits)+
  show thesis using W w(3) by (intro that [OF C [unfolded s]]) (simp_all add: w(1,2))
qed

lemma execute_throws:
  assumes "ExecuteString R source sourceURL hash st = Inr (Inl t, st1)"
  shows "stored st1 = stored st \<and> t = ThrownError (ReportException (caught_in (scripts R) (heap st1)))"
  using assms unfolding ExecuteString_def Let_def
  by (auto simp: script_runs persist_script_def split: option.splits if_splits)

text \<open>
  C12: Executing a script uses the cache of compiled scripts. The first time, the script is compiled without cached
  data, run, and then its code cache is stored under the URL, the hash of the source and the version of V8; nothing else in the
  store changes. When the store has an entry, the script is compiled with it and the store is left alone. A
  script that throws is reported and leaves the store alone.
\<close>

theorem script_cache:
  assumes "preparedScriptStore R = Some S" "store_ok S" "cache = cached_script R (sourceURL, hash) (stored st)"
  shows "(ExecuteString R source sourceURL hash st = Inr (Inr v, st1) \<longrightarrow>
      (\<exists>url s h1. Compile (scripts R) source url (cached_data cache)
           (if cache = None then kNoCompileOptions else kConsumeCodeCache) (heap st) = (Some s, h1) \<and>
         Run (scripts R) s h1 = (Some v, heap st1) \<and>
         (\<forall>sig. cached_script R sig (stored st1) =
            (if cache = None \<and> sig = (sourceURL, hash) then Some (CreateCodeCache (scripts R) s (heap st1))
             else cached_script R sig (stored st))))) \<and>
    (ExecuteString R source sourceURL hash st = Inr (Inl t, st1) \<longrightarrow>
      stored st1 = stored st \<and> t = ThrownError (ReportException (caught_in (scripts R) (heap st1))))"
proof (intro conjI impI)
  assume "ExecuteString R source sourceURL hash st = Inr (Inr v, st1)"
  from execute_runs [OF this assms(3)] obtain url s h1 where
    r: "Compile (scripts R) source url (cached_data cache) (if cache \<noteq> None then kConsumeCodeCache else kNoCompileOptions) (heap st) = (Some s, h1)"
      "Run (scripts R) s h1 = (Some v, heap st1)"
    and p: "stored st1 = (if preparedScriptStore R \<noteq> None \<and> cache = None
       then persistPreparedScript (the (preparedScriptStore R)) (CreateCodeCache (scripts R) s (heap st1)) (sourceURL, hash)
              (runtime_signature R) ''perf'' (stored st)
       else stored st)" .
  have "Compile (scripts R) source url (cached_data cache) (if cache = None then kNoCompileOptions else kConsumeCodeCache) (heap st) = (Some s, h1)"
    using r(1) by (cases cache) simp_all
  moreover have "\<forall>sig. cached_script R sig (stored st1) =
      (if cache = None \<and> sig = (sourceURL, hash) then Some (CreateCodeCache (scripts R) s (heap st1)) else cached_script R sig (stored st))"
    using assms(1,2) unfolding store_ok_def p by (cases cache) (simp_all add: cached_script_def runtime_signature_def)
  ultimately show "\<exists>url s h1. Compile (scripts R) source url (cached_data cache)
           (if cache = None then kNoCompileOptions else kConsumeCodeCache) (heap st) = (Some s, h1) \<and>
         Run (scripts R) s h1 = (Some v, heap st1) \<and>
         (\<forall>sig. cached_script R sig (stored st1) =
            (if cache = None \<and> sig = (sourceURL, hash) then Some (CreateCodeCache (scripts R) s (heap st1))
             else cached_script R sig (stored st)))"
    using r(2) by blast
qed (auto dest: execute_throws)

text \<open>A compiler whose scripts are their sources and whose results are their lengths, and a store that is a map.\<close>

definition sample_runtime :: "(nat, nat, nat, ScriptSignature \<times> JSRuntimeSignature \<times> string \<Rightarrow> u8 list option) v8_runtime" where
  "sample_runtime =
     \<lparr>scripts = \<lparr>new_utf8 = (\<lambda>bs n h. Some (length bs)), new_external = (\<lambda>bs h. Some (length bs)),
        Compile = (\<lambda>source url data options h. (Some source, h + 1)), Run = (\<lambda>s h. (Some (s + h), h)),
        CreateCodeCache = (\<lambda>s h. replicate s 7), CachedDataVersionTag = 3,
        caught_in = (\<lambda>h. sample_caught), Undefined_value = 0\<rparr>,
      preparedScriptStore = Some \<lparr>tryGetPreparedScript = (\<lambda>s r t p. p (s, r, t)),
        persistPreparedScript = (\<lambda>code s r t p. p((s, r, t) \<mapsto> code))\<rparr>\<rparr>"

abbreviation sample_state :: "(nat, ScriptSignature \<times> JSRuntimeSignature \<times> string \<Rightarrow> u8 list option) script_state" where
  "sample_state \<equiv> \<lparr>heap = 0, stored = Map.empty\<rparr>"

theorem script_cache_witness:
  "\<exists>st1. ExecuteString sample_runtime 2 ''a.js'' 9 sample_state = Inr (Inr 3, st1) \<and>
    cached_script sample_runtime (''a.js'', 9) (stored st1) = Some [7, 7]"
proof -
  let ?S = "the (preparedScriptStore sample_runtime)"
  have R: "preparedScriptStore sample_runtime = Some ?S" "store_ok ?S" "None = cached_script sample_runtime (''a.js'', 9) (stored sample_state)"
    by (auto simp: sample_runtime_def store_ok_def cached_script_def)
  obtain st1 where run: "ExecuteString sample_runtime 2 ''a.js'' 9 sample_state = Inr (Inr 3, st1)"
    by (auto simp: ExecuteString_def script_defs sample_runtime_def cached_script_def cached_data_def runtime_signature_def)
  from script_cache [OF R, of 2 3 st1] this obtain url s h1 where
    s: "Compile (scripts sample_runtime) 2 url (cached_data None) kNoCompileOptions 0 = (Some s, h1)"
    "cached_script sample_runtime (''a.js'', 9) (stored st1) = Some (CreateCodeCache (scripts sample_runtime) s (heap st1))" by auto
  then have "CreateCodeCache (scripts sample_runtime) s (heap st1) = [7, 7]" by (auto simp: sample_runtime_def numeral_2_eq_2)
  with s run show ?thesis by simp
qed

section \<open>Prepared scripts are valid\<close>

lemma load_then:
  assumes "s_bind (loadJavaScript R buffer) (\<lambda>(source, hash). k source hash) st = Inr (r, st1)"
  obtains source where "k source (fst (murmurhash buffer)) st = Inr (r, st1)"
  using assms by (auto simp: loadJavaScript_def script_runs split: prod.splits option.splits if_splits)

lemma prepared_fields:
  assumes "prepareJavaScript R buffer sourceURL st = Inr (Inr (Some P), st1)"
  shows "scriptSignature P = (sourceURL, fst (murmurhash buffer)) \<and> runtimeSignature P = runtime_signature R \<and> sourceBuffer P = buffer"
  using assms unfolding prepareJavaScript_def
  by (rule load_then) (auto simp: script_runs split: option.splits)

text \<open>
  A prepared script passes the checks of its evaluation: on a V8 of the same version evaluation never throws the errors
  that say that it is invalid. On a V8 of another version evaluation throws the error that says so and runs nothing.
\<close>

theorem prepared_scripts_valid:
  assumes "prepareJavaScript R buffer sourceURL st = Inr (Inr (Some P), st1)"
    and "evaluatePreparedJavaScript R' P st2 = Inr (r, st3)"
  shows "(CachedDataVersionTag (scripts R') = CachedDataVersionTag (scripts R) \<longrightarrow> (\<forall>t. r \<noteq> Inl (ThrownNative t))) \<and>
    (CachedDataVersionTag (scripts R') \<noteq> CachedDataVersionTag (scripts R) \<longrightarrow>
      r = Inl (ThrownNative ''Prepared JavaScript cache is invalid (V8 version mismatch)'') \<and> st3 = st2)"
proof -
  have P: "scriptSignature P = (sourceURL, fst (murmurhash buffer))" "runtimeSignature P = runtime_signature R" "sourceBuffer P = buffer"
    using prepared_fields [OF assms(1)] by simp_all
  have u: "(ucast a :: u64) = ucast b \<longleftrightarrow> a = b" for a b :: u32
  proof -
    have "unat (ucast c :: u64) = unat c" for c :: u32 using unsigned_less [of c, where ?'a = nat] by (simp add: unat_ucast_mod)
    then show ?thesis by (metis word_unat_eq_iff)
  qed
  from assms(2) show ?thesis
    unfolding evaluatePreparedJavaScript_def P
    by (rule load_then)
      (auto simp: P runtime_signature_def u script_runs split: option.splits if_splits)
qed

text \<open>
  C36: \<^verbatim>\<open>prepareJavaScript2\<close> never stores a compiled script. Only the second compilation after a failed one would be stored,
  but reporting the failure throws, so the code that rebuilds the cache and stores it is not reached.
\<close>

theorem prepare_never_stores:
  assumes "prepareJavaScript2 R buffer sourceURL st = Inr (r, st1)"
  shows "stored st1 = stored st"
  using assms unfolding prepareJavaScript2_def Let_def
  by (rule load_then)
    (auto simp: script_runs split: option.splits if_splits)

theorem prepared_scripts_valid_witness:
  "\<exists>P st1 v st3. prepareJavaScript sample_runtime [] ''a.js'' sample_state = Inr (Inr (Some P), st1) \<and>
    evaluatePreparedJavaScript sample_runtime P sample_state = Inr (Inr v, st3) \<and> (\<forall>t. Inr v \<noteq> (Inl (ThrownNative t) :: thrown + nat))"
proof -
  obtain h a where m: "murmurhash [] = (h, a)" by (cases "murmurhash []")
  obtain P st1 where P: "prepareJavaScript sample_runtime [] ''a.js'' sample_state = Inr (Inr (Some P), st1)"
    by (auto simp: prepareJavaScript_def loadJavaScript_def m script_defs sample_runtime_def)
  obtain v st3 where E: "evaluatePreparedJavaScript sample_runtime P sample_state = Inr (Inr v, st3)"
    using prepared_fields [OF P] by (auto simp: evaluatePreparedJavaScript_def loadJavaScript_def m script_defs sample_runtime_def runtime_signature_def)
  from prepared_scripts_valid [OF P E] P E show ?thesis by blast
qed

theorem prepare_never_stores_witness:
  "\<exists>r st1. prepareJavaScript2 sample_runtime [] ''a.js'' sample_state = Inr (r, st1) \<and> stored st1 = Map.empty"
proof -
  obtain h a where m: "murmurhash [] = (h, a)" by (cases "murmurhash []")
  obtain r st1 where P: "prepareJavaScript2 sample_runtime [] ''a.js'' sample_state = Inr (r, st1)"
    by (auto simp: prepareJavaScript2_def loadJavaScript_def m script_defs sample_runtime_def Let_def cached_script_def)
  from prepare_never_stores [OF this] P show ?thesis by auto
qed

end
