(* ===== verification/V8_Lifetimes.thy ===== *)
theory V8_Lifetimes
  imports Prelude
begin

text \<open>
  The objects of the V8 runtime (\<^verbatim>\<open>src/src/V8JsiRuntime.cpp\<close>, \<^verbatim>\<open>src/src/V8JsiRuntime_impl.h\<close>) and their lives: the platform
  of the process, the isolate that the runtimes of a thread share, the proxies by which V8 holds host objects and host
  functions, and the last unhandled promise rejection. V8 is what it is told by these calls; the
  garbage collector is a step that may happen for any weak handle that has not been reset.
\<close>

section \<open>The platform\<close>

datatype platform_call =
    SetFlagsFromCommandLine "string list" | NewDefaultPlatform nat | InitializePlatform | V8_Initialize | V8_Dispose | DisposePlatform

record V8PlatformHolder =
  is_initialized_s :: bool
  is_disposed_s :: bool
  platform_s :: bool
  v8_calls :: "platform_call list"

record v8_flags =
  enableGCApi :: bool
  enableSystemInstrumentation :: bool
  sparkplug :: bool
  predictable :: bool
  optimize_for_size :: bool
  always_compact :: bool
  jitless :: bool
  lite_mode :: bool
  thread_pool_size :: u8

definition initializePlatform :: "nat \<Rightarrow> platform_call list \<Rightarrow> V8PlatformHolder \<Rightarrow> V8PlatformHolder" where
  "initializePlatform pool init P =
     (if is_initialized_s P then P
      else P\<lparr>is_initialized_s := True, platform_s := True,
        v8_calls := v8_calls P @ init @ [NewDefaultPlatform pool, InitializePlatform, V8_Initialize]\<rparr>)"

definition disposePlatform :: "V8PlatformHolder \<Rightarrow> V8PlatformHolder" where
  "disposePlatform P =
     (if \<not> is_initialized_s P \<or> is_disposed_s P then P
      else P\<lparr>is_disposed_s := True, platform_s := False, v8_calls := v8_calls P @ [V8_Dispose, DisposePlatform]\<rparr>)"

definition v8_argv :: "v8_flags \<Rightarrow> string list" where
  "v8_argv f =
     [''v8jsi''] @
     (if enableGCApi f then [''--expose_gc''] else []) @
     (if enableSystemInstrumentation f then [''--enable-system-instrumentation''] else []) @
     (if sparkplug f then [''--sparkplug''] else []) @
     (if predictable f then [''--predictable''] else []) @
     (if optimize_for_size f then [''--optimize_for_size''] else []) @
     (if always_compact f then [''--always_compact''] else []) @
     (if jitless f then [''--jitless''] else []) @
     (if lite_mode f then [''--lite_mode''] else [])"

definition initializeV8 :: "v8_flags \<Rightarrow> V8PlatformHolder \<Rightarrow> V8PlatformHolder" where
  "initializeV8 f = initializePlatform (unat (thread_pool_size f)) [SetFlagsFromCommandLine (v8_argv f)]"

section \<open>Runtimes and isolates of a thread\<close>

text \<open>The state of a thread: its counter, the isolates it has entered (the current one first), the isolates with their
  data slots, and what has been allocated and not deleted.\<close>

record V8Runtime =
  isolate :: nat
  isolate_data :: "nat option"
  array_buffer_allocator :: "nat option"

record v8_thread =
  tls_isolate_usage_counter :: u16
  entered :: "nat list"
  data_slot :: "nat \<Rightarrow> nat option"
  live_isolates :: "nat set"
  live_data :: "nat set"
  live_allocators :: "nat set"
  runtimes :: "nat \<Rightarrow> V8Runtime option"
  next_address :: nat

definition CreateNewIsolate :: "v8_thread \<Rightarrow> V8Runtime \<times> v8_thread" where
  "CreateNewIsolate t =
     (let a = next_address t; i = a + 1; d = a + 2
      in (\<lparr>isolate = i, isolate_data = Some d, array_buffer_allocator = Some a\<rparr>,
          t\<lparr>next_address := a + 3, live_allocators := insert a (live_allocators t), live_isolates := insert i (live_isolates t),
            live_data := insert d (live_data t), data_slot := (data_slot t)(i := Some d), entered := i # entered t\<rparr>))"

definition V8Runtime_new :: "v8_thread \<Rightarrow> (nat \<times> v8_thread) res" where
  "V8Runtime_new t =
     (let n = tls_isolate_usage_counter t; t1 = t\<lparr>tls_isolate_usage_counter := n + 1\<rparr>
      in bind_res (if n > 0
           then (case entered t1 of
                   [] \<Rightarrow> Inl NullDeref
                 | i # _ \<Rightarrow> Inr (\<lparr>isolate = i, isolate_data = None, array_buffer_allocator = None\<rparr>, t1))
           else Inr (CreateNewIsolate t1)) (\<lambda>(r, t2).
         let a = next_address t2 in Inr (a, t2\<lparr>runtimes := (runtimes t2)(a \<mapsto> r), next_address := a + 1\<rparr>)))"

text \<open>The destructor, as far as it concerns the isolate.\<close>

definition V8Runtime_delete :: "nat \<Rightarrow> v8_thread \<Rightarrow> v8_thread res" where
  "V8Runtime_delete a t =
     bind_res (deref (runtimes t a)) (\<lambda>r.
       let n = tls_isolate_usage_counter t - 1;
           t1 = t\<lparr>runtimes := (runtimes t)(a := None), tls_isolate_usage_counter := n\<rparr>
       in if n = 0
          then check (isolate r \<in> live_isolates t1) NullDeref
            (Inr (t1\<lparr>live_data := live_data t1 - set_option (data_slot t1 (isolate r)), data_slot := (data_slot t1)(isolate r := None),
               entered := tl (entered t1), live_isolates := live_isolates t1 - {isolate r},
               live_allocators := live_allocators t1 - set_option (array_buffer_allocator r)\<rparr>))
          else Inr t1)"

text \<open>\<^verbatim>\<open>nativeStateKey\<close>, \<^verbatim>\<open>napi_wrapper\<close> and \<^verbatim>\<open>napi_type_tag\<close> read the data of the isolate through the runtime.\<close>

definition nativeStateKey :: "nat \<Rightarrow> v8_thread \<Rightarrow> nat res" where
  "nativeStateKey a t =
     bind_res (deref (runtimes t a)) (\<lambda>r. bind_res (deref (isolate_data r)) (\<lambda>d. check (d \<in> live_data t) NullDeref (Inr d)))"

section \<open>Host objects and host functions\<close>

text \<open>A proxy holds a host object, or nothing after it has been destroyed; one of a host function then holds a function
  that returns undefined. \<open>destroyed\<close> records the calls of \<^verbatim>\<open>destroy\<close>.\<close>

datatype host_proxy = HostObjectProxy "nat option" | HostFunctionProxy "nat option"

record HostObjectLifetimeTracker =
  isReset :: bool
  hostProxy :: nat
  objectTracker :: bool

record host_objects =
  proxies :: "nat \<Rightarrow> host_proxy option"
  host_object_lifetime_tracker_list :: "HostObjectLifetimeTracker list"
  next_proxy :: nat
  destroyed :: "nat list"

primrec destroy_proxy :: "host_proxy \<Rightarrow> host_proxy" where
  "destroy_proxy (HostObjectProxy h) = HostObjectProxy None"
| "destroy_proxy (HostFunctionProxy f) = HostFunctionProxy None"

definition destroy :: "nat \<Rightarrow> host_objects \<Rightarrow> host_objects res" where
  "destroy p s =
     bind_res (deref (proxies s p)) (\<lambda>x. Inr (s\<lparr>proxies := (proxies s)(p \<mapsto> destroy_proxy x), destroyed := destroyed s @ [p]\<rparr>))"

definition AddHostObjectLifetimeTracker :: "nat \<Rightarrow> host_objects \<Rightarrow> host_objects" where
  "AddHostObjectLifetimeTracker p s =
     s\<lparr>host_object_lifetime_tracker_list := host_object_lifetime_tracker_list s @ [\<lparr>isReset = False, hostProxy = p, objectTracker = True\<rparr>]\<rparr>"

definition new_proxy :: "host_proxy \<Rightarrow> host_objects \<Rightarrow> nat \<times> host_objects" where
  "new_proxy x s = (next_proxy s, s\<lparr>proxies := (proxies s)(next_proxy s \<mapsto> x), next_proxy := next_proxy s + 1\<rparr>)"

text \<open>\<open>created\<close> says whether V8 made the object or function; otherwise an error is thrown and the proxy stays behind.\<close>

definition createObject_host :: "nat \<Rightarrow> bool \<Rightarrow> host_objects \<Rightarrow> nat option \<times> host_objects" where
  "createObject_host h created s =
     (case new_proxy (HostObjectProxy (Some h)) s of (p, s1) \<Rightarrow>
        if created then (Some p, AddHostObjectLifetimeTracker p s1) else (None, s1))"

definition createFunctionFromHostFunction_v8 :: "nat \<Rightarrow> bool \<Rightarrow> host_objects \<Rightarrow> nat option \<times> host_objects" where
  "createFunctionFromHostFunction_v8 f created s =
     (case new_proxy (HostFunctionProxy (Some f)) s of (p, s1) \<Rightarrow>
        if created then (Some p, AddHostObjectLifetimeTracker p s1) else (None, s1))"

definition ResetHostObject :: "nat \<Rightarrow> bool \<Rightarrow> host_objects \<Rightarrow> host_objects res" where
  "ResetHostObject i isGC s =
     bind_res (read_at (host_object_lifetime_tracker_list s) i) (\<lambda>t.
       check (\<not> isGC \<or> \<not> isReset t) CheckAbort
         (if \<not> isReset t then
            bind_res (destroy (hostProxy t) s) (\<lambda>s1.
              Inr (s1\<lparr>host_object_lifetime_tracker_list := (host_object_lifetime_tracker_list s1)[i := t\<lparr>isReset := True, objectTracker := False\<rparr>]\<rparr>))
          else Inr s))"

text \<open>The loop of the destructor, and the clearing of the list.\<close>

fun reset_from :: "nat \<Rightarrow> nat \<Rightarrow> host_objects \<Rightarrow> host_objects res" where
  "reset_from i 0 s = Inr s"
| "reset_from i (Suc n) s = bind_res (ResetHostObject i False s) (reset_from (i + 1) n)"

definition reset_host_objects :: "host_objects \<Rightarrow> host_objects res" where
  "reset_host_objects s =
     bind_res (reset_from 0 (length (host_object_lifetime_tracker_list s)) s) (\<lambda>s1. Inr (s1\<lparr>host_object_lifetime_tracker_list := []\<rparr>))"

definition isHostObject_v8 :: "nat \<Rightarrow> host_objects \<Rightarrow> bool" where
  "isHostObject_v8 p s \<longleftrightarrow> (\<exists>t \<in> set (host_object_lifetime_tracker_list s). hostProxy t = p)"

definition no_host_objects :: host_objects where
  "no_host_objects = \<lparr>proxies = Map.empty, host_object_lifetime_tracker_list = [], next_proxy = 0, destroyed = []\<rparr>"

inductive host_reach :: "host_objects \<Rightarrow> bool" where
  host_start: "host_reach no_host_objects"
| host_object: "host_reach s \<Longrightarrow> host_reach (snd (createObject_host h created s))"
| host_function: "host_reach s \<Longrightarrow> host_reach (snd (createFunctionFromHostFunction_v8 f created s))"
| host_gc: "host_reach s \<Longrightarrow> i < length (host_object_lifetime_tracker_list s) \<Longrightarrow> objectTracker (host_object_lifetime_tracker_list s ! i) \<Longrightarrow>
    ResetHostObject i True s = Inr s' \<Longrightarrow> host_reach s'"

section \<open>Unhandled promise rejections\<close>

datatype PromiseRejectEvent =
    kPromiseRejectWithNoHandler | kPromiseHandlerAddedAfterReject | kPromiseRejectAfterResolved | kPromiseResolveAfterResolved

text \<open>What V8 reports of a promise: the event, whether its context belongs to a runtime, and the value with what V8 knows of it
  (its message with a stack trace or without). \<open>manual\<close> is what throwing and catching an error yields.\<close>

record ('v, 'm) PromiseRejectMessage =
  event :: PromiseRejectEvent
  reject_promise :: nat
  has_runtime :: bool
  reject_value :: 'v
  is_object :: bool
  is_native_error :: bool
  created_message :: 'm
  has_stack_trace :: bool
  manual :: "'m \<times> 'v"

record ('v, 'm) UnhandledPromiseRejection =
  promise :: nat
  message :: "'m option"
  rejected_value :: 'v

record ('v, 'm) promise_state =
  ignore_unhandled_promises :: bool
  last_unhandled_promise :: "('v, 'm) UnhandledPromiseRejection option"

definition SetUnhandledPromise :: "nat \<Rightarrow> 'm option \<Rightarrow> 'v \<Rightarrow> ('v, 'm) promise_state \<Rightarrow> ('v, 'm) promise_state" where
  "SetUnhandledPromise p msg v s =
     (if ignore_unhandled_promises s then s
      else s\<lparr>last_unhandled_promise := Some \<lparr>promise = p, message = msg, rejected_value = v\<rparr>\<rparr>)"

definition RemoveUnhandledPromise :: "nat \<Rightarrow> ('v, 'm) promise_state \<Rightarrow> ('v, 'm) promise_state" where
  "RemoveUnhandledPromise p s =
     (if ignore_unhandled_promises s then s
      else case last_unhandled_promise s of
        None \<Rightarrow> s
      | Some u \<Rightarrow> if promise u = p then s\<lparr>last_unhandled_promise := None\<rparr> else s)"

definition PromiseRejectCallback :: "('v, 'm) PromiseRejectMessage \<Rightarrow> ('v, 'm) promise_state \<Rightarrow> ('v, 'm) promise_state" where
  "PromiseRejectCallback d s =
     (if event d = kPromiseRejectAfterResolved \<or> event d = kPromiseResolveAfterResolved then s
      else if \<not> has_runtime d then s
      else if event d = kPromiseHandlerAddedAfterReject then RemoveUnhandledPromise (reject_promise d) s
      else
        let msg = (if is_object d then Some (created_message d) else None)
        in if \<not> is_native_error d \<and> (msg = None \<or> \<not> has_stack_trace d)
           then SetUnhandledPromise (reject_promise d) (Some (fst (manual d))) (snd (manual d)) s
           else SetUnhandledPromise (reject_promise d) msg (reject_value d) s)"

definition HasUnhandledPromiseRejection :: "('v, 'm) promise_state \<Rightarrow> bool" where
  "HasUnhandledPromiseRejection s \<longleftrightarrow> last_unhandled_promise s \<noteq> None"

definition GetAndClearLastUnhandledPromiseRejection ::
    "('v, 'm) promise_state \<Rightarrow> ('v, 'm) UnhandledPromiseRejection option \<times> ('v, 'm) promise_state" where
  "GetAndClearLastUnhandledPromiseRejection s = (last_unhandled_promise s, s\<lparr>last_unhandled_promise := None\<rparr>)"

text \<open>The function of the Node-API that hands out the value, after the check of its argument.\<close>

definition getAndClearLastUnhandledPromiseRejection :: "('v, 'm) promise_state \<Rightarrow> ('v \<times> ('v, 'm) promise_state) res" where
  "getAndClearLastUnhandledPromiseRejection s =
     (case GetAndClearLastUnhandledPromiseRejection s of (u, s1) \<Rightarrow>
        bind_res (deref u) (\<lambda>r. Inr (rejected_value r, s1)))"

section \<open>Calls of the host\<close>

text \<open>What host code does, and what V8 sees of a callback: the value it returns, and the exception that is scheduled. \<open>fits\<close>
  says which texts V8 can make a string of. A callback finds the proxy of the object, if any, and in it the host object.\<close>

datatype 'v host_result = HostReturns 'v | HostThrowsJSError 'v | HostThrowsStd string | HostThrowsOther

datatype 'v js_throw = ThrowValue 'v | ThrowError string

definition throw_text :: "(string \<Rightarrow> bool) \<Rightarrow> 'a \<Rightarrow> string \<Rightarrow> ('a \<times> 'v js_throw option) res" where
  "throw_text fits x text = check (fits (c_string text)) CheckAbort (Inr (x, Some (ThrowError (c_string text))))"

definition GetHostObjectProxy :: "nat option option \<Rightarrow> nat option res" where
  "GetHostObjectProxy hostObjectProxy = (case hostObjectProxy of None \<Rightarrow> Inl CheckAbort | Some hostObject \<Rightarrow> Inr hostObject)"

definition GetInternal :: "(string \<Rightarrow> bool) \<Rightarrow> 'v \<Rightarrow> nat option option \<Rightarrow> (nat \<Rightarrow> 'v host_result) \<Rightarrow> ('v \<times> 'v js_throw option) res" where
  "GetInternal fits undefined_v hostObjectProxy get =
     bind_res (GetHostObjectProxy hostObjectProxy) (\<lambda>hostObject.
     bind_res (deref hostObject) (\<lambda>h.
       case get h of
         HostReturns v \<Rightarrow> Inr (v, None)
       | HostThrowsJSError e \<Rightarrow> Inr (undefined_v, Some (ThrowValue e))
       | HostThrowsStd what \<Rightarrow> throw_text fits undefined_v what
       | HostThrowsOther \<Rightarrow> throw_text fits undefined_v ''<Unknown exception in host function callback>''))"

definition SetInternal :: "(string \<Rightarrow> bool) \<Rightarrow> nat option option \<Rightarrow> (nat \<Rightarrow> 'v host_result) \<Rightarrow> (unit \<times> 'v js_throw option) res" where
  "SetInternal fits hostObjectProxy set_host =
     bind_res (GetHostObjectProxy hostObjectProxy) (\<lambda>hostObject.
     bind_res (deref hostObject) (\<lambda>h.
       case set_host h of
         HostReturns _ \<Rightarrow> Inr ((), None)
       | HostThrowsJSError e \<Rightarrow> Inr ((), Some (ThrowValue e))
       | HostThrowsStd what \<Rightarrow> throw_text fits () what
       | HostThrowsOther \<Rightarrow> throw_text fits () ''<Unknown exception in host function callback>''))"

definition HostFunctionProxy_call :: "(string \<Rightarrow> bool) \<Rightarrow> 'v \<Rightarrow> nat option \<Rightarrow> (nat \<Rightarrow> 'v host_result) \<Rightarrow> ('v \<times> 'v js_throw option) res" where
  "HostFunctionProxy_call fits undefined_v func run =
     (case (case func of None \<Rightarrow> HostReturns undefined_v | Some f \<Rightarrow> run f) of
         HostReturns v \<Rightarrow> Inr (v, None)
       | HostThrowsJSError e \<Rightarrow> Inr (undefined_v, Some (ThrowValue e))
       | HostThrowsStd what \<Rightarrow> throw_text fits undefined_v (''Exception in HostFunction: '' @ c_string what)
       | HostThrowsOther \<Rightarrow> throw_text fits undefined_v ''Exception in HostFunction: <unknown>'')"

text \<open>The enumerator of a host object has no handler.\<close>

definition Enumerator :: "nat option option \<Rightarrow> (nat \<Rightarrow> 'v list host_result) \<Rightarrow> ('v list \<times> 'v js_throw option) res" where
  "Enumerator hostObjectProxy getPropertyNames_host =
     (case hostObjectProxy of
        None \<Rightarrow> Inr ([], None)
      | Some hostObject \<Rightarrow>
          bind_res (deref hostObject) (\<lambda>h.
            case getPropertyNames_host h of
              HostReturns names \<Rightarrow> Inr (names, None)
            | _ \<Rightarrow> Inl CxxException))"

section \<open>The platform is initialized and disposed of once\<close>

datatype platform_op = OpInitialize v8_flags | OpDispose

primrec run_platform_op :: "platform_op \<Rightarrow> V8PlatformHolder \<Rightarrow> V8PlatformHolder" where
  "run_platform_op (OpInitialize f) = initializeV8 f"
| "run_platform_op OpDispose = disposePlatform"

definition platform_new :: V8PlatformHolder where
  "platform_new = \<lparr>is_initialized_s = False, is_disposed_s = False, platform_s = False, v8_calls = []\<rparr>"

definition start_calls :: "v8_flags \<Rightarrow> platform_call list" where
  "start_calls f = [SetFlagsFromCommandLine (v8_argv f), NewDefaultPlatform (unat (thread_pool_size f)), InitializePlatform, V8_Initialize]"

definition platform_after :: "platform_op list \<Rightarrow> V8PlatformHolder" where
  "platform_after ops = fold run_platform_op ops platform_new"

lemma platform_after_snoc [simp]: "platform_after (ops @ [p]) = run_platform_op p (platform_after ops)"
  by (simp add: platform_after_def)

lemma dropWhile_snoc: "dropWhile P (xs @ [x]) = (if \<forall>y \<in> set xs. P y then if P x then [] else [x] else dropWhile P xs @ [x])"
  by (induction xs) auto

text \<open>
  Whatever the order in which runtimes are made and the platform is disposed of, V8 is initialized by the first
  runtime with its flags, disposed of by the first disposal after that, and never started again.
\<close>

theorem platform_once:
  "platform_after ops =
    (case dropWhile (\<lambda>p. p = OpDispose) ops of
       OpInitialize f # rest \<Rightarrow>
         (if OpDispose \<in> set rest
          then \<lparr>is_initialized_s = True, is_disposed_s = True, platform_s = False, v8_calls = start_calls f @ [V8_Dispose, DisposePlatform]\<rparr>
          else \<lparr>is_initialized_s = True, is_disposed_s = False, platform_s = True, v8_calls = start_calls f\<rparr>)
     | _ \<Rightarrow> platform_new)"
proof (induction ops rule: rev_induct)
  case Nil
  show ?case by (simp add: platform_after_def)
next
  case (snoc p ops)
  show ?case
  proof (cases "dropWhile (\<lambda>p. p = OpDispose) ops")
    case Nil
    then have "\<forall>q \<in> set ops. q = OpDispose" by (simp add: dropWhile_eq_Nil_conv)
    with snoc Nil show ?thesis
      by (cases p) (simp_all add: dropWhile_snoc initializeV8_def initializePlatform_def disposePlatform_def platform_new_def start_calls_def)
  next
    case (Cons q rest)
    then have q: "q \<noteq> OpDispose" "\<not> (\<forall>x \<in> set ops. x = OpDispose)" using hd_dropWhile [of "\<lambda>p. p = OpDispose" ops] by (auto simp: dropWhile_eq_Nil_conv [symmetric] simp del: dropWhile_eq_Nil_conv)
    then obtain f where "q = OpInitialize f" by (cases q) auto
    with snoc Cons q(2) show ?thesis
      by (cases p) (auto simp: dropWhile_snoc initializeV8_def initializePlatform_def disposePlatform_def)
  qed
qed

section \<open>Runtimes of a thread share an isolate\<close>

definition thread_new :: v8_thread where
  "thread_new = \<lparr>tls_isolate_usage_counter = 0, entered = [], data_slot = Map.empty, live_isolates = {}, live_data = {},
     live_allocators = {}, runtimes = Map.empty, next_address = 0\<rparr>"

inductive thread_reach :: "v8_thread \<Rightarrow> bool" where
  thread_start: "thread_reach thread_new"
| thread_make: "thread_reach t \<Longrightarrow> card (dom (runtimes t)) < 65535 \<Longrightarrow> V8Runtime_new t = Inr (a, t') \<Longrightarrow> thread_reach t'"
| thread_delete: "thread_reach t \<Longrightarrow> V8Runtime_delete a t = Inr t' \<Longrightarrow> thread_reach t'"

definition thread_inv :: "v8_thread \<Rightarrow> bool" where
  "thread_inv t \<longleftrightarrow> finite (dom (runtimes t)) \<and> card (dom (runtimes t)) < 65536 \<and>
     tls_isolate_usage_counter t = of_nat (card (dom (runtimes t))) \<and> (\<forall>a \<in> dom (runtimes t). a < next_address t) \<and>
     (if runtimes t = Map.empty then entered t = [] \<and> live_isolates t = {} \<and> live_data t = {}
      else \<exists>i d. entered t = [i] \<and> live_isolates t = {i} \<and> live_data t = {d} \<and> data_slot t i = Some d \<and>
        (\<forall>a r. runtimes t a = Some r \<longrightarrow> isolate r = i \<and> isolate_data r \<in> {None, Some d}))"

lemma counter_zero: "card (dom m) < 65536 \<Longrightarrow> finite (dom m) \<Longrightarrow> (of_nat (card (dom m)) :: u16) = 0 \<longleftrightarrow> m = Map.empty"
  using unat_of_nat_small [of "card (dom m)", where ?'a = 16] by (auto simp: word_unat_eq_iff)

lemma thread_invD:
  assumes "thread_inv t" "runtimes t \<noteq> Map.empty"
  obtains i d where "entered t = [i]" "live_isolates t = {i}" "live_data t = {d}" "data_slot t i = Some d"
    "\<And>a r. runtimes t a = Some r \<Longrightarrow> isolate r = i \<and> isolate_data r \<in> {None, Some d}"
proof -
  from assms obtain i d where "entered t = [i]" "live_isolates t = {i}" "live_data t = {d}" "data_slot t i = Some d"
      "\<forall>a r. runtimes t a = Some r \<longrightarrow> isolate r = i \<and> isolate_data r \<in> {None, Some d}"
    unfolding thread_inv_def if_not_P [OF assms(2)] by blast
  then show thesis by (intro that) blast+
qed

lemma thread_fresh: "thread_inv t \<Longrightarrow> next_address t \<le> b \<Longrightarrow> runtimes t b = None"
  unfolding thread_inv_def by (metis domIff linorder_not_less)

lemma new_first:
  assumes "thread_inv t" "runtimes t = Map.empty"
  shows "\<exists>a t'. V8Runtime_new t = Inr (a, t') \<and> thread_inv t'"
  using assms by (simp add: V8Runtime_new_def thread_inv_def CreateNewIsolate_def Let_def)

lemma new_next:
  assumes "thread_inv t" "runtimes t \<noteq> Map.empty" "card (dom (runtimes t)) < 65535"
  shows "\<exists>a t'. V8Runtime_new t = Inr (a, t') \<and> thread_inv t' \<and> (\<exists>r. runtimes t' a = Some r \<and> isolate_data r = None)"
proof -
  obtain i d where i: "entered t = [i]" "live_isolates t = {i}" "live_data t = {d}" "data_slot t i = Some d"
    "\<And>a r. runtimes t a = Some r \<Longrightarrow> isolate r = i \<and> isolate_data r \<in> {None, Some d}"
    using thread_invD [OF assms(1,2)] by blast
  let ?a = "next_address t" and ?r = "\<lparr>isolate = i, isolate_data = None, array_buffer_allocator = None\<rparr>"
  let ?t = "t\<lparr>tls_isolate_usage_counter := tls_isolate_usage_counter t + 1, runtimes := (runtimes t)(?a \<mapsto> ?r), next_address := ?a + 1\<rparr>"
  have f: "finite (dom (runtimes t))" "?a \<notin> dom (runtimes t)" using assms(1) by (auto simp: thread_inv_def)
  then have c: "card (dom (runtimes ?t)) = card (dom (runtimes t)) + 1" by simp
  have "tls_isolate_usage_counter t > 0"
    using assms(1,2) counter_zero [of "runtimes t"] unfolding thread_inv_def by (simp add: word_gt_0)
  then have "V8Runtime_new t = Inr (?a, ?t)" using i by (simp add: V8Runtime_new_def Let_def)
  moreover have "thread_inv ?t"
    unfolding thread_inv_def c
  proof (intro conjI)
    show "finite (dom (runtimes ?t))" using f by simp
    show "card (dom (runtimes t)) + 1 < 65536" using assms(3) by simp
    show "tls_isolate_usage_counter ?t = of_nat (card (dom (runtimes t)) + 1)" using assms(1) by (simp add: thread_inv_def)
    show "\<forall>a \<in> dom (runtimes ?t). a < next_address ?t" using assms(1) by (auto simp: thread_inv_def less_Suc_eq)
    show "if runtimes ?t = Map.empty then entered ?t = [] \<and> live_isolates ?t = {} \<and> live_data ?t = {}
      else \<exists>i d. entered ?t = [i] \<and> live_isolates ?t = {i} \<and> live_data ?t = {d} \<and> data_slot ?t i = Some d \<and>
        (\<forall>a r. runtimes ?t a = Some r \<longrightarrow> isolate r = i \<and> isolate_data r \<in> {None, Some d})"
      using i by auto
  qed
  ultimately show ?thesis by auto
qed

lemma card_dom_delete:
  assumes "finite (dom m)" "m a = Some r"
  shows "card (dom m) = Suc (card (dom (m(a := None))))"
  using card_Suc_Diff1 [OF assms(1), of a] assms(2) by (simp add: domI)

lemma counter_after_delete:
  assumes "thread_inv t" "runtimes t a = Some r"
  shows "tls_isolate_usage_counter t - 1 = of_nat (card (dom ((runtimes t)(a := None))))"
    and "(of_nat (card (dom ((runtimes t)(a := None)))) :: u16) = 0 \<longleftrightarrow> (runtimes t)(a := None) = Map.empty"
    and "finite (dom ((runtimes t)(a := None)))" "card (dom ((runtimes t)(a := None))) < 65536"
    and "\<forall>b \<in> dom ((runtimes t)(a := None)). b < next_address t"
proof -
  have f: "finite (dom (runtimes t))" "card (dom (runtimes t)) < 65536" "tls_isolate_usage_counter t = of_nat (card (dom (runtimes t)))"
      "\<forall>b \<in> dom (runtimes t). b < next_address t"
    using assms(1) unfolding thread_inv_def by blast+
  note c = card_dom_delete [OF f(1) assms(2)]
  show "tls_isolate_usage_counter t - 1 = of_nat (card (dom ((runtimes t)(a := None))))" unfolding f(3) c by simp
  show g: "finite (dom ((runtimes t)(a := None)))" using f(1) by simp
  show l: "card (dom ((runtimes t)(a := None))) < 65536" using f(2) c by linarith
  show "(of_nat (card (dom ((runtimes t)(a := None)))) :: u16) = 0 \<longleftrightarrow> (runtimes t)(a := None) = Map.empty" by (rule counter_zero [OF l g])
  show "\<forall>b \<in> dom ((runtimes t)(a := None)). b < next_address t" using f(4) by auto
qed

lemma delete_keeps:
  assumes "thread_inv t" "runtimes t a = Some r"
  shows "\<exists>t'. V8Runtime_delete a t = Inr t' \<and> thread_inv t' \<and> runtimes t' = (runtimes t)(a := None)"
proof -
  have ne: "runtimes t \<noteq> Map.empty" using assms(2) by auto
  obtain i d where i: "entered t = [i]" "live_isolates t = {i}" "live_data t = {d}" "data_slot t i = Some d"
    "\<And>a r. runtimes t a = Some r \<Longrightarrow> isolate r = i \<and> isolate_data r \<in> {None, Some d}"
    using thread_invD [OF assms(1) ne] by blast
  let ?m = "(runtimes t)(a := None)"
  note n = counter_after_delete [OF assms]
  let ?t = "t\<lparr>runtimes := ?m, tls_isolate_usage_counter := of_nat (card (dom ?m))\<rparr>"
  have r: "isolate r = i" using i(5) [OF assms(2)] by simp
  show ?thesis
  proof (cases "?m = Map.empty")
    case True
    let ?u = "?t\<lparr>live_data := {}, data_slot := (data_slot t)(i := None), entered := [], live_isolates := {},
      live_allocators := live_allocators t - set_option (array_buffer_allocator r)\<rparr>"
    have "V8Runtime_delete a t = Inr ?u"
      unfolding V8Runtime_delete_def Let_def n(1) assms(2) deref_Some bind_res.simps n(2) using True i(1-4) r by (simp add: check_def)
    moreover have "thread_inv ?u" unfolding thread_inv_def using True by simp
    ultimately show ?thesis by auto
  next
    case False
    have "V8Runtime_delete a t = Inr ?t"
      unfolding V8Runtime_delete_def Let_def n(1) assms(2) deref_Some bind_res.simps n(2) using False by simp
    moreover have "thread_inv ?t"
      unfolding thread_inv_def
    proof (intro conjI)
      show "if runtimes ?t = Map.empty then entered ?t = [] \<and> live_isolates ?t = {} \<and> live_data ?t = {}
        else \<exists>i d. entered ?t = [i] \<and> live_isolates ?t = {i} \<and> live_data ?t = {d} \<and> data_slot ?t i = Some d \<and>
          (\<forall>a r. runtimes ?t a = Some r \<longrightarrow> isolate r = i \<and> isolate_data r \<in> {None, Some d})"
        using i False by auto
    qed (use n(3-5) in simp_all)
    ultimately show ?thesis by auto
  qed
qed

lemma thread_reach_inv: "thread_reach t \<Longrightarrow> thread_inv t"
proof (induction rule: thread_reach.induct)
  case thread_start
  show ?case by (simp add: thread_inv_def thread_new_def)
next
  case (thread_make t a t')
  then show ?case using new_first [of t] new_next [of t] by (cases "runtimes t = Map.empty") auto
next
  case (thread_delete t a t')
  then obtain r where "runtimes t a = Some r" by (cases "runtimes t a") (auto simp: V8Runtime_delete_def)
  with thread_delete delete_keeps [of t a r] show ?case by auto
qed

text \<open>
  C14: The runtimes of a thread share one isolate. As long as there are runtimes exactly one isolate is alive, entered and used by
  all of them; making and deleting runtimes does not fail, and the isolate goes away exactly with the last of them, in
  whatever order they are deleted.
\<close>

theorem isolate_shared:
  assumes "thread_reach t"
  shows "(card (dom (runtimes t)) < 65535 \<longrightarrow> (\<exists>a t'. V8Runtime_new t = Inr (a, t'))) \<and>
    (\<forall>a r. runtimes t a = Some r \<longrightarrow> live_isolates t = {isolate r} \<and> entered t = [isolate r] \<and>
      (\<exists>t'. V8Runtime_delete a t = Inr t' \<and> live_isolates t' = (if dom (runtimes t) = {a} then {} else {isolate r}))) \<and>
    (runtimes t = Map.empty \<longrightarrow> live_isolates t = {} \<and> live_data t = {})"
proof (intro conjI allI impI)
  note inv = thread_reach_inv [OF assms]
  show "\<exists>a t'. V8Runtime_new t = Inr (a, t')" if "card (dom (runtimes t)) < 65535"
    using new_first [OF inv] new_next [OF inv _ that] by blast
  show "live_isolates t = {}" "live_data t = {}" if "runtimes t = Map.empty" using inv that by (simp_all add: thread_inv_def)
  fix a r
  assume r: "runtimes t a = Some r"
  then have ne: "runtimes t \<noteq> Map.empty" by auto
  obtain i d where i: "entered t = [i]" "live_isolates t = {i}" "\<And>a r. runtimes t a = Some r \<Longrightarrow> isolate r = i \<and> isolate_data r \<in> {None, Some d}"
    using thread_invD [OF inv ne] by metis
  then show "live_isolates t = {isolate r}" "entered t = [isolate r]" using r by auto
  obtain t' where t': "V8Runtime_delete a t = Inr t'" "thread_inv t'" "runtimes t' = (runtimes t)(a := None)" using delete_keeps [OF inv r] by auto
  have l: "live_isolates t' = (if runtimes t' = Map.empty then {} else {i})"
  proof (cases "runtimes t' = Map.empty")
    case False
    then obtain b q where b: "runtimes t' b = Some q" by fastforce
    then have "isolate q = i" using i(3) t'(3) by (auto split: if_splits)
    moreover have "live_isolates t' = {isolate q}" using thread_invD [OF t'(2) False] b by metis
    ultimately show ?thesis using False by simp
  qed (use t'(2) in \<open>simp add: thread_inv_def\<close>)
  have "runtimes t' = Map.empty \<longleftrightarrow> dom (runtimes t) = {a}" using r t'(3) by (auto simp: fun_eq_iff dom_def)
  with l t'(1) i r show "\<exists>t'. V8Runtime_delete a t = Inr t' \<and> live_isolates t' = (if dom (runtimes t) = {a} then {} else {isolate r})" by auto
qed

text \<open>Two runtimes of one thread.\<close>

definition two_runtimes :: "(nat \<times> nat \<times> v8_thread) res" where
  "two_runtimes = bind_res (V8Runtime_new thread_new) (\<lambda>(a, t). bind_res (V8Runtime_new t) (\<lambda>(b, t'). Inr (a, b, t')))"

lemmas thread_defs = two_runtimes_def V8Runtime_new_def V8Runtime_delete_def CreateNewIsolate_def thread_new_def Let_def check_def

lemma two_runtimes_run: "\<exists>t t'. V8Runtime_new thread_new = Inr (3, t) \<and> V8Runtime_new t = Inr (4, t') \<and> two_runtimes = Inr (3, 4, t')"
  by (simp add: thread_defs)

lemma two_runtimes_reach: "two_runtimes = Inr (a, b, t') \<Longrightarrow> thread_reach t'"
  using thread_make [OF thread_make [OF thread_start]] by (auto simp: thread_defs dom_if)

theorem isolate_shared_witness:
  "\<exists>t t'. two_runtimes = Inr (3, 4, t) \<and> V8Runtime_delete 3 t = Inr t' \<and> live_isolates t' = {1}"
proof -
  obtain t where t: "two_runtimes = Inr (3, 4, t)" using two_runtimes_run by blast
  then obtain r where r: "runtimes t 3 = Some r" "isolate r = 1" "dom (runtimes t) \<noteq> {3}" by (auto simp: thread_defs dom_if)
  from isolate_shared [OF two_runtimes_reach [OF t]] r(1)
  have "\<exists>t'. V8Runtime_delete 3 t = Inr t' \<and> live_isolates t' = (if dom (runtimes t) = {3} then {} else {isolate r})" by blast
  with r(2,3) t show ?thesis by auto
qed

text \<open>
  C37: A second runtime on a thread cannot use the data of the isolate: the constructor that reuses the isolate leaves the
  pointer to the data null, and every use of it (native state, wrapped objects and type tags) dereferences it.
\<close>

theorem second_runtime_no_data:
  assumes "thread_reach t" "runtimes t \<noteq> Map.empty" "V8Runtime_new t = Inr (a, t')"
    and "card (dom (runtimes t)) < 65535"
  shows "nativeStateKey a t' = Inl NullDeref"
proof -
  obtain r where "runtimes t' a = Some r" "isolate_data r = None"
    using new_next [OF thread_reach_inv [OF assms(1)] assms(2,4)] assms(3) by auto
  then show ?thesis by (simp add: nativeStateKey_def)
qed

theorem second_runtime_no_data_witness: "\<exists>t'. two_runtimes = Inr (3, 4, t') \<and> nativeStateKey 4 t' = Inl NullDeref"
proof -
  obtain t t' where t: "V8Runtime_new thread_new = Inr (3, t)" "V8Runtime_new t = Inr (4, t')" "two_runtimes = Inr (3, 4, t')"
    using two_runtimes_run by blast
  have r: "thread_reach t" using thread_make [OF thread_start _ t(1)] by (simp add: thread_new_def)
  have c: "runtimes t \<noteq> Map.empty" "card (dom (runtimes t)) < 65535" using t(1) by (auto simp: thread_defs)
  from second_runtime_no_data [OF r c(1) t(2) c(2)] t(3) show ?thesis by blast
qed

text \<open>The allocator of the isolate is deleted only when the runtime that made it is the last one.\<close>

lemma allocator_order:
  "bind_res two_runtimes (\<lambda>(a, b, t). bind_res (V8Runtime_delete a t) (\<lambda>t1. bind_res (V8Runtime_delete b t1) (\<lambda>t2. Inr (live_allocators t2)))) = Inr {0}"
  "bind_res two_runtimes (\<lambda>(a, b, t). bind_res (V8Runtime_delete b t) (\<lambda>t1. bind_res (V8Runtime_delete a t1) (\<lambda>t2. Inr (live_allocators t2)))) = Inr {}"
  by (simp_all add: thread_defs)

section \<open>Host proxies are destroyed once\<close>

definition host_inv :: "host_objects \<Rightarrow> bool" where
  "host_inv s \<longleftrightarrow> distinct (map hostProxy (host_object_lifetime_tracker_list s)) \<and>
     (\<forall>t \<in> set (host_object_lifetime_tracker_list s). hostProxy t < next_proxy s \<and> proxies s (hostProxy t) \<noteq> None \<and> objectTracker t = (\<not> isReset t)) \<and>
     distinct (destroyed s) \<and> set (destroyed s) = hostProxy ` {t \<in> set (host_object_lifetime_tracker_list s). isReset t} \<and>
     (\<forall>p \<in> set (destroyed s). proxies s p \<in> {Some (HostObjectProxy None), Some (HostFunctionProxy None)})"

lemma destroy_proxy_empty: "Some (destroy_proxy x) \<in> {Some (HostObjectProxy None), Some (HostFunctionProxy None)}"
  by (cases x) simp_all

lemma reset_proxies: "hostProxy ` {t \<in> set l. isReset t} = (\<lambda>j. hostProxy (l ! j)) ` {j. j < length l \<and> isReset (l ! j)}"
  by (auto simp: in_set_conv_nth image_iff)

lemma reset_more:
  assumes "i < length l" "\<not> isReset (l ! i)" "l' = l[i := (l ! i)\<lparr>isReset := True, objectTracker := False\<rparr>]"
  shows "(\<lambda>j. hostProxy (l' ! j)) ` {j. j < length l' \<and> isReset (l' ! j)} =
    insert (hostProxy (l ! i)) ((\<lambda>j. hostProxy (l ! j)) ` {j. j < length l \<and> isReset (l ! j)})"
proof -
  have j: "{j. j < length l' \<and> isReset (l' ! j)} = insert i {j. j < length l \<and> isReset (l ! j)}"
    using assms by (auto simp: nth_list_update split: if_splits)
  have h: "hostProxy (l' ! j) = hostProxy (l ! j)" for j using assms by (cases "i = j") (simp_all add: nth_list_update)
  show ?thesis unfolding j h by simp
qed

lemma reset_once:
  assumes "host_inv s" "i < length (host_object_lifetime_tracker_list s)" "\<not> b \<or> \<not> isReset (host_object_lifetime_tracker_list s ! i)"
  shows "\<exists>s'. ResetHostObject i b s = Inr s' \<and> host_inv s' \<and>
    map hostProxy (host_object_lifetime_tracker_list s') = map hostProxy (host_object_lifetime_tracker_list s) \<and>
    map isReset (host_object_lifetime_tracker_list s') = (map isReset (host_object_lifetime_tracker_list s))[i := True]"
proof (cases "isReset (host_object_lifetime_tracker_list s ! i)")
  case True
  then have "(map isReset (host_object_lifetime_tracker_list s))[i := True] = map isReset (host_object_lifetime_tracker_list s)"
    using assms(2) by (intro nth_equalityI) (auto simp: nth_list_update)
  then show ?thesis using assms True by (simp add: ResetHostObject_def read_at_def)
next
  case False
  let ?l = "host_object_lifetime_tracker_list s"
  let ?t = "?l ! i"
  let ?u = "?t\<lparr>isReset := True, objectTracker := False\<rparr>"
  let ?l' = "?l[i := ?u]"
  have t: "?t \<in> set ?l" using assms(2) by simp
  then obtain x where x: "proxies s (hostProxy ?t) = Some x" using assms(1) unfolding host_inv_def by blast
  let ?s = "s\<lparr>proxies := (proxies s)(hostProxy ?t \<mapsto> destroy_proxy x), destroyed := destroyed s @ [hostProxy ?t],
    host_object_lifetime_tracker_list := ?l'\<rparr>"
  have run: "ResetHostObject i b s = Inr ?s"
    using assms(2) False x by (simp add: ResetHostObject_def read_at_def destroy_def check_def)
  have p: "map hostProxy ?l' = map hostProxy ?l" using assms(2) by (intro nth_equalityI) (auto simp: nth_list_update)
  have r: "map isReset ?l' = (map isReset ?l)[i := True]" by (simp add: map_update)
  have "distinct (map hostProxy ?l)" "set (destroyed s) = hostProxy ` {t \<in> set ?l. isReset t}" using assms(1) by (simp_all add: host_inv_def)
  note d = this
  have new: "hostProxy ?t \<notin> set (destroyed s)"
  proof
    assume "hostProxy ?t \<in> set (destroyed s)"
    then obtain j where "j < length ?l" "isReset (?l ! j)" "hostProxy ?t = hostProxy (?l ! j)"
      unfolding d(2) reset_proxies by auto
    then show False using False d(1) assms(2) by (metis (no_types) distinct_conv_nth length_map nth_map)
  qed
  have gone: "hostProxy ` {t \<in> set ?l'. isReset t} = insert (hostProxy ?t) (hostProxy ` {t \<in> set ?l. isReset t})"
    unfolding reset_proxies using reset_more [OF assms(2) False] by simp
  have "host_inv ?s"
    unfolding host_inv_def
  proof (intro conjI)
    show "distinct (map hostProxy (host_object_lifetime_tracker_list ?s))" using assms(1) p by (simp add: host_inv_def)
    show "distinct (destroyed ?s)" using new assms(1) by (simp add: host_inv_def)
    show "set (destroyed ?s) = hostProxy ` {t \<in> set (host_object_lifetime_tracker_list ?s). isReset t}"
      using gone assms(1) by (simp add: host_inv_def)
    show "\<forall>p \<in> set (destroyed ?s). proxies ?s p \<in> {Some (HostObjectProxy None), Some (HostFunctionProxy None)}"
      using assms(1) destroy_proxy_empty [of x] by (auto simp: host_inv_def)
    show "\<forall>t \<in> set (host_object_lifetime_tracker_list ?s).
        hostProxy t < next_proxy ?s \<and> proxies ?s (hostProxy t) \<noteq> None \<and> objectTracker t = (\<not> isReset t)"
      using assms(1) t set_update_subset_insert [of ?l i ?u] by (auto simp: host_inv_def)
  qed
  with run p r show ?thesis by auto
qed

lemma reset_all:
  assumes "host_inv s" "i + n = length (host_object_lifetime_tracker_list s)" "\<forall>j < i. map isReset (host_object_lifetime_tracker_list s) ! j"
  shows "\<exists>s'. reset_from i n s = Inr s' \<and> host_inv s' \<and>
    map hostProxy (host_object_lifetime_tracker_list s') = map hostProxy (host_object_lifetime_tracker_list s) \<and>
    (\<forall>t \<in> set (host_object_lifetime_tracker_list s'). isReset t)"
  using assms
proof (induction n arbitrary: i s)
  case 0
  then show ?case by (auto simp: in_set_conv_nth)
next
  case (Suc n)
  have i: "i < length (host_object_lifetime_tracker_list s)" using Suc.prems(2) by simp
  obtain s1 where s1: "ResetHostObject i False s = Inr s1" "host_inv s1"
      "map hostProxy (host_object_lifetime_tracker_list s1) = map hostProxy (host_object_lifetime_tracker_list s)"
      "map isReset (host_object_lifetime_tracker_list s1) = (map isReset (host_object_lifetime_tracker_list s))[i := True]"
    using reset_once [OF Suc.prems(1) i, of False] by auto
  have l: "length (host_object_lifetime_tracker_list s1) = length (host_object_lifetime_tracker_list s)" using s1(3) by (metis length_map)
  have "\<forall>j < i + 1. map isReset (host_object_lifetime_tracker_list s1) ! j"
    using Suc.prems(3) i unfolding s1(4) by (auto simp: nth_list_update less_Suc_eq)
  with Suc.IH [of s1 "i + 1"] s1 l Suc.prems(2) show ?case by auto
qed

lemma add_tracker_inv:
  assumes "host_inv s" "new_proxy x s = (p, s1)"
  shows "host_inv s1" "host_inv (AddHostObjectLifetimeTracker p s1)"
proof -
  have d: "q < next_proxy s" if "q \<in> set (destroyed s)" for q using assms(1) that by (auto simp: host_inv_def)
  have l: "t \<in> set (host_object_lifetime_tracker_list s) \<Longrightarrow> hostProxy t \<noteq> next_proxy s" for t using assms(1) by (auto simp: host_inv_def)
  show "host_inv s1" using assms d l by (auto simp: host_inv_def new_proxy_def less_Suc_eq dest: l) blast
  then show "host_inv (AddHostObjectLifetimeTracker p s1)"
    using assms l by (auto simp: host_inv_def new_proxy_def AddHostObjectLifetimeTracker_def)
qed

lemma host_reach_inv: "host_reach s \<Longrightarrow> host_inv s"
proof (induction rule: host_reach.induct)
  case host_start
  show ?case by (simp add: host_inv_def no_host_objects_def)
next
  case (host_gc s i s')
  then have "\<not> isReset (host_object_lifetime_tracker_list s ! i)" by (auto simp: host_inv_def)
  with host_gc reset_once [of s i True] show ?case by auto
qed (auto simp: createObject_host_def createFunctionFromHostFunction_v8_def split: prod.splits dest: add_tracker_inv)


definition two_hosts :: host_objects where
  "two_hosts = snd (createFunctionFromHostFunction_v8 8 True (snd (createObject_host 7 True no_host_objects)))"


section \<open>The last unhandled rejection\<close>

text \<open>A report that V8 makes of a promise of a runtime: a rejection without a handler, or a handler that comes late.\<close>

definition rejects :: "('v, 'm) PromiseRejectMessage \<Rightarrow> bool" where
  "rejects d \<longleftrightarrow> has_runtime d \<and> event d = kPromiseRejectWithNoHandler"

definition handles :: "nat \<Rightarrow> ('v, 'm) PromiseRejectMessage \<Rightarrow> bool" where
  "handles p d \<longleftrightarrow> has_runtime d \<and> event d = kPromiseHandlerAddedAfterReject \<and> reject_promise d = p"

definition rejection_of :: "('v, 'm) PromiseRejectMessage \<Rightarrow> ('v, 'm) UnhandledPromiseRejection" where
  "rejection_of d =
     (if is_native_error d \<or> is_object d \<and> has_stack_trace d
      then \<lparr>promise = reject_promise d, message = (if is_object d then Some (created_message d) else None), rejected_value = reject_value d\<rparr>
      else \<lparr>promise = reject_promise d, message = Some (fst (manual d)), rejected_value = snd (manual d)\<rparr>)"

definition promises_after :: "('v, 'm) PromiseRejectMessage list \<Rightarrow> ('v, 'm) promise_state" where
  "promises_after ds = fold PromiseRejectCallback ds \<lparr>ignore_unhandled_promises = False, last_unhandled_promise = None\<rparr>"

lemma promises_after_snoc: "promises_after (ds @ [d]) = PromiseRejectCallback d (promises_after ds)"
  by (simp add: promises_after_def)

lemma not_ignored [simp]: "ignore_unhandled_promises (promises_after ds) = False"
  by (induction ds rule: rev_induct)
    (auto simp: promises_after_snoc PromiseRejectCallback_def SetUnhandledPromise_def RemoveUnhandledPromise_def Let_def
      promises_after_def split: option.splits)

lemma callback_step:
  "last_unhandled_promise (PromiseRejectCallback d (promises_after ds)) =
    (if rejects d then Some (rejection_of d)
     else case last_unhandled_promise (promises_after ds) of
       Some u \<Rightarrow> if handles (promise u) d then None else Some u
     | None \<Rightarrow> None)"
  by (cases "event d")
    (auto simp: PromiseRejectCallback_def SetUnhandledPromise_def RemoveUnhandledPromise_def Let_def rejects_def handles_def rejection_of_def
      split: option.splits)

text \<open>
  After any sequence of reports of V8 the runtime knows an unhandled rejection exactly when the promise
  that was rejected last has not got a handler since, and what it knows is that rejection, with an error made up for a value
  that carries no stack trace.
\<close>

theorem last_rejection:
  "last_unhandled_promise (promises_after ds) = Some u \<longleftrightarrow>
    (\<exists>xs d ys. ds = xs @ d # ys \<and> rejects d \<and> u = rejection_of d \<and> (\<forall>e \<in> set ys. \<not> rejects e \<and> \<not> handles (promise u) e))"
proof (induction ds arbitrary: u rule: rev_induct)
  case Nil
  show ?case by (simp add: promises_after_def)
next
  case (snoc e ds)
  show ?case
  proof (cases "rejects e")
    case True
    have "d = e" if "ds @ [e] = xs @ d # ys" "\<forall>x \<in> set ys. \<not> rejects x" for xs d ys
      using that True by (cases ys rule: rev_cases) auto
    then show ?thesis unfolding promises_after_snoc callback_step using True by (auto intro: exI [of _ ds] exI [of _ e] exI [of _ "[]"])
  next
    case False
    have "last_unhandled_promise (promises_after (ds @ [e])) = Some u \<longleftrightarrow>
        last_unhandled_promise (promises_after ds) = Some u \<and> \<not> handles (promise u) e"
      unfolding promises_after_snoc callback_step using False by (auto split: option.splits)
    also have "\<dots> \<longleftrightarrow> (\<exists>xs d ys. ds = xs @ d # ys \<and> rejects d \<and> u = rejection_of d \<and>
        (\<forall>x \<in> set (ys @ [e]). \<not> rejects x \<and> \<not> handles (promise u) x))"
      unfolding snoc.IH using False by auto
    also have "\<dots> \<longleftrightarrow> (\<exists>xs d ys. ds @ [e] = xs @ d # ys \<and> rejects d \<and> u = rejection_of d \<and>
        (\<forall>x \<in> set ys. \<not> rejects x \<and> \<not> handles (promise u) x))"
    proof safe
      fix xs d ys
      assume "ds @ [e] = xs @ d # ys" "rejects d" "\<forall>x \<in> set ys. \<not> rejects x \<and> \<not> handles (promise (rejection_of d)) x"
      then show "\<exists>xs' d' ys'. ds = xs' @ d' # ys' \<and> rejects d' \<and> rejection_of d = rejection_of d' \<and>
          (\<forall>x \<in> set (ys' @ [e]). \<not> rejects x \<and> \<not> handles (promise (rejection_of d)) x)"
        using False by (cases ys rule: rev_cases) auto
    qed (metis append.assoc append_Cons)
    finally show ?thesis .
  qed
qed

text \<open>Reports of a rejected promise, and of a handler that is added to it.\<close>

definition reject_report :: "nat \<Rightarrow> (nat, nat) PromiseRejectMessage" where
  "reject_report p = \<lparr>event = kPromiseRejectWithNoHandler, reject_promise = p, has_runtime = True, reject_value = 5, is_object = False,
     is_native_error = False, created_message = 0, has_stack_trace = False, manual = (1, 2)\<rparr>"

definition handle_report :: "nat \<Rightarrow> (nat, nat) PromiseRejectMessage" where
  "handle_report p = (reject_report p)\<lparr>event := kPromiseHandlerAddedAfterReject\<rparr>"

theorem last_rejection_witness:
  "last_unhandled_promise (promises_after [reject_report 3, handle_report 4]) = Some \<lparr>promise = 3, message = Some 1, rejected_value = 2\<rparr>"
proof -
  have "\<exists>xs d ys. [reject_report 3, handle_report 4] = xs @ d # ys \<and> rejects d \<and>
      \<lparr>promise = 3, message = Some 1, rejected_value = 2\<rparr> = rejection_of d \<and>
      (\<forall>e \<in> set ys. \<not> rejects e \<and> \<not> handles (promise \<lparr>promise = 3, message = Some 1, rejected_value = (2::nat)\<rparr>) e)"
    by (intro exI [of _ "[]"] exI [of _ "reject_report 3"] exI [of _ "[handle_report 4]"])
      (simp add: reject_report_def handle_report_def rejects_def handles_def rejection_of_def)
  then show ?thesis unfolding last_rejection .
qed

text \<open>
  Only the last rejection is kept. When two promises are rejected and the second one gets a handler, the runtime reports
  no unhandled rejection although the first one has none, and asking the Node-API for the rejection then
  dereferences a null pointer.
\<close>

theorem rejection_forgotten:
  assumes "rejects d1" "rejects d2" "handles (reject_promise d2) e"
  shows "\<not> HasUnhandledPromiseRejection (promises_after [d1, d2, e]) \<and>
    getAndClearLastUnhandledPromiseRejection (promises_after [d1, d2, e]) = Inl NullDeref"
proof -
  have p: "promise (rejection_of d2) = reject_promise d2" "\<not> rejects e" using assms(3) by (auto simp: rejection_of_def handles_def rejects_def)
  have "last_unhandled_promise (promises_after [d1, d2]) = Some (rejection_of d2)"
    using promises_after_snoc [of "[d1]" d2] assms(2) by (simp add: callback_step)
  then have "last_unhandled_promise (promises_after [d1, d2, e]) = None"
    using promises_after_snoc [of "[d1, d2]" e] assms(3) p by (simp add: callback_step)
  then show ?thesis
    by (simp add: HasUnhandledPromiseRejection_def getAndClearLastUnhandledPromiseRejection_def GetAndClearLastUnhandledPromiseRejection_def)
qed

theorem rejection_forgotten_witness:
  "getAndClearLastUnhandledPromiseRejection (promises_after [reject_report 1, reject_report 2, handle_report 2]) = Inl NullDeref"
  using rejection_forgotten [of "reject_report 1" "reject_report 2" "handle_report 2"]
  by (simp add: reject_report_def handle_report_def rejects_def handles_def)

section \<open>Exceptions of the host\<close>

text \<open>
  A C++ exception that host code throws reaches JavaScript as an exception and never unwinds V8 when a property is
  read or written or a host function is called, but the enumeration of the properties of a host object lets it through.
\<close>

theorem host_exceptions:
  assumes "\<And>text. fits text"
  shows "(\<forall>get. \<exists>v exc. GetInternal fits u (Some (Some h)) get = Inr (v, exc) \<and>
      (if \<exists>x. get h = HostReturns x then get h = HostReturns v \<and> exc = None else v = u \<and> exc \<noteq> None)) \<and>
    (\<forall>put. \<exists>exc. SetInternal fits (Some (Some h)) put = Inr ((), exc) \<and> (exc = None \<longleftrightarrow> (\<exists>x. put h = HostReturns x))) \<and>
    (\<forall>run. \<exists>v exc. HostFunctionProxy_call fits u f run = Inr (v, exc) \<and> (exc = None \<longleftrightarrow> f = None \<or> (\<exists>x. run (the f) = HostReturns x))) \<and>
    (\<forall>names. Enumerator (Some (Some h)) names = Inl CxxException \<longleftrightarrow> \<not> (\<exists>x. names h = HostReturns x))"
proof (intro conjI allI)
  note d = throw_text_def assms check_def
  show "\<exists>v exc. GetInternal fits u (Some (Some h)) get = Inr (v, exc) \<and>
      (if \<exists>x. get h = HostReturns x then get h = HostReturns v \<and> exc = None else v = u \<and> exc \<noteq> None)" for get
    by (cases "get h") (simp_all add: GetInternal_def GetHostObjectProxy_def d)
  show "\<exists>exc. SetInternal fits (Some (Some h)) put = Inr ((), exc) \<and> (exc = None \<longleftrightarrow> (\<exists>x. put h = HostReturns x))" for put
    by (cases "put h") (simp_all add: SetInternal_def GetHostObjectProxy_def d)
  show "\<exists>v exc. HostFunctionProxy_call fits u f run = Inr (v, exc) \<and> (exc = None \<longleftrightarrow> f = None \<or> (\<exists>x. run (the f) = HostReturns x))" for run
    by (cases f; cases "run (the f)") (simp_all add: HostFunctionProxy_call_def d)
  show "Enumerator (Some (Some h)) names = Inl CxxException \<longleftrightarrow> \<not> (\<exists>x. names h = HostReturns x)" for names
    by (cases "names h") (simp_all add: Enumerator_def)
qed

theorem host_exceptions_witness:
  "Enumerator (Some (Some 1)) (\<lambda>h. HostThrowsOther :: nat list host_result) = Inl CxxException \<and>
   (\<exists>v exc. GetInternal (\<lambda>_. True) (0 :: nat) (Some (Some 1)) (\<lambda>h. HostThrowsStd ''e'') = Inr (v, exc) \<and> v = 0 \<and> exc \<noteq> None)"
  using host_exceptions [of "\<lambda>_. True" "0 :: nat" 1 None] by (auto dest: spec [of _ "\<lambda>h. HostThrowsStd ''e''"])

end
