(* ===== verification/Spec2Isabelle.thy ===== *)
theory Spec2Isabelle
  imports Murmur_Hash Inspector_Server Inspector_Tcp Ref_Tracker Napi_Api Napi_Runtime Jsi_Keys Jsi_Raising V8_Scripts V8_Lifetimes
begin

text \<open>
  A verification of V8-JSI, the JavaScript runtime that embeds V8 behind the interfaces JSI and Node-API.

  \<^bold>\<open>The program.\<close> Under \<^verbatim>\<open>src/src/\<close> the code has four parts and a server beside them. The Node-API
  (\<^verbatim>\<open>node-api/js_native_api_v8.cc\<close>, \<^verbatim>\<open>js_native_api_v8.h\<close>, \<^verbatim>\<open>v8_api.cpp\<close>) is a C interface to V8: an environment with an error
  state, references, finalizers, handle scopes, and some hundred and forty functions. The JSI runtime
  (\<^verbatim>\<open>node-api-jsi/NodeApiJsiRuntime.cpp\<close>) implements the C++ interface \<^verbatim>\<open>jsi::Runtime\<close> by calls of the Node-API: counted
  pointers, scopes, C++ exceptions for JavaScript exceptions, host functions and host objects. The JSI library
  (\<^verbatim>\<open>jsi/jsi.cpp\<close>, \<^verbatim>\<open>jsi/jsi-inl.h\<close>) stands between the runtime and its client: ownership of values, checked conversions and
  the construction of errors. The runtime calls the library while it raises an error, and the library calls the runtime.
  The V8 runtime (\<^verbatim>\<open>V8JsiRuntime.cpp\<close>, \<^verbatim>\<open>V8JsiRuntime_impl.h\<close>) owns the isolate and the context under the Node-API, runs scripts, and
  implements \<^verbatim>\<open>jsi::Runtime\<close> a second time, directly on V8.
  The inspector (\<^verbatim>\<open>inspector/\<close>) serves the debugger protocol over HTTP and WebSocket: a server with sessions, an
  agent per isolate that hands the messages to V8, and the codecs below them. \<^verbatim>\<open>MurmurHash.cpp\<close> keys the script cache.

  \<^bold>\<open>Shape of the model.\<close> A component's state is a record and an operation a function on it; \<^verbatim>\<open>size_t\<close> and the other
  machine integers are words where their arithmetic can wrap. Behaviour outside the language (a read
  or store outside a buffer, the use of a deleted object), a failed check, an exception that leaves a \<^verbatim>\<open>noexcept\<close>
  function are values of the type \<open>fault\<close> of \<open>Prelude\<close>, the left summand of every result, so that a theorem with a
  result on the right says that the code runs without them. Loops are recursive functions. Code that is not part of
  the repository is a parameter: V8 is the record \<open>v8\<close> of operations on the environment (\<open>Napi_Env\<close>), the user's callbacks
  the record \<open>user\<close>, the host functions of JSI the type \<open>host\<close>, and what they do to the runtime in between the
  function \<open>reenter\<close>; the HTTP parser is its sequence of callbacks, the operating system's UTF-8 decoder a function.

  \<^bold>\<open>Theories, from the bottom.\<close>
  \<^item> \<open>Prelude\<close>: integer types, faults, checked access, strings and bytes. \<open>Std_Containers\<close>: \<^verbatim>\<open>std::map\<close> as a sorted
    list, with the locale \<open>dict\<close>.
  \<^item> \<open>Inspector_Utils\<close>, \<open>Sha1\<close>, \<open>Murmur_Hash\<close>: \<^verbatim>\<open>inspector_utils.cpp\<close>, \<^verbatim>\<open>inspector_utils.h\<close>, \<^verbatim>\<open>MurmurHash.cpp\<close>. The UTF-16
    conversion writes the UTF-8 encoding inside its buffer; SHA-1 equals its FIPS definition for any split of the
    message; the ASCII flag of the hash is exact (lengths below two to the 31).
  \<^item> \<open>Ws_Frames\<close>, \<open>Inspector_Http\<close>: \<^verbatim>\<open>inspector_socket.cpp\<close> and the answers of \<^verbatim>\<open>inspector_socket_server.cpp\<close>. The decoder accepts
    every complete client frame and consumes exactly its bytes; on certain incomplete ones it reads outside the buffer.
    The encoder is readable by RFC 6455. Host check, header collection, handshake.
  \<^item> \<open>Inspector_Tcp\<close>: the write queue of \<^verbatim>\<open>inspector_tcp.cpp\<close> and the locale \<open>ordered_writer\<close>, which it and the agent's
    outgoing queue interpret.
  \<^item> \<open>Inspector_Agent\<close>, \<open>Inspector_Server\<close>: \<^verbatim>\<open>inspector_agent.cpp\<close>, \<^verbatim>\<open>inspector_socket_server.cpp\<close>. The agent's dispatch
    loop; sessions, targets, upgrade and the end of a session as steps of a world of server, sockets and agents
    (\<open>server_step\<close>), with an invariant of all reachable worlds.
  \<^item> \<open>Ref_Tracker\<close>: the doubly linked lists of trackers as a pointer store, a refinement of lists (locale \<open>tracked_lists\<close>).
  \<^item> \<open>Napi_Env\<close>, \<open>Napi_Contract\<close>: the environment, the guard macros as combinators of the same names, error reporting, and
    the rules for the contract of a Node-API function.
  \<^item> \<open>Napi_Refs\<close>, \<open>Napi_Lifecycle\<close>: references, finalizers, instance data, handle scopes, teardown (\<^verbatim>\<open>NodeApiEnv::DeleteMe\<close>).
    A finalizer runs at most once in every reachable state; teardown ends and runs exactly those that are owed.
  \<^item> \<open>Napi_Values\<close>, \<open>Napi_Objects\<close>: one definition per exported function. \<open>Napi_Api\<close>: every function of the families
    \<open>nogc_call\<close>, \<open>guarded_call\<close> and \<open>preamble_call\<close> keeps the contract. \<open>Napi_Data\<close>: buffers, type tags, wrapping.
  \<^item> \<open>Napi_Runtime\<close>: configuration and the scopes by which threads enter an environment, a refinement of a stack.
  \<^item> \<open>Jsi_BigInt\<close>, \<open>Jsi_Keys\<close>: printing of big integers, array indices and own keys of host objects.
  \<^item> \<open>Jsi_Pointers\<close>, \<open>Jsi_Pointer_Safety\<close>: counted pointers, their scopes and deletion queue, with the memory-safety
    invariant of all reachable states; they rely on the references of the environment through the locale \<open>reference_cells\<close>.
  \<^item> \<open>Jsi_Calls\<close>, \<open>Jsi_Runtime\<close>: the helpers around single functions of the Node-API, conversion of values,
    \<^verbatim>\<open>throwJSException\<close>, and the methods, callbacks and traps. \<open>Jsi_Contract\<close>: the contract \<open>tidy\<close> (\<open>neat\<close> where no handle is
    added) and its rules. \<open>Jsi_Host\<close>: the contract of the methods, of the callbacks from JavaScript, and of conversion.
  \<^item> \<open>Jsi_Utf\<close>, \<open>Jsi_Library\<close>: the JSI library. \<open>Jsi_Errors\<close>: every operation of runtime and library is tidy.
    \<open>Jsi_Raising\<close>: the mutual recursion of \<^verbatim>\<open>throwJSException\<close>, the methods and \<^verbatim>\<open>jsi::JSError\<close> is exactly its finite unfolding;
    texts of errors.
  \<^item> \<open>V8_Scripts\<close>: scripts with the cache of compiled code, prepared scripts, and the error thrown for an exception.
    \<open>V8_Lifetimes\<close>: the platform, the isolate that the runtimes of a thread share, host objects and functions with their proxies, the
    last unhandled rejection. Invariants of all reachable states; the order of deletion does not matter.

  \<^bold>\<open>Hypotheses.\<close> Each states documented behaviour of a parameter and holds for a concrete instance in a witness.
  On V8: \<open>engine_ok\<close> (an operation leaves the \<^verbatim>\<open>TryCatch\<close> scopes and the pending exception of its callers alone, and one
  that throws has no result), \<open>engine_keeps_refs\<close> (the engine deletes no references), \<open>string_write_ok\<close> (writing a string stays in
  the capacity it is given), \<open>slots_ok\<close>, \<open>bigints_ok\<close>, \<open>externals_ok\<close> (private properties, big integers and externals
  return what was stored), \<open>v8_ok\<close> (a protocol message does not touch the agent's connection state). On the embedder:
  \<open>store_ok\<close> (a store of scripts keeps what it is given). On user code:
  \<open>user_ok\<close> (a finalizer acts on the environment by calls of the API only), \<open>user_calm\<close> (it leaves no exception behind),
  \<open>host_ok\<close> and \<open>host_tidy\<close> (host functions restore the scopes they open). The completeness of teardown is shown for finalizers
  that make no calls of the API (\<open>silent\<close>).
  \<open>library_ok\<close> is proved of the model of the library.

  \<^bold>\<open>Bounds and fuel.\<close> The digit loop of big integers takes fuel: 64 rounds are proved enough for one word; some
  wider numbers are proved to end for no fuel, which is a defect of the code. The loops of teardown and of
  the finalizer queue take the number of trackers, proved enough. The pause and dispatch loops of the agent take fuel;
  dispatching is proved to end with fuel two for a well-formed queue, and a nested pause to end for no fuel.
  \<^verbatim>\<open>throwJSException\<close> is unfolded twice, which \<open>raising_unfolds\<close> proves complete. The loop of the UTF-8 decoder has a
  termination proof.

  \<^bold>\<open>Defects.\<close> The theorems that end in \<open>_overreads\<close>, \<open>_lost\<close>, \<open>_aborts\<close>, \<open>_wraps\<close>, \<open>_after_free\<close>, \<open>_crashes\<close>, \<open>_wide\<close>,
  \<open>_never_ends\<close>, \<open>_hides_message\<close>, \<open>_never_stores\<close>, \<open>_no_data\<close> and \<open>_forgotten\<close> prove what the code does where it does not do what it means to.

  \<^bold>\<open>Left out.\<close> \<^verbatim>\<open>napi_create_dataview\<close> and the two functions that close handle scopes are modelled but
  return statuses without recording them, so they are not in the families of the contract; nor are the
  functions that throw, whose purpose is to leave an exception pending. Debug assertions of the JSI
  library are not modelled.

  \<^bold>\<open>Not modelled.\<close> of \<^verbatim>\<open>V8JsiRuntime.cpp\<close> the methods of JSI on V8 handles, each of which is a
  call of V8 or two; its printing of big integers is the one of the Node-API runtime. \<^verbatim>\<open>llhttp.c\<close>: a generated parser. \<^verbatim>\<open>V8Instrumentation.cpp\<close> and \<^verbatim>\<open>etw/\<close>: statistics and tracing.
  \<^verbatim>\<open>JSIDynamic.cpp\<close> and \<^verbatim>\<open>jsilib\<close>: conversion to a library that is not in the repository, and loading of files. Of the JSI
  runtime: the methods for prepared scripts, microtasks, descriptions and instrumentation, which forward to the extension of the Node-API;
  \<^verbatim>\<open>createArrayBuffer\<close>, whose memory belongs to the client; the calls by which the trap for own keys collects the names
  (their selection and order is modelled). Of the JSI library: the map of runtime data, default bodies that this runtime
  overrides, scopes. Of the inspector: the acceptor loop of asio, the wrapping of the console, the generation of
  identifiers. Of \<^verbatim>\<open>v8_api.cpp\<close>: adapters of the task runner and of the script cache.
\<close>

end
